(* ===== verification/Prelude.thy ===== *)
theory Prelude
  imports Main "HOL-Library.Word"
begin

text \<open>
  What every component of the development shares: Rust's \<open>Result\<close>, the machine integers,
  checked arithmetic on them, and generic lemmas on lists.

  Conventions. A Rust \<open>u64\<close> is a \<open>64 word\<close>, a \<open>u8\<close> an \<open>8 word\<close>. A \<open>usize\<close> is a natural
  number below \<open>usize_limit\<close> (a 64-bit platform); the length of a slice is the length of the
  list that models it, so that the conversions \<open>u64::try_from(len)\<close> of the source stay
  fallible. Bytes that the code reads as text are HOL characters, which are 8-bit bytes.
\<close>

named_theorems checked_simps "characterisations of the checked machine operations"

section \<open>Rust results\<close>

datatype ('a, 'e) result = is_ok: Ok (ok_of: 'a) | Err (err_of: 'e)

definition and_then :: "('a, 'e) result \<Rightarrow> ('a \<Rightarrow> ('b, 'e) result) \<Rightarrow> ('b, 'e) result" where
  "and_then r f = (case r of Ok a \<Rightarrow> f a | Err e \<Rightarrow> Err e)"

definition ok_or :: "'a option \<Rightarrow> 'e \<Rightarrow> ('a, 'e) result" where
  "ok_or x e = (case x of Some a \<Rightarrow> Ok a | None \<Rightarrow> Err e)"

definition map_err :: "('e \<Rightarrow> 'f) \<Rightarrow> ('a, 'e) result \<Rightarrow> ('a, 'f) result" where
  "map_err f r = (case r of Ok a \<Rightarrow> Ok a | Err e \<Rightarrow> Err (f e))"

lemma and_then_simps [simp]:
  "and_then (Ok a) f = f a"
  "and_then (Err e) f = Err e"
  by (simp_all add: and_then_def)

lemma and_then_eq_Ok: "and_then r f = Ok b \<longleftrightarrow> (\<exists>a. r = Ok a \<and> f a = Ok b)"
  by (cases r) auto

lemma and_then_eq_Err: "and_then r f = Err e \<longleftrightarrow> r = Err e \<or> (\<exists>a. r = Ok a \<and> f a = Err e)"
  by (cases r) auto

lemma ok_or_simps [simp]:
  "ok_or (Some a) e = Ok a"
  "ok_or None e = Err e"
  by (simp_all add: ok_or_def)

lemma ok_or_eq_Ok [simp]: "ok_or x e = Ok a \<longleftrightarrow> x = Some a"
  by (cases x) auto

lemma map_err_simps [simp]:
  "map_err f (Ok a) = Ok a"
  "map_err f (Err e) = Err (f e)"
  by (simp_all add: map_err_def)

lemma case_unit_any [simp]: "(case u of () \<Rightarrow> x) = x"
  by (simp split: unit.split)

lemma not_is_ok: "\<not> is_ok r \<longleftrightarrow> (\<exists>e. r = Err e)"
  by (cases r) auto

section \<open>Machine integers\<close>

type_synonym u8 = "8 word"
type_synonym u16 = "16 word"
type_synonym u32 = "32 word"
type_synonym u64 = "64 word"

definition checked_add :: "'a::len word \<Rightarrow> 'a word \<Rightarrow> 'a word option" where
  "checked_add x y = (if unat x + unat y < 2 ^ LENGTH('a) then Some (x + y) else None)"

definition checked_sub :: "'a::len word \<Rightarrow> 'a word \<Rightarrow> 'a word option" where
  "checked_sub x y = (if y \<le> x then Some (x - y) else None)"

lemma checked_add_Some [checked_simps]:
  "checked_add x y = Some z \<longleftrightarrow> unat z = unat x + unat y"
proof
  assume "checked_add x y = Some z"
  then show "unat z = unat x + unat y"
    by (auto simp: checked_add_def unat_word_ariths split: if_splits)
next
  assume z: "unat z = unat x + unat y"
  have "unat z < 2 ^ LENGTH('a)" by (rule unsigned_less)
  with z have "unat (x + y) = unat z" by (simp add: unat_word_ariths)
  with z \<open>unat z < 2 ^ LENGTH('a)\<close> show "checked_add x y = Some z"
    by (simp add: checked_add_def word_unat_eq_iff)
qed

lemma checked_add_None [checked_simps]:
  "checked_add (x :: 'a::len word) y = None \<longleftrightarrow> 2 ^ LENGTH('a) \<le> unat x + unat y"
  by (simp add: checked_add_def not_less)

lemma checked_sub_Some [checked_simps]:
  "checked_sub x y = Some z \<longleftrightarrow> unat x = unat y + unat z"
proof
  assume "checked_sub x y = Some z"
  then show "unat x = unat y + unat z"
    by (auto simp: checked_sub_def unat_sub word_le_nat_alt split: if_splits)
next
  assume x: "unat x = unat y + unat z"
  then have le: "y \<le> x" by (simp add: word_le_nat_alt)
  with x have "unat (x - y) = unat z" by (simp add: unat_sub word_le_nat_alt)
  with le show "checked_sub x y = Some z"
    by (simp add: checked_sub_def word_unat_eq_iff)
qed

definition saturating_add :: "'a::len word \<Rightarrow> 'a word \<Rightarrow> 'a word" where
  "saturating_add x y = (if unat x + unat y < 2 ^ LENGTH('a) then x + y else - 1)"

lemma unat_saturating_add:
  "unat (saturating_add x y) = min (unat x + unat y) (2 ^ LENGTH('a) - 1)" for x :: "'a::len word"
  using unsigned_less [of x, where 'a = nat] unsigned_less [of y, where 'a = nat]
  by (auto simp: saturating_add_def unat_word_ariths unsigned_minus_1_eq_mask mask_eq_exp_minus_1)

definition saturating_sub :: "'a::len word \<Rightarrow> 'a word \<Rightarrow> 'a word" where
  "saturating_sub x y = (if y \<le> x then x - y else 0)"

lemma unat_saturating_sub: "unat (saturating_sub x y) = unat x - unat y"
  by (auto simp: saturating_sub_def word_le_nat_alt unat_sub)

definition saturating_mul :: "'a::len word \<Rightarrow> 'a word \<Rightarrow> 'a word" where
  "saturating_mul x y = (if unat x * unat y < 2 ^ LENGTH('a) then x * y else - 1)"

text \<open>\<open>u64::try_from(len).unwrap_or(u64::MAX)\<close>.\<close>

definition u64_of_len_or_max :: "nat \<Rightarrow> u64" where
  "u64_of_len_or_max n = (if n < 2 ^ 64 then of_nat n else - 1)"

lemma unat_u64_of_len_or_max: "unat (u64_of_len_or_max n) = min n (2 ^ 64 - 1)"
  by (auto simp: u64_of_len_or_max_def unat_of_nat unsigned_minus_1_eq_mask mask_eq_exp_minus_1)

definition usize_limit :: nat where
  "usize_limit = 2 ^ 64"

definition usize_checked_add :: "nat \<Rightarrow> nat \<Rightarrow> nat option" where
  "usize_checked_add m n = (if m + n < usize_limit then Some (m + n) else None)"

definition usize_saturating_add :: "nat \<Rightarrow> nat \<Rightarrow> nat" where
  "usize_saturating_add m n = min (m + n) (usize_limit - 1)"

lemma usize_checked_add_Some [checked_simps]:
  "usize_checked_add m n = Some k \<longleftrightarrow> k = m + n \<and> k < usize_limit"
  by (auto simp: usize_checked_add_def)

lemma usize_checked_add_None [checked_simps]:
  "usize_checked_add m n = None \<longleftrightarrow> usize_limit \<le> m + n"
  by (simp add: usize_checked_add_def not_less)

text \<open>\<open>u64::try_from\<close> and \<open>u32::try_from\<close> of a length.\<close>

definition u64_of_len :: "nat \<Rightarrow> u64 option" where
  "u64_of_len n = (if n < 2 ^ 64 then Some (of_nat n) else None)"

definition u32_of_u64 :: "u64 \<Rightarrow> u32 option" where
  "u32_of_u64 n = (if unat n < 2 ^ 32 then Some (ucast n) else None)"

lemma u64_of_len_Some [checked_simps]: "u64_of_len n = Some w \<longleftrightarrow> unat w = n"
proof -
  have "unat w < 2 ^ 64" using unsigned_less [of w, where 'a = nat] by simp
  then show ?thesis
    by (auto simp: u64_of_len_def unat_of_nat)
qed

lemma u64_of_len_None [checked_simps]: "u64_of_len n = None \<longleftrightarrow> 2 ^ 64 \<le> n"
  by (simp add: u64_of_len_def not_less)

lemma u32_of_u64_Some [checked_simps]: "u32_of_u64 n = Some w \<longleftrightarrow> unat w = unat n"
proof -
  have "unat w < 2 ^ 32" using unsigned_less [of w, where 'a = nat] by simp
  then show ?thesis
    by (auto simp: u32_of_u64_def unsigned_ucast_eq take_bit_nat_eq_self_iff take_bit_nat_eq_self
        word_unat_eq_iff)
qed

lemma unat_u64_bound [simp]: "unat (w :: u64) < 18446744073709551616"
  using unsigned_less [of w, where 'a = nat] by simp

section \<open>Lists\<close>

lemma concat_snoc: "concat (xss @ [xs]) = concat xss @ xs"
  by simp

lemma sum_list_map_length_concat: "sum_list (map length xss) = length (concat xss)"
  by (simp add: length_concat)

end
