(* ===== verification/Core_Limits.thy ===== *)
theory Core_Limits
  imports Prelude
begin

text \<open>
  \<open>crates/tracepress-core/src/limits.rs\<close>: the positive resource limits, the startup
  configuration and its validation.
\<close>

section \<open>Positive limits\<close>

text \<open>
  The macro \<open>define_limit_types\<close> generates eleven newtypes over \<open>NonZeroU64\<close> with the same
  body; one type models that body, and the synonyms keep the names.
\<close>

typedef limit = "{w :: u64. w \<noteq> 0}"
  morphisms limit_get limit_from_non_zero
  by (rule exI [of _ 1]) simp

datatype limit_value_error = LimitValueError

definition limit_new :: "u64 \<Rightarrow> (limit, limit_value_error) result" where
  "limit_new value = (if value \<noteq> 0 then Ok (limit_from_non_zero value) else Err LimitValueError)"

type_synonym max_raw_bytes = limit
type_synonym max_request_body_bytes = limit
type_synonym max_response_body_bytes = limit
type_synonym max_decompressed_bytes = limit
type_synonym max_ipc_frame_bytes = limit
type_synonym max_ipc_queue_items = limit
type_synonym max_json_nesting = limit
type_synonym max_json_items = limit
type_synonym max_line_bytes = limit
type_synonym max_processing_time_ms = limit
type_synonym max_cpu_work_units = limit

lemma limit_get_nonzero [simp]: "limit_get l \<noteq> 0"
  using limit_get [of l] by simp

lemma limit_get_from_non_zero [simp]: "w \<noteq> 0 \<Longrightarrow> limit_get (limit_from_non_zero w) = w"
  by (simp add: limit_from_non_zero_inverse)

lemma limit_from_non_zero_get [simp]: "limit_from_non_zero (limit_get l) = l"
  by (rule limit_get_inverse)

lemma limit_get_pos [simp]: "0 < unat (limit_get l)"
  by (simp add: unat_gt_0)

lemma limit_eq_iff: "k = l \<longleftrightarrow> unat (limit_get k) = unat (limit_get l)"
  by (simp add: word_unat_eq_iff [symmetric] limit_get_inject)

lemma limit_new_Ok: "limit_new v = Ok l \<longleftrightarrow> limit_get l = v"
  by (auto simp: limit_new_def)

text \<open>The derived order compares the values.\<close>

instantiation limit :: linorder
begin

definition less_eq_limit :: "limit \<Rightarrow> limit \<Rightarrow> bool" where
  "less_eq_limit k l \<longleftrightarrow> limit_get k \<le> limit_get l"

definition less_limit :: "limit \<Rightarrow> limit \<Rightarrow> bool" where
  "less_limit k l \<longleftrightarrow> limit_get k < limit_get l"

instance
  by standard
    (auto simp: less_eq_limit_def less_limit_def limit_get_inject [symmetric] less_le)

end

section \<open>Startup configuration\<close>

datatype resource_limit_field =
    RawBytes | RequestBodyBytes | ResponseBodyBytes | DecompressedBytes | IpcFrameBytes
  | IpcQueueItems | JsonNesting | JsonItems | LineBytes | ProcessingTimeMs | CpuWorkUnits

text \<open>The unvalidated configuration holds \<open>i128\<close> values; they are modelled as integers.\<close>

record resource_limits_config =
  cfg_max_raw_bytes :: "int option"
  cfg_max_request_body_bytes :: "int option"
  cfg_max_response_body_bytes :: "int option"
  cfg_max_decompressed_bytes :: "int option"
  cfg_max_ipc_frame_bytes :: "int option"
  cfg_max_ipc_queue_items :: "int option"
  cfg_max_json_nesting :: "int option"
  cfg_max_json_items :: "int option"
  cfg_max_line_bytes :: "int option"
  cfg_max_processing_time_ms :: "int option"
  cfg_max_cpu_work_units :: "int option"

record resource_limits =
  rl_max_raw_bytes :: max_raw_bytes
  rl_max_request_body_bytes :: max_request_body_bytes
  rl_max_response_body_bytes :: max_response_body_bytes
  rl_max_decompressed_bytes :: max_decompressed_bytes
  rl_max_ipc_frame_bytes :: max_ipc_frame_bytes
  rl_max_ipc_queue_items :: max_ipc_queue_items
  rl_max_json_nesting :: max_json_nesting
  rl_max_json_items :: max_json_items
  rl_max_line_bytes :: max_line_bytes
  rl_max_processing_time_ms :: max_processing_time_ms
  rl_max_cpu_work_units :: max_cpu_work_units

datatype resource_limits_error =
    LimitMissing resource_limit_field
  | LimitZero resource_limit_field
  | LimitInvalid resource_limit_field int

definition u64_of_int :: "int \<Rightarrow> u64 option" where
  "u64_of_int v = (if 0 \<le> v \<and> v < 2 ^ 64 then Some (word_of_int v) else None)"

definition parse_limit ::
  "int option \<Rightarrow> resource_limit_field \<Rightarrow> (limit, resource_limits_error) result" where
  "parse_limit value field =
     and_then (ok_or value (LimitMissing field)) (\<lambda>value.
     if value = 0 then Err (LimitZero field)
     else and_then (ok_or (u64_of_int value) (LimitInvalid field value)) (\<lambda>value.
       if value \<noteq> 0 then Ok (limit_from_non_zero value) else Err (LimitZero field)))"

definition resource_limits_try_from ::
  "resource_limits_config \<Rightarrow> (resource_limits, resource_limits_error) result" where
  "resource_limits_try_from config =
     and_then (parse_limit (cfg_max_raw_bytes config) RawBytes) (\<lambda>raw.
     and_then (parse_limit (cfg_max_request_body_bytes config) RequestBodyBytes) (\<lambda>request.
     and_then (parse_limit (cfg_max_response_body_bytes config) ResponseBodyBytes) (\<lambda>response.
     and_then (parse_limit (cfg_max_decompressed_bytes config) DecompressedBytes) (\<lambda>decompressed.
     and_then (parse_limit (cfg_max_ipc_frame_bytes config) IpcFrameBytes) (\<lambda>frame.
     and_then (parse_limit (cfg_max_ipc_queue_items config) IpcQueueItems) (\<lambda>queue.
     and_then (parse_limit (cfg_max_json_nesting config) JsonNesting) (\<lambda>nesting.
     and_then (parse_limit (cfg_max_json_items config) JsonItems) (\<lambda>items.
     and_then (parse_limit (cfg_max_line_bytes config) LineBytes) (\<lambda>line.
     and_then (parse_limit (cfg_max_processing_time_ms config) ProcessingTimeMs) (\<lambda>time.
     and_then (parse_limit (cfg_max_cpu_work_units config) CpuWorkUnits) (\<lambda>work.
     Ok \<lparr>rl_max_raw_bytes = raw, rl_max_request_body_bytes = request,
         rl_max_response_body_bytes = response, rl_max_decompressed_bytes = decompressed,
         rl_max_ipc_frame_bytes = frame, rl_max_ipc_queue_items = queue,
         rl_max_json_nesting = nesting, rl_max_json_items = items, rl_max_line_bytes = line,
         rl_max_processing_time_ms = time, rl_max_cpu_work_units = work\<rparr>)))))))))))"

section \<open>Validation accepts exactly the complete positive configurations\<close>

text \<open>The configuration and the validated limits as lists, in the order of the fields.\<close>

definition config_fields :: "resource_limits_config \<Rightarrow> (int option \<times> resource_limit_field) list" where
  "config_fields c =
     [(cfg_max_raw_bytes c, RawBytes), (cfg_max_request_body_bytes c, RequestBodyBytes),
      (cfg_max_response_body_bytes c, ResponseBodyBytes),
      (cfg_max_decompressed_bytes c, DecompressedBytes),
      (cfg_max_ipc_frame_bytes c, IpcFrameBytes), (cfg_max_ipc_queue_items c, IpcQueueItems),
      (cfg_max_json_nesting c, JsonNesting), (cfg_max_json_items c, JsonItems),
      (cfg_max_line_bytes c, LineBytes), (cfg_max_processing_time_ms c, ProcessingTimeMs),
      (cfg_max_cpu_work_units c, CpuWorkUnits)]"

definition limit_values :: "resource_limits \<Rightarrow> limit list" where
  "limit_values r =
     [rl_max_raw_bytes r, rl_max_request_body_bytes r, rl_max_response_body_bytes r,
      rl_max_decompressed_bytes r, rl_max_ipc_frame_bytes r, rl_max_ipc_queue_items r,
      rl_max_json_nesting r, rl_max_json_items r, rl_max_line_bytes r,
      rl_max_processing_time_ms r, rl_max_cpu_work_units r]"

definition limit_fault :: "int option \<times> resource_limit_field \<Rightarrow> resource_limits_error option" where
  "limit_fault entry = (case entry of
       (None, field) \<Rightarrow> Some (LimitMissing field)
     | (Some v, field) \<Rightarrow>
         (if v = 0 then Some (LimitZero field)
          else if v < 0 \<or> 2 ^ 64 \<le> v then Some (LimitInvalid field v) else None))"

fun first_some :: "'a option list \<Rightarrow> 'a option" where
  "first_some [] = None"
| "first_some (None # xs) = first_some xs"
| "first_some (Some x # xs) = Some x"

lemma uint_u64_of_int: "u64_of_int v = Some w \<Longrightarrow> uint w = v"
  by (auto simp: u64_of_int_def uint_word_of_int split: if_splits)

lemma u64_of_int_None: "u64_of_int v = None \<longleftrightarrow> v < 0 \<or> 2 ^ 64 \<le> v"
  by (auto simp: u64_of_int_def)

lemma u64_of_int_nonzero: "u64_of_int v = Some w \<Longrightarrow> v \<noteq> 0 \<Longrightarrow> w \<noteq> 0"
  by (auto dest: uint_u64_of_int)

lemma word_of_int_u64_eq_0:
  "\<not> v < 0 \<Longrightarrow> \<not> 18446744073709551616 \<le> v \<Longrightarrow> (word_of_int v :: u64) = 0 \<longleftrightarrow> v = 0"
  by (auto simp: word_uint_eq_iff uint_word_of_int)

lemma parse_limit_Err: "parse_limit v f = Err e \<longleftrightarrow> limit_fault (v, f) = Some e"
  by (cases v)
    (auto simp: parse_limit_def limit_fault_def ok_or_def u64_of_int_def word_of_int_u64_eq_0
      split: option.splits if_splits)

lemma parse_limit_Ok:
  "parse_limit v f = Ok l \<longleftrightarrow> limit_fault (v, f) = None \<and> v = Some (uint (limit_get l))"
proof (cases "parse_limit v f")
  case (Err e)
  then show ?thesis using parse_limit_Err [of v f e] by simp
next
  case (Ok k)
  then obtain n w where n: "v = Some n" "n \<noteq> 0" "u64_of_int n = Some w" "k = limit_from_non_zero w"
    by (auto simp: parse_limit_def and_then_eq_Ok split: if_splits)
  then have k: "uint (limit_get k) = n" by (simp add: uint_u64_of_int u64_of_int_nonzero)
  have "limit_fault (v, f) = None" using Ok parse_limit_Err [of v f] by (cases "limit_fault (v, f)") auto
  with Ok n(1) k show ?thesis by (auto simp: limit_get_inject [symmetric] word_uint_eq_iff)
qed

text \<open>
  C24. Startup validation is complete and fails in field order: it returns the error of the
  first field that is missing, zero or outside \<open>u64\<close>, and otherwise every validated limit is
  positive and equal to the configured value.
\<close>

theorem resource_limits_validation:
  "case resource_limits_try_from c of
     Err e \<Rightarrow> first_some (map limit_fault (config_fields c)) = Some e
   | Ok r \<Rightarrow> first_some (map limit_fault (config_fields c)) = None \<and>
       map fst (config_fields c) = map (\<lambda>l. Some (uint (limit_get l))) (limit_values r)"
proof (cases "resource_limits_try_from c")
  case (Ok r)
  then have "first_some (map limit_fault (config_fields c)) = None \<and>
      map fst (config_fields c) = map (\<lambda>l. Some (uint (limit_get l))) (limit_values r)"
    unfolding resource_limits_try_from_def and_then_eq_Ok parse_limit_Ok
    by (auto simp: config_fields_def limit_values_def)
  with Ok show ?thesis by simp
next
  case (Err e)
  then have "first_some (map limit_fault (config_fields c)) = Some e"
    unfolding resource_limits_try_from_def and_then_eq_Err parse_limit_Err parse_limit_Ok
    by (auto simp: config_fields_def)
  with Err show ?thesis by simp
qed

end
