(* ===== verification/Core_Bytes.thy ===== *)
theory Core_Bytes
  imports Core_Limits
begin

text \<open>
  \<open>crates/tracepress-core/src/byte_boundary.rs\<close>: decisions over borrowed opaque bytes. A
  decision carries the bytes it borrowed, so that "unchanged" is a statement about its value.
\<close>

section \<open>Decisions and errors\<close>

datatype byte_resource =
  RawInput | RequestBody | ResponseBody | DecompressedBody | IpcFrame | Line

record byte_limit_exceeded =
  ble_resource :: byte_resource
  ble_observed :: u64
  ble_maximum :: u64

record truncation_metadata =
  original_bytes :: u64
  retained_prefix_bytes :: u64
  omitted_bytes :: u64

datatype byte_decision =
    WithinLimit "u8 list"
  | Reject byte_limit_exceeded
  | Bypass "u8 list" byte_limit_exceeded
  | TruncateSafe "u8 list" truncation_metadata

datatype declared_length_decision =
    DeclaredWithinLimit
  | DeclaredBypass byte_limit_exceeded

datatype byte_boundary_error =
    DeclaredLengthMismatch byte_resource u64 u64
  | LengthUnrepresentable byte_resource
  | StreamAlreadyTerminated

section \<open>Classification\<close>

definition violation :: "byte_resource \<Rightarrow> u64 \<Rightarrow> u64 \<Rightarrow> byte_limit_exceeded" where
  "violation resource observed maximum =
     \<lparr>ble_resource = resource, ble_observed = observed, ble_maximum = maximum\<rparr>"

definition measured_len :: "u8 list \<Rightarrow> byte_resource \<Rightarrow> (u64, byte_boundary_error) result" where
  "measured_len bytes resource = ok_or (u64_of_len (length bytes)) (LengthUnrepresentable resource)"

definition classify_raw_bytes ::
  "u8 list \<Rightarrow> max_raw_bytes \<Rightarrow> (byte_decision, byte_boundary_error) result" where
  "classify_raw_bytes bytes maximum =
     and_then (measured_len bytes RawInput) (\<lambda>observed.
     if observed > limit_get maximum
     then Ok (Bypass bytes (violation RawInput observed (limit_get maximum)))
     else Ok (WithinLimit bytes))"

record framed_boundary =
  fb_maximum :: u64
  fb_resource :: byte_resource

definition classify_framed_bytes ::
  "u8 list \<Rightarrow> u64 option \<Rightarrow> framed_boundary \<Rightarrow> (byte_decision, byte_boundary_error) result" where
  "classify_framed_bytes bytes declared_length boundary =
     (let received =
        and_then (measured_len bytes (fb_resource boundary)) (\<lambda>actual.
        if actual > fb_maximum boundary
        then Ok (Reject (violation (fb_resource boundary) actual (fb_maximum boundary)))
        else (case declared_length of
            Some declared \<Rightarrow>
              (if declared \<noteq> actual
               then Err (DeclaredLengthMismatch (fb_resource boundary) declared actual)
               else Ok (WithinLimit bytes))
          | None \<Rightarrow> Ok (WithinLimit bytes)))
      in case declared_length of
          Some declared \<Rightarrow>
            (if declared > fb_maximum boundary
             then Ok (Reject (violation (fb_resource boundary) declared (fb_maximum boundary)))
             else received)
        | None \<Rightarrow> received)"

definition classify_request_body ::
  "u8 list \<Rightarrow> u64 option \<Rightarrow> max_request_body_bytes \<Rightarrow> (byte_decision, byte_boundary_error) result"
  where
  "classify_request_body bytes declared_length maximum =
     classify_framed_bytes bytes declared_length
       \<lparr>fb_maximum = limit_get maximum, fb_resource = RequestBody\<rparr>"

definition classify_ipc_frame ::
  "u8 list \<Rightarrow> u64 \<Rightarrow> max_ipc_frame_bytes \<Rightarrow> (byte_decision, byte_boundary_error) result" where
  "classify_ipc_frame bytes declared_length maximum =
     classify_framed_bytes bytes (Some declared_length)
       \<lparr>fb_maximum = limit_get maximum, fb_resource = IpcFrame\<rparr>"

definition classify_decompressed_length ::
  "u64 \<Rightarrow> max_decompressed_bytes \<Rightarrow> declared_length_decision" where
  "classify_decompressed_length declared_length maximum =
     (if declared_length > limit_get maximum
      then DeclaredBypass (violation DecompressedBody declared_length (limit_get maximum))
      else DeclaredWithinLimit)"

definition classify_line_bytes ::
  "u8 list \<Rightarrow> max_line_bytes \<Rightarrow> (byte_decision, byte_boundary_error) result" where
  "classify_line_bytes bytes maximum =
     and_then (measured_len bytes Line) (\<lambda>observed.
     if observed > limit_get maximum
     then and_then (ok_or (checked_sub observed (limit_get maximum)) (LengthUnrepresentable Line))
       (\<lambda>omitted.
       Ok (TruncateSafe bytes
         \<lparr>original_bytes = observed, retained_prefix_bytes = limit_get maximum,
          omitted_bytes = omitted\<rparr>))
     else Ok (WithinLimit bytes))"

section \<open>What a decision says\<close>

lemma measured_len_Ok [simp]: "measured_len bytes r = Ok n \<longleftrightarrow> unat n = length bytes"
  by (simp add: measured_len_def checked_simps)

lemma measured_len_Err:
  "measured_len bytes r = Err e \<longleftrightarrow> 2 ^ 64 \<le> length bytes \<and> e = LengthUnrepresentable r"
  by (cases "u64_of_len (length bytes)")
    (auto simp: measured_len_def u64_of_len_None u64_of_len_def split: if_splits)

text \<open>The bytes a decision hands back, and the length the decision admits.\<close>

fun decision_bytes :: "byte_decision \<Rightarrow> u8 list option" where
  "decision_bytes (WithinLimit bytes) = Some bytes"
| "decision_bytes (Reject v) = None"
| "decision_bytes (Bypass bytes v) = Some bytes"
| "decision_bytes (TruncateSafe bytes m) = Some bytes"

lemma classify_framed_within:
  "classify_framed_bytes bytes declared b = Ok (WithinLimit bs) \<longleftrightarrow>
     bs = bytes \<and> length bytes \<le> unat (fb_maximum b) \<and>
     (\<forall>d. declared = Some d \<longrightarrow> unat d = length bytes)"
proof (cases "length bytes < 2 ^ 64")
  case True
  then obtain n where n: "measured_len bytes (fb_resource b) = Ok n"
    by (cases "measured_len bytes (fb_resource b)") (auto simp: measured_len_Err)
  then have "unat n = length bytes" by simp
  then show ?thesis
    by (cases declared)
      (auto simp: classify_framed_bytes_def n word_less_nat_alt word_unat_eq_iff Let_def)
next
  case False
  then have "measured_len bytes (fb_resource b) = Err (LengthUnrepresentable (fb_resource b))"
    by (simp add: measured_len_Err)
  moreover have "unat (fb_maximum b) < length bytes"
    by (rule less_le_trans [OF unat_u64_bound]) (use False in simp)
  ultimately show ?thesis
    by (cases declared) (auto simp: classify_framed_bytes_def Let_def)
qed

text \<open>
  A request body is admitted exactly when the received bytes fit and any declared length
  is their true length, and an admitted body is the input unchanged.
\<close>

theorem framed_admission:
  "classify_request_body bytes declared maximum = Ok (WithinLimit bs) \<longleftrightarrow>
     bs = bytes \<and> length bytes \<le> unat (limit_get maximum) \<and>
     (case declared of None \<Rightarrow> True | Some d \<Rightarrow> unat d = length bytes)"
  by (auto simp: classify_request_body_def classify_framed_within split: option.splits)

lemma classify_ipc_frame_within:
  "classify_ipc_frame bytes d maximum = Ok (WithinLimit bs) \<longleftrightarrow>
     bs = bytes \<and> length bytes \<le> unat (limit_get maximum) \<and> unat d = length bytes"
  by (auto simp: classify_ipc_frame_def classify_framed_within)

lemma classify_ipc_frame_len:
  "unat d = length bytes \<Longrightarrow> length bytes \<le> unat (limit_get maximum) \<Longrightarrow>
    classify_ipc_frame bytes d maximum = Ok (WithinLimit bytes)"
  by (simp add: classify_ipc_frame_within)

lemma classify_ipc_frame_oversize:
  "unat d = length bytes \<Longrightarrow> unat (limit_get maximum) < length bytes \<Longrightarrow>
    classify_ipc_frame bytes d maximum = Ok (Reject (violation IpcFrame d (limit_get maximum)))"
  by (simp add: classify_ipc_frame_def classify_framed_bytes_def word_less_nat_alt)

text \<open>
  A declared length above the maximum is rejected on the declaration alone: the decision
  does not depend on the received bytes.
\<close>

lemma framed_rejects_declaration:
  "limit_get maximum < d \<Longrightarrow>
    classify_request_body bytes (Some d) maximum =
      Ok (Reject (violation RequestBody d (limit_get maximum)))"
  by (simp add: classify_request_body_def classify_framed_bytes_def)

text \<open>
  Truncation of an overlong line partitions it: the retained prefix is the configured
  maximum, and retained plus omitted bytes are the length of the line, which is borrowed
  unchanged.
\<close>

theorem line_truncation_partitions:
  "classify_line_bytes bytes maximum = Ok d \<Longrightarrow>
    decision_bytes d = Some bytes \<and>
    (case d of
       WithinLimit _ \<Rightarrow> length bytes \<le> unat (limit_get maximum)
     | TruncateSafe _ m \<Rightarrow>
         unat (original_bytes m) = length bytes \<and>
         retained_prefix_bytes m = limit_get maximum \<and>
         unat (retained_prefix_bytes m) + unat (omitted_bytes m) = length bytes \<and>
         0 < unat (omitted_bytes m)
     | _ \<Rightarrow> False)"
  by (auto simp: classify_line_bytes_def and_then_eq_Ok checked_simps word_less_nat_alt
      split: if_splits)

theorem line_truncation_partitions_witness:
  "classify_line_bytes [1, 2, 3] (limit_from_non_zero 2) =
     Ok (TruncateSafe [1, 2, 3]
       \<lparr>original_bytes = 3, retained_prefix_bytes = 2, omitted_bytes = 1\<rparr>)
   \<and> decision_bytes (TruncateSafe [1, 2, 3]
       \<lparr>original_bytes = 3, retained_prefix_bytes = 2, omitted_bytes = 1\<rparr>) = Some [1, 2, 3]"
proof -
  have h: "classify_line_bytes [1, 2, 3] (limit_from_non_zero 2) =
     Ok (TruncateSafe [1, 2, 3]
       \<lparr>original_bytes = 3, retained_prefix_bytes = 2, omitted_bytes = 1\<rparr>)"
    by (simp add: classify_line_bytes_def measured_len_def u64_of_len_def checked_sub_def)
  show ?thesis using h line_truncation_partitions [OF h] by simp
qed

end
