(* ===== verification/Metering.thy ===== *)
theory Metering
  imports Prelude
begin

text \<open>
  The contract that the byte, time, work and queue counters of the code share: a charge is
  either accepted, and then the counter grows by exactly its cost, or refused, and then the
  counter is unchanged; the counter never passes its cap. The accounting structures of the
  components interpret it, and inherit the facts about whole runs proved here.
\<close>

section \<open>Running a sequence of charges\<close>

fun run_charges :: "('s \<Rightarrow> 'c \<Rightarrow> 's \<times> bool) \<Rightarrow> 's \<Rightarrow> 'c list \<Rightarrow> 's" where
  "run_charges charge s [] = s"
| "run_charges charge s (c # cs) = run_charges charge (fst (charge s c)) cs"

fun accepted_charges :: "('s \<Rightarrow> 'c \<Rightarrow> 's \<times> bool) \<Rightarrow> 's \<Rightarrow> 'c list \<Rightarrow> 'c list" where
  "accepted_charges charge s [] = []"
| "accepted_charges charge s (c # cs) =
     (if snd (charge s c) then c # accepted_charges charge (fst (charge s c)) cs
      else accepted_charges charge (fst (charge s c)) cs)"

lemma run_charges_append:
  "run_charges charge s (cs @ ds) = run_charges charge (run_charges charge s cs) ds"
  by (induction cs arbitrary: s) auto

lemma accepted_charges_append:
  "accepted_charges charge s (cs @ ds) =
     accepted_charges charge s cs @ accepted_charges charge (run_charges charge s cs) ds"
  by (induction cs arbitrary: s) auto

lemma accepted_charges_subset: "set (accepted_charges charge s cs) \<subseteq> set cs"
  by (induction cs arbitrary: s) auto

text \<open>The accept and refuse decisions of a run, and a simulation between two such machines.\<close>

fun charge_trace :: "('s \<Rightarrow> 'c \<Rightarrow> 's \<times> bool) \<Rightarrow> 's \<Rightarrow> 'c list \<Rightarrow> bool list" where
  "charge_trace charge s [] = []"
| "charge_trace charge s (c # cs) =
     snd (charge s c) # charge_trace charge (fst (charge s c)) cs"

lemma charge_simulation:
  assumes step: "\<And>s c. I s \<Longrightarrow> spec (ab s) (cab c) = (ab (fst (charge s c)), snd (charge s c))"
    and keep: "\<And>s c. I s \<Longrightarrow> I (fst (charge s c))"
    and start: "I s"
  shows "ab (run_charges charge s cs) = run_charges spec (ab s) (map cab cs) \<and>
    charge_trace charge s cs = charge_trace spec (ab s) (map cab cs)"
  using start by (induction cs arbitrary: s) (auto simp: step keep)

text \<open>The greedy admission a latching counter performs: the longest prefix that fits.\<close>

fun fitting_prefix :: "nat \<Rightarrow> ('c \<Rightarrow> nat) \<Rightarrow> 'c list \<Rightarrow> 'c list" where
  "fitting_prefix room cost [] = []"
| "fitting_prefix room cost (c # cs) =
     (if cost c \<le> room then c # fitting_prefix (room - cost c) cost cs else [])"

lemma fitting_prefix_fits: "sum_list (map cost (fitting_prefix room cost cs)) \<le> room"
proof (induction cs arbitrary: room)
  case Nil
  then show ?case by simp
next
  case (Cons c cs)
  from Cons.IH [of "room - cost c"] show ?case by auto
qed

lemma fitting_prefix_is_prefix:
  "\<exists>rest. cs = fitting_prefix room cost cs @ rest"
  by (induction cs arbitrary: room) auto

lemma fitting_prefix_all:
  "sum_list (map cost cs) \<le> room \<Longrightarrow> fitting_prefix room cost cs = cs"
  by (induction cs arbitrary: room) auto

section \<open>The contract\<close>

locale meter =
  fixes charge :: "'s \<Rightarrow> 'c \<Rightarrow> 's \<times> bool"
    and cost :: "'c \<Rightarrow> nat"
    and used :: "'s \<Rightarrow> nat"
    and cap :: "'s \<Rightarrow> nat"
  assumes accepts: "snd (charge s c) \<Longrightarrow> used (fst (charge s c)) = used s + cost c"
    and accepts_fit: "snd (charge s c) \<Longrightarrow> used s + cost c \<le> cap s"
    and refuses: "\<not> snd (charge s c) \<Longrightarrow> used (fst (charge s c)) = used s"
    and cap_fixed: "cap (fst (charge s c)) = cap s"
begin

lemma run_cap: "cap (run_charges charge s cs) = cap s"
  by (induction cs arbitrary: s) (auto simp: cap_fixed)

lemma run_used:
  "used (run_charges charge s cs) = used s + sum_list (map cost (accepted_charges charge s cs))"
  by (induction cs arbitrary: s) (auto simp: accepts refuses)

lemma step_within: "used s \<le> cap s \<Longrightarrow> used (fst (charge s c)) \<le> cap (fst (charge s c))"
  using accepts_fit [of s c] by (cases "snd (charge s c)") (auto simp: accepts refuses cap_fixed)

lemma run_within:
  "used s \<le> cap s \<Longrightarrow> used (run_charges charge s cs) \<le> cap (run_charges charge s cs)"
  by (induction cs arbitrary: s) (auto dest: step_within)

lemma run_mono: "used s \<le> used (run_charges charge s cs)"
  by (simp add: run_used)

end

text \<open>
  A counter that stops for good at its first refusal; \<open>real c\<close> says that the platform can
  present the charge \<open>c\<close> at all.
\<close>

locale latching_meter = meter +
  fixes stopped :: "'s \<Rightarrow> bool"
    and real :: "'c \<Rightarrow> bool"
  assumes stopped_refuses: "stopped s \<Longrightarrow> \<not> snd (charge s c)"
    and stopped_stays: "stopped s \<Longrightarrow> stopped (fst (charge s c))"
    and refusal_stops: "real c \<Longrightarrow> \<not> snd (charge s c) \<Longrightarrow> stopped (fst (charge s c))"
    and accept_live: "snd (charge s c) \<Longrightarrow> \<not> stopped (fst (charge s c))"
    and live_accepts: "real c \<Longrightarrow> \<not> stopped s \<Longrightarrow> used s + cost c \<le> cap s \<Longrightarrow> snd (charge s c)"
begin

lemma stopped_accepts_none: "stopped s \<Longrightarrow> accepted_charges charge s cs = []"
  by (induction cs arbitrary: s) (auto simp: stopped_refuses stopped_stays)

lemma accepted_fitting_prefix:
  "\<not> stopped s \<Longrightarrow> used s \<le> cap s \<Longrightarrow> (\<And>c. c \<in> set cs \<Longrightarrow> real c) \<Longrightarrow>
    accepted_charges charge s cs = fitting_prefix (cap s - used s) cost cs"
proof (induction cs arbitrary: s)
  case Nil
  then show ?case by simp
next
  case (Cons c cs)
  show ?case
  proof (cases "snd (charge s c)")
    case True
    with Cons.prems have "\<not> stopped (fst (charge s c))"
      and "used (fst (charge s c)) \<le> cap (fst (charge s c))"
      by (auto simp: accept_live intro: step_within)
    from Cons.IH [OF this] Cons.prems(3) True accepts_fit [OF True] show ?thesis
      by (simp add: accepts cap_fixed)
  next
    case False
    then have "stopped (fst (charge s c))" using Cons.prems(3) by (intro refusal_stops) simp_all
    moreover have "\<not> cost c \<le> cap s - used s"
      using False Cons.prems(1,2) Cons.prems(3) [of c] live_accepts [of c s]
      by (auto simp: le_diff_conv2 add.commute)
    ultimately show ?thesis using False by (simp add: stopped_accepts_none)
  qed
qed

end

end
