(* ===== verification/Core_Budgets.thy ===== *)
theory Core_Budgets
  imports Core_Bytes Metering
begin

text \<open>
  \<open>crates/tracepress-core/src/structural_budget.rs\<close> and \<open>response_stream.rs\<close>: structural
  JSON metadata, queue admission, the processing budget and the streaming response budget.
\<close>

section \<open>Structural JSON metadata and queue admission\<close>

record json_shape =
  js_nesting :: u64
  js_items :: u64

datatype json_budget_axis = Nesting | Items

datatype json_inspection_decision =
    Inspect
  | JsonBypass json_budget_axis u64 u64

definition classify_json_shape ::
  "json_shape \<Rightarrow> max_json_nesting \<Rightarrow> max_json_items \<Rightarrow> json_inspection_decision" where
  "classify_json_shape shape maximum_nesting maximum_items =
     (if js_nesting shape > limit_get maximum_nesting
      then JsonBypass Nesting (js_nesting shape) (limit_get maximum_nesting)
      else if js_items shape > limit_get maximum_items
      then JsonBypass Items (js_items shape) (limit_get maximum_items)
      else Inspect)"

datatype queue_decision =
    QueueWithinLimit u64
  | QueueReject u64 u64 u64

definition classify_ipc_queue :: "u64 \<Rightarrow> u64 \<Rightarrow> max_ipc_queue_items \<Rightarrow> queue_decision" where
  "classify_ipc_queue current_items incoming_items maximum =
     (case checked_add current_items incoming_items of
        Some total_items \<Rightarrow>
          (if total_items \<le> limit_get maximum then QueueWithinLimit total_items
           else QueueReject current_items incoming_items (limit_get maximum))
      | None \<Rightarrow> QueueReject current_items incoming_items (limit_get maximum))"

section \<open>The processing budget\<close>

record processing_charge =
  charge_elapsed_ms :: u64
  charge_work_units :: u64

datatype processing_budget_axis = Time | CpuWork

datatype processing_budget_decision =
    ProcessingContinue u64 u64
  | ProcessingExhausted processing_budget_axis u64 u64 u64

record processing_budget =
  maximum_time :: max_processing_time_ms
  maximum_work :: max_cpu_work_units
  elapsed_ms :: u64
  work_units :: u64

definition processing_budget_new ::
  "max_processing_time_ms \<Rightarrow> max_cpu_work_units \<Rightarrow> processing_budget" where
  "processing_budget_new max_time max_work =
     \<lparr>maximum_time = max_time, maximum_work = max_work, elapsed_ms = 0, work_units = 0\<rparr>"

definition exhausted_time :: "processing_budget \<Rightarrow> u64 \<Rightarrow> processing_budget_decision" where
  "exhausted_time b attempted =
     ProcessingExhausted Time (elapsed_ms b) attempted (limit_get (maximum_time b))"

definition exhausted_work :: "processing_budget \<Rightarrow> u64 \<Rightarrow> processing_budget_decision" where
  "exhausted_work b attempted =
     ProcessingExhausted CpuWork (work_units b) attempted (limit_get (maximum_work b))"

definition processing_charge_budget ::
  "processing_budget \<Rightarrow> processing_charge \<Rightarrow> processing_budget \<times> processing_budget_decision" where
  "processing_charge_budget b charge =
     (case checked_add (elapsed_ms b) (charge_elapsed_ms charge) of
        None \<Rightarrow> (b, exhausted_time b (charge_elapsed_ms charge))
      | Some next_time \<Rightarrow>
          if next_time > limit_get (maximum_time b)
          then (b, exhausted_time b (charge_elapsed_ms charge))
          else (case checked_add (work_units b) (charge_work_units charge) of
              None \<Rightarrow> (b, exhausted_work b (charge_work_units charge))
            | Some next_work \<Rightarrow>
                if next_work > limit_get (maximum_work b)
                then (b, exhausted_work b (charge_work_units charge))
                else (b\<lparr>elapsed_ms := next_time, work_units := next_work\<rparr>,
                      ProcessingContinue next_time next_work)))"

section \<open>The streaming response budget\<close>

datatype response_limit_reason = BodyLimit | CounterOverflow

datatype stream_decision =
    StreamContinue u64
  | TerminateIncomplete u64 u64 response_limit_reason

record streaming_response_budget =
  srb_maximum :: max_response_body_bytes
  srb_accepted_bytes :: u64
  srb_terminated :: bool

definition streaming_budget_new :: "max_response_body_bytes \<Rightarrow> streaming_response_budget" where
  "streaming_budget_new maximum =
     \<lparr>srb_maximum = maximum, srb_accepted_bytes = 0, srb_terminated = False\<rparr>"

definition observe_chunk ::
  "streaming_response_budget \<Rightarrow> u8 list
    \<Rightarrow> streaming_response_budget \<times> (stream_decision, byte_boundary_error) result" where
  "observe_chunk s chunk =
     (if srb_terminated s then (s, Err StreamAlreadyTerminated)
      else case u64_of_len (length chunk) of
          None \<Rightarrow> (s, Err (LengthUnrepresentable ResponseBody))
        | Some chunk_bytes \<Rightarrow>
            (case checked_add (srb_accepted_bytes s) chunk_bytes of
               None \<Rightarrow> (s\<lparr>srb_terminated := True\<rparr>,
                 Ok (TerminateIncomplete (srb_accepted_bytes s) chunk_bytes CounterOverflow))
             | Some total_bytes \<Rightarrow>
                 if total_bytes > limit_get (srb_maximum s)
                 then (s\<lparr>srb_terminated := True\<rparr>,
                   Ok (TerminateIncomplete (srb_accepted_bytes s) chunk_bytes BodyLimit))
                 else (s\<lparr>srb_accepted_bytes := total_bytes\<rparr>, Ok (StreamContinue total_bytes))))"

section \<open>The budgets as meters\<close>

fun processing_continues :: "processing_budget_decision \<Rightarrow> bool" where
  "processing_continues (ProcessingContinue t w) = True"
| "processing_continues (ProcessingExhausted a c n m) = False"

definition processing_step :: "processing_budget \<Rightarrow> processing_charge \<Rightarrow> processing_budget \<times> bool" where
  "processing_step b c = map_prod id processing_continues (processing_charge_budget b c)"

text \<open>The two axes over natural numbers, without overflow: what the budget is meant to do.\<close>

definition spec_charge :: "nat \<Rightarrow> nat \<Rightarrow> nat \<times> nat \<Rightarrow> nat \<times> nat \<Rightarrow> (nat \<times> nat) \<times> bool" where
  "spec_charge max_time max_work = (\<lambda>(t, w) (e, k).
     if t + e \<le> max_time \<and> w + k \<le> max_work then ((t + e, w + k), True) else ((t, w), False))"

definition budget_abs :: "processing_budget \<Rightarrow> nat \<times> nat" where
  "budget_abs b = (unat (elapsed_ms b), unat (work_units b))"

definition charge_abs :: "processing_charge \<Rightarrow> nat \<times> nat" where
  "charge_abs c = (unat (charge_elapsed_ms c), unat (charge_work_units c))"

lemma checked_add_over:
  fixes x y m :: "'a::len word"
  shows "checked_add x y = None \<Longrightarrow> unat m < unat x + unat y"
  by (rule less_le_trans [OF unsigned_less]) (simp add: checked_add_None)

lemmas budget_defs = processing_charge_budget_def exhausted_time_def exhausted_work_def

lemma processing_charge_refines:
  "(budget_abs (fst (processing_charge_budget b c)),
    processing_continues (snd (processing_charge_budget b c))) =
   spec_charge (unat (limit_get (maximum_time b))) (unat (limit_get (maximum_work b)))
     (budget_abs b) (charge_abs c)"
proof (cases "checked_add (elapsed_ms b) (charge_elapsed_ms c)")
  case None
  from checked_add_over [OF this] None show ?thesis
    by (auto simp: budget_defs spec_charge_def budget_abs_def charge_abs_def not_le)
next
  case (Some t)
  then have t: "unat t = unat (elapsed_ms b) + unat (charge_elapsed_ms c)"
    by (simp add: checked_simps)
  show ?thesis
  proof (cases "checked_add (work_units b) (charge_work_units c)")
    case None
    from checked_add_over [OF this] None Some t show ?thesis
      by (auto simp: budget_defs spec_charge_def budget_abs_def charge_abs_def not_le
          word_less_nat_alt)
  next
    case (Some w)
    then have "unat w = unat (work_units b) + unat (charge_work_units c)"
      by (simp add: checked_simps)
    with \<open>checked_add (elapsed_ms b) (charge_elapsed_ms c) = Some t\<close> Some t show ?thesis
      by (auto simp: budget_defs spec_charge_def budget_abs_def charge_abs_def word_less_nat_alt)
  qed
qed

lemma processing_charge_frame:
  "maximum_time (fst (processing_charge_budget b c)) = maximum_time b"
  "maximum_work (fst (processing_charge_budget b c)) = maximum_work b"
  by (auto simp: processing_charge_budget_def split: option.splits)

lemma processing_refused_unchanged:
  "\<not> processing_continues (snd (processing_charge_budget b c)) \<Longrightarrow>
    fst (processing_charge_budget b c) = b"
  by (auto simp: processing_charge_budget_def split: option.splits if_splits)

lemma processing_step_used:
  "unat (elapsed_ms (fst (processing_step b c))) =
     unat (elapsed_ms b) + (if snd (processing_step b c) then unat (charge_elapsed_ms c) else 0)"
  "unat (work_units (fst (processing_step b c))) =
     unat (work_units b) + (if snd (processing_step b c) then unat (charge_work_units c) else 0)"
  using processing_charge_refines [of b c]
  by (auto simp: processing_step_def spec_charge_def budget_abs_def charge_abs_def split: if_splits)

lemma processing_step_fits:
  "snd (processing_step b c) \<Longrightarrow>
     unat (elapsed_ms b) + unat (charge_elapsed_ms c) \<le> unat (limit_get (maximum_time b)) \<and>
     unat (work_units b) + unat (charge_work_units c) \<le> unat (limit_get (maximum_work b))"
  using processing_charge_refines [of b c]
  by (auto simp: processing_step_def spec_charge_def budget_abs_def charge_abs_def split: if_splits)

interpretation time_meter: meter processing_step "\<lambda>c. unat (charge_elapsed_ms c)"
  "\<lambda>b. unat (elapsed_ms b)" "\<lambda>b. unat (limit_get (maximum_time b))"
  by unfold_locales
    (auto simp: processing_step_used dest: processing_step_fits,
      simp add: processing_step_def processing_charge_frame)

interpretation work_meter: meter processing_step "\<lambda>c. unat (charge_work_units c)"
  "\<lambda>b. unat (work_units b)" "\<lambda>b. unat (limit_get (maximum_work b))"
  by unfold_locales
    (auto simp: processing_step_used dest: processing_step_fits,
      simp add: processing_step_def processing_charge_frame)

text \<open>
  C39. The processing budget refines unbounded arithmetic: for every sequence of charges the
  decisions and the final counters of a fresh budget, kept in 64-bit words, are those of the
  specification over natural numbers, which accepts a charge exactly when both sums stay
  within their limits and otherwise changes neither counter.
\<close>

theorem processing_budget_refinement:
  "budget_abs (run_charges processing_step (processing_budget_new t w) cs) =
     run_charges (spec_charge (unat (limit_get t)) (unat (limit_get w))) (0, 0)
       (map charge_abs cs) \<and>
   charge_trace processing_step (processing_budget_new t w) cs =
     charge_trace (spec_charge (unat (limit_get t)) (unat (limit_get w))) (0, 0)
       (map charge_abs cs)"
proof -
  have "budget_abs (processing_budget_new t w) = (0, 0)"
    by (simp add: budget_abs_def processing_budget_new_def)
  moreover have "spec_charge (unat (limit_get t)) (unat (limit_get w)) (budget_abs b) (charge_abs c) =
      (budget_abs (fst (processing_step b c)), snd (processing_step b c))"
    if "maximum_time b = t \<and> maximum_work b = w" for b c
    using that processing_charge_refines [of b c] by (simp add: processing_step_def)
  ultimately show ?thesis
    using charge_simulation [where I = "\<lambda>b. maximum_time b = t \<and> maximum_work b = w"
        and ab = budget_abs and cab = charge_abs and charge = processing_step
        and s = "processing_budget_new t w" and cs = cs
        and spec = "spec_charge (unat (limit_get t)) (unat (limit_get w))"]
    by (simp add: processing_step_def processing_charge_frame processing_budget_new_def)
qed

text \<open>
  Over any sequence of charges both counters of a fresh budget are the exact sums over the
  accepted charges, and neither ever passes its limit.
\<close>

theorem processing_budget_run:
  "let b = run_charges processing_step (processing_budget_new t w) cs;
       accepted = accepted_charges processing_step (processing_budget_new t w) cs
   in unat (elapsed_ms b) = sum_list (map (\<lambda>c. unat (charge_elapsed_ms c)) accepted) \<and>
      unat (work_units b) = sum_list (map (\<lambda>c. unat (charge_work_units c)) accepted) \<and>
      unat (elapsed_ms b) \<le> unat (limit_get t) \<and> unat (work_units b) \<le> unat (limit_get w)"
  using time_meter.run_used [of "processing_budget_new t w" cs]
    work_meter.run_used [of "processing_budget_new t w" cs]
    time_meter.run_within [of "processing_budget_new t w" cs]
    work_meter.run_within [of "processing_budget_new t w" cs]
    time_meter.run_cap [of "processing_budget_new t w" cs]
    work_meter.run_cap [of "processing_budget_new t w" cs]
  by (simp add: processing_budget_new_def)

section \<open>The response stream as a latching meter\<close>

fun stream_accepts :: "(stream_decision, byte_boundary_error) result \<Rightarrow> bool" where
  "stream_accepts (Ok (StreamContinue n)) = True"
| "stream_accepts _ = False"

definition stream_step ::
  "streaming_response_budget \<Rightarrow> u8 list \<Rightarrow> streaming_response_budget \<times> bool" where
  "stream_step s chunk = map_prod id stream_accepts (observe_chunk s chunk)"

definition slice_len_ok :: "u8 list \<Rightarrow> bool" where
  "slice_len_ok chunk \<longleftrightarrow> length chunk < 2 ^ 64"

lemma observe_chunk_live:
  assumes "\<not> srb_terminated s" and "slice_len_ok chunk"
  shows "observe_chunk s chunk =
    (if unat (srb_accepted_bytes s) + length chunk \<le> unat (limit_get (srb_maximum s))
     then (s\<lparr>srb_accepted_bytes := srb_accepted_bytes s + of_nat (length chunk)\<rparr>,
           Ok (StreamContinue (srb_accepted_bytes s + of_nat (length chunk))))
     else (s\<lparr>srb_terminated := True\<rparr>,
           Ok (TerminateIncomplete (srb_accepted_bytes s) (of_nat (length chunk))
             (if unat (srb_accepted_bytes s) + length chunk < 2 ^ 64 then BodyLimit
              else CounterOverflow))))"
proof -
  define n :: u64 where "n = of_nat (length chunk)"
  have n: "u64_of_len (length chunk) = Some n" "unat n = length chunk"
    using assms(2) by (auto simp: n_def slice_len_ok_def u64_of_len_def u64_of_len_Some [symmetric])
  show ?thesis
  proof (cases "unat (srb_accepted_bytes s) + length chunk < 2 ^ 64")
    case True
    then have "checked_add (srb_accepted_bytes s) n = Some (srb_accepted_bytes s + n)"
      by (simp add: checked_add_def n)
    moreover from this have "unat (srb_accepted_bytes s + n) = unat (srb_accepted_bytes s) + length chunk"
      by (simp add: checked_simps n)
    ultimately show ?thesis
      using assms(1) True n by (simp add: observe_chunk_def word_less_nat_alt n_def [symmetric])
  next
    case False
    then have none: "checked_add (srb_accepted_bytes s) n = None"
      by (simp add: checked_add_def n)
    from checked_add_over [OF this, of "limit_get (srb_maximum s)"]
    show ?thesis using assms(1) False n none by (simp add: observe_chunk_def n_def [symmetric])
  qed
qed

lemma stream_step_eq:
  "stream_step s chunk =
    (if srb_terminated s \<or> \<not> slice_len_ok chunk then (s, False)
     else if unat (srb_accepted_bytes s) + length chunk \<le> unat (limit_get (srb_maximum s))
     then (s\<lparr>srb_accepted_bytes := srb_accepted_bytes s + of_nat (length chunk)\<rparr>, True)
     else (s\<lparr>srb_terminated := True\<rparr>, False))"
proof (cases "srb_terminated s \<or> \<not> slice_len_ok chunk")
  case True
  then show ?thesis
    by (auto simp: stream_step_def observe_chunk_def slice_len_ok_def u64_of_len_def)
next
  case False
  then show ?thesis by (simp add: stream_step_def observe_chunk_live)
qed

lemma accepted_bytes_add:
  "unat (srb_accepted_bytes s) + length chunk \<le> unat (limit_get (srb_maximum s)) \<Longrightarrow>
    unat (srb_accepted_bytes s + of_nat (length chunk)) = unat (srb_accepted_bytes s) + length chunk"
proof -
  assume fits: "unat (srb_accepted_bytes s) + length chunk \<le> unat (limit_get (srb_maximum s))"
  have "unat (srb_accepted_bytes s) + length chunk < 18446744073709551616"
    by (rule le_less_trans [OF fits unat_u64_bound])
  then show ?thesis by (simp add: unat_word_ariths unat_of_nat)
qed

interpretation stream_meter: latching_meter stream_step length
  "\<lambda>s. unat (srb_accepted_bytes s)" "\<lambda>s. unat (limit_get (srb_maximum s))"
  srb_terminated slice_len_ok
  by unfold_locales (auto simp: stream_step_eq accepted_bytes_add split: if_splits)

text \<open>
  The streaming budget admits exactly the longest prefix of the chunks whose total length
  fits the maximum: the accepted chunks are that prefix, and the counter is its byte length.
  Nothing after the first rejected chunk is accepted.
\<close>

theorem streaming_budget_admits_longest_prefix:
  assumes "\<forall>chunk \<in> set chunks. length chunk < 2 ^ 64"
  shows "accepted_charges stream_step (streaming_budget_new m) chunks =
      fitting_prefix (unat (limit_get m)) length chunks \<and>
    unat (srb_accepted_bytes (run_charges stream_step (streaming_budget_new m) chunks)) =
      length (concat (fitting_prefix (unat (limit_get m)) length chunks))"
proof -
  have accepted: "accepted_charges stream_step (streaming_budget_new m) chunks =
      fitting_prefix (unat (limit_get m)) length chunks"
    using assms stream_meter.accepted_fitting_prefix [of "streaming_budget_new m" chunks]
    by (simp add: streaming_budget_new_def slice_len_ok_def)
  with stream_meter.run_used [of "streaming_budget_new m" chunks] show ?thesis
    by (simp add: streaming_budget_new_def length_concat)
qed

theorem streaming_budget_admits_longest_prefix_witness:
  "accepted_charges stream_step (streaming_budget_new (limit_from_non_zero 5))
      [[1, 2], [3, 4, 5], [6], []] = [[1, 2], [3, 4, 5]]"
  using streaming_budget_admits_longest_prefix
    [of "[[1, 2], [3, 4, 5], [6], []]" "limit_from_non_zero 5"]
  by simp

end
