(* ===== verification/Core_Content.thy ===== *)
theory Core_Content
  imports Prelude
begin

unbundle bit_operations_syntax

text \<open>
  \<open>crates/tracepress-core/src/content_id.rs\<close>, \<open>content.rs\<close> and \<open>occurrence.rs\<close>: the
  SHA-256 content identity, its hexadecimal text form, and content objects whose identity is
  checked when they are rebuilt. SHA-256 itself (the \<open>sha2\<close> crate) is a parameter.
\<close>

section \<open>Content identities\<close>

typedef digest32 = "{bs :: u8 list. length bs = 32}"
  morphisms digest_bytes Digest32
  by (rule exI [of _ "replicate 32 0"]) simp

type_synonym content_id = digest32

lemma length_digest_bytes [simp]: "length (digest_bytes d) = 32"
  using digest_bytes [of d] by simp

definition content_id_from_bytes :: "(u8 list \<Rightarrow> digest32) \<Rightarrow> u8 list \<Rightarrow> content_id" where
  "content_id_from_bytes sha256 raw_bytes = sha256 raw_bytes"

text \<open>The text form: two lower-case hexadecimal digits per byte.\<close>

definition hex_nibble :: "u8 \<Rightarrow> u8" where
  "hex_nibble n = (if n < 10 then 0x30 + n else 0x61 + (n - 10))"

definition hex_byte :: "u8 \<Rightarrow> u8 list" where
  "hex_byte b = [hex_nibble (drop_bit 4 b), hex_nibble (b AND 15)]"

definition content_id_display :: "content_id \<Rightarrow> u8 list" where
  "content_id_display d = concat (map hex_byte (digest_bytes d))"

datatype content_id_parse_error = InvalidLength nat | InvalidHex u8

definition decode_nibble :: "u8 \<Rightarrow> (u8, content_id_parse_error) result" where
  "decode_nibble byte =
     (if 0x30 \<le> byte \<and> byte \<le> 0x39 then Ok (byte - 0x30)
      else if 0x61 \<le> byte \<and> byte \<le> 0x66 then Ok (byte - 0x61 + 10)
      else if 0x41 \<le> byte \<and> byte \<le> 0x46 then Ok (byte - 0x41 + 10)
      else Err (InvalidHex byte))"

text \<open>\<open>as_chunks::<2>\<close>: the whole pairs and the remainder.\<close>

fun as_chunks2 :: "'a list \<Rightarrow> ('a \<times> 'a) list \<times> 'a list" where
  "as_chunks2 (x # y # xs) = (let (pairs, remainder) = as_chunks2 xs in ((x, y) # pairs, remainder))"
| "as_chunks2 xs = ([], xs)"

fun decode_pairs :: "(u8 \<times> u8) list \<Rightarrow> (u8 list, content_id_parse_error) result" where
  "decode_pairs [] = Ok []"
| "decode_pairs ((high_byte, low_byte) # pairs) =
     and_then (decode_nibble high_byte) (\<lambda>high.
     and_then (decode_nibble low_byte) (\<lambda>low.
     and_then (decode_pairs pairs) (\<lambda>rest.
     Ok ((push_bit 4 high OR low) # rest))))"

definition content_id_from_str :: "u8 list \<Rightarrow> (content_id, content_id_parse_error) result" where
  "content_id_from_str value =
     (if length value \<noteq> 64 then Err (InvalidLength (length value))
      else let (pairs, remainder) = as_chunks2 value
           in if remainder \<noteq> [] then Err (InvalidLength (length value))
              else and_then (decode_pairs pairs) (\<lambda>bytes. Ok (Digest32 bytes)))"

section \<open>Content objects and occurrences\<close>

datatype content_kind =
    KText | KJson | KNdjson | KLog | KSearchResults | KTestResults | KSourceCode | KDiff
  | KImage | KDocument | KBinary | KUnknown

type_synonym raw_content = "u8 list"

record content_object =
  co_content_id :: content_id
  co_raw_bytes :: raw_content
  co_content_kind :: content_kind

datatype content_object_error = ContentIdMismatch content_id content_id

definition content_object_new ::
  "(u8 list \<Rightarrow> digest32) \<Rightarrow> u8 list \<Rightarrow> content_kind \<Rightarrow> content_object" where
  "content_object_new sha256 raw_bytes kind =
     \<lparr>co_content_id = content_id_from_bytes sha256 raw_bytes, co_raw_bytes = raw_bytes,
      co_content_kind = kind\<rparr>"

definition content_object_from_parts ::
  "(u8 list \<Rightarrow> digest32) \<Rightarrow> content_id \<Rightarrow> raw_content \<Rightarrow> content_kind
    \<Rightarrow> (content_object, content_object_error) result" where
  "content_object_from_parts sha256 cid raw_bytes kind =
     (let computed = content_id_from_bytes sha256 raw_bytes
      in if cid = computed
         then Ok \<lparr>co_content_id = cid, co_raw_bytes = raw_bytes, co_content_kind = kind\<rparr>
         else Err (ContentIdMismatch cid computed))"

datatype content_role = ProcessOutput | AgentToolResult | TracepressResult | ProviderInput

record ('session, 'operation) occurrence_context =
  oc_session_id :: 'session
  oc_operation_id :: "'operation option"
  oc_role :: content_role

record ('occurrence, 'session, 'operation) content_occurrence =
  occ_occurrence_id :: 'occurrence
  occ_content_id :: content_id
  occ_context :: "('session, 'operation) occurrence_context"

section \<open>The text form round trips\<close>

definition is_hex :: "u8 \<Rightarrow> bool" where
  "is_hex b \<longleftrightarrow> 0x30 \<le> b \<and> b \<le> 0x39 \<or> 0x61 \<le> b \<and> b \<le> 0x66 \<or> 0x41 \<le> b \<and> b \<le> 0x46"

definition ascii_lower :: "u8 \<Rightarrow> u8" where
  "ascii_lower b = (if 0x41 \<le> b \<and> b \<le> 0x5A then b + 0x20 else b)"

lemma decode_nibble_Err: "\<not> is_hex b \<Longrightarrow> decode_nibble b = Err (InvalidHex b)"
  by (auto simp: decode_nibble_def is_hex_def)

lemma unat_sub_add:
  fixes b :: u8
  assumes "l \<le> b" and "unat b - unat l + unat k < 256"
  shows "unat (b - l + k) = unat b - unat l + unat k"
  using assms by (simp add: unat_word_ariths unat_sub)

lemma decode_nibble_hex:
  assumes "is_hex b"
  shows "\<exists>n. decode_nibble b = Ok n \<and> n < 16 \<and> hex_nibble n = ascii_lower b"
proof -
  consider (digit) "0x30 \<le> b" "b \<le> 0x39" | (lower) "0x61 \<le> b" "b \<le> 0x66"
    | (upper) "0x41 \<le> b" "b \<le> 0x46"
    using assms by (auto simp: is_hex_def)
  then show ?thesis
  proof cases
    case digit
    then have "unat (b - 0x30) = unat b - 48" by (simp add: unat_sub)
    with digit show ?thesis
      by (auto simp: decode_nibble_def hex_nibble_def ascii_lower_def word_less_nat_alt
          word_le_nat_alt)
  next
    case lower
    then have "unat (b - 0x61 + 10) = unat b - 97 + 10"
      using unat_sub_add [of "0x61" b 10] by (simp add: word_le_nat_alt)
    with lower show ?thesis
      by (auto simp: decode_nibble_def hex_nibble_def ascii_lower_def word_less_nat_alt
          word_le_nat_alt)
  next
    case upper
    then have "unat (b - 0x41 + 10) = unat b - 65 + 10"
      using unat_sub_add [of "0x41" b 10] by (simp add: word_le_nat_alt)
    with upper show ?thesis
      by (auto simp: decode_nibble_def hex_nibble_def ascii_lower_def word_less_nat_alt
          word_le_nat_alt)
  qed
qed

lemma hex_nibble_facts:
  assumes "n < 16"
  shows "decode_nibble (hex_nibble n) = Ok n" "is_hex (hex_nibble n)"
    "ascii_lower (hex_nibble n) = hex_nibble n"
proof -
  have "decode_nibble (hex_nibble n) = Ok n \<and> is_hex (hex_nibble n) \<and>
    ascii_lower (hex_nibble n) = hex_nibble n"
  proof (cases "n < 10")
    case True
    then have "unat (0x30 + n) = 48 + unat n"
      by (simp add: unat_word_ariths word_less_nat_alt)
    with True show ?thesis
      by (simp add: hex_nibble_def decode_nibble_def is_hex_def ascii_lower_def word_less_nat_alt
          word_le_nat_alt)
  next
    case False
    with assms have bounds: "10 \<le> unat n" "unat n < 16" and "10 \<le> n"
      by (simp_all add: word_less_nat_alt word_le_nat_alt)
    then have "unat (0x61 + (n - 10)) = 97 + (unat n - 10)"
      by (simp add: unat_word_ariths unat_sub)
    with False bounds show ?thesis
      by (simp add: hex_nibble_def decode_nibble_def is_hex_def ascii_lower_def word_less_nat_alt
          word_le_nat_alt)
  qed
  then show "decode_nibble (hex_nibble n) = Ok n" "is_hex (hex_nibble n)"
    "ascii_lower (hex_nibble n) = hex_nibble n" by simp_all
qed

lemma and_15: "b AND 15 = take_bit 4 (b :: u8)"
  by (simp add: take_bit_eq_mask mask_eq_exp_minus_1)

lemma nibble_bounds: "drop_bit 4 (b :: u8) < 16" "take_bit 4 b < (16 :: u8)"
proof -
  have "unat b < 256" using unsigned_less [of b, where 'a = nat] by simp
  then have "unat b div 16 < 16" by simp
  then show "drop_bit 4 b < 16"
    by (simp add: word_less_nat_alt drop_bit_eq_div unat_div)
  show "take_bit 4 b < (16 :: u8)"
    by (simp add: word_less_nat_alt take_bit_eq_mod unat_mod)
qed

lemma nibble_split: "push_bit 4 (drop_bit 4 b) OR take_bit 4 b = (b :: u8)"
  by (rule bit_word_eqI) (auto simp: bit_simps)

lemma nibble_join:
  assumes "h < 16" and "l < (16 :: u8)"
  shows "drop_bit 4 (push_bit 4 h OR l) = h" "take_bit 4 (push_bit 4 h OR l) = l"
proof -
  have h: "take_bit 4 h = h" and l: "take_bit 4 l = l"
    using assms
    by (simp_all add: word_unat_eq_iff take_bit_eq_mod unat_mod word_less_nat_alt)
  have low: "\<not> bit l n" if "4 \<le> n" for n
    using that by (subst l [symmetric]) (simp add: bit_take_bit_iff)
  show "take_bit 4 (push_bit 4 h OR l) = l"
    by (rule bit_word_eqI) (use low in \<open>auto simp: bit_simps not_le\<close>)
  have high: "\<not> bit h n" if "4 \<le> n" for n
    using that by (subst h [symmetric]) (simp add: bit_take_bit_iff)
  show "drop_bit 4 (push_bit 4 h OR l) = h"
  proof (rule bit_word_eqI)
    fix n
    show "bit (drop_bit 4 (push_bit 4 h OR l)) n \<longleftrightarrow> bit h n"
      using low [of "4 + n"] high [of n]
      by (cases "4 \<le> n") (auto simp: bit_simps)
  qed
qed

lemma hex_nibble_inj:
  "m < 16 \<Longrightarrow> n < 16 \<Longrightarrow> hex_nibble m = hex_nibble n \<longleftrightarrow> m = n"
  by (metis hex_nibble_facts(1) result.inject(1))

lemma decode_pair:
  "(\<exists>h l. decode_nibble x = Ok h \<and> decode_nibble y = Ok l \<and> b = push_bit 4 h OR l) \<longleftrightarrow>
    is_hex x \<and> is_hex y \<and> [ascii_lower x, ascii_lower y] = hex_byte b"
proof
  assume "\<exists>h l. decode_nibble x = Ok h \<and> decode_nibble y = Ok l \<and> b = push_bit 4 h OR l"
  then obtain h l where *: "decode_nibble x = Ok h" "decode_nibble y = Ok l" "b = push_bit 4 h OR l"
    by blast
  then have hex: "is_hex x" "is_hex y" using decode_nibble_Err by force+
  from decode_nibble_hex [OF hex(1)] decode_nibble_hex [OF hex(2)] *(1,2)
  have n: "h < 16" "l < 16" "hex_nibble h = ascii_lower x" "hex_nibble l = ascii_lower y" by auto
  then have "drop_bit 4 b = h" "take_bit 4 b = l"
    unfolding *(3) by (blast intro: nibble_join)+
  with n(3,4) show "is_hex x \<and> is_hex y \<and> [ascii_lower x, ascii_lower y] = hex_byte b"
    using hex by (simp add: hex_byte_def and_15)
next
  assume a: "is_hex x \<and> is_hex y \<and> [ascii_lower x, ascii_lower y] = hex_byte b"
  then obtain h l where *: "decode_nibble x = Ok h" "h < 16" "hex_nibble h = ascii_lower x"
      "decode_nibble y = Ok l" "l < 16" "hex_nibble l = ascii_lower y"
    using decode_nibble_hex by meson
  with a have "h = drop_bit 4 b" "l = take_bit 4 b"
    by (auto simp: hex_byte_def and_15 hex_nibble_inj nibble_bounds)
  with * show "\<exists>h l. decode_nibble x = Ok h \<and> decode_nibble y = Ok l \<and> b = push_bit 4 h OR l"
    using nibble_split [of b] by auto
qed

lemma decode_chunks:
  "even (length s) \<Longrightarrow> snd (as_chunks2 s) = [] \<and>
    (decode_pairs (fst (as_chunks2 s)) = Ok bs \<longleftrightarrow>
      list_all is_hex s \<and> map ascii_lower s = concat (map hex_byte bs))"
proof (induction s arbitrary: bs rule: as_chunks2.induct)
  case (1 x y xs)
  then have rest: "snd (as_chunks2 xs) = []" and
    IH: "\<And>bs. decode_pairs (fst (as_chunks2 xs)) = Ok bs \<longleftrightarrow>
      list_all is_hex xs \<and> map ascii_lower xs = concat (map hex_byte bs)" by auto
  show ?case
  proof (cases bs)
    case Nil
    then show ?thesis using rest by (auto simp: case_prod_beta and_then_eq_Ok)
  next
    case (Cons b bs')
    have "decode_pairs (fst (as_chunks2 (x # y # xs))) = Ok bs \<longleftrightarrow>
        (\<exists>h l. decode_nibble x = Ok h \<and> decode_nibble y = Ok l \<and> b = push_bit 4 h OR l) \<and>
        decode_pairs (fst (as_chunks2 xs)) = Ok bs'"
      using Cons by (auto simp: case_prod_beta and_then_eq_Ok)
    moreover obtain p q where "hex_byte b = [p, q]" by (simp add: hex_byte_def)
    ultimately show ?thesis
      unfolding decode_pair IH using Cons rest by (auto simp: case_prod_beta)
  qed
qed (auto simp: hex_byte_def)

lemma length_display: "length (concat (map hex_byte bs)) = 2 * length bs"
  by (induction bs) (auto simp: hex_byte_def)

lemma content_id_parse:
  "content_id_from_str s = Ok d \<longleftrightarrow>
     length s = 64 \<and> list_all is_hex s \<and> map ascii_lower s = content_id_display d"
proof (cases "length s = 64")
  case True
  then have chunks: "snd (as_chunks2 s) = []"
    "\<And>bs. decode_pairs (fst (as_chunks2 s)) = Ok bs \<longleftrightarrow>
      list_all is_hex s \<and> map ascii_lower s = concat (map hex_byte bs)"
    using decode_chunks [of s] by auto
  have len: "length bs = 32" if "map ascii_lower s = concat (map hex_byte bs)" for bs
    using that True length_display [of bs] by (metis length_map mult_cancel1 numeral_times_numeral
        semiring_norm(12,13) zero_neq_numeral)
  show ?thesis
    using True chunks len digest_bytes_inverse Digest32_inverse
    by (force simp: content_id_from_str_def case_prod_beta and_then_eq_Ok content_id_display_def)
next
  case False
  then show ?thesis by (simp add: content_id_from_str_def)
qed

lemma hex_byte_lower: "map ascii_lower (hex_byte b) = hex_byte b"
  by (simp add: hex_byte_def and_15 hex_nibble_facts nibble_bounds)

lemma content_id_display_hex:
  "length (content_id_display d) = 64" "list_all is_hex (content_id_display d)"
  "map ascii_lower (content_id_display d) = content_id_display d"
proof -
  show "length (content_id_display d) = 64"
    by (simp add: content_id_display_def length_display)
  show "list_all is_hex (content_id_display d)"
    by (auto simp: content_id_display_def list_all_iff hex_byte_def and_15 hex_nibble_facts
        nibble_bounds)
  show "map ascii_lower (content_id_display d) = content_id_display d"
    by (simp add: content_id_display_def map_concat hex_byte_lower o_def)
qed

text \<open>
  Parsing and printing a content identity are inverse up to letter case: a string parses
  to an identity exactly when it consists of hexadecimal digits and its lower-case form is
  what the identity prints. So every printed identity parses back to itself, parsing ignores
  case, and the lower-case form is canonical.
\<close>

theorem content_id_parse_iff:
  "content_id_from_str s = Ok d \<longleftrightarrow>
     list_all is_hex s \<and> map ascii_lower s = content_id_display d"
  by (metis content_id_display_hex(1) content_id_parse length_map)

text \<open>
  A content object can only be rebuilt with the digest of its own bytes: reconstruction
  succeeds exactly on the parts of an object made from those bytes, and then returns it.
\<close>

theorem content_object_integrity:
  "content_object_from_parts sha256 cid raw kind = Ok obj \<longleftrightarrow>
     cid = sha256 raw \<and> obj = content_object_new sha256 raw kind"
  by (auto simp: content_object_from_parts_def content_object_new_def content_id_from_bytes_def
      Let_def)

end
