(* ===== verification/Core_Identity.thy ===== *)
theory Core_Identity
  imports Core_Content
begin

text \<open>
  \<open>crates/tracepress-core/src/ids.rs\<close>, \<open>causal.rs\<close> and \<open>binding.rs\<close>: validated UUIDv7
  timestamps and identifiers, causal edges and frozen context bindings. UUID values and their
  parser belong to the \<open>uuid\<close> crate: they are a type variable and function parameters.
\<close>

section \<open>UUIDv7 timestamps\<close>

definition NANOS_PER_SECOND :: u32 where
  "NANOS_PER_SECOND = 1000000000"

definition UUID_V7_MAX_TIMESTAMP_MILLISECONDS :: u64 where
  "UUID_V7_MAX_TIMESTAMP_MILLISECONDS = push_bit 48 1 - 1"

definition UUID_V7_MAX_TIMESTAMP_SECONDS :: u64 where
  "UUID_V7_MAX_TIMESTAMP_SECONDS = UUID_V7_MAX_TIMESTAMP_MILLISECONDS div 1000"

definition UUID_V7_MAX_TIMESTAMP_SUBSEC_NANOS :: u32 where
  "UUID_V7_MAX_TIMESTAMP_SUBSEC_NANOS = 655999999"

record uuid_v7_timestamp =
  unix_seconds :: u64
  subsec_nanos :: u32

datatype uuid_v7_timestamp_error =
    InvalidSubsecondNanoseconds u32
  | ExceedsMillisecondCapacity u64 u32 u64

definition uuid_v7_timestamp_new ::
  "u64 \<Rightarrow> u32 \<Rightarrow> (uuid_v7_timestamp, uuid_v7_timestamp_error) result" where
  "uuid_v7_timestamp_new seconds nanos =
     (if nanos \<ge> NANOS_PER_SECOND then Err (InvalidSubsecondNanoseconds nanos)
      else if seconds > UUID_V7_MAX_TIMESTAMP_SECONDS
        \<or> seconds = UUID_V7_MAX_TIMESTAMP_SECONDS \<and> nanos > UUID_V7_MAX_TIMESTAMP_SUBSEC_NANOS
      then Err (ExceedsMillisecondCapacity seconds nanos UUID_V7_MAX_TIMESTAMP_MILLISECONDS)
      else Ok \<lparr>unix_seconds = seconds, subsec_nanos = nanos\<rparr>)"

lemmas uuid_limits = NANOS_PER_SECOND_def UUID_V7_MAX_TIMESTAMP_MILLISECONDS_def
  UUID_V7_MAX_TIMESTAMP_SECONDS_def UUID_V7_MAX_TIMESTAMP_SUBSEC_NANOS_def

lemma uuid_limit_values:
  "unat UUID_V7_MAX_TIMESTAMP_MILLISECONDS = 281474976710655"
  "unat UUID_V7_MAX_TIMESTAMP_SECONDS = 281474976710"
  "unat UUID_V7_MAX_TIMESTAMP_SUBSEC_NANOS = 655999999"
  "unat NANOS_PER_SECOND = 1000000000"
  by (simp_all add: uuid_limits)

text \<open>
  A timestamp is accepted exactly when its nanoseconds are below one second and its
  milliseconds, seconds times 1000 plus whole milliseconds of the nanoseconds, fit the 48-bit
  field of a UUIDv7. The comparison of the code on seconds and nanoseconds separately loses
  no timestamp and admits none too many.
\<close>

theorem uuid_timestamp_capacity:
  "is_ok (uuid_v7_timestamp_new seconds nanos) \<longleftrightarrow>
     unat nanos < 10 ^ 9 \<and> unat seconds * 1000 + unat nanos div 10 ^ 6 < 2 ^ 48"
proof (cases "unat nanos < 1000000000")
  case True
  have "unat seconds > 281474976710 \<or> unat seconds = 281474976710 \<and> unat nanos > 655999999 \<longleftrightarrow>
      \<not> unat seconds * 1000 + unat nanos div 1000000 < 281474976710656"
    using True by linarith
  with True show ?thesis
    by (simp add: uuid_v7_timestamp_new_def word_less_nat_alt word_le_nat_alt uuid_limit_values
        word_unat_eq_iff)
next
  case False
  then show ?thesis
    by (simp add: uuid_v7_timestamp_new_def word_le_nat_alt uuid_limit_values)
qed

section \<open>UUIDv7 identifiers\<close>

datatype 'uuid uuid_v7 = UuidV7 (as_uuid: 'uuid)

datatype 'perr id_parse_error = InvalidUuid 'perr | UnexpectedVersion nat | UnexpectedVariant

definition uuid_v7_try_from ::
  "('uuid \<Rightarrow> nat) \<Rightarrow> ('uuid \<Rightarrow> bool) \<Rightarrow> 'uuid \<Rightarrow> ('uuid uuid_v7, 'perr id_parse_error) result" where
  "uuid_v7_try_from version_num is_rfc4122 uuid =
     (if version_num uuid \<noteq> 7 then Err (UnexpectedVersion (version_num uuid))
      else if \<not> is_rfc4122 uuid then Err UnexpectedVariant
      else Ok (UuidV7 uuid))"

definition id_from_str ::
  "('text \<Rightarrow> ('uuid, 'perr) result) \<Rightarrow> ('uuid \<Rightarrow> nat) \<Rightarrow> ('uuid \<Rightarrow> bool) \<Rightarrow> 'text
    \<Rightarrow> ('uuid uuid_v7, 'perr id_parse_error) result" where
  "id_from_str parse_str version_num is_rfc4122 value =
     and_then (map_err InvalidUuid (parse_str value)) (uuid_v7_try_from version_num is_rfc4122)"

text \<open>No identifier is built from a UUID of another version or variant.\<close>

lemma id_from_str_Ok:
  "id_from_str parse_str version_num is_rfc4122 value = Ok i \<longleftrightarrow>
     parse_str value = Ok (as_uuid i) \<and> version_num (as_uuid i) = 7 \<and> is_rfc4122 (as_uuid i)"
  by (cases "parse_str value"; cases i)
    (auto simp: id_from_str_def uuid_v7_try_from_def)

section \<open>Causal edges\<close>

datatype causal_relationship = Spawned | FollowsFrom | RecoveryOf | EvaluationOf

record 'op causal_edge =
  parent_operation_id :: 'op
  child_operation_id :: 'op
  relationship :: causal_relationship

datatype 'op causal_edge_error = SelfEdge 'op

definition causal_edge_new ::
  "'op \<Rightarrow> 'op \<Rightarrow> causal_relationship \<Rightarrow> ('op causal_edge, 'op causal_edge_error) result" where
  "causal_edge_new parent child rel =
     (if parent = child then Err (SelfEdge parent)
      else Ok \<lparr>parent_operation_id = parent, child_operation_id = child, relationship = rel\<rparr>)"

text \<open>Deserialising goes through the constructor, from the three serialised fields.\<close>

definition causal_edge_deserialize ::
  "'op \<times> 'op \<times> causal_relationship \<Rightarrow> ('op causal_edge, 'op causal_edge_error) result" where
  "causal_edge_deserialize serialized =
     (case serialized of (parent, child, rel) \<Rightarrow> causal_edge_new parent child rel)"

lemma causal_edge_deserialize_irreflexive:
  "causal_edge_deserialize s = Ok e \<Longrightarrow> parent_operation_id e \<noteq> child_operation_id e"
  by (cases s) (auto simp: causal_edge_deserialize_def causal_edge_new_def split: if_splits)

section \<open>Frozen context bindings\<close>

record 'session binding_key =
  bk_session_id :: 'session
  bk_logical_content_id :: content_id

record binding_versions =
  bv_compressor_version :: string
  bv_policy_version :: string

record binding_representation =
  br_raw_content_id :: content_id
  br_rendered_content_id :: content_id
  br_versions :: binding_versions

record 'session binding_candidate =
  bc_key :: "'session binding_key"
  bc_representation :: binding_representation

text \<open>The marker of the source has one value, serialised as \<open>true\<close>.\<close>

datatype frozen_marker = FrozenMarker

definition frozen_marker_serialize :: "frozen_marker \<Rightarrow> bool" where
  "frozen_marker_serialize m = True"

definition frozen_marker_deserialize :: "bool \<Rightarrow> (frozen_marker, string) result" where
  "frozen_marker_deserialize b =
     (if b then Ok FrozenMarker else Err ''context binding must be frozen'')"

record ('binding, 'session) context_binding =
  cb_binding_id :: 'binding
  cb_session_id :: 'session
  cb_logical_content_id :: content_id
  cb_raw_content_id :: content_id
  cb_rendered_content_id :: content_id
  cb_compressor_version :: string
  cb_policy_version :: string
  cb_frozen :: frozen_marker

definition context_binding_freeze ::
  "'binding \<Rightarrow> 'session binding_candidate \<Rightarrow> ('binding, 'session) context_binding" where
  "context_binding_freeze bid candidate =
     \<lparr>cb_binding_id = bid,
      cb_session_id = bk_session_id (bc_key candidate),
      cb_logical_content_id = bk_logical_content_id (bc_key candidate),
      cb_raw_content_id = br_raw_content_id (bc_representation candidate),
      cb_rendered_content_id = br_rendered_content_id (bc_representation candidate),
      cb_compressor_version = bv_compressor_version (br_versions (bc_representation candidate)),
      cb_policy_version = bv_policy_version (br_versions (bc_representation candidate)),
      cb_frozen = FrozenMarker\<rparr>"

datatype binding_conflict_field =
  RawContentField | RenderedContentField | CompressorVersionField | PolicyVersionField

datatype 'binding context_binding_error =
    KeyMismatch 'binding
  | FrozenConflict 'binding binding_conflict_field

definition binding_conflict ::
  "('binding, 'session) context_binding \<Rightarrow> binding_conflict_field
    \<Rightarrow> 'binding context_binding_error" where
  "binding_conflict b field = FrozenConflict (cb_binding_id b) field"

definition ensure_compatible ::
  "('binding, 'session) context_binding \<Rightarrow> 'session binding_candidate
    \<Rightarrow> (unit, 'binding context_binding_error) result" where
  "ensure_compatible b candidate =
     (if cb_session_id b \<noteq> bk_session_id (bc_key candidate)
         \<or> cb_logical_content_id b \<noteq> bk_logical_content_id (bc_key candidate)
      then Err (KeyMismatch (cb_binding_id b))
      else if cb_raw_content_id b \<noteq> br_raw_content_id (bc_representation candidate)
      then Err (binding_conflict b RawContentField)
      else if cb_rendered_content_id b \<noteq> br_rendered_content_id (bc_representation candidate)
      then Err (binding_conflict b RenderedContentField)
      else if cb_compressor_version b \<noteq>
          bv_compressor_version (br_versions (bc_representation candidate))
      then Err (binding_conflict b CompressorVersionField)
      else if cb_policy_version b \<noteq> bv_policy_version (br_versions (bc_representation candidate))
      then Err (binding_conflict b PolicyVersionField)
      else Ok ())"

text \<open>
  A frozen binding accepts a candidate exactly when freezing that candidate under the same
  identity would give the same binding, so no accepted candidate can replace any part of it.
\<close>

theorem binding_accepts_only_itself:
  fixes b :: "('binding, 'session) context_binding"
  shows "ensure_compatible b candidate = Ok () \<longleftrightarrow>
    context_binding_freeze (cb_binding_id b) candidate = b"
  by (cases b; cases "cb_frozen b")
    (auto simp: ensure_compatible_def context_binding_freeze_def)

end
