(* ===== verification/Core_Lifecycle.thy ===== *)
theory Core_Lifecycle
  imports Core_Identity
begin

text \<open>
  \<open>crates/tracepress-core/src/lifecycle.rs\<close>, \<open>finalization.rs\<close> and \<open>request.rs\<close>: the
  persisted vocabularies, the finalisation of an inference, and request metadata.
\<close>

section \<open>Vocabularies\<close>

datatype operation_kind =
    Agent | LlmInference | ToolExecution | Compression | Recovery | Evaluation | ProviderTool
  | ContextCompaction

datatype session_state = Active | Closing | Closed | Stale

datatype operation_status =
    OpStarted | OpCompleted | OpIncomplete | OpCancelled | OpErrored | OpDisconnected

datatype inference_status =
    InfStarted | InfStreaming | InfCompleted | InfIncomplete | InfCancelled | InfErrored
  | InfDisconnected

datatype core_usage_status = CoreFinal | CorePartial | CoreUnavailable

section \<open>Finalisation\<close>

datatype commit_state = Committed | Pending | Uncertain

datatype finalization_error =
    StaleSession
  | ClosedSession
  | InferenceStillRunning inference_status
  | SuccessNotCommitted commit_state

definition finalize_inference ::
  "session_state \<Rightarrow> inference_status \<Rightarrow> commit_state \<Rightarrow> (operation_status, finalization_error) result"
  where
  "finalize_inference session_state inference_status commit_state =
     (let resolved =
        (case inference_status of
           InfStarted \<Rightarrow> Err (InferenceStillRunning inference_status)
         | InfStreaming \<Rightarrow> Err (InferenceStillRunning inference_status)
         | InfCompleted \<Rightarrow>
             (case commit_state of
                Committed \<Rightarrow> Ok OpCompleted
              | Pending \<Rightarrow> Err (SuccessNotCommitted commit_state)
              | Uncertain \<Rightarrow> Err (SuccessNotCommitted commit_state))
         | InfIncomplete \<Rightarrow> Ok OpIncomplete
         | InfCancelled \<Rightarrow> Ok OpCancelled
         | InfErrored \<Rightarrow> Ok OpErrored
         | InfDisconnected \<Rightarrow> Ok OpDisconnected)
      in case session_state of
           Active \<Rightarrow> resolved
         | Closing \<Rightarrow> resolved
         | Closed \<Rightarrow> Err ClosedSession
         | Stale \<Rightarrow> Err StaleSession)"

text \<open>
  Success is never invented: an inference finalises as completed exactly when the session
  is open, the provider completed and the commit is certain; and no finalisation ever leaves
  an operation in its started state.
\<close>

theorem finalization_never_invents_success:
  "(finalize_inference s i c = Ok OpCompleted \<longleftrightarrow>
      s \<in> {Active, Closing} \<and> i = InfCompleted \<and> c = Committed) \<and>
   finalize_inference s i c \<noteq> Ok OpStarted \<and>
   (is_ok (finalize_inference s i c) \<longleftrightarrow>
      s \<in> {Active, Closing} \<and> i \<notin> {InfStarted, InfStreaming} \<and> \<not> (i = InfCompleted \<and> c \<noteq> Committed))"
  by (cases s; cases i; cases c) (simp_all add: finalize_inference_def)

section \<open>Request metadata\<close>

datatype request_route = ChatCompletions | Responses | ResponsesCompact

datatype request_method = Post

typedef http_status_code = "{v :: u16. 100 \<le> v \<and> v \<le> 599}"
  morphisms http_status_get HttpStatusCode
  by (rule exI [of _ 200]) simp

datatype http_status_code_error = HttpStatusCodeError u16

definition http_status_code_new :: "u16 \<Rightarrow> (http_status_code, http_status_code_error) result" where
  "http_status_code_new value =
     (if value \<ge> 100 \<and> value \<le> 599 then Ok (HttpStatusCode value)
      else Err (HttpStatusCodeError value))"

lemma http_status_code_new_Ok: "http_status_code_new v = Ok c \<longleftrightarrow> http_status_get c = v"
  using http_status_get [of c]
  by (auto simp: http_status_code_new_def HttpStatusCode_inverse http_status_get_inverse)

record response_metadata =
  rm_status_code :: "http_status_code option"
  rm_response_bytes :: "u64 option"
  rm_latency_us :: "u64 option"

record 'request request_metadata =
  rq_request_id :: 'request
  rq_route :: request_route
  rq_method :: request_method
  rq_request_bytes :: u64
  rq_status_code :: "http_status_code option"
  rq_response_bytes :: "u64 option"
  rq_latency_us :: "u64 option"

definition request_metadata_chat_completions :: "'request \<Rightarrow> u64 \<Rightarrow> 'request request_metadata" where
  "request_metadata_chat_completions rid bytes =
     \<lparr>rq_request_id = rid, rq_route = ChatCompletions, rq_method = Post, rq_request_bytes = bytes,
      rq_status_code = None, rq_response_bytes = None, rq_latency_us = None\<rparr>"

definition request_metadata_responses :: "'request \<Rightarrow> u64 \<Rightarrow> 'request request_metadata" where
  "request_metadata_responses rid bytes =
     \<lparr>rq_request_id = rid, rq_route = Responses, rq_method = Post, rq_request_bytes = bytes,
      rq_status_code = None, rq_response_bytes = None, rq_latency_us = None\<rparr>"

definition request_metadata_responses_compact :: "'request \<Rightarrow> u64 \<Rightarrow> 'request request_metadata" where
  "request_metadata_responses_compact rid bytes =
     \<lparr>rq_request_id = rid, rq_route = ResponsesCompact, rq_method = Post,
      rq_request_bytes = bytes,
      rq_status_code = None, rq_response_bytes = None, rq_latency_us = None\<rparr>"

definition request_metadata_with_response ::
  "'request request_metadata \<Rightarrow> response_metadata \<Rightarrow> 'request request_metadata" where
  "request_metadata_with_response r response =
     \<lparr>rq_request_id = rq_request_id r, rq_route = rq_route r, rq_method = rq_method r,
      rq_request_bytes = rq_request_bytes r,
      rq_status_code = rm_status_code response,
      rq_response_bytes = rm_response_bytes response,
      rq_latency_us = rm_latency_us response\<rparr>"

text \<open>Attaching a response replaces an earlier one and keeps the request's own facts.\<close>

lemma with_response_overrides:
  "request_metadata_with_response (request_metadata_with_response r a) b =
     request_metadata_with_response r b"
  by (simp add: request_metadata_with_response_def)

end
