(* ===== verification/Ipc_Frame.thy ===== *)
theory Ipc_Frame
  imports Core_Budgets
begin

unbundle bit_operations_syntax

text \<open>
  \<open>crates/tracepress-ipc/src/error.rs\<close>, \<open>frame.rs\<close> and \<open>frame/serialize.rs\<close>: typed IPC
  failures, cancellable exact reads, length-prefixed frames and the bounded serialiser.

  The environment of an operation is explicit. A reader is the list of events that the
  successive \<open>select!\<close> rounds will meet: bytes arriving in fragments of any size, end of
  stream, an I/O failure, or cancellation, which is level-triggered and so stays pending. A
  writer is one outcome: everything written, or cancelled or failed after some prefix. Memory
  reservation is a predicate \<open>alloc\<close> on the requested size.
\<close>

section \<open>Errors\<close>

datatype frame_part = Header | Payload | Authentication

datatype ('je, 'ie) ipc_error =
    Cancelled
  | Truncated frame_part nat nat
  | FrameTooLarge u64 u64
  | FrameLengthUnrepresentable
  | AllocationFailed nat
  | RequestBodyTooLarge u64 u64
  | ResponseBodyTooLarge u64 u64
  | MalformedMessage 'je
  | MalformedAuthentication
  | InvalidAuthentication
  | TcpMustBeLoopback
  | TcpPortUnassigned
  | EndpointContainsNul
  | QueueCapacityUnrepresentable
  | QueueFull u64
  | QueueClosed
  | InsecureSocketDirectory
  | SocketPathNotSocket
  | SocketNotOwned
  | SocketMarkerInvalid
  | SocketArtifactChanged string u64 u64 u64 u64
  | SocketAlreadyActive
  | SocketStateUnknown
  | UnsupportedEndpoint
  | Io 'ie

section \<open>Exact reads\<close>

datatype 'ie read_event = Arrive "u8 list" | CancelRequested | ReadFailure 'ie

type_synonym 'ie reader = "'ie read_event list"

text \<open>One round of \<open>select!\<close> with room for \<open>room\<close> bytes: no bytes means end of stream.\<close>

fun poll_read :: "'ie reader \<Rightarrow> nat \<Rightarrow> 'ie reader \<times> (u8 list, ('je, 'ie) ipc_error) result" where
  "poll_read [] room = ([], Ok [])"
| "poll_read (Arrive bytes # events) room =
     ((if drop room bytes = [] then (if bytes = [] then Arrive [] # events else events)
       else Arrive (drop room bytes) # events), Ok (take room bytes))"
| "poll_read (CancelRequested # events) room = (CancelRequested # events, Err Cancelled)"
| "poll_read (ReadFailure e # events) room = (events, Err (Io e))"

definition get_from :: "'a list \<Rightarrow> nat \<Rightarrow> 'a list option" where
  "get_from xs n = (if n \<le> length xs then Some (drop n xs) else None)"

text \<open>
  The loop of \<open>read_exact_cancelled\<close>: the output buffer is overwritten from \<open>received\<close> on.
\<close>

function read_exact_loop ::
  "'ie reader \<Rightarrow> u8 list \<Rightarrow> frame_part \<Rightarrow> nat
    \<Rightarrow> 'ie reader \<times> u8 list \<times> (unit, ('je, 'ie) ipc_error) result" where
  "read_exact_loop reader buffer part received =
     (if received < length buffer then
        case get_from buffer received of
          None \<Rightarrow> (reader, buffer, Err FrameLengthUnrepresentable)
        | Some remaining \<Rightarrow>
            (case poll_read reader (length remaining) of
               (reader', Err e) \<Rightarrow> (reader', buffer, Err e)
             | (reader', Ok got) \<Rightarrow>
                 if length got = 0
                 then (reader', buffer, Err (Truncated part (length buffer) received))
                 else (case usize_checked_add received (length got) of
                     None \<Rightarrow> (reader', buffer, Err FrameLengthUnrepresentable)
                   | Some received' \<Rightarrow>
                       read_exact_loop reader'
                         (take received buffer @ got @ drop received' buffer) part received'))
      else (reader, buffer, Ok ()))"
  by pat_completeness auto

lemma poll_read_length: "poll_read reader room = (reader', Ok got) \<Longrightarrow> length got \<le> room"
  by (cases "(reader, room)" rule: poll_read.cases) auto

lemma poll_read_length_sym: "(reader', Ok got) = poll_read reader room \<Longrightarrow> length got \<le> room"
  using poll_read_length by metis

termination read_exact_loop
  by (relation "measure (\<lambda>(reader, buffer, part, received). length buffer - received)")
    (auto simp: get_from_def usize_checked_add_Some
      intro!: diff_less_mono2 dest!: poll_read_length poll_read_length_sym split: if_splits)

declare read_exact_loop.simps [simp del]

definition read_exact_cancelled ::
  "'ie reader \<Rightarrow> u8 list \<Rightarrow> frame_part
    \<Rightarrow> 'ie reader \<times> u8 list \<times> (unit, ('je, 'ie) ipc_error) result" where
  "read_exact_cancelled reader buffer part = read_exact_loop reader buffer part 0"

section \<open>Frames\<close>

definition FRAME_HEADER_BYTES :: nat where
  "FRAME_HEADER_BYTES = 4"

definition u32_to_be_bytes :: "u32 \<Rightarrow> u8 list" where
  "u32_to_be_bytes w =
     [ucast (drop_bit 24 w), ucast (drop_bit 16 w), ucast (drop_bit 8 w), ucast w]"

fun u32_from_be_bytes :: "u8 list \<Rightarrow> u32" where
  "u32_from_be_bytes [a, b, c, d] =
     push_bit 24 (ucast a) OR push_bit 16 (ucast b) OR push_bit 8 (ucast c) OR ucast d"
| "u32_from_be_bytes _ = 0"

definition read_frame ::
  "(nat \<Rightarrow> bool) \<Rightarrow> 'ie reader \<Rightarrow> max_ipc_frame_bytes
    \<Rightarrow> 'ie reader \<times> (u8 list, ('je, 'ie) ipc_error) result" where
  "read_frame alloc reader maximum =
     (case read_exact_cancelled reader (replicate FRAME_HEADER_BYTES 0) Header of
        (reader, header, Err e) \<Rightarrow> (reader, Err e)
      | (reader, header, Ok ()) \<Rightarrow>
          let declared = ucast (u32_from_be_bytes header) :: u64
          in if declared > limit_get maximum
             then (reader, Err (FrameTooLarge declared (limit_get maximum)))
             else if \<not> unat declared < usize_limit
             then (reader, Err FrameLengthUnrepresentable)
             else if \<not> alloc (unat declared)
             then (reader, Err (AllocationFailed (unat declared)))
             else (case read_exact_cancelled reader (replicate (unat declared) 0) Payload of
                 (reader, payload, Err e) \<Rightarrow> (reader, Err e)
               | (reader, payload, Ok ()) \<Rightarrow>
                   (case classify_ipc_frame payload declared maximum of
                      Err _ \<Rightarrow> (reader, Err FrameLengthUnrepresentable)
                    | Ok (WithinLimit _) \<Rightarrow> (reader, Ok payload)
                    | Ok (Reject v) \<Rightarrow>
                        (reader, Err (FrameTooLarge (ble_observed v) (ble_maximum v)))
                    | Ok (Bypass _ v) \<Rightarrow>
                        (reader, Err (FrameTooLarge (ble_observed v) (ble_maximum v)))
                    | Ok (TruncateSafe _ m) \<Rightarrow>
                        (reader, Err (FrameTooLarge (original_bytes m) (limit_get maximum))))))"

datatype 'ie write_outcome = WroteAll | WriteCancelled nat | WriteFailed nat 'ie

text \<open>The result carries the bytes that reached the peer.\<close>

fun put_bytes ::
  "u8 list \<Rightarrow> 'ie write_outcome \<Rightarrow> u8 list \<times> (unit, ('je, 'ie) ipc_error) result" where
  "put_bytes bytes WroteAll = (bytes, Ok ())"
| "put_bytes bytes (WriteCancelled n) = (take n bytes, Err Cancelled)"
| "put_bytes bytes (WriteFailed n e) = (take n bytes, Err (Io e))"

definition write_frame ::
  "u8 list \<Rightarrow> max_ipc_frame_bytes \<Rightarrow> 'ie write_outcome
    \<Rightarrow> u8 list \<times> (unit, ('je, 'ie) ipc_error) result" where
  "write_frame payload maximum outcome =
     (case u64_of_len (length payload) of
        None \<Rightarrow> ([], Err FrameLengthUnrepresentable)
      | Some declared \<Rightarrow>
          (case classify_ipc_frame payload declared maximum of
             Err _ \<Rightarrow> ([], Err FrameLengthUnrepresentable)
           | Ok (Reject v) \<Rightarrow> ([], Err (FrameTooLarge (ble_observed v) (ble_maximum v)))
           | Ok (Bypass _ v) \<Rightarrow> ([], Err (FrameTooLarge (ble_observed v) (ble_maximum v)))
           | Ok (TruncateSafe _ m) \<Rightarrow>
               ([], Err (FrameTooLarge (original_bytes m) (limit_get maximum)))
           | Ok (WithinLimit _) \<Rightarrow>
               (case u32_of_u64 declared of
                  None \<Rightarrow> ([], Err FrameLengthUnrepresentable)
                | Some wire_length \<Rightarrow>
                    put_bytes (u32_to_be_bytes wire_length @ payload) outcome)))"

definition read_message ::
  "(u8 list \<Rightarrow> ('m, 'je) result) \<Rightarrow> (nat \<Rightarrow> bool) \<Rightarrow> 'ie reader \<Rightarrow> max_ipc_frame_bytes
    \<Rightarrow> 'ie reader \<times> ('m, ('je, 'ie) ipc_error) result" where
  "read_message from_slice alloc reader maximum =
     (case read_frame alloc reader maximum of
        (reader, Err e) \<Rightarrow> (reader, Err e)
      | (reader, Ok payload) \<Rightarrow> (reader, map_err MalformedMessage (from_slice payload)))"

section \<open>Bounded serialisation\<close>

datatype write_failure = WriteLimit nat | WriteAllocation nat

record bounded_output =
  bo_bytes :: "u8 list"
  bo_maximum :: nat
  bo_failure :: "write_failure option"

definition bounded_output_new :: "nat \<Rightarrow> bounded_output" where
  "bounded_output_new maximum = \<lparr>bo_bytes = [], bo_maximum = maximum, bo_failure = None\<rparr>"

definition bounded_output_write ::
  "(nat \<Rightarrow> bool) \<Rightarrow> bounded_output \<Rightarrow> u8 list \<Rightarrow> bounded_output \<times> bool" where
  "bounded_output_write alloc out input =
     (case usize_checked_add (length (bo_bytes out)) (length input) of
        None \<Rightarrow> (out, False)
      | Some observed \<Rightarrow>
          if observed > bo_maximum out then (out\<lparr>bo_failure := Some (WriteLimit observed)\<rparr>, False)
          else if \<not> alloc observed
          then (out\<lparr>bo_failure := Some (WriteAllocation observed)\<rparr>, False)
          else (out\<lparr>bo_bytes := bo_bytes out @ input\<rparr>, True))"

text \<open>
  \<open>serde_json::to_writer\<close> emits the pieces of a message in order and stops at the first write
  the output refuses; \<open>io_error\<close> is the error it makes of that refusal. A serialiser is the
  list of pieces and its own verdict at the end.
\<close>

fun to_writer ::
  "(nat \<Rightarrow> bool) \<Rightarrow> 'je \<Rightarrow> bounded_output \<Rightarrow> u8 list list \<Rightarrow> (unit, 'je) result
    \<Rightarrow> bounded_output \<times> (unit, 'je) result" where
  "to_writer alloc io_error out [] verdict = (out, verdict)"
| "to_writer alloc io_error out (piece # pieces) verdict =
     (case bounded_output_write alloc out piece of
        (out', True) \<Rightarrow> to_writer alloc io_error out' pieces verdict
      | (out', False) \<Rightarrow> (out', Err io_error))"

definition serialize_bounded ::
  "('m \<Rightarrow> u8 list list \<times> (unit, 'je) result) \<Rightarrow> 'je \<Rightarrow> (nat \<Rightarrow> bool) \<Rightarrow> 'm \<Rightarrow> max_ipc_frame_bytes
    \<Rightarrow> (u8 list, ('je, 'ie) ipc_error) result" where
  "serialize_bounded serializer io_error alloc message maximum =
     (let wire_maximum = min (limit_get maximum) 0xFFFFFFFF
      in if \<not> unat wire_maximum < usize_limit then Err FrameLengthUnrepresentable
         else case to_writer alloc io_error (bounded_output_new (unat wire_maximum))
                (fst (serializer message)) (snd (serializer message)) of
             (out, verdict) \<Rightarrow>
               (case bo_failure out of
                  Some (WriteLimit observed) \<Rightarrow>
                    (case u64_of_len observed of
                       None \<Rightarrow> Err FrameLengthUnrepresentable
                     | Some declared \<Rightarrow> Err (FrameTooLarge declared (limit_get maximum)))
                | Some (WriteAllocation requested) \<Rightarrow> Err (AllocationFailed requested)
                | None \<Rightarrow> and_then (map_err MalformedMessage verdict) (\<lambda>_. Ok (bo_bytes out))))"

definition write_message ::
  "('m \<Rightarrow> u8 list list \<times> (unit, 'je) result) \<Rightarrow> 'je \<Rightarrow> (nat \<Rightarrow> bool) \<Rightarrow> 'm \<Rightarrow> max_ipc_frame_bytes
    \<Rightarrow> 'ie write_outcome \<Rightarrow> u8 list \<times> (unit, ('je, 'ie) ipc_error) result" where
  "write_message serializer io_error alloc message maximum outcome =
     (case serialize_bounded serializer io_error alloc message maximum of
        Err e \<Rightarrow> ([], Err e)
      | Ok payload \<Rightarrow> write_frame payload maximum outcome)"

section \<open>What exact reads deliver\<close>

text \<open>
  The bytes a reader can deliver before it stops, and why it stops: end of stream,
  cancellation or a failure.
\<close>

fun available :: "'ie reader \<Rightarrow> u8 list" where
  "available [] = []"
| "available (Arrive bytes # events) =
     (if bytes = [] then [] else bytes @ available events)"
| "available (CancelRequested # events) = []"
| "available (ReadFailure e # events) = []"

fun stop_error :: "'ie reader \<Rightarrow> frame_part \<Rightarrow> nat \<Rightarrow> nat \<Rightarrow> ('je, 'ie) ipc_error" where
  "stop_error [] part expected received = Truncated part expected received"
| "stop_error (Arrive bytes # events) part expected received =
     (if bytes = [] then Truncated part expected received
      else stop_error events part expected received)"
| "stop_error (CancelRequested # events) part expected received = Cancelled"
| "stop_error (ReadFailure e # events) part expected received = Io e"

lemma poll_read_available:
  fixes reader :: "'ie reader"
  assumes "0 < room"
  shows "case poll_read reader room :: 'ie reader \<times> (u8 list, ('je, 'ie) ipc_error) result of
      (reader', Ok got) \<Rightarrow>
        available reader = got @ available reader' \<and> length got \<le> room \<and>
        (if got = []
         then \<forall>p e r. stop_error reader p e r = (Truncated p e r :: ('je, 'ie) ipc_error)
         else \<forall>p e r. stop_error reader p e r = (stop_error reader' p e r :: ('je, 'ie) ipc_error)) \<and>
        (got = [] \<longrightarrow> available reader = [])
    | (reader', Err e) \<Rightarrow> available reader = [] \<and> (\<forall>p n r. stop_error reader p n r = e)"
  using assms
  by (cases "(reader, room)" rule: poll_read.cases) (auto simp: drop_eq_Nil)

lemma read_exact_loop_done:
  "length buffer \<le> received \<Longrightarrow> read_exact_loop reader buffer part received = (reader, buffer, Ok ())"
  by (simp add: read_exact_loop.simps)

text \<open>
  The loop is exact: with enough bytes it fills the buffer with the next ones, however they
  are fragmented, and leaves the rest; otherwise it reports why the reader stopped.
\<close>

lemma read_exact_loop_spec:
  fixes reader :: "'ie reader"
  assumes "received \<le> length buffer" and "length buffer < usize_limit"
  shows "case (read_exact_loop reader buffer part received ::
        'ie reader \<times> u8 list \<times> (unit, ('je, 'ie) ipc_error) result) of
      (reader', buffer', Ok _) \<Rightarrow>
        length buffer - received \<le> length (available reader) \<and>
        buffer' = take received buffer @ take (length buffer - received) (available reader) \<and>
        available reader' = drop (length buffer - received) (available reader) \<and>
        (\<forall>p e r. (stop_error reader' p e r :: ('je, 'ie) ipc_error) = stop_error reader p e r)
    | (reader', buffer', Err e) \<Rightarrow>
        length (available reader) < length buffer - received \<and>
        e = stop_error reader part (length buffer) (received + length (available reader))"
  using assms
proof (induction reader buffer part received rule: read_exact_loop.induct [where 'b = 'je])
  case (1 reader buffer part received)
  show ?case
  proof (cases "received < length buffer")
    case False
    with "1.prems" show ?thesis by (simp add: read_exact_loop_done)
  next
    case True
    define room where "room = length buffer - received"
    with True have room: "0 < room" by simp
    have tail: "get_from buffer received = Some (drop received buffer)"
      using True by (simp add: get_from_def)
    obtain reader' and outcome :: "(u8 list, ('je, 'ie) ipc_error) result"
      where polled: "poll_read reader room = (reader', outcome)"
      by fastforce
    have avail: "case outcome of
        Ok got \<Rightarrow> available reader = got @ available reader' \<and> length got \<le> room \<and>
          (if got = [] then \<forall>p e r. stop_error reader p e r = (Truncated p e r :: ('je, 'ie) ipc_error)
           else \<forall>p e r. stop_error reader p e r = (stop_error reader' p e r :: ('je, 'ie) ipc_error)) \<and>
          (got = [] \<longrightarrow> available reader = [])
      | Err e \<Rightarrow> available reader = [] \<and> (\<forall>p n r. stop_error reader p n r = e)"
      using poll_read_available [OF room, of reader, where 'je = 'je]
      by (simp only: polled prod.case)
    note step = read_exact_loop.simps [of reader buffer part received]
    show ?thesis
    proof (cases outcome)
      case (Err e)
      with avail room show ?thesis
        by (subst step) (simp add: True tail polled room_def [symmetric])
    next
      case (Ok got)
      note got = this
      show ?thesis
      proof (cases "got = []")
        case True
        with avail got have "available reader = []"
          and "\<forall>p e r. stop_error reader p e r = (Truncated p e r :: ('je, 'ie) ipc_error)"
          by auto
        with True room got \<open>received < length buffer\<close> show ?thesis
          by (subst step) (simp add: tail polled room_def [symmetric])
      next
        case False
        have len: "received + length got \<le> length buffer"
          using avail got \<open>received < length buffer\<close> by (auto simp: room_def)
        with "1.prems" have add: "usize_checked_add received (length got) = Some (received + length got)"
          by (simp add: usize_checked_add_def)
        let ?buffer = "take received buffer @ got @ drop (received + length got) buffer"
        have size: "length ?buffer = length buffer" using len by simp
        have eq: "(read_exact_loop reader buffer part received ::
              'ie reader \<times> u8 list \<times> (unit, ('je, 'ie) ipc_error) result) =
            read_exact_loop reader' ?buffer part (received + length got)"
          using False True got by (subst step) (simp add: tail polled room_def [symmetric] add)
        have taken: "take (received + length got) ?buffer = take received buffer @ got"
          using len by simp
        have polled': "(reader', Ok got) = (poll_read reader (length (drop received buffer)) ::
            'ie reader \<times> (u8 list, ('je, 'ie) ipc_error) result)"
          using polled got by (simp add: room_def)
        have IH: "case read_exact_loop reader' ?buffer part (received + length got) ::
              'ie reader \<times> u8 list \<times> (unit, ('je, 'ie) ipc_error) result of
            (reader'', buffer', Ok _) \<Rightarrow>
              room - length got \<le> length (available reader') \<and>
              buffer' = take received buffer @ got @
                take (room - length got) (available reader') \<and>
              available reader'' = drop (room - length got) (available reader') \<and>
              (\<forall>p e r. (stop_error reader'' p e r :: ('je, 'ie) ipc_error) =
                stop_error reader' p e r)
          | (reader'', buffer', Err e) \<Rightarrow>
              length (available reader') < room - length got \<and>
              e = stop_error reader' part (length buffer)
                (received + length got + length (available reader'))"
          using "1.IH" [OF \<open>received < length buffer\<close> tail polled' refl _ add] False len "1.prems" taken
          by (simp add: room_def)
        have "length got \<le> room" using len by (simp add: room_def)
        with IH avail got False show ?thesis
          unfolding eq room_def [symmetric]
          by (auto split: prod.splits result.splits simp: add.assoc)
      qed
    qed
  qed
qed

text \<open>The two outcomes of a whole exact read, and the independence from fragmentation.\<close>

lemma read_exact_fills:
  fixes reader :: "'ie reader"
  assumes "length buffer \<le> length (available reader)" and "length buffer < usize_limit"
  obtains reader' where
    "(read_exact_cancelled reader buffer part :: 'ie reader \<times> u8 list \<times> (unit, ('je, 'ie) ipc_error) result) =
       (reader', take (length buffer) (available reader), Ok ())"
    and "available reader' = drop (length buffer) (available reader)"
    and "\<And>p e r. (stop_error reader' p e r :: ('je, 'ie) ipc_error) = stop_error reader p e r"
proof -
  obtain reader' buffer' and outcome :: "(unit, ('je, 'ie) ipc_error) result"
    where eq: "read_exact_loop reader buffer part 0 = (reader', buffer', outcome)"
    by (metis prod_cases3)
  have spec: "case outcome of
      Ok _ \<Rightarrow> buffer' = take (length buffer) (available reader) \<and>
        available reader' = drop (length buffer) (available reader) \<and>
        (\<forall>p e r. (stop_error reader' p e r :: ('je, 'ie) ipc_error) = stop_error reader p e r)
    | Err e \<Rightarrow> False"
    using read_exact_loop_spec [of 0 buffer reader part, where 'je = 'je] assms
    by (cases outcome) (simp_all add: eq)
  show thesis
    by (rule that [of reader']) (use spec eq in \<open>auto simp: read_exact_cancelled_def split: result.splits\<close>)
qed

lemma read_exact_stops:
  fixes reader :: "'ie reader"
  assumes "length (available reader) < length buffer" and "length buffer < usize_limit"
  obtains reader' buffer' where
    "(read_exact_cancelled reader buffer part :: 'ie reader \<times> u8 list \<times> (unit, ('je, 'ie) ipc_error) result) =
       (reader', buffer', Err (stop_error reader part (length buffer) (length (available reader))))"
proof -
  obtain reader' buffer' and outcome :: "(unit, ('je, 'ie) ipc_error) result"
    where eq: "read_exact_loop reader buffer part 0 = (reader', buffer', outcome)"
    by (metis prod_cases3)
  have "outcome = Err (stop_error reader part (length buffer) (length (available reader)))"
    using read_exact_loop_spec [of 0 buffer reader part, where 'je = 'je] assms
    by (cases outcome) (simp_all add: eq)
  with eq that show thesis by (simp add: read_exact_cancelled_def)
qed

section \<open>The frame codec\<close>

lemma u32_to_be_bytes_length [simp]: "length (u32_to_be_bytes w) = 4"
  by (simp add: u32_to_be_bytes_def)

lemma u8_high_bits [simp]: "8 \<le> n \<Longrightarrow> \<not> bit (b :: u8) n"
  using bit_imp_le_length [of b n] by auto

lemma u32_be_bytes_round_trip [simp]: "u32_from_be_bytes (u32_to_be_bytes w) = w"
proof (rule bit_word_eqI)
  fix n
  assume "n < LENGTH(32)"
  then consider "n < 8" | "8 \<le> n" "n < 16" | "16 \<le> n" "n < 24" | "24 \<le> n" "n < 32"
    by fastforce
  then show "bit (u32_from_be_bytes (u32_to_be_bytes w)) n = bit w n"
    by cases (auto simp: u32_to_be_bytes_def bit_or_iff bit_push_bit_iff bit_drop_bit_eq bit_ucast_iff)
qed

lemma u32_to_from_be_bytes:
  "length bytes = 4 \<Longrightarrow> u32_to_be_bytes (u32_from_be_bytes bytes) = bytes"
  by (cases bytes rule: u32_from_be_bytes.cases)
    (auto simp: u32_to_be_bytes_def bit_or_iff bit_push_bit_iff bit_drop_bit_eq bit_ucast_iff
      intro!: bit_word_eqI)

text \<open>
  What \<open>read_frame\<close> computes, as a function of the bytes the peer delivers and of the reason
  \<open>stop\<close> it stops: the wire format, without events, buffers or loops.
\<close>

definition decode_frame ::
  "(nat \<Rightarrow> bool) \<Rightarrow> u64 \<Rightarrow> u8 list \<Rightarrow> (frame_part \<Rightarrow> nat \<Rightarrow> nat \<Rightarrow> ('je, 'ie) ipc_error)
    \<Rightarrow> (u8 list, ('je, 'ie) ipc_error) result" where
  "decode_frame alloc maximum wire stop =
     (if length wire < 4 then Err (stop Header 4 (length wire))
      else let n = unat (u32_from_be_bytes (take 4 wire)) in
        if n > unat maximum then Err (FrameTooLarge (of_nat n) maximum)
        else if \<not> alloc n then Err (AllocationFailed n)
        else if length wire < 4 + n then Err (stop Payload n (length wire - 4))
        else Ok (take n (drop 4 wire)))"

lemma unat_ucast_u32 [simp]: "unat (ucast (w :: u32) :: u64) = unat w"
  using unsigned_less [of w, where 'a = nat] by (simp add: unsigned_ucast_eq take_bit_nat_eq_self)

lemma u64_usize [simp]: "unat (w :: u64) < usize_limit"
  by (simp add: usize_limit_def)

lemma u32_usize [simp]: "unat (w :: u32) < usize_limit"
  using unsigned_less [of w, where 'a = nat] by (simp add: usize_limit_def)

lemma read_frame_spec:
  fixes reader :: "'ie reader"
  shows "case read_frame alloc reader maximum :: 'ie reader \<times> (u8 list, ('je, 'ie) ipc_error) result of
      (reader', outcome) \<Rightarrow>
        outcome = decode_frame alloc (limit_get maximum) (available reader) (stop_error reader) \<and>
        (is_ok outcome \<longrightarrow> available reader' = drop (4 + length (ok_of outcome)) (available reader))"
    (is "case ?run of (reader', outcome) \<Rightarrow> ?goal reader' outcome")
proof (cases "length (available reader) < 4")
  case True
  obtain reader' buffer' where
    "(read_exact_cancelled reader (replicate 4 0) Header ::
        'ie reader \<times> u8 list \<times> (unit, ('je, 'ie) ipc_error) result) =
       (reader', buffer', Err (stop_error reader Header 4 (length (available reader))))"
    using read_exact_stops [of reader "replicate 4 0" Header, where 'je = 'je] True
    by (auto simp: usize_limit_def)
  with True show ?thesis by (simp add: read_frame_def decode_frame_def FRAME_HEADER_BYTES_def)
next
  case False
  define wire where "wire = available reader"
  define w where "w = u32_from_be_bytes (take 4 wire)"
  obtain reader1 where header: "(read_exact_cancelled reader (replicate 4 0) Header ::
        'ie reader \<times> u8 list \<times> (unit, ('je, 'ie) ipc_error) result) =
       (reader1, take 4 wire, Ok ())"
    and rest: "available reader1 = drop 4 wire"
    and stop: "\<And>p e r. (stop_error reader1 p e r :: ('je, 'ie) ipc_error) = stop_error reader p e r"
    using read_exact_fills [of "replicate 4 0" reader Header, where 'je = 'je] False
    by (auto simp: usize_limit_def wire_def)
  note unfold = read_frame_def FRAME_HEADER_BYTES_def header Let_def
  note decode = decode_frame_def wire_def [symmetric] w_def [symmetric]
  have long: "\<not> length wire < 4" using False by (simp add: wire_def)
  consider (large) "limit_get maximum < ucast w"
    | (unallocated) "\<not> limit_get maximum < ucast w" "\<not> alloc (unat w)"
    | (short) "\<not> limit_get maximum < ucast w" "alloc (unat w)" "length wire < 4 + unat w"
    | (whole) "\<not> limit_get maximum < ucast w" "alloc (unat w)" "4 + unat w \<le> length wire"
    by linarith
  then show ?thesis
  proof cases
    case large
    then have "unat (limit_get maximum) < unat w" by (simp add: word_less_nat_alt)
    with large long show ?thesis by (simp add: unfold decode word_unat_eq_iff)
  next
    case unallocated
    then have "\<not> unat (limit_get maximum) < unat w" by (simp add: word_less_nat_alt)
    with unallocated long show ?thesis by (simp add: unfold decode)
  next
    case short
    then have small: "\<not> unat (limit_get maximum) < unat w" by (simp add: word_less_nat_alt)
    obtain reader' buffer' where
      "(read_exact_cancelled reader1 (replicate (unat w) 0) Payload ::
          'ie reader \<times> u8 list \<times> (unit, ('je, 'ie) ipc_error) result) =
         (reader', buffer', Err (stop_error reader1 Payload (unat w) (length wire - 4)))"
      by (rule read_exact_stops [of reader1 "replicate (unat w) 0" Payload, where 'je = 'je])
        (use short long rest in auto)
    with short small long show ?thesis by (simp add: unfold decode stop)
  next
    case whole
    then have small: "\<not> unat (limit_get maximum) < unat w" by (simp add: word_less_nat_alt)
    let ?payload = "take (unat w) (drop 4 wire)"
    obtain reader' where
      body: "(read_exact_cancelled reader1 (replicate (unat w) 0) Payload ::
          'ie reader \<times> u8 list \<times> (unit, ('je, 'ie) ipc_error) result) =
         (reader', ?payload, Ok ())"
      and after: "available reader' = drop (unat w) (drop 4 wire)"
      by (rule read_exact_fills [of "replicate (unat w) 0" reader1 Payload, where 'je = 'je])
        (use whole long rest in auto)
    have len: "length ?payload = unat w" using whole by simp
    with small have "classify_ipc_frame ?payload (ucast w) maximum = Ok (WithinLimit ?payload)"
      by (simp add: classify_ipc_frame_within)
    with whole small long body after len show ?thesis
      by (simp add: unfold decode drop_drop add.commute)
  qed
qed

text \<open>
  C28. Reading a frame depends only on the bytes the peer delivers and on why it stops,
  not on how the transport fragments them: \<open>read_frame\<close> returns what the wire format
  \<open>decode_frame\<close> says. In particular an oversized declaration is refused before memory is
  requested for it, and a short one is reported as truncated.
\<close>

theorem read_frame_decodes:
  fixes reader :: "'ie reader"
  shows "snd (read_frame alloc reader maximum) =
     (decode_frame alloc (limit_get maximum) (available reader) (stop_error reader) ::
       (u8 list, ('je, 'ie) ipc_error) result)"
  using read_frame_spec [of alloc maximum reader, where 'je = 'je]
  by (cases "read_frame alloc reader maximum :: 'ie reader \<times> (u8 list, ('je, 'ie) ipc_error) result") simp

text \<open>A written frame is its length, big-endian, and the payload; both bounds hold of it.\<close>

lemma write_frame_wrote_all:
  "write_frame payload maximum WroteAll = (wire, Ok ()) \<longleftrightarrow>
     length payload \<le> unat (limit_get maximum) \<and> length payload < 2 ^ 32 \<and>
     wire = u32_to_be_bytes (of_nat (length payload)) @ payload"
proof (cases "length payload \<le> unat (limit_get maximum)")
  case True
  also have "unat (limit_get maximum) < 2 ^ 64" by simp
  finally have small: "length payload < 2 ^ 64" .
  then have "unat (of_nat (length payload) :: u64) = length payload" by (simp add: unat_of_nat)
  moreover from this True have
    "classify_ipc_frame payload (of_nat (length payload)) maximum = Ok (WithinLimit payload)"
    by (simp add: classify_ipc_frame_within)
  moreover have "(ucast (of_nat (length payload) :: u64) :: u32) = of_nat (length payload)"
    using small by (simp add: unsigned_of_nat take_bit_nat_eq_self)
  ultimately show ?thesis
    using True small by (auto simp: write_frame_def u64_of_len_def u32_of_u64_def)
next
  case False
  then have "\<not> classify_ipc_frame payload d maximum = Ok (WithinLimit bs)" for d bs
    by (simp add: classify_ipc_frame_within)
  with False show ?thesis
    by (auto simp: write_frame_def split: option.splits result.splits byte_decision.splits)
qed

lemma decode_frame_Ok:
  "decode_frame alloc maximum wire stop = Ok payload \<longleftrightarrow>
     (\<exists>rest. wire = u32_to_be_bytes (of_nat (length payload)) @ payload @ rest) \<and>
     length payload < 2 ^ 32 \<and> length payload \<le> unat maximum \<and> alloc (length payload)"
proof
  assume decoded: "decode_frame alloc maximum wire stop = Ok payload"
  let ?w = "u32_from_be_bytes (take 4 wire)"
  from decoded have facts: "4 + unat ?w \<le> length wire" "unat ?w \<le> unat maximum" "alloc (unat ?w)"
      "payload = take (unat ?w) (drop 4 wire)"
    by (auto simp: decode_frame_def Let_def split: if_splits)
  then have len: "length payload = unat ?w" by simp
  have "u32_to_be_bytes ?w = take 4 wire"
    using facts(1) by (intro u32_to_from_be_bytes) simp
  moreover have "wire = take 4 wire @ take (unat ?w) (drop 4 wire) @ drop (unat ?w) (drop 4 wire)"
    by (simp only: append_take_drop_id)
  ultimately have
    "wire = u32_to_be_bytes (of_nat (length payload)) @ payload @ drop (unat ?w) (drop 4 wire)"
    unfolding len facts(4) [symmetric] by simp
  moreover have "length payload < 2 ^ 32"
    unfolding len using unsigned_less [of ?w, where 'a = nat] by simp
  ultimately have "(\<exists>rest. wire = u32_to_be_bytes (of_nat (length payload)) @ payload @ rest) \<and>
     length payload < 2 ^ 32"
    by blast
  then show "(\<exists>rest. wire = u32_to_be_bytes (of_nat (length payload)) @ payload @ rest) \<and>
     length payload < 2 ^ 32 \<and> length payload \<le> unat maximum \<and> alloc (length payload)"
    using facts(2,3) by (simp add: len)
next
  assume "(\<exists>rest. wire = u32_to_be_bytes (of_nat (length payload)) @ payload @ rest) \<and>
     length payload < 2 ^ 32 \<and> length payload \<le> unat maximum \<and> alloc (length payload)"
  then show "decode_frame alloc maximum wire stop = Ok payload"
    by (auto simp: decode_frame_def unat_of_nat)
qed

lemma read_written_frame:
  fixes reader :: "'ie reader"
  assumes "available reader = u32_to_be_bytes (of_nat (length payload)) @ payload @ rest"
    and "length payload \<le> unat (limit_get maximum)" and "length payload < 2 ^ 32"
    and "alloc (length payload)"
  obtains reader' where "(read_frame alloc reader maximum ::
      'ie reader \<times> (u8 list, ('je, 'ie) ipc_error) result) = (reader', Ok payload)"
    and "available reader' = rest"
proof -
  have "decode_frame alloc (limit_get maximum) (available reader) (stop_error reader) =
      (Ok payload :: (u8 list, ('je, 'ie) ipc_error) result)"
    using assms by (auto simp: decode_frame_Ok)
  with read_frame_spec [of alloc maximum reader, where 'je = 'je] assms(1) that show thesis
    by (auto split: prod.splits)
qed

text \<open>
  A frame that was written is read back whole: however the transport fragments
  the bytes, the reader receives exactly the payload, and the bytes after the frame stay in the
  reader for the next one.
\<close>

theorem frame_round_trip:
  fixes reader :: "'ie reader"
  assumes "(write_frame payload maximum WroteAll :: u8 list \<times> (unit, ('je, 'ie) ipc_error) result) =
      (wire, Ok ())"
    and "available reader = wire @ rest"
    and "alloc (length payload)"
  shows "\<exists>reader'. (read_frame alloc reader maximum ::
      'ie reader \<times> (u8 list, ('je, 'ie) ipc_error) result) = (reader', Ok payload) \<and>
    available reader' = rest"
proof -
  have sizes: "length payload \<le> unat (limit_get maximum)" "length payload < 2 ^ 32"
    and wire: "available reader = u32_to_be_bytes (of_nat (length payload)) @ payload @ rest"
    using assms(1,2) by (auto simp: write_frame_wrote_all)
  show ?thesis
    by (rule read_written_frame [OF wire sizes, where 'je = 'je and alloc = alloc, OF assms(3)]) blast
qed

text \<open>A frame that arrives in three fragments, with the start of the next one.\<close>

theorem frame_round_trip_witness:
  "\<exists>reader'. read_frame (\<lambda>_. True) [Arrive [0, 0], Arrive [0, 2, 7], Arrive [9, 0]]
      (limit_from_non_zero 4) = (reader', Ok [7, 9] :: (u8 list, (unit, unit) ipc_error) result) \<and>
    available reader' = [0]"
proof (rule frame_round_trip [of "[7, 9]" "limit_from_non_zero 4" "[0, 0, 0, 2, 7, 9]"])
  show "(write_frame [7, 9] (limit_from_non_zero 4) WroteAll ::
      u8 list \<times> (unit, (unit, unit) ipc_error) result) = ([0, 0, 0, 2, 7, 9], Ok ())"
    by (simp add: write_frame_wrote_all u32_to_be_bytes_def)
qed simp_all

lemma read_frame_Ok:
  fixes reader :: "'ie reader"
  assumes "(read_frame alloc reader maximum :: 'ie reader \<times> (u8 list, ('je, 'ie) ipc_error) result) =
      (reader', Ok payload)"
  shows "available reader = u32_to_be_bytes (of_nat (length payload)) @ payload @ available reader' \<and>
    length payload < 2 ^ 32 \<and> length payload \<le> unat (limit_get maximum) \<and> alloc (length payload)"
proof -
  from assms have "(decode_frame alloc (limit_get maximum) (available reader) (stop_error reader) ::
      (u8 list, ('je, 'ie) ipc_error) result) = Ok payload"
    and rest: "available reader' = drop (4 + length payload) (available reader)"
    using read_frame_spec [of alloc maximum reader, where 'je = 'je] by (auto split: prod.splits)
  then show ?thesis
    by (auto simp: decode_frame_Ok)
qed

text \<open>
  C35. Nothing but a well-formed frame within the limit is accepted: when \<open>read_frame\<close>
  returns a payload, the reader delivered the frame that \<open>write_frame\<close> would have produced for
  it, the remaining bytes are untouched, and the memory requested was the payload's length.
\<close>

theorem read_frame_accepts_written_frames:
  fixes reader :: "'ie reader"
  assumes "(read_frame alloc reader maximum :: 'ie reader \<times> (u8 list, ('je, 'ie) ipc_error) result) =
      (reader', Ok payload)"
  shows "(write_frame payload maximum WroteAll :: u8 list \<times> (unit, ('je, 'ie) ipc_error) result) =
      (u32_to_be_bytes (of_nat (length payload)) @ payload, Ok ()) \<and>
    available reader = u32_to_be_bytes (of_nat (length payload)) @ payload @ available reader' \<and>
    alloc (length payload)"
  using read_frame_Ok [OF assms] by (simp add: write_frame_wrote_all)

text \<open>An accepted frame, and what it was written from.\<close>

theorem read_frame_accepts_written_frames_witness:
  "(write_frame [7, 9] (limit_from_non_zero 4) WroteAll ::
      u8 list \<times> (unit, (unit, unit) ipc_error) result) = ([0, 0, 0, 2, 7, 9], Ok ())"
proof -
  have "available [Arrive [0, 0 :: u8], Arrive [0, 2, 7], Arrive [9]] =
      u32_to_be_bytes (of_nat (length [7, 9 :: u8])) @ [7, 9] @ []"
    by (simp add: u32_to_be_bytes_def)
  then obtain reader' where "(read_frame (\<lambda>_. True) [Arrive [0, 0], Arrive [0, 2, 7], Arrive [9]]
      (limit_from_non_zero 4) :: unit reader \<times> (u8 list, (unit, unit) ipc_error) result) =
    (reader', Ok [7, 9])"
    by (rule read_written_frame [where maximum = "limit_from_non_zero 4" and alloc = "\<lambda>_. True"]) simp_all
  from read_frame_accepts_written_frames [OF this] show ?thesis
    by (simp add: u32_to_be_bytes_def)
qed

section \<open>The bounded serialiser as a meter\<close>

interpretation output_meter: meter "bounded_output_write alloc" length "\<lambda>out. length (bo_bytes out)"
  bo_maximum for alloc
  by unfold_locales
    (auto simp: bounded_output_write_def checked_simps split: option.splits if_splits)

text \<open>
  A serialisation that reports success wrote every piece; its output is their concatenation and
  never passed the maximum.
\<close>

lemma to_writer_Ok:
  "to_writer alloc io_error out pieces verdict = (out', Ok u) \<Longrightarrow>
    bo_bytes out' = bo_bytes out @ concat pieces \<and> bo_maximum out' = bo_maximum out \<and>
    out' = run_charges (bounded_output_write alloc) out pieces"
proof (induction pieces arbitrary: out)
  case Nil
  then show ?case by simp
next
  case (Cons piece pieces)
  then obtain out1 where piece: "bounded_output_write alloc out piece = (out1, True)"
    and rest: "to_writer alloc io_error out1 pieces verdict = (out', Ok u)"
    by (auto split: prod.splits bool.splits)
  from piece have "bo_bytes out1 = bo_bytes out @ piece \<and> bo_maximum out1 = bo_maximum out"
    by (auto simp: bounded_output_write_def split: option.splits if_splits)
  with Cons.IH [OF rest] piece show ?case by auto
qed

lemma to_writer_within:
  "to_writer alloc io_error (bounded_output_new n) pieces verdict = (out, Ok u) \<Longrightarrow>
    bo_bytes out = concat pieces \<and> length (bo_bytes out) \<le> n"
  using output_meter.run_within [of "bounded_output_new n" alloc pieces]
  by (auto simp: bounded_output_new_def dest!: to_writer_Ok)

lemma serialize_bounded_Ok:
  assumes "(serialize_bounded serializer io_error alloc message maximum ::
      (u8 list, ('je, 'ie) ipc_error) result) = Ok payload"
  shows "payload = concat (fst (serializer message)) \<and> length payload < 2 ^ 32 \<and>
    length payload \<le> unat (limit_get maximum)"
proof -
  let ?n = "unat (min (limit_get maximum) 0xFFFFFFFF)"
  obtain out verdict where run: "to_writer alloc io_error (bounded_output_new ?n)
      (fst (serializer message)) (snd (serializer message)) = (out, verdict)"
    by fastforce
  with assms have ok: "verdict = Ok ()" "payload = bo_bytes out"
    by (cases verdict; auto simp: serialize_bounded_def Let_def
        split: option.splits write_failure.splits if_splits)+
  from to_writer_within [OF run [unfolded ok(1)]] ok(2)
  have "payload = concat (fst (serializer message))" "length payload \<le> ?n" by auto
  moreover have "?n \<le> unat (limit_get maximum)" "?n < 2 ^ 32"
    by (simp_all add: min_def word_le_nat_alt)
  ultimately show ?thesis by linarith
qed

text \<open>
  What the bounded serialiser returns is the complete serialisation and always
  fits a frame: writing it as a frame under the same limit cannot fail on its size. Together
  with the round trip, a message that was serialised is received byte for byte.
\<close>

theorem serialized_message_fits_frame:
  assumes "(serialize_bounded serializer io_error alloc message maximum ::
      (u8 list, ('je, 'ie) ipc_error) result) = Ok payload"
  shows "payload = concat (fst (serializer message)) \<and>
    (write_frame payload maximum WroteAll :: u8 list \<times> (unit, ('je, 'ie) ipc_error) result) =
      (u32_to_be_bytes (of_nat (length payload)) @ payload, Ok ())"
  using serialize_bounded_Ok [OF assms] by (auto simp: write_frame_wrote_all)

text \<open>Two pieces of a message under a limit of four bytes.\<close>

theorem serialized_message_fits_frame_witness:
  "(write_frame [91, 49, 93] (limit_from_non_zero 4) WroteAll ::
      u8 list \<times> (unit, (unit, unit) ipc_error) result) = ([0, 0, 0, 3, 91, 49, 93], Ok ())"
proof -
  have "(serialize_bounded (\<lambda>_. ([[91], [49, 93]], Ok ())) () (\<lambda>_. True) () (limit_from_non_zero 4) ::
      (u8 list, (unit, unit) ipc_error) result) = Ok [91, 49, 93]"
    by (simp add: serialize_bounded_def bounded_output_new_def bounded_output_write_def
        usize_checked_add_def usize_limit_def Let_def min_def)
  from serialized_message_fits_frame [OF this] show ?thesis by (simp add: u32_to_be_bytes_def)
qed

end
