(* ===== verification/Ipc_Protocol.thy ===== *)
theory Ipc_Protocol
  imports Ipc_Frame
begin

text \<open>
  \<open>crates/tracepress-ipc/src/protocol.rs\<close>, \<open>limits.rs\<close>, \<open>auth.rs\<close>, \<open>endpoint.rs\<close>,
  \<open>client.rs\<close>, \<open>transport.rs\<close> and \<open>queue.rs\<close>: messages, credentials, endpoints, both ends of
  the authenticated protocol and the bounded connection queue. The JSON codec of \<open>serde_json\<close>,
  the sockets and tokio's channel are parameters.
\<close>

section \<open>Messages and limits\<close>

record ipc_limits =
  il_frame :: max_ipc_frame_bytes
  il_request_body :: max_request_body_bytes
  il_response_body :: max_response_body_bytes

record 'id ipc_request =
  irq_request_id :: 'id
  irq_body :: "u8 list"

definition ipc_request_validate_body ::
  "'id ipc_request \<Rightarrow> max_request_body_bytes \<Rightarrow> (unit, ('je, 'ie) ipc_error) result" where
  "ipc_request_validate_body request maximum =
     and_then (ok_or (u64_of_len (length (irq_body request))) FrameLengthUnrepresentable)
       (\<lambda>observed.
       if observed > limit_get maximum
       then Err (RequestBodyTooLarge observed (limit_get maximum))
       else Ok ())"

definition ipc_request_new ::
  "'id \<Rightarrow> u8 list \<Rightarrow> max_request_body_bytes \<Rightarrow> ('id ipc_request, ('je, 'ie) ipc_error) result"
  where
  "ipc_request_new request_id body maximum =
     (let request = \<lparr>irq_request_id = request_id, irq_body = body\<rparr>
      in and_then (ipc_request_validate_body request maximum) (\<lambda>_. Ok request))"

datatype response_outcome = Complete "u8 list" | Incomplete | OutcomeCancelled

definition response_outcome_validate_body ::
  "response_outcome \<Rightarrow> max_response_body_bytes \<Rightarrow> (unit, ('je, 'ie) ipc_error) result" where
  "response_outcome_validate_body outcome maximum =
     (case outcome of
        Complete body \<Rightarrow>
          and_then (ok_or (u64_of_len (length body)) FrameLengthUnrepresentable) (\<lambda>observed.
          if observed > limit_get maximum
          then Err (ResponseBodyTooLarge observed (limit_get maximum))
          else Ok ())
      | Incomplete \<Rightarrow> Ok ()
      | OutcomeCancelled \<Rightarrow> Ok ())"

definition response_outcome_complete ::
  "u8 list \<Rightarrow> max_response_body_bytes \<Rightarrow> (response_outcome, ('je, 'ie) ipc_error) result" where
  "response_outcome_complete body maximum =
     and_then (response_outcome_validate_body (Complete body) maximum) (\<lambda>_. Ok (Complete body))"

record 'id ipc_response =
  irs_request_id :: 'id
  irs_outcome :: response_outcome

definition ipc_response_validate_body ::
  "'id ipc_response \<Rightarrow> max_response_body_bytes \<Rightarrow> (unit, ('je, 'ie) ipc_error) result" where
  "ipc_response_validate_body response maximum =
     response_outcome_validate_body (irs_outcome response) maximum"

section \<open>Credentials and endpoints\<close>

definition CREDENTIAL_BYTES :: nat where
  "CREDENTIAL_BYTES = 32"

typedef credential = "{bytes :: u8 list. length bytes = CREDENTIAL_BYTES}"
  morphisms credential_bytes credential_new
proof
  show "replicate CREDENTIAL_BYTES 0 \<in> {bytes :: u8 list. length bytes = CREDENTIAL_BYTES}" by simp
qed

lemma credential_bytes_length [simp]: "length (credential_bytes c) = 32"
  using credential_bytes [of c] by (simp add: CREDENTIAL_BYTES_def)

lemma credential_new_inverse32 [simp]:
  "length bytes = 32 \<Longrightarrow> credential_bytes (credential_new bytes) = bytes"
  by (simp add: credential_new_inverse CREDENTIAL_BYTES_def)

definition credential_eq :: "credential \<Rightarrow> credential \<Rightarrow> bool" where
  "credential_eq a b \<longleftrightarrow> credential_bytes a = credential_bytes b"

instantiation credential :: equal
begin

definition equal_credential :: "credential \<Rightarrow> credential \<Rightarrow> bool" where
  "equal_credential a b \<longleftrightarrow> credential_eq a b"

instance
  by standard (simp add: equal_credential_def credential_eq_def credential_bytes_inject)

end

datatype ip_addr = V4 "32 word" | V6 "128 word"

fun is_loopback :: "ip_addr \<Rightarrow> bool" where
  "is_loopback (V4 address) \<longleftrightarrow> drop_bit 24 address = 127"
| "is_loopback (V6 address) \<longleftrightarrow> address = 1"

record socket_addr =
  sa_ip :: ip_addr
  sa_port :: u16

datatype tcp_endpoint = TcpEndpoint (tcp_address: socket_addr)

definition tcp_endpoint_new :: "socket_addr \<Rightarrow> (tcp_endpoint, ('je, 'ie) ipc_error) result" where
  "tcp_endpoint_new address =
     (if \<not> is_loopback (sa_ip address) then Err TcpMustBeLoopback
      else if sa_port address = 0 then Err TcpPortUnassigned
      else Ok (TcpEndpoint address))"

datatype unix_endpoint = UnixEndpoint (unix_path: string)

text \<open>A path is its bytes; lossy decoding neither removes nor introduces NUL.\<close>

definition unix_endpoint_new :: "string \<Rightarrow> (unix_endpoint, ('je, 'ie) ipc_error) result" where
  "unix_endpoint_new path =
     (if CHR 0x00 \<in> set path then Err EndpointContainsNul else Ok (UnixEndpoint path))"

datatype named_pipe_endpoint = NamedPipeEndpoint (pipe_name: string)

definition named_pipe_endpoint_new ::
  "string \<Rightarrow> (named_pipe_endpoint, ('je, 'ie) ipc_error) result" where
  "named_pipe_endpoint_new name =
     (if CHR 0x00 \<in> set name then Err EndpointContainsNul
      else Ok (NamedPipeEndpoint 
        ([CHR 0x5C, CHR 0x5C, CHR ''.'', CHR 0x5C] @ ''pipe'' @ [CHR 0x5C] @ name)))"

datatype endpoint = Unix unix_endpoint | NamedPipe named_pipe_endpoint | Tcp tcp_endpoint

section \<open>Connecting\<close>

record 'stream client_connection =
  cc_stream :: 'stream
  cc_credential :: credential
  cc_limits :: ipc_limits

record ipc_client =
  ic_endpoint :: endpoint
  ic_credential :: credential
  ic_limits :: ipc_limits

text \<open>
  \<open>connect\<close> of a Unix build. \<open>cancelled\<close> is the state of the token when the \<open>select!\<close> is
  polled; the system's connect calls and \<open>peer_addr\<close> are parameters.
\<close>

definition ipc_client_connect ::
  "(socket_addr \<Rightarrow> ('stream, 'ie) result) \<Rightarrow> ('stream \<Rightarrow> (socket_addr, 'ie) result)
    \<Rightarrow> (string \<Rightarrow> ('stream, 'ie) result) \<Rightarrow> ipc_client \<Rightarrow> bool
    \<Rightarrow> ('stream client_connection, ('je, 'ie) ipc_error) result" where
  "ipc_client_connect tcp_connect peer_addr unix_connect client cancelled =
     and_then
       (case ic_endpoint client of
          Tcp ep \<Rightarrow>
            if cancelled then Err Cancelled
            else and_then (map_err Io (tcp_connect (tcp_address ep))) (\<lambda>stream.
              and_then (map_err Io (peer_addr stream)) (\<lambda>peer.
              if \<not> is_loopback (sa_ip peer) then Err TcpMustBeLoopback else Ok stream))
        | Unix ep \<Rightarrow>
            if cancelled then Err Cancelled
            else map_err Io (unix_connect (unix_path ep))
        | NamedPipe _ \<Rightarrow> Err UnsupportedEndpoint)
       (\<lambda>stream. Ok \<lparr>cc_stream = stream, cc_credential = ic_credential client,
          cc_limits = ic_limits client\<rparr>)"

section \<open>The two ends of a connection\<close>

definition AUTH_MAGIC :: "u8 list" where
  "AUTH_MAGIC = [0x54, 0x50, 0x41, 0x31]"

definition AUTH_PREFACE_BYTES :: nat where
  "AUTH_PREFACE_BYTES = length AUTH_MAGIC + CREDENTIAL_BYTES"

definition client_send_request ::
  "('id ipc_request \<Rightarrow> u8 list list \<times> (unit, 'je) result) \<Rightarrow> 'je \<Rightarrow> (nat \<Rightarrow> bool)
    \<Rightarrow> credential \<Rightarrow> ipc_limits \<Rightarrow> 'id ipc_request \<Rightarrow> 'ie write_outcome \<Rightarrow> 'ie write_outcome
    \<Rightarrow> u8 list \<times> (unit, ('je, 'ie) ipc_error) result" where
  "client_send_request serializer io_error alloc credential limits request on_preface on_frame =
     (case ipc_request_validate_body request (il_request_body limits) of
        Err e \<Rightarrow> ([], Err e)
      | Ok _ \<Rightarrow>
          (case put_bytes (AUTH_MAGIC @ credential_bytes credential) on_preface of
             (sent, Err e) \<Rightarrow> (sent, Err e)
           | (sent, Ok _) \<Rightarrow>
               (case write_message serializer io_error alloc request (il_frame limits) on_frame of
                  (sent', outcome) \<Rightarrow> (sent @ sent', outcome))))"

definition client_receive_response ::
  "(u8 list \<Rightarrow> ('id ipc_response, 'je) result) \<Rightarrow> (nat \<Rightarrow> bool) \<Rightarrow> ipc_limits \<Rightarrow> 'ie reader
    \<Rightarrow> 'ie reader \<times> ('id ipc_response, ('je, 'ie) ipc_error) result" where
  "client_receive_response from_slice alloc limits reader =
     (case read_message from_slice alloc reader (il_frame limits) of
        (reader, Err e) \<Rightarrow> (reader, Err e)
      | (reader, Ok response) \<Rightarrow>
          (reader, and_then (ipc_response_validate_body response (il_response_body limits))
             (\<lambda>_. Ok response)))"

definition server_receive_request ::
  "(u8 list \<Rightarrow> ('id ipc_request, 'je) result) \<Rightarrow> (nat \<Rightarrow> bool) \<Rightarrow> credential \<Rightarrow> ipc_limits
    \<Rightarrow> 'ie reader \<Rightarrow> 'ie reader \<times> ('id ipc_request, ('je, 'ie) ipc_error) result" where
  "server_receive_request from_slice alloc expected limits reader =
     (case read_exact_cancelled reader (replicate AUTH_PREFACE_BYTES 0) Authentication of
        (reader, preface, Err e) \<Rightarrow> (reader, Err e)
      | (reader, preface, Ok _) \<Rightarrow>
          if take (length AUTH_MAGIC) preface \<noteq> AUTH_MAGIC
          then (reader, Err MalformedAuthentication)
          else (case get_from preface (length AUTH_MAGIC) of
              None \<Rightarrow> (reader, Err MalformedAuthentication)
            | Some supplied \<Rightarrow>
                if length supplied \<noteq> CREDENTIAL_BYTES then (reader, Err MalformedAuthentication)
                else if supplied \<noteq> credential_bytes expected
                then (reader, Err InvalidAuthentication)
                else (case read_message from_slice alloc reader (il_frame limits) of
                    (reader, Err e) \<Rightarrow> (reader, Err e)
                  | (reader, Ok request) \<Rightarrow>
                      (reader, and_then
                         (ipc_request_validate_body request (il_request_body limits))
                         (\<lambda>_. Ok request)))))"

definition server_send_response ::
  "('id ipc_response \<Rightarrow> u8 list list \<times> (unit, 'je) result) \<Rightarrow> 'je \<Rightarrow> (nat \<Rightarrow> bool)
    \<Rightarrow> ipc_limits \<Rightarrow> 'id ipc_response \<Rightarrow> 'ie write_outcome
    \<Rightarrow> u8 list \<times> (unit, ('je, 'ie) ipc_error) result" where
  "server_send_response serializer io_error alloc limits response outcome =
     (case ipc_response_validate_body response (il_response_body limits) of
        Err e \<Rightarrow> ([], Err e)
      | Ok _ \<Rightarrow> write_message serializer io_error alloc response (il_frame limits) outcome)"

section \<open>The bounded connection queue\<close>

text \<open>
  tokio's \<open>mpsc\<close> sender is a parameter: its maximum and remaining capacity, and its
  \<open>try_send\<close>, which returns the channel it leaves.
\<close>

datatype try_send_error = ChannelFull | ChannelClosed

record 'channel connection_sender =
  cs_sender :: 'channel
  cs_maximum :: max_ipc_queue_items

definition connection_try_send ::
  "('channel \<Rightarrow> nat) \<Rightarrow> ('channel \<Rightarrow> nat)
    \<Rightarrow> ('channel \<Rightarrow> 'c \<Rightarrow> 'channel \<times> (unit, try_send_error) result)
    \<Rightarrow> 'channel connection_sender \<Rightarrow> 'c
    \<Rightarrow> 'channel connection_sender \<times> (unit, ('je, 'ie) ipc_error) result" where
  "connection_try_send max_capacity capacity try_send queue connection =
     (if capacity (cs_sender queue) > max_capacity (cs_sender queue)
      then (queue, Err QueueCapacityUnrepresentable)
      else (case u64_of_len (max_capacity (cs_sender queue) - capacity (cs_sender queue)) of
          None \<Rightarrow> (queue, Err QueueCapacityUnrepresentable)
        | Some current_items \<Rightarrow>
            (case classify_ipc_queue current_items 1 (cs_maximum queue) of
               QueueReject _ _ maximum_items \<Rightarrow> (queue, Err (QueueFull maximum_items))
             | QueueWithinLimit _ \<Rightarrow>
                 (case try_send (cs_sender queue) connection of
                    (channel, outcome) \<Rightarrow>
                      (queue\<lparr>cs_sender := channel\<rparr>,
                       map_err (\<lambda>error. case error of
                           ChannelFull \<Rightarrow> QueueFull (limit_get (cs_maximum queue))
                         | ChannelClosed \<Rightarrow> QueueClosed) outcome)))))"

text \<open>
  \<open>send\<close> waits for a permit: the outcome of the wait is an event, and a granted permit sends.
\<close>

datatype reserve_event = PermitGranted | ReserveClosed | ReserveCancelled

fun connection_send ::
  "('channel \<Rightarrow> 'c \<Rightarrow> 'channel) \<Rightarrow> 'channel connection_sender \<Rightarrow> 'c \<Rightarrow> reserve_event
    \<Rightarrow> 'channel connection_sender \<times> (unit, ('je, 'ie) ipc_error) result" where
  "connection_send permit_send queue connection ReserveCancelled = (queue, Err Cancelled)"
| "connection_send permit_send queue connection ReserveClosed = (queue, Err QueueClosed)"
| "connection_send permit_send queue connection PermitGranted =
     (queue\<lparr>cs_sender := permit_send (cs_sender queue) connection\<rparr>, Ok ())"

definition queue_capacity :: "nat \<Rightarrow> max_ipc_queue_items \<Rightarrow> (nat, ('je, 'ie) ipc_error) result" where
  "queue_capacity max_permits maximum =
     (let requested = limit_get maximum;
          supported = (case u64_of_len max_permits of Some n \<Rightarrow> n | None \<Rightarrow> - 1)
      in if requested > supported then Err QueueCapacityUnrepresentable
         else if \<not> unat requested < usize_limit then Err QueueCapacityUnrepresentable
         else Ok (unat requested))"

definition bounded_connections ::
  "nat \<Rightarrow> (nat \<Rightarrow> 'channel) \<Rightarrow> max_ipc_queue_items
    \<Rightarrow> ('channel connection_sender, ('je, 'ie) ipc_error) result" where
  "bounded_connections max_permits channel maximum =
     and_then (queue_capacity max_permits maximum) (\<lambda>capacity.
     Ok \<lparr>cs_sender = channel capacity, cs_maximum = maximum\<rparr>)"

section \<open>Size checks\<close>

lemma ipc_request_validate_body_Ok:
  "ipc_request_validate_body request maximum = Ok u \<longleftrightarrow>
     length (irq_body request) \<le> unat (limit_get maximum)"
  by (auto simp: ipc_request_validate_body_def and_then_eq_Ok checked_simps word_less_nat_alt
      not_less u64_of_len_def unat_of_nat intro!: exI [of _ "of_nat (length (irq_body request))"]
      dest: le_less_trans [OF _ unat_u64_bound])

lemma ipc_request_new_Ok:
  "ipc_request_new request_id body maximum = Ok request \<longleftrightarrow>
     request = \<lparr>irq_request_id = request_id, irq_body = body\<rparr> \<and>
     length body \<le> unat (limit_get maximum)"
  by (auto simp: ipc_request_new_def Let_def and_then_eq_Ok ipc_request_validate_body_Ok)

lemma response_outcome_validate_body_Ok:
  "response_outcome_validate_body (Complete body) maximum = Ok u \<longleftrightarrow>
     length body \<le> unat (limit_get maximum)"
  using ipc_request_validate_body_Ok [of "\<lparr>irq_request_id = (), irq_body = body\<rparr>" maximum u]
  by (cases "u64_of_len (length body)")
    (auto simp: response_outcome_validate_body_def ipc_request_validate_body_def)

section \<open>Authentication\<close>

lemma auth_sizes [simp]: "length AUTH_MAGIC = 4" "AUTH_PREFACE_BYTES = 36" "CREDENTIAL_BYTES = 32"
  by (simp_all add: AUTH_MAGIC_def AUTH_PREFACE_BYTES_def CREDENTIAL_BYTES_def)

text \<open>
  What the server does with the first 36 bytes, whatever decoder it holds: the decoder is not
  consulted before the magic and the credential have been checked.
\<close>

lemma server_receive_request_preface:
  fixes reader :: "'ie reader"
  assumes "36 \<le> length (available reader)"
  obtains reader1 where
    "available reader1 = drop 36 (available reader)"
    and "\<And>from_slice. (server_receive_request from_slice alloc expected limits reader ::
        'ie reader \<times> ('id ipc_request, ('je, 'ie) ipc_error) result) =
      (if take 4 (available reader) \<noteq> AUTH_MAGIC then (reader1, Err MalformedAuthentication)
       else if take 32 (drop 4 (available reader)) \<noteq> credential_bytes expected
       then (reader1, Err InvalidAuthentication)
       else (case read_message from_slice alloc reader1 (il_frame limits) of
           (reader, Err e) \<Rightarrow> (reader, Err e)
         | (reader, Ok request) \<Rightarrow>
             (reader, and_then (ipc_request_validate_body request (il_request_body limits))
                (\<lambda>_. Ok request))))"
proof -
  obtain reader1 where
    preface: "(read_exact_cancelled reader (replicate 36 0) Authentication ::
        'ie reader \<times> u8 list \<times> (unit, ('je, 'ie) ipc_error) result) =
      (reader1, take 36 (available reader), Ok ())"
    and rest: "available reader1 = drop 36 (available reader)"
    by (rule read_exact_fills [of "replicate 36 0" reader Authentication, where 'je = 'je])
      (use assms in \<open>auto simp: usize_limit_def\<close>)
  have parts: "get_from (take 36 (available reader)) 4 = Some (take 32 (drop 4 (available reader)))"
    "take 4 (take 36 (available reader)) = take 4 (available reader)"
    "length (take 32 (drop 4 (available reader))) = 32"
    using assms by (simp_all add: get_from_def drop_take)
  show thesis
    by (rule that [OF rest])
      (simp only: server_receive_request_def auth_sizes preface prod.case result.case parts
        option.case not_True_eq_False if_False HOL.simp_thms)
qed



text \<open>The read and write halves of a message, under a lawful codec.\<close>

lemma write_message_Ok:
  assumes "(write_message serializer io_error alloc message maximum WroteAll ::
      u8 list \<times> (unit, ('je, 'ie) ipc_error) result) = (wire, Ok u)"
  shows "wire = u32_to_be_bytes (of_nat (length (concat (fst (serializer message))))) @
      concat (fst (serializer message)) \<and>
    length (concat (fst (serializer message))) < 2 ^ 32 \<and>
    length (concat (fst (serializer message))) \<le> unat (limit_get maximum)"
proof -
  from assms obtain payload where "(serialize_bounded serializer io_error alloc message maximum ::
      (u8 list, ('je, 'ie) ipc_error) result) = Ok payload"
    and "(write_frame payload maximum WroteAll ::
      u8 list \<times> (unit, ('je, 'ie) ipc_error) result) = (wire, Ok ())"
    by (auto simp: write_message_def split: result.splits)
  then show ?thesis using serialize_bounded_Ok write_frame_wrote_all by metis
qed

text \<open>
  C4. A request that a client sent in full is received by the server that holds the same
  credential and limits, equal to the one sent, however the stream fragments it; what follows
  it on the stream is left for the next read. The JSON codec must decode what it encoded.
\<close>

theorem request_end_to_end:
  fixes reader :: "'ie reader"
  assumes "(client_send_request serializer io_error client_alloc credential limits request
        WroteAll WroteAll :: u8 list \<times> (unit, ('je, 'ie) ipc_error) result) = (wire, Ok ())"
    and "from_slice (concat (fst (serializer request))) = Ok request"
    and "available reader = wire @ rest"
    and "alloc (length wire - 40)"
  shows "\<exists>reader'. (server_receive_request from_slice alloc credential limits reader ::
        'ie reader \<times> ('id ipc_request, ('je, 'ie) ipc_error) result) = (reader', Ok request) \<and>
      available reader' = rest"
proof -
  let ?payload = "concat (fst (serializer request))"
  from assms(1) obtain frame where
    valid: "length (irq_body request) \<le> unat (limit_get (il_request_body limits))"
    and wire: "wire = AUTH_MAGIC @ credential_bytes credential @ frame"
    and frame: "(write_message serializer io_error client_alloc request (il_frame limits) WroteAll ::
        u8 list \<times> (unit, ('je, 'ie) ipc_error) result) = (frame, Ok ())"
    by (auto simp: client_send_request_def ipc_request_validate_body_Ok
        split: result.splits prod.splits)
  note frame = write_message_Ok [OF frame]
  have bytes: "available reader = AUTH_MAGIC @ credential_bytes credential @
      u32_to_be_bytes (of_nat (length ?payload)) @ ?payload @ rest"
    using frame wire assms(3) by simp
  have long: "36 \<le> length (available reader)" unfolding bytes by simp
  have parts: "take 4 (available reader) = AUTH_MAGIC"
    "take 32 (drop 4 (available reader)) = credential_bytes credential"
    "drop 36 (available reader) = u32_to_be_bytes (of_nat (length ?payload)) @ ?payload @ rest"
    unfolding bytes by simp_all
  obtain reader1 where
    rest: "available reader1 = drop 36 (available reader)"
    and run: "(server_receive_request from_slice alloc credential limits reader ::
        'ie reader \<times> ('id ipc_request, ('je, 'ie) ipc_error) result) =
      (if take 4 (available reader) \<noteq> AUTH_MAGIC then (reader1, Err MalformedAuthentication)
       else if take 32 (drop 4 (available reader)) \<noteq> credential_bytes credential
       then (reader1, Err InvalidAuthentication)
       else (case read_message from_slice alloc reader1 (il_frame limits) of
           (reader, Err e) \<Rightarrow> (reader, Err e)
         | (reader, Ok request) \<Rightarrow>
             (reader, and_then (ipc_request_validate_body request (il_request_body limits))
                (\<lambda>_. Ok request))))"
    by (rule server_receive_request_preface [OF long]) blast
  have memory: "alloc (length ?payload)" using assms(4) wire frame by simp
  obtain reader' where "(read_frame alloc reader1 (il_frame limits) ::
      'ie reader \<times> (u8 list, ('je, 'ie) ipc_error) result) = (reader', Ok ?payload)"
    and "available reader' = rest"
    by (rule read_written_frame [of reader1 ?payload rest "il_frame limits" alloc, where 'je = 'je])
      (use rest parts frame memory in auto)
  with assms(2) valid show ?thesis
    by (auto simp: run parts read_message_def ipc_request_validate_body_Ok
        and_then_eq_Ok intro!: exI [of _ reader'])
qed

text \<open>A request of one byte, in two fragments that split the length header.\<close>

theorem request_end_to_end_witness:
  defines "request \<equiv> \<lparr>irq_request_id = (), irq_body = [1 :: u8]\<rparr>"
    and "limits \<equiv> \<lparr>il_frame = limit_from_non_zero 4, il_request_body = limit_from_non_zero 4,
      il_response_body = limit_from_non_zero 4\<rparr>"
    and "credential \<equiv> credential_new (replicate 32 5)"
  shows "\<exists>reader'. (server_receive_request (\<lambda>_. Ok request) (\<lambda>_. True) credential limits
        [Arrive (AUTH_MAGIC @ replicate 32 5 @ [0, 0]), Arrive [0, 1, 7, 8]] ::
        unit reader \<times> (unit ipc_request, (unit, unit) ipc_error) result) = (reader', Ok request) \<and>
      available reader' = [8]"
proof (rule request_end_to_end [where serializer = "\<lambda>_. ([[7]], Ok ())" and io_error = "()"
      and client_alloc = "\<lambda>_. True" and wire = "AUTH_MAGIC @ replicate 32 5 @ [0, 0, 0, 1, 7]"])
  have "(serialize_bounded (\<lambda>_. ([[7]], Ok ())) () (\<lambda>_. True) request (limit_from_non_zero 4) ::
      (u8 list, (unit, unit) ipc_error) result) = Ok [7]"
    by (simp add: serialize_bounded_def bounded_output_new_def bounded_output_write_def
        usize_checked_add_def usize_limit_def Let_def min_def)
  moreover have "(write_frame [7] (limit_from_non_zero 4) WroteAll ::
      u8 list \<times> (unit, (unit, unit) ipc_error) result) = ([0, 0, 0, 1, 7], Ok ())"
    by (simp add: write_frame_wrote_all u32_to_be_bytes_def)
  moreover have "ipc_request_validate_body request (limit_from_non_zero 4) =
      (Ok () :: (unit, (unit, unit) ipc_error) result)"
    by (simp add: ipc_request_validate_body_Ok request_def)
  ultimately show "(client_send_request (\<lambda>_. ([[7]], Ok ())) () (\<lambda>_. True) credential limits request
      WroteAll WroteAll :: u8 list \<times> (unit, (unit, unit) ipc_error) result) =
      (AUTH_MAGIC @ replicate 32 5 @ [0, 0, 0, 1, 7], Ok ())"
    by (simp add: client_send_request_def limits_def credential_def write_message_def)
qed (simp_all add: AUTH_MAGIC_def)

section \<open>Queue admission\<close>

text \<open>A full queue refuses without touching the channel; an accepted item had a free slot.\<close>

lemma connection_try_send_full:
  assumes "capacity (cs_sender queue) \<le> max_capacity (cs_sender queue)"
    and "max_capacity (cs_sender queue) < 2 ^ 64"
    and "unat (limit_get (cs_maximum queue)) \<le>
      max_capacity (cs_sender queue) - capacity (cs_sender queue)"
  shows "connection_try_send max_capacity capacity try_send queue connection =
    (queue, Err (QueueFull (limit_get (cs_maximum queue))))"
proof -
  obtain used where "u64_of_len (max_capacity (cs_sender queue) - capacity (cs_sender queue)) = Some used"
    using assms(2) by (cases "u64_of_len (max_capacity (cs_sender queue) - capacity (cs_sender queue))")
      (auto simp: u64_of_len_None)
  moreover from this have "unat (limit_get (cs_maximum queue)) \<le> unat used"
    using assms(3) by (simp add: u64_of_len_Some)
  ultimately show ?thesis
    using assms(1)
    by (auto simp: connection_try_send_def classify_ipc_queue_def checked_add_Some word_le_nat_alt
        split: option.splits)
qed

lemma connection_try_send_accepted:
  assumes "connection_try_send max_capacity capacity try_send queue connection = (queue', Ok u)"
  shows "max_capacity (cs_sender queue) - capacity (cs_sender queue) <
      unat (limit_get (cs_maximum queue)) \<and>
    try_send (cs_sender queue) connection = (cs_sender queue', Ok u) \<and>
    cs_maximum queue' = cs_maximum queue"
  using assms
  by (auto simp: connection_try_send_def classify_ipc_queue_def checked_add_Some u64_of_len_Some
      word_le_nat_alt map_err_def split: option.splits if_splits prod.splits result.splits
      queue_decision.splits)

end
