(* ===== verification/Provider_Domain.thy ===== *)
theory Provider_Domain
  imports Prelude Complex_Main
begin

text \<open>
  \<open>crates/tracepress-provider/src/domain.rs\<close> and the endpoint profiles of \<open>lib.rs\<close>: provider
  vocabularies, retained usage, normalised usage with its anomalies, observation limits and
  parser errors. URI parsing (\<open>http::Uri\<close>) and \<open>serde_json::from_slice\<close> are parameters.
\<close>

section \<open>Vocabularies\<close>

datatype provider_kind = OpenAi
datatype provider_protocol = OpenAiResponsesV1
datatype provider_transport = OpenAiPublicApi | ChatGptCodexSubscription
datatype compaction_trigger = Manual | Auto | TriggerUnknown
datatype compaction_protocol = ResponsesTriggerV2 | DedicatedEndpointLegacy
datatype provider_request_kind = Turn | Compaction compaction_protocol compaction_trigger
datatype content_encoding = IdentityEncoding | Zstd | UnsupportedEncoding
datatype analysis_decode_status =
    DecodeIdentity | Decoded | DecodeUnsupportedEncoding | CorruptPayload | DecodeResourceLimit
  | DecodeTimeout
datatype observation_status =
    StatusComplete | StatusPartial | StatusUnsupported | StatusMalformed | StatusResourceLimit
  | StatusObserverBackpressure | StatusCancelled
datatype provider_response_state =
    Queued | InProgress | Completed | StateIncomplete | Failed | StateCancelled | Disconnected
  | StateUnknown
datatype usage_status = UsageFinal | UsagePartial | UsageUnavailable
datatype content_capture_mode = CaptureOff | MetadataOnly | LocalRaw

fun trigger_as_wire_str :: "compaction_trigger \<Rightarrow> string" where
  "trigger_as_wire_str Manual = ''manual''"
| "trigger_as_wire_str Auto = ''auto''"
| "trigger_as_wire_str TriggerUnknown = ''unknown''"

fun request_kind_as_wire_str :: "provider_request_kind \<Rightarrow> string" where
  "request_kind_as_wire_str Turn = ''turn''"
| "request_kind_as_wire_str (Compaction ResponsesTriggerV2 _) = ''compaction_v2''"
| "request_kind_as_wire_str (Compaction DedicatedEndpointLegacy _) = ''compaction_legacy''"

fun request_kind_protocol :: "provider_request_kind \<Rightarrow> compaction_protocol option" where
  "request_kind_protocol Turn = None"
| "request_kind_protocol (Compaction protocol _) = Some protocol"

fun request_kind_trigger :: "provider_request_kind \<Rightarrow> compaction_trigger option" where
  "request_kind_trigger Turn = None"
| "request_kind_trigger (Compaction _ trigger) = Some trigger"

definition is_compaction :: "provider_request_kind \<Rightarrow> bool" where
  "is_compaction kind = (case kind of Compaction _ _ \<Rightarrow> True | _ \<Rightarrow> False)"

lemma is_compaction_protocol: "is_compaction kind \<longleftrightarrow> request_kind_protocol kind \<noteq> None"
  by (cases kind) (simp_all add: is_compaction_def)

definition OPENAI_RESPONSES_PARSER_VERSION :: u32 where
  "OPENAI_RESPONSES_PARSER_VERSION = 1"

definition USAGE_NORMALIZER_VERSION :: u32 where
  "USAGE_NORMALIZER_VERSION = 1"

definition MAX_RETAINED_USAGE_BYTES :: nat where
  "MAX_RETAINED_USAGE_BYTES = 64 * 1024"

definition DURABLE_USAGE_COLUMN_BOUND :: nat where
  "DURABLE_USAGE_COLUMN_BOUND = 65536"

section \<open>JSON values\<close>

text \<open>
  The values of \<open>serde_json\<close>: an integer is kept as an unsigned 64-bit number or as a negative
  signed one, a 64-bit word read with \<open>sint\<close>; any other number is a double. A finite double is the rational it denotes. A map
  has distinct keys.
\<close>

type_synonym i64 = "64 word"

datatype f64 = Finite rat | NonFinite
datatype number = PosInt u64 | NegInt i64 | Float f64
datatype json =
    Null
  | Bool bool
  | Number number
  | Text string
  | Array "json list"
  | Object "(string \<times> json) list"

type_synonym json_map = "(string \<times> json) list"

fun as_object :: "json \<Rightarrow> json_map option" where
  "as_object (Object members) = Some members"
| "as_object _ = None"

fun as_array :: "json \<Rightarrow> json list option" where
  "as_array (Array values) = Some values"
| "as_array _ = None"

fun as_str :: "json \<Rightarrow> string option" where
  "as_str (Text s) = Some s"
| "as_str _ = None"

definition json_get :: "json \<Rightarrow> string \<Rightarrow> json option" where
  "json_get value key = (case as_object value of Some members \<Rightarrow> map_of members key | None \<Rightarrow> None)"

text \<open>\<open>Number::as_i64\<close> and \<open>as_u64\<close> of \<open>serde_json\<close>'s representation.\<close>

fun number_as_i64 :: "number \<Rightarrow> i64 option" where
  "number_as_i64 (PosInt n) = (if unat n < 2 ^ 63 then Some n else None)"
| "number_as_i64 (NegInt i) = Some i"
| "number_as_i64 (Float _) = None"

fun number_as_u64 :: "number \<Rightarrow> u64 option" where
  "number_as_u64 (PosInt n) = Some n"
| "number_as_u64 _ = None"

section \<open>Retained and normalised usage\<close>

datatype usage_error = UsageResourceLimit | UsageMalformed

datatype raw_provider_usage = RawProviderUsage (usage_bytes: string)

definition raw_provider_usage_new ::
  "(string \<Rightarrow> json option) \<Rightarrow> string \<Rightarrow> nat \<Rightarrow> (raw_provider_usage, usage_error) result" where
  "raw_provider_usage_new from_slice bytes max_bytes =
     (if length bytes > max_bytes then Err UsageResourceLimit
      else if (case bytes of [] \<Rightarrow> True | b # _ \<Rightarrow> b \<noteq> CHR ''{'') \<or> from_slice bytes = None
      then Err UsageMalformed
      else Ok (RawProviderUsage bytes))"

text \<open>The three transport encodings of a retained usage go through the same constructor.\<close>

definition raw_usage_accept ::
  "(string \<Rightarrow> json option) \<Rightarrow> string \<Rightarrow> (raw_provider_usage, usage_error) result" where
  "raw_usage_accept from_slice bytes = raw_provider_usage_new from_slice bytes (length bytes)"

lemma raw_provider_usage_new_Ok:
  "raw_provider_usage_new from_slice bytes max_bytes = Ok raw \<longleftrightarrow>
     raw = RawProviderUsage bytes \<and> length bytes \<le> max_bytes \<and>
     (\<exists>rest. bytes = CHR ''{'' # rest) \<and> from_slice bytes \<noteq> None"
  by (auto simp: raw_provider_usage_new_def split: list.splits)

record anomaly_flags =
  invalid_number :: bool
  overflow :: bool
  cached_exceeds_input :: bool
  reasoning_exceeds_output :: bool
  inconsistent_total :: bool

definition no_anomalies :: anomaly_flags where
  "no_anomalies = \<lparr>invalid_number = False, overflow = False, cached_exceeds_input = False,
     reasoning_exceeds_output = False, inconsistent_total = False\<rparr>"

definition any_anomaly :: "anomaly_flags \<Rightarrow> bool" where
  "any_anomaly flags \<longleftrightarrow> invalid_number flags \<or> overflow flags \<or> cached_exceeds_input flags \<or>
     reasoning_exceeds_output flags \<or> inconsistent_total flags"

lemma no_anomaly_iff: "\<not> any_anomaly flags \<longleftrightarrow> flags = no_anomalies"
  by (cases flags) (auto simp: any_anomaly_def no_anomalies_def)

record normalized_usage =
  input_total :: "u64 option"
  input_cached :: "u64 option"
  input_uncached :: "u64 option"
  cache_write :: "u64 option"
  output_total :: "u64 option"
  output_reasoning :: "u64 option"
  usage_total :: "u64 option"
  nu_status :: usage_status
  normalizer_version :: u32
  anomalies :: anomaly_flags

section \<open>Limits and errors\<close>

record observation_limits =
  max_semantic_bytes :: nat
  max_usage_bytes :: nat
  max_sse_event_bytes :: nat
  max_sse_events :: nat
  max_json_depth :: nat
  max_json_items :: nat
  max_string_bytes :: nat

definition default_observation_limits :: observation_limits where
  "default_observation_limits =
     \<lparr>max_semantic_bytes = 8 * 1024 * 1024, max_usage_bytes = MAX_RETAINED_USAGE_BYTES,
      max_sse_event_bytes = 1024 * 1024, max_sse_events = 100000, max_json_depth = 64,
      max_json_items = 100000, max_string_bytes = 16 * 1024\<rparr>"

datatype limits_error = ZeroLimit

definition observation_limits_new ::
  "observation_limits \<Rightarrow> (observation_limits, limits_error) result" where
  "observation_limits_new values =
     (if 0 \<in> set [max_semantic_bytes values, max_usage_bytes values, max_sse_event_bytes values,
            max_sse_events values, max_json_depth values, max_json_items values,
            max_string_bytes values]
      then Err ZeroLimit
      else Ok \<lparr>max_semantic_bytes = max_semantic_bytes values,
        max_usage_bytes = max_usage_bytes values,
        max_sse_event_bytes = max_sse_event_bytes values, max_sse_events = max_sse_events values,
        max_json_depth = max_json_depth values, max_json_items = max_json_items values,
        max_string_bytes = max_string_bytes values\<rparr>)"

text \<open>The published defaults are limits the validated constructor accepts.\<close>

lemma default_limits_valid:
  "observation_limits_new default_observation_limits = Ok default_observation_limits"
  "max_usage_bytes default_observation_limits \<le> DURABLE_USAGE_COLUMN_BOUND"
  by (simp_all add: observation_limits_new_def default_observation_limits_def
      MAX_RETAINED_USAGE_BYTES_def DURABLE_USAGE_COLUMN_BOUND_def)

record observation_input =
  oi_bytes :: string
  oi_limits :: observation_limits
  oi_content_capture :: content_capture_mode

definition observation_input_new :: "string \<Rightarrow> observation_limits \<Rightarrow> observation_input" where
  "observation_input_new bytes limits =
     \<lparr>oi_bytes = bytes, oi_limits = limits, oi_content_capture = MetadataOnly\<rparr>"

definition with_content_capture :: "observation_input \<Rightarrow> content_capture_mode \<Rightarrow> observation_input"
  where
  "with_content_capture input mode = input\<lparr>oi_content_capture := mode\<rparr>"

datatype observation_error = ResourceLimit | InvalidText | Malformed

fun status_for_error :: "observation_error \<Rightarrow> observation_status" where
  "status_for_error ResourceLimit = StatusResourceLimit"
| "status_for_error InvalidText = StatusMalformed"
| "status_for_error Malformed = StatusMalformed"

section \<open>Endpoint profiles\<close>

datatype endpoint_profile = OpenAiPublicApiV1 | ChatGptCodexSubscriptionV1

record provider_endpoint =
  pe_endpoint :: string
  pe_profile :: endpoint_profile

datatype 'ue endpoint_error =
    InvalidUri 'ue | UnsupportedScheme | MissingAuthority | WrongPath | SubscriptionResponsesOnly

text \<open>\<open>parse\<close> stands for \<open>http::Uri\<close>: the scheme, the authority and the path it finds.\<close>

definition provider_endpoint_new ::
  "(string \<Rightarrow> (string option \<times> string option \<times> string, 'ue) result) \<Rightarrow> string
    \<Rightarrow> (provider_endpoint, 'ue endpoint_error) result" where
  "provider_endpoint_new parse value =
     and_then (map_err InvalidUri (parse value)) (\<lambda>(scheme, authority, path).
     if scheme \<noteq> Some ''http'' \<and> scheme \<noteq> Some ''https'' then Err UnsupportedScheme
     else if authority = None then Err MissingAuthority
     else if path \<noteq> ''/v1/chat/completions'' \<and> path \<noteq> ''/v1/responses''
       \<and> path \<noteq> ''/v1/responses/compact'' then Err WrongPath
     else Ok \<lparr>pe_endpoint = value, pe_profile = OpenAiPublicApiV1\<rparr>)"

definition chatgpt_codex_subscription :: provider_endpoint where
  "chatgpt_codex_subscription =
     \<lparr>pe_endpoint = ''https://chatgpt.com/backend-api/codex'',
      pe_profile = ChatGptCodexSubscriptionV1\<rparr>"

definition endpoint_transport :: "provider_endpoint \<Rightarrow> provider_transport" where
  "endpoint_transport endpoint =
     (case pe_profile endpoint of
        OpenAiPublicApiV1 \<Rightarrow> OpenAiPublicApi
      | ChatGptCodexSubscriptionV1 \<Rightarrow> ChatGptCodexSubscription)"

definition upstream_path ::
  "provider_endpoint \<Rightarrow> string \<Rightarrow> (string, 'ue endpoint_error) result" where
  "upstream_path endpoint incoming_path =
     (case pe_profile endpoint of
        OpenAiPublicApiV1 \<Rightarrow>
          if incoming_path = ''/v1/chat/completions'' then Ok ''/v1/chat/completions''
          else if incoming_path = ''/v1/responses'' then Ok ''/v1/responses''
          else if incoming_path = ''/v1/responses/compact'' then Ok ''/v1/responses/compact''
          else Err WrongPath
      | ChatGptCodexSubscriptionV1 \<Rightarrow>
          if incoming_path = ''/v1/responses'' then Ok ''/backend-api/codex/responses''
          else if incoming_path = ''/v1/responses/compact''
          then Ok ''/backend-api/codex/responses/compact''
          else Err SubscriptionResponsesOnly)"

text \<open>The public profile is transparent; the subscription profile never forwards chat.\<close>

lemma upstream_path_public:
  "pe_profile endpoint = OpenAiPublicApiV1 \<Longrightarrow> upstream_path endpoint path = Ok path' \<Longrightarrow>
    path' = path"
  by (auto simp: upstream_path_def split: if_splits)

end
