(* ===== verification/Text.thy ===== *)
theory Text
  imports Prelude "HOL-Library.Sublist"
begin

text \<open>
  Text as the code handles it. A Rust \<open>str\<close> is the string of its UTF-8 bytes. These are the
  operations of the standard library the components share: validation, prefixes, lines, ASCII
  words, trimming of Unicode white space, and decimal numerals.
\<close>

section \<open>UTF-8\<close>

definition byte :: "char \<Rightarrow> nat" where
  "byte c = of_char c"

definition continuation :: "char \<Rightarrow> bool" where
  "continuation c \<longleftrightarrow> 0x80 \<le> byte c \<and> byte c < 0xC0"

text \<open>\<open>std::str::from_utf8(bytes).is_ok()\<close>: the well-formed byte sequences of Unicode.\<close>

fun utf8_ok :: "string \<Rightarrow> bool" where
  "utf8_ok [] = True"
| "utf8_ok (a # bytes) =
     (if byte a < 0x80 then utf8_ok bytes
      else if 0xC2 \<le> byte a \<and> byte a \<le> 0xDF then
        (case bytes of b # rest \<Rightarrow> continuation b \<and> utf8_ok rest | _ \<Rightarrow> False)
      else if 0xE0 \<le> byte a \<and> byte a \<le> 0xEF then
        (case bytes of
           b # c # rest \<Rightarrow> continuation b \<and> continuation c
             \<and> (byte a = 0xE0 \<longrightarrow> 0xA0 \<le> byte b) \<and> (byte a = 0xED \<longrightarrow> byte b < 0xA0)
             \<and> utf8_ok rest
         | _ \<Rightarrow> False)
      else if 0xF0 \<le> byte a \<and> byte a \<le> 0xF4 then
        (case bytes of
           b # c # d # rest \<Rightarrow> continuation b \<and> continuation c \<and> continuation d
             \<and> (byte a = 0xF0 \<longrightarrow> 0x90 \<le> byte b) \<and> (byte a = 0xF4 \<longrightarrow> byte b < 0x90)
             \<and> utf8_ok rest
         | _ \<Rightarrow> False)
      else False)"

section \<open>ASCII\<close>

definition is_ascii_whitespace :: "char \<Rightarrow> bool" where
  "is_ascii_whitespace c \<longleftrightarrow>
     c = CHR 0x20 \<or> c = CHR 0x09 \<or> c = CHR 0x0A \<or> c = CHR 0x0C \<or> c = CHR 0x0D"

definition is_ascii_digit :: "char \<Rightarrow> bool" where
  "is_ascii_digit c \<longleftrightarrow> byte CHR ''0'' \<le> byte c \<and> byte c \<le> byte CHR ''9''"

definition is_ascii_alphanumeric :: "char \<Rightarrow> bool" where
  "is_ascii_alphanumeric c \<longleftrightarrow> is_ascii_digit c \<or>
     byte CHR ''A'' \<le> byte c \<and> byte c \<le> byte CHR ''Z'' \<or>
     byte CHR ''a'' \<le> byte c \<and> byte c \<le> byte CHR ''z''"

fun strip_prefix :: "string \<Rightarrow> string \<Rightarrow> string option" where
  "strip_prefix [] bytes = Some bytes"
| "strip_prefix (p # ps) [] = None"
| "strip_prefix (p # ps) (b # bs) = (if p = b then strip_prefix ps bs else None)"

text \<open>\<open>split_ascii_whitespace\<close>: the maximal runs of other bytes.\<close>

fun ascii_fields :: "string \<Rightarrow> string list" where
  "ascii_fields [] = [[]]"
| "ascii_fields (c # rest) =
     (if is_ascii_whitespace c then [] # ascii_fields rest
      else (case ascii_fields rest of
          [] \<Rightarrow> [[c]]
        | field # fields \<Rightarrow> (c # field) # fields))"

definition split_ascii_whitespace :: "string \<Rightarrow> string list" where
  "split_ascii_whitespace s = filter (\<lambda>field. field \<noteq> []) (ascii_fields s)"

section \<open>Lines\<close>

abbreviation newline :: char where
  "newline \<equiv> CHR 0x0A"

text \<open>\<open>split_inclusive('\n')\<close>: every line keeps its terminator, the last may have none.\<close>

fun split_inclusive :: "string \<Rightarrow> string list" where
  "split_inclusive [] = []"
| "split_inclusive (c # rest) =
     (if c = newline then [c] # split_inclusive rest
      else (case split_inclusive rest of
          [] \<Rightarrow> [[c]]
        | line # lines \<Rightarrow> (c # line) # lines))"

definition strip_suffix :: "string \<Rightarrow> string \<Rightarrow> string option" where
  "strip_suffix suff s = (if suffix suff s then Some (take (length s - length suff) s) else None)"

definition strip_or :: "string \<Rightarrow> string \<Rightarrow> string" where
  "strip_or suff s = (case strip_suffix suff s of Some stripped \<Rightarrow> stripped | None \<Rightarrow> s)"

text \<open>\<open>str::lines\<close>: without the terminator, which is a newline after at most one CR.\<close>

definition line_content :: "string \<Rightarrow> string" where
  "line_content line =
     (case strip_suffix [newline] line of
        None \<Rightarrow> line
      | Some content \<Rightarrow> strip_or [CHR 0x0D] content)"

definition str_lines :: "string \<Rightarrow> string list" where
  "str_lines s = map line_content (split_inclusive s)"

section \<open>White space\<close>

text \<open>The UTF-8 encodings of the code points with the Unicode property \<open>White_Space\<close>.\<close>

definition white_space :: "string list" where
  "white_space =
     [[CHR 0x09], [CHR 0x0A], [CHR 0x0B], [CHR 0x0C], [CHR 0x0D], [CHR 0x20],
      [CHR 0xC2, CHR 0x85], [CHR 0xC2, CHR 0xA0], [CHR 0xE1, CHR 0x9A, CHR 0x80]] @
     map (\<lambda>n. [CHR 0xE2, CHR 0x80, char_of (0x80 + n)]) [0..<11] @
     [[CHR 0xE2, CHR 0x80, CHR 0xA8], [CHR 0xE2, CHR 0x80, CHR 0xA9],
      [CHR 0xE2, CHR 0x80, CHR 0xAF], [CHR 0xE2, CHR 0x81, CHR 0x9F],
      [CHR 0xE3, CHR 0x80, CHR 0x80]]"

function trim_with :: "string list \<Rightarrow> string \<Rightarrow> string" where
  "trim_with table s =
     (case find (\<lambda>p. p \<noteq> [] \<and> prefix p s) table of
        None \<Rightarrow> s
      | Some p \<Rightarrow> trim_with table (drop (length p) s))"
  by pat_completeness auto

lemma find_trim_length:
  assumes "find (\<lambda>p. p \<noteq> [] \<and> prefix p s) table = Some p"
  shows "length (drop (length p) s) < length s"
proof -
  from assms have "p \<noteq> []" "prefix p s" by (auto simp: find_Some_iff)
  then show ?thesis by (auto simp: prefix_def)
qed

termination trim_with
  by (relation "measure (\<lambda>(table, s). length s)") (use find_trim_length in auto)

declare trim_with.simps [simp del]

definition trim_start :: "string \<Rightarrow> string" where
  "trim_start s = trim_with white_space s"

definition trim_end :: "string \<Rightarrow> string" where
  "trim_end s = rev (trim_with (map rev white_space) (rev s))"

definition trim :: "string \<Rightarrow> string" where
  "trim s = trim_end (trim_start s)"

section \<open>Numerals\<close>

fun decimal :: "nat \<Rightarrow> string" where
  "decimal n = (if n < 10 then [char_of (48 + n)] else decimal (n div 10) @ [char_of (48 + n mod 10)])"

declare decimal.simps [simp del]

section \<open>Facts about lines\<close>

lemma concat_split_inclusive [simp]: "concat (split_inclusive s) = s"
  by (induction s) (auto split: list.split)

lemma split_inclusive_nonempty: "[] \<notin> set (split_inclusive s)"
  by (induction s) (auto split: list.split)

lemma split_inclusive_eq_Nil [simp]: "split_inclusive s = [] \<longleftrightarrow> s = []"
  by (cases s) (auto split: list.split)

text \<open>A line has its newline at the end or not at all.\<close>

lemma split_inclusive_line:
  "line \<in> set (split_inclusive s) \<Longrightarrow> \<exists>content. newline \<notin> set content \<and>
    (line = content @ [newline] \<or> line = content)"
proof (induction s arbitrary: line)
  case (Cons c s)
  show ?case
  proof (cases "c = newline")
    case True
    with Cons.prems consider "line = [newline]" | "line \<in> set (split_inclusive s)" by auto
    then show ?thesis
    proof cases
      case 1
      then show ?thesis by (intro exI [of _ "[]"]) simp
    qed (rule Cons.IH)
  next
    case False
    with Cons.prems have "line \<in> set (split_inclusive s) \<or> line = [c] \<or>
        (\<exists>l. l \<in> set (split_inclusive s) \<and> line = c # l)"
      by (auto split: list.splits)
    then show ?thesis
      using False Cons.IH by (metis append_Cons empty_iff empty_set set_ConsD)
  qed
qed simp

lemma split_inclusive_unterminated:
  "newline \<notin> set s \<Longrightarrow> split_inclusive s = (if s = [] then [] else [s])"
  by (induction s) auto

lemma split_inclusive_append:
  "newline \<notin> set content \<Longrightarrow>
    split_inclusive (content @ newline # rest) = (content @ [newline]) # split_inclusive rest"
  by (induction content) auto

lemma strip_suffix_append [simp]: "strip_suffix suff (s @ suff) = Some s"
  by (simp add: strip_suffix_def suffix_def)

lemma strip_newline_content:
  "newline \<notin> set content \<Longrightarrow> strip_suffix [newline] content = None"
  by (auto simp: strip_suffix_def suffix_def)

text \<open>Induction over the lines of a text.\<close>

lemma split_first_line:
  obtains "newline \<notin> set s" | content rest where "newline \<notin> set content" "s = content @ newline # rest"
  using split_list_first [of newline s] by blast

lemma line_induct [case_names empty unterminated line]:
  assumes "P []"
    and "\<And>content. content \<noteq> [] \<Longrightarrow> newline \<notin> set content \<Longrightarrow> P content"
    and "\<And>content rest. newline \<notin> set content \<Longrightarrow> P rest \<Longrightarrow> P (content @ newline # rest)"
  shows "P s"
proof (induction s rule: length_induct)
  case (1 s)
  then show ?case
    using assms by (cases s rule: split_first_line) (cases "s = []"; simp)+
qed

section \<open>Facts about words\<close>

lemma ascii_fields_not_Nil [simp]: "ascii_fields s \<noteq> []"
  by (cases s) (auto split: list.split)

lemma ascii_fields_append:
  "is_ascii_whitespace c \<Longrightarrow> ascii_fields (s @ c # rest) = ascii_fields s @ ascii_fields rest"
  by (induction s) (auto split: list.split)

lemma split_ascii_whitespace_append:
  "is_ascii_whitespace c \<Longrightarrow>
    split_ascii_whitespace (s @ c # rest) = split_ascii_whitespace s @ split_ascii_whitespace rest"
  by (simp add: split_ascii_whitespace_def ascii_fields_append)

lemma split_ascii_whitespace_word:
  assumes "s \<noteq> []" and "list_all (\<lambda>c. \<not> is_ascii_whitespace c) s"
  shows "split_ascii_whitespace s = [s]"
proof -
  have "ascii_fields s = [s]"
    using assms(2) by (induction s) auto
  with assms(1) show ?thesis by (simp add: split_ascii_whitespace_def)
qed

lemma split_ascii_whitespace_Nil [simp]: "split_ascii_whitespace [] = []"
  by (simp add: split_ascii_whitespace_def)

lemma ascii_fields_no_space:
  "field \<in> set (ascii_fields s) \<Longrightarrow> list_all (\<lambda>c. \<not> is_ascii_whitespace c) field"
  by (induction s arbitrary: field) (auto split: list.splits if_splits)

lemma ascii_fields_chars: "field \<in> set (ascii_fields s) \<Longrightarrow> set field \<subseteq> set s"
  by (induction s arbitrary: field) (fastforce split: list.splits if_splits)+

lemma split_ascii_whitespace_fields:
  assumes "word \<in> set (split_ascii_whitespace s)"
  shows "word \<noteq> [] \<and> list_all (\<lambda>c. \<not> is_ascii_whitespace c) word \<and> set word \<subseteq> set s"
  using assms ascii_fields_no_space ascii_fields_chars
  by (auto simp: split_ascii_whitespace_def)

end
