(* ===== verification/Provider_Json.thy ===== *)
theory Provider_Json
  imports Provider_Domain Text
begin

text \<open>
  \<open>crates/tracepress-provider/src/json.rs\<close>: text validation, the bounded materialisation of a
  JSON document, exact member spans and bounded string extraction.

  The tokenizer belongs to \<open>serde_json\<close>. A document is what its deserializer presents to the
  visitor: a tree of calls, in which \<open>JError\<close> is a syntax error met at a value and the flag of a
  sequence or map says whether it was closed properly, and the verdict on trailing bytes.
\<close>

section \<open>Text validation\<close>

definition validate_text :: "observation_input \<Rightarrow> (unit, observation_error) result" where
  "validate_text input =
     (if length (oi_bytes input) > max_semantic_bytes (oi_limits input) then Err ResourceLimit
      else if CHR 0x00 \<in> set (oi_bytes input) \<or> \<not> utf8_ok (oi_bytes input) then Err InvalidText
      else Ok ())"

section \<open>Bounded materialisation\<close>

datatype jtree =
    JUnit
  | JBool bool
  | JInt i64
  | JUint u64
  | JFloat f64
  | JStr string
  | JSeq "jtree list" bool
  | JMap "(string \<times> jtree) list" bool
  | JError

record budget =
  b_items :: nat
  b_max_items :: nat
  b_max_depth :: nat
  b_exhausted :: bool

definition add_item :: "budget \<Rightarrow> budget \<times> bool" where
  "add_item budget =
     (let budget = budget\<lparr>b_items := usize_saturating_add (b_items budget) 1\<rparr>
      in if b_items budget > b_max_items budget then (budget\<lparr>b_exhausted := True\<rparr>, False)
         else (budget, True))"

definition enter :: "budget \<Rightarrow> nat \<Rightarrow> budget \<times> nat option" where
  "enter budget depth =
     (let next = usize_saturating_add depth 1
      in if next > b_max_depth budget then (budget\<lparr>b_exhausted := True\<rparr>, None)
         else (budget, Some next))"

text \<open>\<open>From<i64> for Number\<close> and \<open>Number::from_f64\<close>.\<close>

definition number_from_i64 :: "i64 \<Rightarrow> number" where
  "number_from_i64 value = (if sint value < 0 then NegInt value else PosInt value)"

fun number_from_f64 :: "f64 \<Rightarrow> number option" where
  "number_from_f64 (Finite x) = Some (Float (Finite x))"
| "number_from_f64 NonFinite = None"

text \<open>The visitor of \<open>BoundedValue\<close>; \<open>None\<close> is an error of the deserializer or the visitor.\<close>

fun bounded_value :: "budget \<Rightarrow> nat \<Rightarrow> jtree \<Rightarrow> budget \<times> json option"
  and bounded_seq :: "budget \<Rightarrow> nat \<Rightarrow> jtree list \<Rightarrow> bool \<Rightarrow> json list \<Rightarrow> budget \<times> json option"
  and bounded_map ::
    "budget \<Rightarrow> nat \<Rightarrow> (string \<times> jtree) list \<Rightarrow> bool \<Rightarrow> json_map \<Rightarrow> budget \<times> json option" where
  "bounded_value budget depth JUnit = (budget, Some Null)"
| "bounded_value budget depth (JBool value) = (budget, Some (Bool value))"
| "bounded_value budget depth (JInt value) = (budget, Some (Number (number_from_i64 value)))"
| "bounded_value budget depth (JUint value) = (budget, Some (Number (PosInt value)))"
| "bounded_value budget depth (JFloat value) = (budget, map_option Number (number_from_f64 value))"
| "bounded_value budget depth (JStr value) = (budget, Some (Text value))"
| "bounded_value budget depth JError = (budget, None)"
| "bounded_value budget depth (JSeq elements ended) =
     (case enter budget depth of
        (budget, None) \<Rightarrow> (budget, None)
      | (budget, Some depth) \<Rightarrow> bounded_seq budget depth elements ended [])"
| "bounded_value budget depth (JMap members ended) =
     (case enter budget depth of
        (budget, None) \<Rightarrow> (budget, None)
      | (budget, Some depth) \<Rightarrow> bounded_map budget depth members ended [])"
| "bounded_seq budget depth [] ended values =
     (budget, if ended then Some (Array values) else None)"
| "bounded_seq budget depth (element # elements) ended values =
     (case bounded_value budget depth element of
        (budget, None) \<Rightarrow> (budget, None)
      | (budget, Some value) \<Rightarrow>
          (case add_item budget of
             (budget, False) \<Rightarrow> (budget, None)
           | (budget, True) \<Rightarrow> bounded_seq budget depth elements ended (values @ [value])))"
| "bounded_map budget depth [] ended members =
     (budget, if ended then Some (Object members) else None)"
| "bounded_map budget depth ((key, tree) # rest) ended members =
     (case add_item budget of
        (budget, False) \<Rightarrow> (budget, None)
      | (budget, True) \<Rightarrow>
          (case bounded_value budget depth tree of
             (budget, None) \<Rightarrow> (budget, None)
           | (budget, Some value) \<Rightarrow>
               if map_of members key \<noteq> None then (budget, None)
               else bounded_map budget depth rest ended (members @ [(key, value)])))"

definition parse_bounded ::
  "(string \<Rightarrow> jtree \<times> bool) \<Rightarrow> string \<Rightarrow> observation_limits \<Rightarrow> (json, observation_error) result"
  where
  "parse_bounded deserializer bytes limits =
     (let (tree, ended) = deserializer bytes;
          (budget, parsed) = bounded_value
            \<lparr>b_items = 0, b_max_items = max_json_items limits,
             b_max_depth = max_json_depth limits, b_exhausted = False\<rparr> 0 tree
      in case (if ended then parsed else None) of
           Some value \<Rightarrow> Ok value
         | None \<Rightarrow> if b_exhausted budget then Err ResourceLimit else Err Malformed)"

section \<open>Exact member spans\<close>

fun skip_ascii_whitespace :: "string \<Rightarrow> string" where
  "skip_ascii_whitespace [] = []"
| "skip_ascii_whitespace (c # rest) =
     (if \<not> is_ascii_whitespace c then c # rest else skip_ascii_whitespace rest)"

fun string_end :: "bool \<Rightarrow> nat \<Rightarrow> string \<Rightarrow> nat option" where
  "string_end escaped offset [] = None"
| "string_end escaped offset (c # rest) =
     (if escaped then string_end False (Suc offset) rest
      else if c = CHR 0x5C then string_end True (Suc offset) rest
      else if c = CHR 0x22 then Some offset
      else string_end False (Suc offset) rest)"

definition json_string_contents :: "string \<Rightarrow> (string \<times> string) option" where
  "json_string_contents bytes =
     (case string_end False 0 bytes of
        None \<Rightarrow> None
      | Some offset \<Rightarrow> Some (take offset bytes, drop (offset + 1) bytes))"

fun container_scan :: "nat \<Rightarrow> bool \<Rightarrow> bool \<Rightarrow> nat \<Rightarrow> string \<Rightarrow> nat option" where
  "container_scan depth in_string escaped offset [] = None"
| "container_scan depth in_string escaped offset (c # rest) =
     (if in_string then
        (if escaped then container_scan depth True False (Suc offset) rest
         else if c = CHR 0x5C then container_scan depth True True (Suc offset) rest
         else if c = CHR 0x22 then container_scan depth False False (Suc offset) rest
         else container_scan depth True False (Suc offset) rest)
      else if c = CHR 0x22 then container_scan depth True escaped (Suc offset) rest
      else if c = CHR 0x7B \<or> c = CHR 0x5B then
        (case usize_checked_add depth 1 of
           None \<Rightarrow> None
         | Some depth \<Rightarrow> container_scan depth False escaped (Suc offset) rest)
      else if c = CHR 0x7D \<or> c = CHR 0x5D then
        (if depth = 0 then None
         else if depth = 1 then Some (Suc offset)
         else container_scan (depth - 1) False escaped (Suc offset) rest)
      else container_scan depth False escaped (Suc offset) rest)"

definition container_length :: "string \<Rightarrow> nat option" where
  "container_length bytes = container_scan 0 False False 0 bytes"

fun scalar_length :: "string \<Rightarrow> nat" where
  "scalar_length [] = 0"
| "scalar_length (c # rest) =
     (if c = CHR 0x2C \<or> c = CHR 0x7D \<or> c = CHR 0x5D \<or> is_ascii_whitespace c then 0
      else Suc (scalar_length rest))"

definition json_value_span :: "string \<Rightarrow> (string \<times> string) option" where
  "json_value_span bytes =
     (case bytes of
        [] \<Rightarrow> None
      | c # rest \<Rightarrow>
          (case (if c = CHR 0x7B \<or> c = CHR 0x5B then container_length bytes
                 else if c = CHR 0x22 then
                   map_option (\<lambda>(contents, _). length contents + 2) (json_string_contents rest)
                 else Some (scalar_length bytes)) of
             None \<Rightarrow> None
           | Some n \<Rightarrow>
               if n = 0 then None
               else if n \<le> length bytes then Some (take n bytes, drop n bytes)
               else None))"

lemma skip_ascii_whitespace_length: "length (skip_ascii_whitespace bytes) \<le> length bytes"
  by (induction bytes) auto

lemma strip_prefix_length:
  "strip_prefix p bytes = Some rest \<Longrightarrow> length bytes = length p + length rest"
  by (induction p bytes rule: strip_prefix.induct) (auto split: if_splits)

lemma json_string_contents_length:
  "json_string_contents bytes = Some (contents, rest) \<Longrightarrow> length rest \<le> length bytes"
  by (auto simp: json_string_contents_def split: option.splits)

lemma json_value_span_append:
  "json_value_span bytes = Some (value, rest) \<Longrightarrow> bytes = value @ rest \<and> value \<noteq> []"
  by (auto simp: json_value_span_def split: list.splits option.splits if_splits)

lemma json_value_span_length:
  "json_value_span bytes = Some (value, rest) \<Longrightarrow> length rest \<le> length bytes"
  by (auto dest: json_value_span_append)

text \<open>The loop of \<open>member_span\<close>; every round consumes at least the opening quote.\<close>

function member_loop :: "string \<Rightarrow> string \<Rightarrow> string option" where
  "member_loop key remaining =
     (case strip_prefix [CHR 0x22] (skip_ascii_whitespace remaining) of
        None \<Rightarrow> None
      | Some quoted \<Rightarrow>
          (case json_string_contents quoted of
             None \<Rightarrow> None
           | Some (name, after_key) \<Rightarrow>
               (case strip_prefix [CHR 0x3A] (skip_ascii_whitespace after_key) of
                  None \<Rightarrow> None
                | Some after_colon \<Rightarrow>
                    (case json_value_span (skip_ascii_whitespace after_colon) of
                       None \<Rightarrow> None
                     | Some (value, after_value) \<Rightarrow>
                         if name = key then Some value
                         else (case strip_prefix [CHR 0x2C] (skip_ascii_whitespace after_value) of
                             None \<Rightarrow> None
                           | Some remaining \<Rightarrow> member_loop key remaining)))))"
  by pat_completeness auto

termination member_loop
proof (relation "measure (\<lambda>(key, remaining). length remaining)", simp)
  fix key remaining quoted contents name after_key after_colon found item after_value remaining'
  assume "strip_prefix [CHR 0x22] (skip_ascii_whitespace remaining) = Some quoted"
    and "json_string_contents quoted = Some contents" and "(name, after_key) = contents"
    and "strip_prefix [CHR 0x3A] (skip_ascii_whitespace after_key) = Some after_colon"
    and "json_value_span (skip_ascii_whitespace after_colon) = Some found"
    and "(item, after_value) = found" and "name \<noteq> key"
    and "strip_prefix [CHR 0x2C] (skip_ascii_whitespace after_value) = Some remaining'"
  then show "((key, remaining'), (key, remaining)) \<in> measure (\<lambda>(key, remaining). length remaining)"
    using skip_ascii_whitespace_length [of remaining] skip_ascii_whitespace_length [of after_key]
      skip_ascii_whitespace_length [of after_colon] skip_ascii_whitespace_length [of after_value]
    by (auto dest!: strip_prefix_length json_value_span_length json_string_contents_length)
qed

declare member_loop.simps [simp del]

definition member_span :: "string \<Rightarrow> string \<Rightarrow> string option" where
  "member_span bytes key =
     (case strip_prefix [CHR 0x7B] (skip_ascii_whitespace bytes) of
        None \<Rightarrow> None
      | Some remaining \<Rightarrow> member_loop key remaining)"

section \<open>Bounded string extraction\<close>

record string_extraction =
  se_max :: nat
  se_partial :: bool

definition string_extraction_new :: "nat \<Rightarrow> string_extraction" where
  "string_extraction_new limit = \<lparr>se_max = limit, se_partial = False\<rparr>"

definition extract_string ::
  "string_extraction \<Rightarrow> json_map \<Rightarrow> string \<Rightarrow> string_extraction \<times> string option" where
  "extract_string extraction members key =
     (case map_of members key of
        None \<Rightarrow> (extraction, None)
      | Some Null \<Rightarrow> (extraction, None)
      | Some (Text value) \<Rightarrow>
          if length value \<le> se_max extraction \<and> CHR 0x00 \<notin> set value
          then (extraction, Some value)
          else (extraction\<lparr>se_partial := True\<rparr>, None)
      | Some _ \<Rightarrow> (extraction\<lparr>se_partial := True\<rparr>, None))"

record nested_field =
  nf_parent :: string
  nf_key :: string

definition extract_nested ::
  "string_extraction \<Rightarrow> json_map \<Rightarrow> nested_field \<Rightarrow> string_extraction \<times> string option" where
  "extract_nested extraction members field =
     (case map_of members (nf_parent field) of
        None \<Rightarrow> (extraction, None)
      | Some Null \<Rightarrow> (extraction, None)
      | Some (Object value) \<Rightarrow> extract_string extraction value (nf_key field)
      | Some _ \<Rightarrow> (extraction\<lparr>se_partial := True\<rparr>, None))"

text \<open>Nothing longer than the bound, and nothing with a NUL, is ever retained.\<close>

lemma extract_string_bounded:
  "extract_string extraction members key = (extraction', Some value) \<Longrightarrow>
    length value \<le> se_max extraction \<and> CHR 0x00 \<notin> set value \<and>
    map_of members key = Some (Text value) \<and> extraction' = extraction"
  by (auto simp: extract_string_def split: option.splits json.splits if_splits)

lemma extract_nested_bounded:
  "extract_nested extraction members field = (extraction', Some value) \<Longrightarrow>
    length value \<le> se_max extraction \<and> CHR 0x00 \<notin> set value"
  by (auto simp: extract_nested_def dest!: extract_string_bounded split: option.splits json.splits)

section \<open>What bounded materialisation admits\<close>

text \<open>
  The unbounded reading of a document: its value when every node is well formed, every
  container is closed and no object repeats a key; and the two sizes that are bounded.
\<close>

fun tree_value :: "jtree \<Rightarrow> json option" where
  "tree_value JUnit = Some Null"
| "tree_value (JBool value) = Some (Bool value)"
| "tree_value (JInt value) = Some (Number (number_from_i64 value))"
| "tree_value (JUint value) = Some (Number (PosInt value))"
| "tree_value (JFloat value) = map_option Number (number_from_f64 value)"
| "tree_value (JStr value) = Some (Text value)"
| "tree_value JError = None"
| "tree_value (JSeq elements ended) =
     (if ended then map_option Array (those (map tree_value elements)) else None)"
| "tree_value (JMap members ended) =
     (if ended \<and> distinct (map fst members)
      then map_option (\<lambda>values. Object (zip (map fst members) values))
        (those (map (\<lambda>(key, tree). tree_value tree) members))
      else None)"

fun tree_items :: "jtree \<Rightarrow> nat" where
  "tree_items (JSeq elements ended) = sum_list (map (\<lambda>tree. Suc (tree_items tree)) elements)"
| "tree_items (JMap members ended) = sum_list (map (\<lambda>(key, tree). Suc (tree_items tree)) members)"
| "tree_items _ = 0"

fun tree_depth :: "jtree \<Rightarrow> nat" where
  "tree_depth (JSeq elements ended) = Suc (foldr (\<lambda>tree. max (tree_depth tree)) elements 0)"
| "tree_depth (JMap members ended) = Suc (foldr (\<lambda>(key, tree). max (tree_depth tree)) members 0)"
| "tree_depth _ = 0"

definition seq_items :: "jtree list \<Rightarrow> nat" where
  "seq_items elements = sum_list (map (\<lambda>tree. Suc (tree_items tree)) elements)"

definition seq_depth :: "jtree list \<Rightarrow> nat" where
  "seq_depth elements = foldr (\<lambda>tree. max (tree_depth tree)) elements 0"

definition map_items :: "(string \<times> jtree) list \<Rightarrow> nat" where
  "map_items members = sum_list (map (\<lambda>(key, tree). Suc (tree_items tree)) members)"

definition map_depth :: "(string \<times> jtree) list \<Rightarrow> nat" where
  "map_depth members = foldr (\<lambda>(key, tree). max (tree_depth tree)) members 0"

lemma seq_sizes [simp]:
  "seq_items [] = 0" "seq_items (t # ts) = Suc (tree_items t + seq_items ts)"
  "seq_depth [] = 0" "seq_depth (t # ts) = max (tree_depth t) (seq_depth ts)"
  "tree_items (JSeq ts ended) = seq_items ts" "tree_depth (JSeq ts ended) = Suc (seq_depth ts)"
  "map_items [] = 0" "map_items ((k, t) # ms) = Suc (tree_items t + map_items ms)"
  "map_depth [] = 0" "map_depth ((k, t) # ms) = max (tree_depth t) (map_depth ms)"
  "tree_items (JMap ms ended) = map_items ms" "tree_depth (JMap ms ended) = Suc (map_depth ms)"
  by (simp_all add: seq_items_def seq_depth_def map_items_def map_depth_def)

declare tree_items.simps(1,2) [simp del] tree_depth.simps(1,2) [simp del]

text \<open>A budget that is not yet overdrawn, with \<open>n\<close> more items and \<open>k\<close> more levels to come.\<close>

definition solvent :: "budget \<Rightarrow> nat \<Rightarrow> nat \<Rightarrow> nat \<Rightarrow> bool" where
  "solvent budget depth n k \<longleftrightarrow> b_items budget + n < usize_limit \<and> depth + k < usize_limit \<and>
     b_items budget \<le> b_max_items budget \<and> depth \<le> b_max_depth budget"

definition fits :: "budget \<Rightarrow> nat \<Rightarrow> nat \<Rightarrow> nat \<Rightarrow> bool" where
  "fits budget depth n k \<longleftrightarrow>
     b_items budget + n \<le> b_max_items budget \<and> depth + k \<le> b_max_depth budget"

definition charged :: "budget \<Rightarrow> nat \<Rightarrow> budget" where
  "charged budget n = budget\<lparr>b_items := b_items budget + n\<rparr>"

text \<open>
  An outcome agrees with the unbounded reading \<open>reading\<close> of \<open>n\<close> items and \<open>k\<close> levels: it is that
  reading exactly when the sizes fit, and exhaustion is only reported when they do not.
\<close>

definition agrees ::
  "budget \<Rightarrow> nat \<Rightarrow> nat \<Rightarrow> nat \<Rightarrow> json option \<Rightarrow> budget \<times> json option \<Rightarrow> bool" where
  "agrees budget depth n k reading outcome \<longleftrightarrow>
     (if fits budget depth n k \<and> reading \<noteq> None then outcome = (charged budget n, reading)
      else snd outcome = None \<and>
        (fits budget depth n k \<longrightarrow> b_exhausted (fst outcome) = b_exhausted budget))"

lemma enter_solvent:
  "solvent budget depth n (Suc k) \<Longrightarrow>
    enter budget depth = (if Suc depth \<le> b_max_depth budget then (budget, Some (Suc depth))
      else (budget\<lparr>b_exhausted := True\<rparr>, None))"
  by (auto simp: enter_def solvent_def usize_saturating_add_def usize_limit_def Let_def)

lemma add_item_solvent:
  "b_items budget + Suc n < usize_limit \<Longrightarrow>
    add_item budget = (if Suc (b_items budget) \<le> b_max_items budget then (charged budget 1, True)
      else ((charged budget 1)\<lparr>b_exhausted := True\<rparr>, False))"
  by (auto simp: add_item_def solvent_def usize_saturating_add_def usize_limit_def Let_def charged_def)

definition map_reading :: "(string \<times> jtree) list \<Rightarrow> bool \<Rightarrow> json_map \<Rightarrow> json option" where
  "map_reading members ended acc =
     (if ended \<and> distinct (map fst members) \<and> fst ` set acc \<inter> fst ` set members = {}
      then map_option (\<lambda>values. Object (acc @ zip (map fst members) values))
        (those (map (\<lambda>(key, tree). tree_value tree) members))
      else None)"

definition seq_reading :: "jtree list \<Rightarrow> bool \<Rightarrow> json list \<Rightarrow> json option" where
  "seq_reading elements ended acc =
     (if ended then map_option (\<lambda>values. Array (acc @ values)) (those (map tree_value elements))
      else None)"

lemma seq_reading_simps:
  "seq_reading [] ended acc = (if ended then Some (Array acc) else None)"
  "seq_reading (t # ts) ended acc =
    (case tree_value t of None \<Rightarrow> None | Some v \<Rightarrow> seq_reading ts ended (acc @ [v]))"
  by (auto simp: seq_reading_def option.map_comp comp_def split: option.splits)

lemma map_reading_simps:
  "map_reading [] ended acc = (if ended then Some (Object acc) else None)"
  "map_reading ((k, t) # ms) ended acc =
    (case tree_value t of None \<Rightarrow> None
     | Some v \<Rightarrow> if map_of acc k \<noteq> None then None else map_reading ms ended (acc @ [(k, v)]))"
  by (auto simp: map_reading_def option.map_comp comp_def map_of_eq_None_iff image_iff
      split: option.splits)

lemma tree_value_readings:
  "tree_value (JSeq ts ended) = seq_reading ts ended []"
  "tree_value (JMap ms ended) = map_reading ms ended []"
  by (simp_all add: seq_reading_def map_reading_def)

lemma add_max_le: "(d :: nat) + max j k \<le> m \<longleftrightarrow> d + j \<le> m \<and> d + k \<le> m"
  by arith

lemma bounded_agrees:
  "solvent b d (tree_items t) (tree_depth t) \<Longrightarrow>
    agrees b d (tree_items t) (tree_depth t) (tree_value t) (bounded_value b d t)"
  "solvent b d (seq_items ts) (seq_depth ts) \<Longrightarrow>
    agrees b d (seq_items ts) (seq_depth ts) (seq_reading ts ended vs) (bounded_seq b d ts ended vs)"
  "solvent b d (map_items ms) (map_depth ms) \<Longrightarrow>
    agrees b d (map_items ms) (map_depth ms) (map_reading ms ended acc) (bounded_map b d ms ended acc)"
proof (induction b d t and b d ts ended vs and b d ms ended acc
    rule: bounded_value_bounded_seq_bounded_map.induct)
  case (8 budget depth elements ended)
  show ?case
  proof (cases "Suc depth \<le> b_max_depth budget")
    case True
    have e: "enter budget depth = (budget, Some (Suc depth))"
      using enter_solvent [of budget depth _ "seq_depth elements"] "8.prems" True by simp
    have s: "solvent budget (Suc depth) (seq_items elements) (seq_depth elements)"
      using "8.prems" True by (auto simp: solvent_def)
    from "8.IH" [OF e [symmetric] refl s] show ?thesis
      by (simp add: e tree_value_readings agrees_def fits_def del: tree_value.simps)
  next
    case False
    with "8.prems" show ?thesis
      using enter_solvent [of budget depth _ "seq_depth elements"]
      by (simp add: agrees_def fits_def)
  qed
next
  case (9 budget depth members ended)
  show ?case
  proof (cases "Suc depth \<le> b_max_depth budget")
    case True
    have e: "enter budget depth = (budget, Some (Suc depth))"
      using enter_solvent [of budget depth _ "map_depth members"] "9.prems" True by simp
    have s: "solvent budget (Suc depth) (map_items members) (map_depth members)"
      using "9.prems" True by (auto simp: solvent_def)
    from "9.IH" [OF e [symmetric] refl s] show ?thesis
      by (simp add: e tree_value_readings agrees_def fits_def del: tree_value.simps)
  next
    case False
    with "9.prems" show ?thesis
      using enter_solvent [of budget depth _ "map_depth members"]
      by (simp add: agrees_def fits_def)
  qed
next
  case (11 budget depth element elements ended vals)
  have s: "solvent budget depth (tree_items element) (tree_depth element)"
    using "11.prems" by (auto simp: solvent_def)
  note IH = "11.IH"(1) [OF s]
  show ?case
  proof (cases "bounded_value budget depth element")
    case (Pair budget1 outcome)
    show ?thesis
    proof (cases outcome)
      case None
      with IH Pair show ?thesis
        by (auto simp: agrees_def fits_def seq_reading_simps split: if_splits option.splits)
    next
      case (Some v)
      then have b1: "budget1 = charged budget (tree_items element)" "tree_value element = Some v"
          "fits budget depth (tree_items element) (tree_depth element)"
        using IH Pair by (auto simp: agrees_def split: if_splits)
      have add: "add_item budget1 = (if Suc (b_items budget1) \<le> b_max_items budget1
          then (charged budget1 1, True) else ((charged budget1 1)\<lparr>b_exhausted := True\<rparr>, False))"
        by (rule add_item_solvent [of _ "seq_items elements"])
          (use "11.prems" b1 in \<open>auto simp: solvent_def charged_def\<close>)
      show ?thesis
      proof (cases "Suc (b_items budget1) \<le> b_max_items budget1")
        case True
        have s2: "solvent (charged budget1 1) depth (seq_items elements) (seq_depth elements)"
          using "11.prems" True b1 by (auto simp: solvent_def charged_def)
        have a: "(charged budget1 1, True) = add_item budget1" using add True by simp
        from "11.IH"(2) [OF Pair [symmetric] Some a refl s2] show ?thesis
          using Pair Some add True b1
          by (simp add: agrees_def fits_def charged_def seq_reading_simps add_max_le split: if_splits)
      next
        case False
        with Pair Some add b1 show ?thesis
          by (auto simp: agrees_def fits_def charged_def)
      qed
    qed
  qed
next
  case (13 budget depth key tree rest ended members)
  have add: "add_item budget = (if Suc (b_items budget) \<le> b_max_items budget
      then (charged budget 1, True) else ((charged budget 1)\<lparr>b_exhausted := True\<rparr>, False))"
    by (rule add_item_solvent [of _ "tree_items tree + map_items rest"])
      (use "13.prems" in \<open>auto simp: solvent_def\<close>)
  show ?case
  proof (cases "Suc (b_items budget) \<le> b_max_items budget")
    case True
    let ?b = "charged budget 1"
    have a: "(?b, True) = add_item budget" using add True by simp
    have s: "solvent ?b depth (tree_items tree) (tree_depth tree)"
      using "13.prems" True by (auto simp: solvent_def charged_def)
    note IH = "13.IH"(1) [OF a refl s]
    obtain budget1 outcome where val: "bounded_value ?b depth tree = (budget1, outcome)"
      by fastforce
    show ?thesis
    proof (cases outcome)
      case None
      with IH val add True show ?thesis
        by (auto simp: agrees_def fits_def charged_def map_reading_simps split: if_splits option.splits)
    next
      case (Some v)
      then have b1: "budget1 = charged ?b (tree_items tree)" "tree_value tree = Some v"
          "fits ?b depth (tree_items tree) (tree_depth tree)"
        using IH val by (auto simp: agrees_def split: if_splits)
      show ?thesis
      proof (cases "map_of members key = None")
        case True
        have s2: "solvent budget1 depth (map_items rest) (map_depth rest)"
          using "13.prems" b1 \<open>Suc (b_items budget) \<le> b_max_items budget\<close>
          by (auto simp: solvent_def charged_def fits_def)
        from "13.IH"(2) [OF a refl val [symmetric] Some _ s2] show ?thesis
          using val Some add True b1 \<open>Suc (b_items budget) \<le> b_max_items budget\<close>
          by (simp add: agrees_def fits_def charged_def map_reading_simps add_max_le split: if_splits)
      next
        case False
        with val Some add b1 \<open>Suc (b_items budget) \<le> b_max_items budget\<close> show ?thesis
          by (auto simp: agrees_def fits_def charged_def map_reading_simps)
      qed
    qed
  next
    case False
    with add show ?thesis by (auto simp: agrees_def fits_def charged_def)
  qed
qed (auto simp: agrees_def fits_def solvent_def charged_def seq_reading_simps map_reading_simps)



end
