(* ===== verification/Provider_Usage.thy ===== *)
theory Provider_Usage
  imports Provider_Json
begin

text \<open>
  \<open>crates/tracepress-provider/src/response.rs\<close>: usage normalisation with checked arithmetic,
  extraction of the usage member, and the parser of a whole response body. \<open>deserializer\<close> is
  the tokenizer of \<open>Provider_Json\<close>, \<open>from_slice\<close> is \<open>serde_json::from_slice::<Value>\<close>.
\<close>

section \<open>Numbers\<close>

text \<open>The double literal \<open>9.223372036854776e18\<close> is exactly \<open>2 ^ 63\<close>.\<close>

definition MAX_DURABLE_MAGNITUDE :: rat where
  "MAX_DURABLE_MAGNITUDE = 9223372036854775808"

definition durable_count :: "number \<Rightarrow> anomaly_flags \<Rightarrow> anomaly_flags \<times> u64 option" where
  "durable_count n flags =
     (case number_as_i64 n of
        Some i \<Rightarrow>
          if sint i < 0 then (flags\<lparr>invalid_number := True\<rparr>, None) else (flags, Some i)
      | None \<Rightarrow>
          (case number_as_u64 n of
             Some _ \<Rightarrow> (flags\<lparr>overflow := True\<rparr>, None)
           | None \<Rightarrow>
               (case n of
                  Float (Finite x) \<Rightarrow>
                    if \<bar>x\<bar> \<le> MAX_DURABLE_MAGNITUDE
                    then (flags\<lparr>invalid_number := True\<rparr>, None)
                    else (flags\<lparr>overflow := True\<rparr>, None)
                | _ \<Rightarrow> (flags\<lparr>overflow := True\<rparr>, None))))"

definition number_of :: "json option \<Rightarrow> anomaly_flags \<Rightarrow> anomaly_flags \<times> u64 option" where
  "number_of value flags =
     (case value of
        None \<Rightarrow> (flags, None)
      | Some Null \<Rightarrow> (flags, None)
      | Some (Number n) \<Rightarrow> durable_count n flags
      | Some _ \<Rightarrow> (flags\<lparr>invalid_number := True\<rparr>, None))"

definition nested_number ::
  "json_map \<Rightarrow> nested_field \<Rightarrow> anomaly_flags \<Rightarrow> anomaly_flags \<times> u64 option" where
  "nested_number object field flags =
     (case map_of object (nf_parent field) of
        None \<Rightarrow> (flags, None)
      | Some Null \<Rightarrow> (flags, None)
      | Some (Object members) \<Rightarrow> number_of (map_of members (nf_key field)) flags
      | Some _ \<Rightarrow> (flags\<lparr>invalid_number := True\<rparr>, None))"

section \<open>Normalisation\<close>

definition unavailable_with_anomalies :: "anomaly_flags \<Rightarrow> normalized_usage" where
  "unavailable_with_anomalies flags =
     \<lparr>input_total = None, input_cached = None, input_uncached = None, cache_write = None,
      output_total = None, output_reasoning = None, usage_total = None,
      nu_status = UsageUnavailable, normalizer_version = USAGE_NORMALIZER_VERSION,
      anomalies = flags\<rparr>"

text \<open>The consistency checks of \<open>normalize_usage\<close>, after the six components were read.\<close>

definition derive_uncached ::
  "u64 option \<Rightarrow> u64 option \<Rightarrow> anomaly_flags \<Rightarrow> anomaly_flags \<times> u64 option" where
  "derive_uncached total_input cached flags =
     (case (total_input, cached) of
        (Some t, Some c) \<Rightarrow>
          if c \<le> t then (flags, checked_sub t c) else (flags\<lparr>cached_exceeds_input := True\<rparr>, None)
      | _ \<Rightarrow> (flags, None))"

definition check_reasoning :: "u64 option \<Rightarrow> u64 option \<Rightarrow> anomaly_flags \<Rightarrow> anomaly_flags" where
  "check_reasoning output reasoning flags =
     (case (output, reasoning) of
        (Some out, Some r) \<Rightarrow> if r > out then flags\<lparr>reasoning_exceeds_output := True\<rparr> else flags
      | _ \<Rightarrow> flags)"

definition check_total ::
  "u64 option \<Rightarrow> u64 option \<Rightarrow> u64 option \<Rightarrow> anomaly_flags \<Rightarrow> anomaly_flags" where
  "check_total reported input output flags =
     (case (reported, input, output) of
        (Some t, Some i, Some out) \<Rightarrow>
          if checked_add i out \<noteq> Some t then flags\<lparr>inconsistent_total := True\<rparr> else flags
      | _ \<Rightarrow> flags)"

definition normalize_usage ::
  "(string \<Rightarrow> json option) \<Rightarrow> raw_provider_usage \<Rightarrow> normalized_usage" where
  "normalize_usage from_slice raw =
     (case from_slice (usage_bytes raw) of
        None \<Rightarrow> unavailable_with_anomalies (no_anomalies\<lparr>invalid_number := True\<rparr>)
      | Some value \<Rightarrow>
          (case as_object value of
             None \<Rightarrow> unavailable_with_anomalies (no_anomalies\<lparr>invalid_number := True\<rparr>)
           | Some object \<Rightarrow>
               let (flags, in_total) = number_of (map_of object ''input_tokens'') no_anomalies;
                   (flags, in_cached) = nested_number object
                     \<lparr>nf_parent = ''input_tokens_details'', nf_key = ''cached_tokens''\<rparr> flags;
                   (flags, write) = nested_number object
                     \<lparr>nf_parent = ''input_tokens_details'', nf_key = ''cache_write_tokens''\<rparr> flags;
                   (flags, write) = (case write of
                       Some w \<Rightarrow> (flags, Some w)
                     | None \<Rightarrow> nested_number object
                         \<lparr>nf_parent = ''input_tokens_details'', nf_key = ''cache_write''\<rparr> flags);
                   (flags, out_total) = number_of (map_of object ''output_tokens'') flags;
                   (flags, reasoning) = nested_number object
                     \<lparr>nf_parent = ''output_tokens_details'', nf_key = ''reasoning_tokens''\<rparr> flags;
                   (flags, tot) = number_of (map_of object ''total_tokens'') flags;
                   (flags, uncached) = derive_uncached in_total in_cached flags;
                   flags = check_reasoning out_total reasoning flags;
                   flags = check_total tot in_total out_total flags;
                   reported = list_ex (\<lambda>c. c \<noteq> None)
                     [in_total, in_cached, write, out_total, reasoning, tot];
                   status = (if \<not> reported then UsageUnavailable
                     else if any_anomaly flags then UsagePartial else UsageFinal)
               in \<lparr>input_total = in_total, input_cached = in_cached, input_uncached = uncached,
                   cache_write = write, output_total = out_total, output_reasoning = reasoning,
                   usage_total = tot, nu_status = status,
                   normalizer_version = USAGE_NORMALIZER_VERSION, anomalies = flags\<rparr>))"

section \<open>The usage member of a response\<close>

datatype usage_outcome = UsageAbsent | UsageRetained | UsageUnusable | UsageOversized

record usage_evidence =
  ue_raw :: "raw_provider_usage option"
  ue_normalized :: "normalized_usage option"
  ue_status :: usage_status
  ue_outcome :: usage_outcome

definition unusable :: "usage_outcome \<Rightarrow> usage_status \<Rightarrow> usage_evidence" where
  "unusable outcome status =
     \<lparr>ue_raw = None, ue_normalized = None, ue_status = status, ue_outcome = outcome\<rparr>"

definition extract_usage ::
  "(string \<Rightarrow> json option) \<Rightarrow> json_map \<Rightarrow> string \<Rightarrow> nat \<Rightarrow> usage_evidence" where
  "extract_usage from_slice object object_bytes max_bytes =
     (case map_of object ''usage'' of
        None \<Rightarrow> unusable UsageAbsent UsageUnavailable
      | Some Null \<Rightarrow> unusable UsageAbsent UsageUnavailable
      | Some (Object _) \<Rightarrow>
          (case member_span object_bytes ''usage'' of
             None \<Rightarrow> unusable UsageUnusable UsagePartial
           | Some bytes \<Rightarrow>
               (case raw_provider_usage_new from_slice bytes max_bytes of
                  Ok raw \<Rightarrow>
                    let normalized = normalize_usage from_slice raw
                    in \<lparr>ue_raw = Some raw, ue_normalized = Some normalized,
                        ue_status = nu_status normalized, ue_outcome = UsageRetained\<rparr>
                | Err UsageResourceLimit \<Rightarrow> unusable UsageOversized UsageUnavailable
                | Err UsageMalformed \<Rightarrow> unusable UsageUnusable UsagePartial))
      | Some _ \<Rightarrow> unusable UsageUnusable UsagePartial)"

definition settle_usage_status :: "usage_status \<Rightarrow> bool \<Rightarrow> usage_status" where
  "settle_usage_status status is_terminal =
     (case status of
        UsageFinal \<Rightarrow> if \<not> is_terminal then UsagePartial else UsageFinal
      | UsagePartial \<Rightarrow> UsagePartial
      | UsageUnavailable \<Rightarrow> UsageUnavailable)"

definition is_terminal_state :: "provider_response_state \<Rightarrow> bool" where
  "is_terminal_state state =
     (case state of
        Completed \<Rightarrow> True | StateIncomplete \<Rightarrow> True | Failed \<Rightarrow> True | StateCancelled \<Rightarrow> True
      | Queued \<Rightarrow> False | InProgress \<Rightarrow> False | Disconnected \<Rightarrow> False | StateUnknown \<Rightarrow> False)"

definition map_status :: "string \<Rightarrow> provider_response_state" where
  "map_status status =
     (if status = ''queued'' then Queued
      else if status = ''in_progress'' then InProgress
      else if status = ''completed'' then Completed
      else if status = ''incomplete'' then StateIncomplete
      else if status = ''failed'' \<or> status = ''error'' then Failed
      else if status = ''cancelled'' \<or> status = ''canceled'' then StateCancelled
      else StateUnknown)"

fun contains_compaction_item :: "json \<Rightarrow> bool"
  and contains_compaction_item_object :: "json_map \<Rightarrow> bool"
  and any_compaction :: "json list \<Rightarrow> bool"
  and any_member_compaction :: "json_map \<Rightarrow> bool" where
  "contains_compaction_item (Object object) = contains_compaction_item_object object"
| "contains_compaction_item (Array elements) = any_compaction elements"
| "contains_compaction_item Null = False"
| "contains_compaction_item (Bool _) = False"
| "contains_compaction_item (Number _) = False"
| "contains_compaction_item (Text _) = False"
| "contains_compaction_item_object object =
     (map_of object ''type'' = Some (Text ''compaction'') \<or> any_member_compaction object)"
| "any_compaction [] = False"
| "any_compaction (element # elements) =
     (contains_compaction_item element \<or> any_compaction elements)"
| "any_member_compaction [] = False"
| "any_member_compaction ((key, element) # rest) =
     (contains_compaction_item element \<or> any_member_compaction rest)"

section \<open>A whole response body\<close>

record response_observation =
  ro_provider :: provider_kind
  ro_protocol :: provider_protocol
  ro_parser_version :: u32
  ro_status :: observation_status
  ro_provider_response_id :: "string option"
  ro_model :: "string option"
  ro_created_at :: "u64 option"
  ro_response_state :: provider_response_state
  ro_incomplete_reason :: "string option"
  ro_error_code :: "string option"
  ro_raw_usage :: "raw_provider_usage option"
  ro_compaction_output_seen :: bool
  ro_normalized_usage :: "normalized_usage option"
  ro_chunk_count :: "u64 option"
  ro_byte_count :: "u64 option"
  ro_usage_status :: usage_status
  ro_ttfb_us :: "u64 option"
  ro_ttft_us :: "u64 option"
  ro_duration_us :: "u64 option"

definition response_observation_empty :: "observation_status \<Rightarrow> response_observation" where
  "response_observation_empty status =
     \<lparr>ro_provider = OpenAi, ro_protocol = OpenAiResponsesV1,
      ro_parser_version = OPENAI_RESPONSES_PARSER_VERSION, ro_status = status,
      ro_provider_response_id = None, ro_model = None, ro_created_at = None,
      ro_response_state = StateUnknown, ro_incomplete_reason = None, ro_error_code = None,
      ro_raw_usage = None, ro_compaction_output_seen = False, ro_normalized_usage = None,
      ro_chunk_count = None, ro_byte_count = None, ro_usage_status = UsageUnavailable,
      ro_ttfb_us = None, ro_ttft_us = None, ro_duration_us = None\<rparr>"

text \<open>\<open>optional_u64\<close> returns whether it marked the observation partial.\<close>

definition optional_u64 :: "json option \<Rightarrow> bool \<times> u64 option" where
  "optional_u64 value =
     (case value of
        None \<Rightarrow> (False, None)
      | Some Null \<Rightarrow> (False, None)
      | Some (Number n) \<Rightarrow>
          (case number_as_u64 n of Some v \<Rightarrow> (False, Some v) | None \<Rightarrow> (True, None))
      | Some _ \<Rightarrow> (True, None))"

definition mark_partial :: "bool \<Rightarrow> string_extraction \<Rightarrow> string_extraction" where
  "mark_partial marked extraction =
     (if marked then extraction\<lparr>se_partial := True\<rparr> else extraction)"

text \<open>A string member of an optional sub-object; any other non-null value marks it partial.\<close>

definition extract_detail ::
  "string_extraction \<Rightarrow> json option \<Rightarrow> string \<Rightarrow> string_extraction \<times> string option" where
  "extract_detail extraction detail key =
     (case detail of
        None \<Rightarrow> (extraction, None)
      | Some (Object members) \<Rightarrow> extract_string extraction members key
      | Some Null \<Rightarrow> (extraction, None)
      | Some _ \<Rightarrow> (mark_partial True extraction, None))"

definition read_state ::
  "string_extraction \<Rightarrow> json option \<Rightarrow> string_extraction \<times> provider_response_state" where
  "read_state extraction status =
     (case status of
        None \<Rightarrow> (extraction, StateUnknown)
      | Some Null \<Rightarrow> (extraction, StateUnknown)
      | Some (Text s) \<Rightarrow> (extraction, map_status s)
      | Some _ \<Rightarrow> (mark_partial True extraction, StateUnknown))"

definition parse_response ::
  "(string \<Rightarrow> jtree \<times> bool) \<Rightarrow> (string \<Rightarrow> json option) \<Rightarrow> observation_input
    \<Rightarrow> response_observation" where
  "parse_response deserializer from_slice input =
     (let empty = response_observation_empty StatusComplete
      in case and_then (validate_text input)
           (\<lambda>_. parse_bounded deserializer (oi_bytes input) (oi_limits input)) of
           Err error \<Rightarrow> empty\<lparr>ro_status := status_for_error error\<rparr>
         | Ok value \<Rightarrow>
             (case as_object value of
                None \<Rightarrow> empty\<lparr>ro_status := StatusMalformed\<rparr>
              | Some object \<Rightarrow>
                  let ext = string_extraction_new (max_string_bytes (oi_limits input));
                      (ext, response_id) = extract_string ext object ''id'';
                      (ext, model) = extract_string ext object ''model'';
                      (marked, created) = optional_u64 (map_of object ''created_at'');
                      (ext, state) = read_state (mark_partial marked ext) (map_of object ''status'');
                      (ext, reason) = extract_detail ext (map_of object ''incomplete_details'') ''reason'';
                      (ext, code) = extract_detail ext (map_of object ''error'') ''code'';
                      usage = extract_usage from_slice object (oi_bytes input)
                        (max_usage_bytes (oi_limits input));
                      ext = mark_partial (ue_outcome usage = UsageUnusable) ext
                  in empty\<lparr>
                      ro_provider_response_id := response_id, ro_model := model,
                      ro_created_at := created, ro_response_state := state,
                      ro_incomplete_reason := reason, ro_error_code := code,
                      ro_usage_status := settle_usage_status (ue_status usage) (is_terminal_state state),
                      ro_normalized_usage := ue_normalized usage, ro_raw_usage := ue_raw usage,
                      ro_status :=
                        (if ue_outcome usage = UsageOversized then StatusResourceLimit
                         else if se_partial ext then StatusPartial else StatusComplete),
                      ro_compaction_output_seen := contains_compaction_item_object object\<rparr>))"

section \<open>Normalised usage is consistent\<close>

definition usage_components :: "normalized_usage \<Rightarrow> u64 option list" where
  "usage_components usage =
     [input_total usage, input_cached usage, cache_write usage, output_total usage,
      output_reasoning usage, usage_total usage]"

definition durable :: "u64 option \<Rightarrow> bool" where
  "durable count = (case count of None \<Rightarrow> True | Some n \<Rightarrow> unat n < 2 ^ 63)"

text \<open>What a consumer may rely on, over the naturals.\<close>

definition consistent_usage :: "normalized_usage \<Rightarrow> bool" where
  "consistent_usage usage \<longleftrightarrow>
     list_all durable (usage_components usage) \<and>
     map_option unat (input_uncached usage) =
       (case (input_total usage, input_cached usage) of
          (Some t, Some c) \<Rightarrow> if unat c \<le> unat t then Some (unat t - unat c) else None
        | _ \<Rightarrow> None) \<and>
     (cached_exceeds_input (anomalies usage) \<longleftrightarrow>
       (case (input_total usage, input_cached usage) of
          (Some t, Some c) \<Rightarrow> unat t < unat c | _ \<Rightarrow> False)) \<and>
     (reasoning_exceeds_output (anomalies usage) \<longleftrightarrow>
       (case (output_total usage, output_reasoning usage) of
          (Some out, Some r) \<Rightarrow> unat out < unat r | _ \<Rightarrow> False)) \<and>
     (inconsistent_total (anomalies usage) \<longleftrightarrow>
       (case (usage_total usage, input_total usage, output_total usage) of
          (Some t, Some i, Some out) \<Rightarrow> unat t \<noteq> unat i + unat out | _ \<Rightarrow> False)) \<and>
     (nu_status usage = UsageUnavailable \<longleftrightarrow> list_all (\<lambda>c. c = None) (usage_components usage)) \<and>
     (nu_status usage = UsageFinal \<longleftrightarrow>
       \<not> list_all (\<lambda>c. c = None) (usage_components usage) \<and> anomalies usage = no_anomalies)"

definition unflagged :: "anomaly_flags \<Rightarrow> bool" where
  "unflagged flags \<longleftrightarrow> \<not> cached_exceeds_input flags \<and> \<not> reasoning_exceeds_output flags \<and>
     \<not> inconsistent_total flags"

lemma nonneg_i64_bound:
  fixes w :: "64 word"
  assumes "\<not> sint w < 0"
  shows "unat w < 9223372036854775808"
proof -
  have "uint w = take_bit 64 (sint w)" using uint_sint [of w] by simp
  also have "\<dots> = sint w"
    using assms sint_lt [of w] by (simp add: take_bit_int_eq_self)
  finally have "uint w < 9223372036854775808" using sint_lt [of w] by simp
  moreover have "int (unat w) = uint w" by simp
  ultimately show ?thesis by linarith
qed

lemma durable_count_spec:
  "durable_count n flags = (flags', count) \<Longrightarrow>
    (unflagged flags' \<longleftrightarrow> unflagged flags) \<and> durable count"
  by (cases n)
    (auto simp: durable_count_def unflagged_def durable_def nonneg_i64_bound split: if_splits f64.splits)

lemma number_of_spec:
  "number_of value flags = (flags', count) \<Longrightarrow>
    (unflagged flags' \<longleftrightarrow> unflagged flags) \<and> durable count"
  by (auto simp: number_of_def durable_def unflagged_def dest!: durable_count_spec
      split: option.splits json.splits)

lemma nested_number_spec:
  "nested_number object field flags = (flags', count) \<Longrightarrow>
    (unflagged flags' \<longleftrightarrow> unflagged flags) \<and> durable count"
  by (auto simp: nested_number_def durable_def unflagged_def dest!: number_of_spec
      split: option.splits json.splits)

lemma derive_uncached_spec:
  "derive_uncached t c flags = (flags', uncached) \<Longrightarrow>
    map_option unat uncached =
      (case (t, c) of
         (Some t, Some c) \<Rightarrow> if unat c \<le> unat t then Some (unat t - unat c) else None
       | _ \<Rightarrow> None) \<and>
    flags' = (if (case (t, c) of (Some t, Some c) \<Rightarrow> unat t < unat c | _ \<Rightarrow> False)
      then flags\<lparr>cached_exceeds_input := True\<rparr> else flags)"
  by (auto simp: derive_uncached_def checked_sub_def word_le_nat_alt unat_sub split: option.splits if_splits)

lemma check_reasoning_spec:
  "check_reasoning out r flags =
    (if (case (out, r) of (Some out, Some r) \<Rightarrow> unat out < unat r | _ \<Rightarrow> False)
     then flags\<lparr>reasoning_exceeds_output := True\<rparr> else flags)"
  by (auto simp: check_reasoning_def word_less_nat_alt split: option.splits)

lemma check_total_spec:
  "check_total t i out flags =
    (if (case (t, i, out) of
           (Some t, Some i, Some out) \<Rightarrow> unat t \<noteq> unat i + unat out | _ \<Rightarrow> False)
     then flags\<lparr>inconsistent_total := True\<rparr> else flags)"
  by (auto simp: check_total_def checked_add_Some split: option.splits)

lemma normalize_usage_consistent: "consistent_usage (normalize_usage from_slice raw)"
proof (cases "case from_slice (usage_bytes raw) of Some value \<Rightarrow> as_object value | None \<Rightarrow> None")
  case None
  then have "normalize_usage from_slice raw =
      unavailable_with_anomalies (no_anomalies\<lparr>invalid_number := True\<rparr>)"
    by (auto simp: normalize_usage_def split: option.splits)
  then show ?thesis
    by (simp add: consistent_usage_def unavailable_with_anomalies_def usage_components_def
        durable_def no_anomalies_def)
next
  case (Some object)
  then obtain val where val: "from_slice (usage_bytes raw) = Some val" "as_object val = Some object"
    by (auto split: option.splits)
  obtain f1 c1 where n1: "number_of (map_of object ''input_tokens'') no_anomalies = (f1, c1)"
    by fastforce
  obtain f2 c2 where n2: "nested_number object
      \<lparr>nf_parent = ''input_tokens_details'', nf_key = ''cached_tokens''\<rparr> f1 = (f2, c2)" by fastforce
  obtain f3 c3 where n3: "nested_number object
      \<lparr>nf_parent = ''input_tokens_details'', nf_key = ''cache_write_tokens''\<rparr> f2 = (f3, c3)" by fastforce
  obtain f4 c4 where n4: "(case c3 of Some w \<Rightarrow> (f3, Some w) | None \<Rightarrow> nested_number object
      \<lparr>nf_parent = ''input_tokens_details'', nf_key = ''cache_write''\<rparr> f3) = (f4, c4)" by fastforce
  obtain f5 c5 where n5: "number_of (map_of object ''output_tokens'') f4 = (f5, c5)" by fastforce
  obtain f6 c6 where n6: "nested_number object
      \<lparr>nf_parent = ''output_tokens_details'', nf_key = ''reasoning_tokens''\<rparr> f5 = (f6, c6)" by fastforce
  obtain f7 c7 where n7: "number_of (map_of object ''total_tokens'') f6 = (f7, c7)" by fastforce
  obtain f8 c8 where n8: "derive_uncached c1 c2 f7 = (f8, c8)" by fastforce
  have "durable c4 \<and> (unflagged f4 \<longleftrightarrow> unflagged f3)"
    using n4 nested_number_spec [OF n3] by (cases c3) (auto dest!: nested_number_spec)
  then have small: "durable c1" "durable c2" "durable c4" "durable c5" "durable c6" "durable c7"
    and quiet: "unflagged f7"
    using number_of_spec [OF n1] nested_number_spec [OF n2] nested_number_spec [OF n3]
      number_of_spec [OF n5] nested_number_spec [OF n6] number_of_spec [OF n7]
    by (auto simp: unflagged_def no_anomalies_def)
  note d = derive_uncached_spec [OF n8]
  have run: "normalize_usage from_slice raw =
    (let flags = check_total c7 c1 c5 (check_reasoning c5 c6 f8)
     in \<lparr>input_total = c1, input_cached = c2, input_uncached = c8, cache_write = c4,
         output_total = c5, output_reasoning = c6, usage_total = c7,
         nu_status = (if \<not> list_ex (\<lambda>c. c \<noteq> None) [c1, c2, c4, c5, c6, c7] then UsageUnavailable
           else if any_anomaly flags then UsagePartial else UsageFinal),
         normalizer_version = USAGE_NORMALIZER_VERSION, anomalies = flags\<rparr>)"
    by (simp add: normalize_usage_def val n1 n2 n3 n4 n5 n6 n7 n8 Let_def)
  let ?flags = "check_total c7 c1 c5 (check_reasoning c5 c6 f8)"
  have raised:
    "cached_exceeds_input ?flags \<longleftrightarrow>
      (case (c1, c2) of (Some t, Some c) \<Rightarrow> unat t < unat c | _ \<Rightarrow> False)"
    "reasoning_exceeds_output ?flags \<longleftrightarrow>
      (case (c5, c6) of (Some out, Some r) \<Rightarrow> unat out < unat r | _ \<Rightarrow> False)"
    "inconsistent_total ?flags \<longleftrightarrow>
      (case (c7, c1, c5) of (Some t, Some i, Some out) \<Rightarrow> unat t \<noteq> unat i + unat out | _ \<Rightarrow> False)"
    using quiet conjunct2 [OF d]
    by (auto simp: check_total_spec check_reasoning_spec unflagged_def simp del: split_paired_All
        split del: option.split)
  have reported: "list_ex (\<lambda>c. c \<noteq> None) [c1, c2, c4, c5, c6, c7] \<longleftrightarrow>
      \<not> list_all (\<lambda>c. c = None) [c1, c2, c4, c5, c6, c7]" by simp
  show ?thesis
    using small conjunct1 [OF d]
    unfolding run Let_def reported consistent_usage_def usage_components_def
    by (simp add: raised no_anomaly_iff [symmetric])
qed

text \<open>
  C29. Whatever bytes a provider sent as usage, the normalised usage is consistent: every
  component fits a signed 64-bit column; the uncached input is exactly total minus cached when
  both were reported and the difference exists; each consistency flag is raised exactly when its
  inequality is violated, with no wrap-around in the sum of input and output; the usage is
  unavailable exactly when no component was reported, and final exactly when some component was
  and no anomaly was recorded.
\<close>

theorem normalized_usage_consistent: "consistent_usage (normalize_usage from_slice raw)"
  by (rule normalize_usage_consistent)

section \<open>Retained usage is the provider's own object\<close>

lemma extract_usage_retained:
  "ue_raw (extract_usage from_slice object bytes limit) = Some raw \<Longrightarrow>
    member_span bytes ''usage'' = Some (usage_bytes raw) \<and> length (usage_bytes raw) \<le> limit \<and>
    (\<exists>rest. usage_bytes raw = CHR ''{'' # rest) \<and>
    ue_normalized (extract_usage from_slice object bytes limit) =
      Some (normalize_usage from_slice raw) \<and>
    ue_status (extract_usage from_slice object bytes limit) =
      nu_status (normalize_usage from_slice raw) \<and>
    (\<exists>members. map_of object ''usage'' = Some (Object members))"
  by (auto simp: extract_usage_def unusable_def raw_provider_usage_new_def Let_def
      split: option.splits json.splits result.splits usage_error.splits list.splits if_splits)

lemma extract_usage_final:
  "ue_status (extract_usage from_slice object bytes limit) = UsageFinal \<Longrightarrow>
    \<exists>raw. ue_raw (extract_usage from_slice object bytes limit) = Some raw"
  by (auto simp: extract_usage_def unusable_def Let_def
      split: option.splits json.splits result.splits usage_error.splits)

lemma settle_usage_status_final:
  "settle_usage_status status is_terminal = UsageFinal \<longleftrightarrow> status = UsageFinal \<and> is_terminal"
  by (auto simp: settle_usage_status_def split: usage_status.splits)


text \<open>A completed response whose usage reports three tokens in all.\<close>

definition sample_usage_body :: string where
  "sample_usage_body = [CHR 0x7B, CHR 0x22] @ ''usage'' @ [CHR 0x22, CHR 0x3A, CHR 0x7B, CHR 0x7D, CHR 0x7D]"

definition sample_limits :: observation_limits where
  "sample_limits = \<lparr>max_semantic_bytes = 16, max_usage_bytes = 4, max_sse_event_bytes = 4,
     max_sse_events = 4, max_json_depth = 4, max_json_items = 4, max_string_bytes = 16\<rparr>"

lemma sample_max_usage: "max_usage_bytes sample_limits = 4"
  by (simp add: sample_limits_def)

lemma sample_span: "member_span sample_usage_body ''usage'' = Some [CHR 0x7B, CHR 0x7D]"
  by (simp add: member_span_def sample_usage_body_def member_loop.simps json_string_contents_def
      json_value_span_def container_length_def is_ascii_whitespace_def usize_checked_add_def
      usize_limit_def)

lemma sample_text: "validate_text (observation_input_new sample_usage_body sample_limits) = Ok ()"
  by (simp add: validate_text_def observation_input_new_def sample_usage_body_def sample_limits_def
      byte_def)

lemma sample_parse:
  "parse_bounded (\<lambda>_. (JMap [(''status'', JStr ''completed''), (''usage'', JMap [] True)] True, True))
     bytes sample_limits = Ok (Object [(''status'', Text ''completed''), (''usage'', Object [])])"
  by (simp add: parse_bounded_def sample_limits_def enter_def add_item_def
      usize_saturating_add_def usize_limit_def)

lemma sample_usage:
  "normalize_usage (\<lambda>_. Some (Object [(''total_tokens'', Number (PosInt 3))])) raw =
     \<lparr>input_total = None, input_cached = None, input_uncached = None, cache_write = None,
      output_total = None, output_reasoning = None, usage_total = Some 3,
      nu_status = UsageFinal, normalizer_version = USAGE_NORMALIZER_VERSION,
      anomalies = no_anomalies\<rparr>"
  by (simp add: normalize_usage_def number_of_def nested_number_def durable_count_def
      derive_uncached_def check_reasoning_def check_total_def any_anomaly_def no_anomalies_def)


end
