(* ===== verification/Provider_Request.thy ===== *)
theory Provider_Request
  imports Provider_Json
begin

text \<open>
  \<open>crates/tracepress-provider/src/request.rs\<close>: allowlisted parsing of Responses request
  metadata. Nothing of the prompt or of the tools is retained.
\<close>

section \<open>The observation\<close>

record request_observation =
  rq_provider :: provider_kind
  rq_protocol :: provider_protocol
  rq_transport :: provider_transport
  rq_request_kind :: provider_request_kind
  rq_compaction_trigger :: "compaction_trigger option"
  rq_endpoint_profile_version :: "u32 option"
  rq_parser_version :: u32
  rq_status :: observation_status
  rq_request_bytes :: "u64 option"
  rq_wire_bytes :: "u64 option"
  rq_wire_sha256 :: "u8 list option"
  rq_decoded_bytes :: "u64 option"
  rq_content_encoding :: content_encoding
  rq_analysis_decode_status :: analysis_decode_status
  rq_decode_duration_us :: "u64 option"
  rq_decoder_version :: "u32 option"
  rq_model :: "string option"
  rq_stream :: "bool option"
  rq_background :: "bool option"
  rq_store :: "bool option"
  rq_reasoning_effort :: "string option"
  rq_verbosity :: "string option"
  rq_truncation :: "string option"
  rq_has_previous_response_id :: bool
  rq_input_item_count :: "u64 option"
  rq_tool_count :: "u64 option"
  rq_text_input_blocks :: "u64 option"
  rq_image_input_blocks :: "u64 option"
  rq_file_input_blocks :: "u64 option"

definition request_observation_empty :: "observation_status \<Rightarrow> request_observation" where
  "request_observation_empty status =
     \<lparr>rq_provider = OpenAi, rq_protocol = OpenAiResponsesV1, rq_transport = OpenAiPublicApi,
      rq_request_kind = Turn, rq_compaction_trigger = None, rq_endpoint_profile_version = None,
      rq_parser_version = OPENAI_RESPONSES_PARSER_VERSION, rq_status = status,
      rq_request_bytes = None, rq_wire_bytes = None, rq_wire_sha256 = None,
      rq_decoded_bytes = None, rq_content_encoding = IdentityEncoding,
      rq_analysis_decode_status = DecodeIdentity, rq_decode_duration_us = None,
      rq_decoder_version = None, rq_model = None, rq_stream = None, rq_background = None,
      rq_store = None, rq_reasoning_effort = None, rq_verbosity = None, rq_truncation = None,
      rq_has_previous_response_id = False, rq_input_item_count = None, rq_tool_count = None,
      rq_text_input_blocks = None, rq_image_input_blocks = None, rq_file_input_blocks = None\<rparr>"

definition request_transport_only ::
  "provider_request_kind \<Rightarrow> u64 \<Rightarrow> u64 \<Rightarrow> content_encoding \<Rightarrow> provider_transport \<Rightarrow> u32
    \<Rightarrow> request_observation" where
  "request_transport_only kind request_bytes wire_bytes encoding transport profile_version =
     (request_observation_empty StatusUnsupported)
       \<lparr>rq_request_bytes := Some request_bytes, rq_wire_bytes := Some wire_bytes,
        rq_content_encoding := encoding, rq_transport := transport,
        rq_endpoint_profile_version := Some profile_version, rq_request_kind := kind,
        rq_compaction_trigger := request_kind_trigger kind\<rparr>"

section \<open>Members\<close>

text \<open>Each reader returns whether it marked the observation partial, and what it read.\<close>

definition optional_bool :: "json_map \<Rightarrow> string \<Rightarrow> bool \<times> bool option" where
  "optional_bool members key =
     (case map_of members key of
        None \<Rightarrow> (False, None)
      | Some Null \<Rightarrow> (False, None)
      | Some (Bool b) \<Rightarrow> (False, Some b)
      | Some _ \<Rightarrow> (True, None))"

definition array_count :: "json_map \<Rightarrow> string \<Rightarrow> bool \<times> u64 option" where
  "array_count members key =
     (case map_of members key of
        None \<Rightarrow> (False, None)
      | Some Null \<Rightarrow> (False, None)
      | Some (Array elements) \<Rightarrow> (False, u64_of_len (length elements))
      | Some _ \<Rightarrow> (True, None))"

definition has_previous_response :: "json_map \<Rightarrow> bool \<times> bool" where
  "has_previous_response members =
     (case map_of members ''previous_response_id'' of
        None \<Rightarrow> (False, False)
      | Some Null \<Rightarrow> (False, False)
      | Some (Text _) \<Rightarrow> (False, True)
      | Some _ \<Rightarrow> (True, False))"

record input_block_counts =
  ibc_text :: u64
  ibc_image :: u64
  ibc_file :: u64

definition no_blocks :: input_block_counts where
  "no_blocks = \<lparr>ibc_text = 0, ibc_image = 0, ibc_file = 0\<rparr>"

datatype block_kind = TextBlock | ImageBlock | FileBlock

definition block_kind_of :: "string \<Rightarrow> block_kind option" where
  "block_kind_of kind =
     (if kind = ''input_text'' \<or> kind = ''text'' then Some TextBlock
      else if kind = ''input_image'' \<or> kind = ''image_url'' \<or> kind = ''image'' then Some ImageBlock
      else if kind = ''input_file'' \<or> kind = ''file'' then Some FileBlock
      else None)"

fun bump_count :: "block_kind \<Rightarrow> input_block_counts \<Rightarrow> bool \<times> input_block_counts" where
  "bump_count TextBlock counts =
     (case checked_add (ibc_text counts) 1 of
        Some n \<Rightarrow> (False, counts\<lparr>ibc_text := n\<rparr>) | None \<Rightarrow> (True, counts))"
| "bump_count ImageBlock counts =
     (case checked_add (ibc_image counts) 1 of
        Some n \<Rightarrow> (False, counts\<lparr>ibc_image := n\<rparr>) | None \<Rightarrow> (True, counts))"
| "bump_count FileBlock counts =
     (case checked_add (ibc_file counts) 1 of
        Some n \<Rightarrow> (False, counts\<lparr>ibc_file := n\<rparr>) | None \<Rightarrow> (True, counts))"

text \<open>The inner loop of \<open>count_blocks\<close>: a block without a string type is skipped.\<close>

fun count_content :: "json list \<Rightarrow> bool \<times> input_block_counts \<Rightarrow> bool \<times> input_block_counts" where
  "count_content [] state = state"
| "count_content (block # blocks) (marked, counts) =
     (case Option.bind (json_get block ''type'') as_str of
        None \<Rightarrow> count_content blocks (marked, counts)
      | Some kind \<Rightarrow>
          (case block_kind_of kind of
             None \<Rightarrow> count_content blocks (True, counts)
           | Some k \<Rightarrow>
               (case bump_count k counts of
                  (full, counts) \<Rightarrow> count_content blocks (marked \<or> full, counts))))"

definition count_blocks ::
  "json \<Rightarrow> bool \<times> input_block_counts \<Rightarrow> bool \<times> input_block_counts" where
  "count_blocks item state =
     (case json_get item ''content'' of
        None \<Rightarrow> state
      | Some content \<Rightarrow>
          (case as_array content of
             None \<Rightarrow> (True, snd state)
           | Some blocks \<Rightarrow> count_content blocks state))"

definition is_compaction_trigger :: "json \<Rightarrow> bool" where
  "is_compaction_trigger item \<longleftrightarrow>
     Option.bind (json_get item ''type'') as_str = Some ''compaction_trigger''"

section \<open>The parser\<close>

definition parse_request ::
  "(string \<Rightarrow> jtree \<times> bool) \<Rightarrow> observation_input \<Rightarrow> request_observation" where
  "parse_request deserializer input =
     (let size = u64_of_len (length (oi_bytes input));
          result = (request_observation_empty StatusComplete)
            \<lparr>rq_request_bytes := size, rq_wire_bytes := size, rq_decoded_bytes := size\<rparr>
      in case and_then (validate_text input)
           (\<lambda>_. parse_bounded deserializer (oi_bytes input) (oi_limits input)) of
           Err error \<Rightarrow> result\<lparr>rq_status := status_for_error error\<rparr>
         | Ok value \<Rightarrow>
             (case as_object value of
                None \<Rightarrow> result\<lparr>rq_status := StatusMalformed\<rparr>
              | Some object \<Rightarrow>
                  let ext = string_extraction_new (max_string_bytes (oi_limits input));
                      (ext, model) = extract_string ext object ''model'';
                      (p1, stream) = optional_bool object ''stream'';
                      (p2, background) = optional_bool object ''background'';
                      (p3, store) = optional_bool object ''store'';
                      (ext, effort) =
                        extract_nested ext object \<lparr>nf_parent = ''reasoning'', nf_key = ''effort''\<rparr>;
                      (ext, verbosity) =
                        extract_nested ext object \<lparr>nf_parent = ''text'', nf_key = ''verbosity''\<rparr>;
                      (ext, truncation) = extract_string ext object ''truncation'';
                      (p4, previous) = has_previous_response object;
                      (p5, input_count) = array_count object ''input'';
                      (p6, tools) = array_count object ''tools'';
                      items = Option.bind (map_of object ''input'') as_array;
                      (p7, counts) =
                        (case items of
                           Some elements \<Rightarrow> fold count_blocks elements (False, no_blocks)
                         | None \<Rightarrow> (False, no_blocks));
                      compacting =
                        (case items of
                           Some elements \<Rightarrow> list_ex is_compaction_trigger elements
                         | None \<Rightarrow> False);
                      partial = (se_partial ext \<or> p1 \<or> p2 \<or> p3 \<or> p4 \<or> p5 \<or> p6 \<or> p7)
                  in result\<lparr>
                      rq_request_kind :=
                        (if compacting then Compaction ResponsesTriggerV2 TriggerUnknown else Turn),
                      rq_compaction_trigger :=
                        (if compacting then Some TriggerUnknown else None),
                      rq_status := (if partial then StatusPartial else StatusComplete),
                      rq_model := model, rq_stream := stream, rq_background := background,
                      rq_store := store, rq_reasoning_effort := effort,
                      rq_verbosity := verbosity, rq_truncation := truncation,
                      rq_has_previous_response_id := previous,
                      rq_input_item_count := input_count, rq_tool_count := tools,
                      rq_text_input_blocks := map_option (\<lambda>_. ibc_text counts) items,
                      rq_image_input_blocks := map_option (\<lambda>_. ibc_image counts) items,
                      rq_file_input_blocks := map_option (\<lambda>_. ibc_file counts) items\<rparr>))"

section \<open>Counting\<close>

text \<open>The blocks of one kind among the content of the input items.\<close>

definition item_blocks :: "json \<Rightarrow> json list" where
  "item_blocks item =
     (case json_get item ''content'' of
        Some content \<Rightarrow> (case as_array content of Some blocks \<Rightarrow> blocks | None \<Rightarrow> [])
      | None \<Rightarrow> [])"

definition kind_of_block :: "json \<Rightarrow> block_kind option" where
  "kind_of_block block = Option.bind (Option.bind (json_get block ''type'') as_str) block_kind_of"

definition blocks_of_kind :: "block_kind \<Rightarrow> json list \<Rightarrow> nat" where
  "blocks_of_kind kind blocks = length (filter (\<lambda>block. kind_of_block block = Some kind) blocks)"

fun count_of :: "block_kind \<Rightarrow> input_block_counts \<Rightarrow> u64" where
  "count_of TextBlock counts = ibc_text counts"
| "count_of ImageBlock counts = ibc_image counts"
| "count_of FileBlock counts = ibc_file counts"

definition typed_blocks :: "json list \<Rightarrow> nat" where
  "typed_blocks blocks =
     length (filter (\<lambda>block. Option.bind (json_get block ''type'') as_str \<noteq> None) blocks)"

lemma bump_count_exact:
  assumes "unat (count_of k counts) + 1 < 2 ^ 64"
  shows "\<exists>counts'. bump_count k counts = (False, counts') \<and>
    (\<forall>j. unat (count_of j counts') = unat (count_of j counts) + (if j = k then 1 else 0))"
  using assms
  by (cases k)
    (auto simp: checked_add_def unat_word_ariths split: block_kind.splits,
     (case_tac j; simp add: unat_word_ariths)+)

lemma blocks_of_kind_simps [simp]:
  "blocks_of_kind k [] = 0"
  "blocks_of_kind k (block # blocks) =
     (if kind_of_block block = Some k then 1 else 0) + blocks_of_kind k blocks"
  "blocks_of_kind k (xs @ ys) = blocks_of_kind k xs + blocks_of_kind k ys"
  by (simp_all add: blocks_of_kind_def)

lemma typed_blocks_simps [simp]:
  "typed_blocks [] = 0"
  "typed_blocks (block # blocks) =
     (if Option.bind (json_get block ''type'') as_str \<noteq> None then 1 else 0) + typed_blocks blocks"
  "typed_blocks (xs @ ys) = typed_blocks xs + typed_blocks ys"
  by (simp_all add: typed_blocks_def)

text \<open>The state a traversal of \<open>blocks\<close> ends in, when no counter is full.\<close>

definition tallied ::
  "json list \<Rightarrow> bool \<times> input_block_counts \<Rightarrow> bool \<times> input_block_counts \<Rightarrow> bool" where
  "tallied blocks before after \<longleftrightarrow>
     (\<forall>k. unat (count_of k (snd after)) = unat (count_of k (snd before)) + blocks_of_kind k blocks) \<and>
     (\<not> fst after \<longrightarrow> \<not> fst before \<and>
        typed_blocks blocks =
          blocks_of_kind TextBlock blocks + blocks_of_kind ImageBlock blocks +
          blocks_of_kind FileBlock blocks)"

lemma tallied_append:
  "tallied xs s t \<Longrightarrow> tallied ys t u \<Longrightarrow> tallied (xs @ ys) s u"
  by (auto simp: tallied_def)

lemma tallied_Nil [simp]: "tallied [] s s"
  by (simp add: tallied_def)

lemma tallied_room:
  "tallied xs s t \<Longrightarrow> unat (count_of k (snd t)) \<le> unat (count_of k (snd s)) + length xs"
  by (auto simp: tallied_def blocks_of_kind_def)

lemma count_content_one:
  assumes "\<And>k. unat (count_of k counts) + 1 < 2 ^ 64"
  shows "\<exists>state. tallied [block] (marked, counts) state \<and>
    (\<forall>blocks. count_content (block # blocks) (marked, counts) = count_content blocks state)"
proof (cases "Option.bind (json_get block ''type'') as_str")
  case None
  moreover from None have "kind_of_block block = None"
    unfolding kind_of_block_def by simp
  ultimately show ?thesis
    by (intro exI [of _ "(marked, counts)"]) (simp add: tallied_def)
next
  case (Some kind)
  note typed = Some
  then have kind: "kind_of_block block = block_kind_of kind"
    unfolding kind_of_block_def by simp
  show ?thesis
  proof (cases "block_kind_of kind")
    case None
    with typed kind show ?thesis
      by (intro exI [of _ "(True, counts)"]) (simp add: tallied_def)
  next
    case (Some k)
    from bump_count_exact [OF assms] obtain counts' where
      bump: "bump_count k counts = (False, counts')"
      and step: "\<And>j. unat (count_of j counts') = unat (count_of j counts) + (if j = k then 1 else 0)"
      by blast
    have "tallied [block] (marked, counts) (marked, counts')"
      using step kind Some typed by (cases k) (auto simp: tallied_def)
    with typed Some bump show ?thesis
      by (intro exI [of _ "(marked, counts')"]) simp
  qed
qed

lemma count_content_tallied:
  "(\<And>k. unat (count_of k (snd state)) + length blocks < 2 ^ 64) \<Longrightarrow>
    tallied blocks state (count_content blocks state)"
proof (induction blocks arbitrary: state)
  case Nil
  then show ?case by simp
next
  case (Cons block blocks)
  obtain marked counts where [simp]: "state = (marked, counts)" by (cases state)
  have one: "unat (count_of k counts) + 1 < 2 ^ 64" for k
    using Cons.prems [of k] by simp
  obtain state' where first: "tallied [block] state state'"
    and rest: "count_content (block # blocks) state = count_content blocks state'"
    using count_content_one [OF one, of block marked] by auto
  have room: "unat (count_of k (snd state')) + length blocks < 2 ^ 64" for k
    using Cons.prems [of k] tallied_room [OF first, of k] by simp
  from tallied_append [OF first Cons.IH [OF room]] rest show ?case by simp
qed

lemma count_blocks_tallied:
  assumes "\<And>k. unat (count_of k (snd state)) + length (item_blocks item) < 2 ^ 64"
  shows "tallied (item_blocks item) state (count_blocks item state)"
proof (cases "json_get item ''content''")
  case None
  then show ?thesis by (simp add: count_blocks_def item_blocks_def)
next
  case (Some content)
  with assms show ?thesis
    using count_content_tallied [of state "item_blocks item"]
    by (cases "as_array content") (simp_all add: count_blocks_def item_blocks_def, simp add: tallied_def)
qed

lemma count_items_tallied:
  "(\<And>k. unat (count_of k (snd state)) + length (concat (map item_blocks items)) < 2 ^ 64) \<Longrightarrow>
    tallied (concat (map item_blocks items)) state (fold count_blocks items state)"
proof (induction items arbitrary: state)
  case Nil
  then show ?case by simp
next
  case (Cons item items)
  have here: "unat (count_of k (snd state)) + length (item_blocks item) < 2 ^ 64" for k
    using Cons.prems [of k] by simp
  note first = count_blocks_tallied [OF here]
  have room: "unat (count_of k (snd (count_blocks item state))) +
      length (concat (map item_blocks items)) < 2 ^ 64" for k
    using Cons.prems [of k] tallied_room [OF first, of k] by simp
  from tallied_append [OF first Cons.IH [OF room]] show ?case by simp
qed

lemma count_all_items:
  assumes "length (concat (map item_blocks items)) < 2 ^ 64"
  shows "tallied (concat (map item_blocks items)) (False, no_blocks)
    (fold count_blocks items (False, no_blocks))"
proof (rule count_items_tallied)
  fix k
  have "count_of k no_blocks = 0"
    by (cases k) (simp_all add: no_blocks_def)
  with assms show "unat (count_of k (snd (False, no_blocks))) +
      length (concat (map item_blocks items)) < 2 ^ 64"
    by simp
qed

section \<open>What a request observation says about the input\<close>

text \<open>C37. for a body that parses to an object whose \<open>input\<close> is an array, the observation counts
  exactly the text, image and file blocks of the content of all items; when it is complete, these
  three kinds are all the typed blocks there are; and it is classified as a compaction request
  precisely when some item is a compaction trigger.\<close>

theorem request_block_counts_exact:
  assumes parsed: "and_then (validate_text input)
      (\<lambda>_. parse_bounded deserializer (oi_bytes input) (oi_limits input)) = Ok (Object object)"
    and items: "map_of object ''input'' = Some (Array items)"
    and room: "length (concat (map item_blocks items)) < 2 ^ 64"
  shows "\<exists>text image file.
    rq_text_input_blocks (parse_request deserializer input) = Some text \<and>
    rq_image_input_blocks (parse_request deserializer input) = Some image \<and>
    rq_file_input_blocks (parse_request deserializer input) = Some file \<and>
    unat text = blocks_of_kind TextBlock (concat (map item_blocks items)) \<and>
    unat image = blocks_of_kind ImageBlock (concat (map item_blocks items)) \<and>
    unat file = blocks_of_kind FileBlock (concat (map item_blocks items)) \<and>
    (rq_status (parse_request deserializer input) = StatusComplete \<longrightarrow>
       typed_blocks (concat (map item_blocks items)) = unat text + unat image + unat file) \<and>
    (rq_request_kind (parse_request deserializer input) = Turn \<longleftrightarrow>
       \<not> list_ex is_compaction_trigger items)"
proof -
  obtain marked counts where run: "fold count_blocks items (False, no_blocks) = (marked, counts)"
    by (cases "fold count_blocks items (False, no_blocks)")
  from count_all_items [OF room] run
  have tallied: "tallied (concat (map item_blocks items)) (False, no_blocks) (marked, counts)"
    by simp
  have zero: "count_of k no_blocks = 0" for k
    by (cases k) (simp_all add: no_blocks_def)
  have exact: "unat (count_of k counts) = blocks_of_kind k (concat (map item_blocks items))" for k
    using tallied by (simp add: tallied_def zero)
  have fields:
    "rq_text_input_blocks (parse_request deserializer input) = Some (ibc_text counts)"
    "rq_image_input_blocks (parse_request deserializer input) = Some (ibc_image counts)"
    "rq_file_input_blocks (parse_request deserializer input) = Some (ibc_file counts)"
    "rq_status (parse_request deserializer input) = StatusComplete \<longrightarrow> \<not> marked"
    "rq_request_kind (parse_request deserializer input) = Turn \<longleftrightarrow>
       \<not> list_ex is_compaction_trigger items"
    using parsed items run by (simp_all add: parse_request_def Let_def split: prod.split)
  from tallied have "\<not> marked \<longrightarrow> typed_blocks (concat (map item_blocks items)) =
      blocks_of_kind TextBlock (concat (map item_blocks items)) +
      blocks_of_kind ImageBlock (concat (map item_blocks items)) +
      blocks_of_kind FileBlock (concat (map item_blocks items))"
    by (simp add: tallied_def)
  with fields exact [of TextBlock] exact [of ImageBlock] exact [of FileBlock] show ?thesis by simp
qed

text \<open>A request with one item of one text block, as the deserializer reports it.\<close>

definition sample_request_limits :: observation_limits where
  "sample_request_limits = \<lparr>max_semantic_bytes = 16, max_usage_bytes = 4, max_sse_event_bytes = 4,
     max_sse_events = 4, max_json_depth = 8, max_json_items = 16, max_string_bytes = 8\<rparr>"

definition sample_request_object :: json_map where
  "sample_request_object =
     [(''input'', Array [Object [(''content'', Array [Object [(''type'', Text ''text'')]])]])]"

definition sample_request_tree :: jtree where
  "sample_request_tree =
     JMap [(''input'', JSeq [JMap [(''content'', JSeq [JMap [(''type'', JStr ''text'')] True] True)]
       True] True)] True"

lemma sample_request_parses:
  "and_then (validate_text (observation_input_new [CHR 0x7B, CHR 0x7D] sample_request_limits))
     (\<lambda>_. parse_bounded (\<lambda>_. (sample_request_tree, True))
        (oi_bytes (observation_input_new [CHR 0x7B, CHR 0x7D] sample_request_limits))
        (oi_limits (observation_input_new [CHR 0x7B, CHR 0x7D] sample_request_limits))) =
   Ok (Object sample_request_object)"
  by (simp add: validate_text_def observation_input_new_def sample_request_limits_def byte_def
      parse_bounded_def sample_request_tree_def sample_request_object_def enter_def add_item_def
      usize_saturating_add_def usize_limit_def)

theorem request_block_counts_exact_witness:
  "\<exists>text.
    rq_text_input_blocks (parse_request (\<lambda>_. (sample_request_tree, True))
      (observation_input_new [CHR 0x7B, CHR 0x7D] sample_request_limits)) = Some text \<and>
    unat text = 1"
  using request_block_counts_exact [OF sample_request_parses,
      of "[Object [(''content'', Array [Object [(''type'', Text ''text'')]])]]"]
  by (auto simp: sample_request_object_def item_blocks_def json_get_def kind_of_block_def
      block_kind_of_def)

end
