(* ===== verification/Fragmentation.thy ===== *)
theory Fragmentation
  imports Prelude
begin

text \<open>
  The contract between a framer, which turns bytes into complete items whatever the boundaries
  of the fragments, and the consumer of those items. A framer that satisfies it can be fed in
  any fragmentation: a consumer that may stop for good, as at a terminal event, ends in the same
  state, and the framer itself ends in the same state unless the consumer has stopped and no
  longer looks at it.
\<close>

section \<open>Feeding a consumer\<close>

text \<open>A framer reports its new state, the items it completed and whether it failed for good.\<close>

type_synonym ('f, 'b, 'i) framing = "'f \<Rightarrow> 'b list \<Rightarrow> 'f \<times> 'i list \<times> bool"

fun consume_all :: "('o \<Rightarrow> bool) \<Rightarrow> ('o \<Rightarrow> 'i \<Rightarrow> 'o) \<Rightarrow> 'o \<Rightarrow> 'i list \<Rightarrow> 'o" where
  "consume_all stop consume obs [] = obs"
| "consume_all stop consume obs (i # is) =
     (if stop obs then obs else consume_all stop consume (consume obs i) is)"

record ('f, 'o) feeding =
  fd_framer :: 'f
  fd_failed :: bool
  fd_consumer :: 'o

definition feed ::
  "('f, 'b, 'i) framing \<Rightarrow> ('o \<Rightarrow> bool) \<Rightarrow> ('o \<Rightarrow> 'i \<Rightarrow> 'o) \<Rightarrow> ('f, 'o) feeding \<Rightarrow> 'b list
    \<Rightarrow> ('f, 'o) feeding" where
  "feed frame stop consume state fragment =
     (if fd_failed state \<or> stop (fd_consumer state) then state
      else case frame (fd_framer state) fragment of
        (framer, items, failed) \<Rightarrow>
          \<lparr>fd_framer = framer, fd_failed = failed,
           fd_consumer = consume_all stop consume (fd_consumer state) items\<rparr>)"

text \<open>What is observable of a feeding: the framer is not, once the consumer has stopped.\<close>

definition same_feeding :: "('o \<Rightarrow> bool) \<Rightarrow> ('f, 'o) feeding \<Rightarrow> ('f, 'o) feeding \<Rightarrow> bool" where
  "same_feeding stop s t \<longleftrightarrow> fd_consumer s = fd_consumer t \<and> (stop (fd_consumer s) \<or> s = t)"

lemma consume_all_stopped: "stop obs \<Longrightarrow> consume_all stop consume obs items = obs"
  by (cases items) simp_all

lemma consume_all_append:
  "consume_all stop consume obs (xs @ ys) =
     consume_all stop consume (consume_all stop consume obs xs) ys"
  by (induction xs arbitrary: obs) (auto simp: consume_all_stopped)

lemma same_feeding_refl [simp]: "same_feeding stop s s"
  by (simp add: same_feeding_def)

lemma same_feeding_trans:
  "same_feeding stop s t \<Longrightarrow> same_feeding stop t u \<Longrightarrow> same_feeding stop s u"
  by (auto simp: same_feeding_def)

lemma feed_stopped: "stop (fd_consumer s) \<Longrightarrow> feed frame stop consume s fragment = s"
  by (simp add: feed_def)

lemma feed_same:
  "same_feeding stop s t \<Longrightarrow>
    same_feeding stop (feed frame stop consume s fragment) (feed frame stop consume t fragment)"
  by (auto simp: same_feeding_def feed_stopped)

section \<open>The contract\<close>

locale fragmentable =
  fixes frame :: "'f \<Rightarrow> 'b list \<Rightarrow> 'f \<times> 'i list \<times> bool"
  assumes frame_nothing: "frame f [] = (f, [], False)"
    and frame_pieces: "frame f (xs @ ys) =
      (case frame f xs of (f1, items1, failed1) \<Rightarrow>
         if failed1 then (f1, items1, True)
         else case frame f1 ys of (f2, items2, failed2) \<Rightarrow> (f2, items1 @ items2, failed2))"
begin

lemma feed_nothing: "feed frame stop consume s [] = s"
  by (cases s) (auto simp: feed_def frame_nothing)

lemma feed_pieces:
  "same_feeding stop (feed frame stop consume (feed frame stop consume s xs) ys)
     (feed frame stop consume s (xs @ ys))"
proof (cases "fd_failed s \<or> stop (fd_consumer s)")
  case True
  then show ?thesis by (auto simp: feed_def)
next
  case False
  obtain f1 items1 failed1 where first: "frame (fd_framer s) xs = (f1, items1, failed1)"
    by (metis prod_cases3)
  obtain f2 items2 failed2 where second: "frame f1 ys = (f2, items2, failed2)"
    by (metis prod_cases3)
  show ?thesis
    using False first second
    by (auto simp: feed_def frame_pieces same_feeding_def consume_all_append consume_all_stopped)
qed

lemma feed_fragments:
  "same_feeding stop (fold (\<lambda>fragment s. feed frame stop consume s fragment) fragments s)
     (feed frame stop consume s (concat fragments))"
proof (induction fragments arbitrary: s)
  case Nil
  then show ?case by (simp add: feed_nothing)
next
  case (Cons fragment fragments)
  from same_feeding_trans [OF Cons.IH feed_pieces] show ?case by simp
qed

end

end
