(* ===== verification/Provider_Sse.thy ===== *)
theory Provider_Sse
  imports Provider_Json Fragmentation
begin

text \<open>
  \<open>crates/tracepress-provider/src/sse.rs\<close>, lines 18 to 275: the bounded incremental framer of
  Server-Sent Events. The methods that push completed events onto \<open>events\<close> take and return
  that list.
\<close>

section \<open>The framer\<close>

record sse_event =
  ev_event :: "string option"
  ev_data :: string

record sse_framer =
  fr_limits :: observation_limits
  fr_line :: string
  fr_event_name :: "string option"
  fr_data :: string
  fr_event_bytes :: nat
  fr_event_count :: nat
  fr_pending_cr :: bool
  fr_failure :: "observation_error option"

definition sse_framer_new :: "observation_limits \<Rightarrow> sse_framer" where
  "sse_framer_new limits =
     \<lparr>fr_limits = limits, fr_line = [], fr_event_name = None, fr_data = [], fr_event_bytes = 0,
      fr_event_count = 0, fr_pending_cr = False, fr_failure = None\<rparr>"

type_synonym framed = "sse_framer \<times> sse_event list \<times> (unit, observation_error) result"

definition emit_event :: "sse_framer \<Rightarrow> sse_event list \<Rightarrow> framed" where
  "emit_event fr events =
     (case usize_checked_add (fr_event_count fr) 1 of
        None \<Rightarrow> (fr, events, Err ResourceLimit)
      | Some next_count \<Rightarrow>
          if next_count > max_sse_events (fr_limits fr) then (fr, events, Err ResourceLimit)
          else (fr\<lparr>fr_event_count := next_count, fr_event_name := None, fr_data := [],
                  fr_event_bytes := 0\<rparr>,
                events @ [\<lparr>ev_event = fr_event_name fr, ev_data = fr_data fr\<rparr>], Ok ()))"

text \<open>The field name and its value, without one leading space; no colon means an empty value.\<close>

definition split_field :: "string \<Rightarrow> string \<times> string" where
  "split_field line =
     (case dropWhile (\<lambda>c. c \<noteq> CHR 0x3A) line of
        [] \<Rightarrow> (line, [])
      | _ # rest \<Rightarrow>
          (takeWhile (\<lambda>c. c \<noteq> CHR 0x3A) line,
           case strip_prefix [CHR 0x20] rest of Some stripped \<Rightarrow> stripped | None \<Rightarrow> rest))"

definition finish_line :: "sse_framer \<Rightarrow> sse_event list \<Rightarrow> framed" where
  "finish_line fr events =
     (let line = fr_line fr; fr = fr\<lparr>fr_line := []\<rparr>
      in case line of
           [] \<Rightarrow>
             if fr_event_name fr \<noteq> None \<or> fr_data fr \<noteq> [] then emit_event fr events
             else (fr, events, Ok ())
         | c # _ \<Rightarrow>
             if c = CHR 0x3A then (fr, events, Ok ())
             else (case split_field line of
                 (field, contents) \<Rightarrow>
                   if field = ''event'' then
                     (if utf8_ok contents \<and> length contents \<le> max_string_bytes (fr_limits fr)
                      then (fr\<lparr>fr_event_name := Some contents\<rparr>, events, Ok ())
                      else (fr, events, Ok ()))
                   else if field = ''data'' then
                     (let separator = (if fr_data fr \<noteq> [] then 1 else 0)
                      in case Option.bind (usize_checked_add (length (fr_data fr)) separator)
                           (\<lambda>n. usize_checked_add n (length contents)) of
                           None \<Rightarrow> (fr, events, Err ResourceLimit)
                         | Some total_length \<Rightarrow>
                             if total_length > max_sse_event_bytes (fr_limits fr)
                             then (fr, events, Err ResourceLimit)
                             else (fr\<lparr>fr_data := fr_data fr
                                     @ (if separator = 1 then [CHR 0x0A] else []) @ contents\<rparr>,
                                   events, Ok ()))
                   else (fr, events, Ok ())))"

text \<open>One byte of \<open>frame\<close>, after the pending carriage return was settled.\<close>

definition frame_plain :: "sse_framer \<Rightarrow> sse_event list \<Rightarrow> char \<Rightarrow> framed" where
  "frame_plain fr events c =
     (if c = CHR 0x0D then (fr\<lparr>fr_pending_cr := True\<rparr>, events, Ok ())
      else if c = CHR 0x0A then finish_line fr events
      else case usize_checked_add (fr_event_bytes fr) 1 of
          None \<Rightarrow> (fr, events, Err ResourceLimit)
        | Some n \<Rightarrow>
            let fr = fr\<lparr>fr_event_bytes := n\<rparr>
            in if n > max_sse_event_bytes (fr_limits fr) then (fr, events, Err ResourceLimit)
               else (fr\<lparr>fr_line := fr_line fr @ [c]\<rparr>, events, Ok ()))"

definition frame_byte :: "sse_framer \<Rightarrow> sse_event list \<Rightarrow> char \<Rightarrow> framed" where
  "frame_byte fr events c =
     (if fr_pending_cr fr then
        (let fr = fr\<lparr>fr_pending_cr := False\<rparr>
         in if c = CHR 0x0A then finish_line fr events
            else (case finish_line fr events of
                (fr, events, Err e) \<Rightarrow> (fr, events, Err e)
              | (fr, events, Ok _) \<Rightarrow> frame_plain fr events c))
      else frame_plain fr events c)"

fun frame_bytes :: "sse_framer \<Rightarrow> sse_event list \<Rightarrow> string \<Rightarrow> framed" where
  "frame_bytes fr events [] = (fr, events, Ok ())"
| "frame_bytes fr events (c # bytes) =
     (case frame_byte fr events c of
        (fr, events, Err e) \<Rightarrow> (fr, events, Err e)
      | (fr, events, Ok _) \<Rightarrow> frame_bytes fr events bytes)"

definition deliver ::
  "framed \<Rightarrow> sse_framer \<times> (sse_event list, observation_error) result" where
  "deliver framing =
     (case framing of
        (fr, events, Ok _) \<Rightarrow> (fr, Ok events)
      | (fr, events, Err error) \<Rightarrow>
          (fr\<lparr>fr_failure := Some error\<rparr>, if events = [] then Err error else Ok events))"

definition framer_push ::
  "sse_framer \<Rightarrow> string \<Rightarrow> sse_framer \<times> (sse_event list, observation_error) result" where
  "framer_push fr bytes =
     (case fr_failure fr of
        Some error \<Rightarrow> (fr, Err error)
      | None \<Rightarrow> deliver (frame_bytes fr [] bytes))"

definition flush :: "sse_framer \<Rightarrow> sse_event list \<Rightarrow> framed" where
  "flush fr events =
     (case (if fr_pending_cr fr then finish_line (fr\<lparr>fr_pending_cr := False\<rparr>) events
            else if fr_line fr \<noteq> [] then finish_line fr events
            else (fr, events, Ok ())) of
        (fr, events, Err e) \<Rightarrow> (fr, events, Err e)
      | (fr, events, Ok _) \<Rightarrow>
          if fr_event_name fr \<noteq> None \<or> fr_data fr \<noteq> [] then emit_event fr events
          else (fr, events, Ok ()))"

definition framer_finish ::
  "sse_framer \<Rightarrow> sse_framer \<times> (sse_event list, observation_error) result" where
  "framer_finish fr =
     (case fr_failure fr of
        Some error \<Rightarrow> (fr, Err error)
      | None \<Rightarrow> deliver (flush fr []))"

section \<open>Events are appended, never revised\<close>

definition with_events :: "sse_event list \<Rightarrow> framed \<Rightarrow> framed" where
  "with_events earlier framing = (case framing of (fr, events, r) \<Rightarrow> (fr, earlier @ events, r))"

lemma with_events_simps [simp]:
  "with_events earlier (fr, events, r) = (fr, earlier @ events, r)"
  by (simp add: with_events_def)

lemma emit_event_append: "emit_event fr (es @ fs) = with_events es (emit_event fr fs)"
  by (auto simp: emit_event_def Let_def split: option.splits)

lemma finish_line_append: "finish_line fr (es @ fs) = with_events es (finish_line fr fs)"
  by (auto simp: finish_line_def Let_def emit_event_append split: option.splits list.splits prod.splits)

lemma frame_plain_append: "frame_plain fr (es @ fs) c = with_events es (frame_plain fr fs c)"
  by (auto simp: frame_plain_def Let_def finish_line_append split: option.splits)

lemma frame_byte_append: "frame_byte fr (es @ fs) c = with_events es (frame_byte fr fs c)"
  by (auto simp: frame_byte_def Let_def finish_line_append frame_plain_append
      split: result.splits prod.splits)

lemma frame_bytes_append: "frame_bytes fr (es @ fs) bytes = with_events es (frame_bytes fr fs bytes)"
  by (induction bytes arbitrary: fr fs)
    (auto simp: frame_byte_append with_events_def split: result.splits prod.splits)

lemma frame_bytes_events: "frame_bytes fr es bytes = with_events es (frame_bytes fr [] bytes)"
  using frame_bytes_append [of fr es "[]" bytes] by simp

lemma frame_bytes_pieces:
  "frame_bytes fr es (xs @ ys) =
     (case frame_bytes fr es xs of
        (fr, es, Err e) \<Rightarrow> (fr, es, Err e)
      | (fr, es, Ok _) \<Rightarrow> frame_bytes fr es ys)"
  by (induction xs arbitrary: fr es) (auto split: result.splits prod.splits)

text \<open>The framer as a framing: its failure is the latch.\<close>

definition sse_framing :: "(sse_framer, char, sse_event) framing" where
  "sse_framing fr bytes =
     (case frame_bytes fr [] bytes of (fr, events, r) \<Rightarrow> (fr, events, \<not> is_ok r))"

interpretation sse: fragmentable sse_framing
proof
  fix fr :: sse_framer and xs ys :: string
  show "sse_framing fr [] = (fr, [], False)" by (simp add: sse_framing_def)
  show "sse_framing fr (xs @ ys) =
      (case sse_framing fr xs of (f1, items1, failed1) \<Rightarrow>
         if failed1 then (f1, items1, True)
         else case sse_framing f1 ys of (f2, items2, failed2) \<Rightarrow> (f2, items1 @ items2, failed2))"
  proof (cases "frame_bytes fr [] xs")
    case (fields f1 es1 r1)
    obtain f2 es2 r2 where rest: "frame_bytes f1 [] ys = (f2, es2, r2)" by (metis prod_cases3)
    with frame_bytes_events [of f1 es1 ys] have "frame_bytes f1 es1 ys = (f2, es1 @ es2, r2)" by simp
    with fields rest show ?thesis
      by (cases r1) (simp_all add: sse_framing_def frame_bytes_pieces)
  qed
qed

section \<open>Bounds\<close>

text \<open>What may be retained, and what may be delivered, under the limits.\<close>

definition name_ok :: "observation_limits \<Rightarrow> string option \<Rightarrow> bool" where
  "name_ok limits name =
     (case name of None \<Rightarrow> True | Some s \<Rightarrow> utf8_ok s \<and> length s \<le> max_string_bytes limits)"

lemma name_ok_simps [simp]:
  "name_ok limits None"
  "name_ok limits (Some s) \<longleftrightarrow> utf8_ok s \<and> length s \<le> max_string_bytes limits"
  by (simp_all add: name_ok_def)

definition event_ok :: "observation_limits \<Rightarrow> sse_event \<Rightarrow> bool" where
  "event_ok limits event \<longleftrightarrow>
     length (ev_data event) \<le> max_sse_event_bytes limits \<and> name_ok limits (ev_event event)"

definition framer_ok :: "sse_framer \<Rightarrow> bool" where
  "framer_ok fr \<longleftrightarrow>
     length (fr_line fr) \<le> fr_event_bytes fr \<and>
     length (fr_line fr) \<le> max_sse_event_bytes (fr_limits fr) \<and>
     length (fr_data fr) \<le> max_sse_event_bytes (fr_limits fr) \<and>
     fr_event_count fr \<le> max_sse_events (fr_limits fr) \<and>
     name_ok (fr_limits fr) (fr_event_name fr)"

text \<open>A step keeps the invariant, delivers admissible events and counts each one.\<close>

definition accounted :: "sse_framer \<Rightarrow> sse_event list \<Rightarrow> framed \<Rightarrow> bool" where
  "accounted fr events framing =
     (case framing of (fr', events', r) \<Rightarrow>
        framer_ok fr' \<and> fr_limits fr' = fr_limits fr \<and> fr_failure fr' = fr_failure fr \<and>
        (\<exists>more. events' = events @ more \<and> list_all (event_ok (fr_limits fr)) more \<and>
          fr_event_count fr' = fr_event_count fr + length more))"

lemma accounted_chain:
  assumes "accounted fr events (fr1, events1, r1)" and "accounted fr1 events1 framing"
  shows "accounted fr events framing"
  using assms by (fastforce simp: accounted_def split: prod.splits)

text \<open>The five ways a line ends.\<close>

lemma finish_line_cases:
  obtains (emit) "finish_line fr events = emit_event (fr\<lparr>fr_line := []\<rparr>) events"
  | (skip) "finish_line fr events = (fr\<lparr>fr_line := []\<rparr>, events, Ok ())"
  | (name) s where "utf8_ok s" "length s \<le> max_string_bytes (fr_limits fr)"
      "finish_line fr events = (fr\<lparr>fr_line := [], fr_event_name := Some s\<rparr>, events, Ok ())"
  | (data) d where "length d \<le> max_sse_event_bytes (fr_limits fr)"
      "finish_line fr events = (fr\<lparr>fr_line := [], fr_data := d\<rparr>, events, Ok ())"
  | (full) "finish_line fr events = (fr\<lparr>fr_line := []\<rparr>, events, Err ResourceLimit)"
proof (cases "fr_line fr")
  case Nil
  with emit skip show thesis
    by (cases "fr_event_name fr \<noteq> None \<or> fr_data fr \<noteq> []") (simp_all add: finish_line_def Let_def)
next
  case (Cons c rest)
  obtain field contents where split: "split_field (fr_line fr) = (field, contents)" by fastforce
  consider (comment) "c = CHR 0x3A" | (event) "c \<noteq> CHR 0x3A" "field = ''event''"
    | (data_field) "c \<noteq> CHR 0x3A" "field = ''data''"
    | (other) "c \<noteq> CHR 0x3A" "field \<noteq> ''event''" "field \<noteq> ''data''" by blast
  then show thesis
  proof cases
    case comment
    with Cons skip show thesis by (simp add: finish_line_def Let_def)
  next
    case event
    with Cons split skip name show thesis
      by (cases "utf8_ok contents \<and> length contents \<le> max_string_bytes (fr_limits fr)")
        (auto simp: finish_line_def Let_def)
  next
    case data_field
    let ?sep = "if fr_data fr \<noteq> [] then 1 else 0 :: nat"
    let ?d = "fr_data fr @ (if ?sep = 1 then [CHR 0x0A] else []) @ contents"
    have len: "length ?d = length (fr_data fr) + ?sep + length contents" by simp
    show thesis
    proof (cases "Option.bind (usize_checked_add (length (fr_data fr)) ?sep)
        (\<lambda>n. usize_checked_add n (length contents))")
      case None
      with data_field Cons split full show thesis by (simp add: finish_line_def Let_def)
    next
      case (Some n)
      then have "n = length ?d" by (auto simp: bind_eq_Some_conv usize_checked_add_Some)
      with Some data_field Cons split full data [of ?d] show thesis
        by (cases "n \<le> max_sse_event_bytes (fr_limits fr)") (simp_all add: finish_line_def Let_def)
    qed
  next
    case other
    with Cons split skip show thesis by (simp add: finish_line_def Let_def)
  qed
qed

lemma emit_event_accounted:
  "framer_ok fr \<Longrightarrow> accounted fr events (emit_event (fr\<lparr>fr_line := []\<rparr>) events)"
  by (auto simp: emit_event_def accounted_def framer_ok_def event_ok_def
      usize_checked_add_Some split: option.splits)

lemma finish_line_accounted:
  assumes "framer_ok fr"
  shows "accounted fr events (finish_line fr events)"
proof (cases rule: finish_line_cases [of fr events])
  case emit
  with assms show ?thesis by (simp add: emit_event_accounted)
qed (use assms in \<open>simp_all add: accounted_def framer_ok_def\<close>)

lemma frame_plain_accounted:
  assumes "framer_ok fr"
  shows "accounted fr events (frame_plain fr events c)"
  using assms finish_line_accounted [OF assms, of events]
  by (auto simp: frame_plain_def Let_def accounted_def framer_ok_def usize_checked_add_Some
      split: option.splits)

lemma accounted_pending:
  "accounted (fr\<lparr>fr_pending_cr := b\<rparr>) events framing \<longleftrightarrow> accounted fr events framing"
  by (auto simp: accounted_def framer_ok_def)

lemma frame_byte_accounted:
  assumes "framer_ok fr"
  shows "accounted fr events (frame_byte fr events c)"
proof (cases "fr_pending_cr fr")
  case True
  let ?fr = "fr\<lparr>fr_pending_cr := False\<rparr>"
  have ok: "framer_ok ?fr" using assms by (simp add: framer_ok_def)
  obtain fr1 events1 r where line: "finish_line ?fr events = (fr1, events1, r)" by (metis prod_cases3)
  then have first: "accounted fr events (fr1, events1, r)"
    using finish_line_accounted [OF ok, of events] by (simp add: accounted_pending)
  then have "framer_ok fr1" by (simp add: accounted_def)
  from accounted_chain [OF first frame_plain_accounted [OF this]] first line True show ?thesis
    by (cases r) (simp_all add: frame_byte_def Let_def)
next
  case False
  then show ?thesis by (simp add: frame_byte_def frame_plain_accounted assms)
qed

lemma frame_bytes_accounted:
  "framer_ok fr \<Longrightarrow> accounted fr events (frame_bytes fr events bytes)"
proof (induction bytes arbitrary: fr events)
  case Nil
  then show ?case by (simp add: accounted_def)
next
  case (Cons c bytes)
  obtain fr1 events1 r where step: "frame_byte fr events c = (fr1, events1, r)" by (metis prod_cases3)
  then have first: "accounted fr events (fr1, events1, r)"
    using frame_byte_accounted [OF Cons.prems, of events c] by simp
  then have "framer_ok fr1" by (simp add: accounted_def)
  from accounted_chain [OF first Cons.IH [OF this]] first step show ?case
    by (cases r) simp_all
qed

lemma flush_accounted:
  assumes "framer_ok fr"
  shows "accounted fr events (flush fr events)"
proof -
  let ?line = "if fr_pending_cr fr then finish_line (fr\<lparr>fr_pending_cr := False\<rparr>) events
    else if fr_line fr \<noteq> [] then finish_line fr events else (fr, events, Ok ())"
  have "framer_ok (fr\<lparr>fr_pending_cr := False\<rparr>)" using assms by (simp add: framer_ok_def)
  from finish_line_accounted [OF this, of events] finish_line_accounted [OF assms, of events] assms
  have line: "accounted fr events ?line"
    by (simp add: accounted_pending) (simp add: accounted_def)
  obtain fr1 events1 r where run: "?line = (fr1, events1, r)" by (metis prod_cases3)
  with line have first: "accounted fr events (fr1, events1, r)" by simp
  have cleared: "fr_line (fst (finish_line g events)) = []" for g
    by (cases rule: finish_line_cases [of g events])
      (auto simp: emit_event_def split: option.splits)
  have "finish_line g events = (fr1, events1, r) \<Longrightarrow> fr_line fr1 = []" for g
    using cleared [of g] by simp
  then have "fr_line fr1 = []" using run by (auto split: if_splits)
  then have "fr1\<lparr>fr_line := []\<rparr> = fr1" by simp
  then have "accounted fr1 events1 (emit_event fr1 events1)"
    using emit_event_accounted [of fr1 events1] first by (simp add: accounted_def [of fr events])
  from accounted_chain [OF first this] first run show ?thesis
    by (cases r) (simp_all add: flush_def)
qed

text \<open>A whole run: the events handed out by a sequence of pushes and a final flush.\<close>

definition handed_out :: "(sse_event list, observation_error) result \<Rightarrow> sse_event list" where
  "handed_out r = (case r of Ok events \<Rightarrow> events | Err _ \<Rightarrow> [])"

fun push_fragments :: "sse_framer \<Rightarrow> string list \<Rightarrow> sse_framer \<times> sse_event list" where
  "push_fragments fr [] = (fr, [])"
| "push_fragments fr (fragment # fragments) =
     (case framer_push fr fragment of
        (fr, r) \<Rightarrow>
          (case push_fragments fr fragments of
             (fr, events) \<Rightarrow> (fr, handed_out r @ events)))"

lemma deliver_accounted:
  assumes "accounted fr [] framing" and "deliver framing = (fr', r)"
  shows "framer_ok fr' \<and> fr_limits fr' = fr_limits fr \<and>
    list_all (event_ok (fr_limits fr)) (handed_out r) \<and>
    fr_event_count fr' = fr_event_count fr + length (handed_out r)"
  using assms
  by (auto simp: deliver_def accounted_def handed_out_def framer_ok_def
      split: prod.splits result.splits if_splits)

lemma framer_push_accounted:
  assumes "framer_ok fr" and "framer_push fr bytes = (fr', r)"
  shows "framer_ok fr' \<and> fr_limits fr' = fr_limits fr \<and>
    list_all (event_ok (fr_limits fr)) (handed_out r) \<and>
    fr_event_count fr' = fr_event_count fr + length (handed_out r)"
  using assms deliver_accounted [OF frame_bytes_accounted [OF assms(1)], of bytes]
  by (auto simp: framer_push_def handed_out_def split: option.splits)

lemma framer_finish_accounted:
  assumes "framer_ok fr" and "framer_finish fr = (fr', r)"
  shows "framer_ok fr' \<and> fr_limits fr' = fr_limits fr \<and>
    list_all (event_ok (fr_limits fr)) (handed_out r) \<and>
    fr_event_count fr' = fr_event_count fr + length (handed_out r)"
  using assms deliver_accounted [OF flush_accounted [OF assms(1)]]
  by (auto simp: framer_finish_def handed_out_def split: option.splits)

lemma push_fragments_accounted:
  "framer_ok fr \<Longrightarrow> push_fragments fr fragments = (fr', events) \<Longrightarrow>
    framer_ok fr' \<and> fr_limits fr' = fr_limits fr \<and> list_all (event_ok (fr_limits fr)) events \<and>
    fr_event_count fr' = fr_event_count fr + length events"
proof (induction fragments arbitrary: fr fr' events)
  case Nil
  then show ?case by simp
next
  case (Cons fragment fragments)
  obtain fr1 r1 where push: "framer_push fr fragment = (fr1, r1)" by fastforce
  obtain fr2 events2 where rest: "push_fragments fr1 fragments = (fr2, events2)" by fastforce
  from framer_push_accounted [OF Cons.prems(1) push]
  have first: "framer_ok fr1" "fr_limits fr1 = fr_limits fr"
    "list_all (event_ok (fr_limits fr)) (handed_out r1)"
    "fr_event_count fr1 = fr_event_count fr + length (handed_out r1)" by simp_all
  from Cons.IH [OF first(1) rest] first Cons.prems(2) push rest show ?case by auto
qed

lemma framer_new_ok: "framer_ok (sse_framer_new limits)"
  by (simp add: framer_ok_def sse_framer_new_def)

text \<open>
  C35. Whatever is streamed in, in whatever fragments: a framer and its final flush hand
  out at most the configured number of events, none of them carries more data than the event
  bound or a name that is not UTF-8 or too long, and between calls it holds at most one line and
  one event's data, each within the event bound.
\<close>

theorem framer_bounded:
  "case push_fragments (sse_framer_new limits) fragments of
     (fr, events) \<Rightarrow>
       length events + length (handed_out (snd (framer_finish fr))) \<le> max_sse_events limits \<and>
       list_all (event_ok limits) (events @ handed_out (snd (framer_finish fr))) \<and>
       length (fr_line fr) \<le> max_sse_event_bytes limits \<and>
       length (fr_data fr) \<le> max_sse_event_bytes limits"
proof -
  obtain fr events where run: "push_fragments (sse_framer_new limits) fragments = (fr, events)"
    by fastforce
  obtain fr' r where finish: "framer_finish fr = (fr', r)" by fastforce
  have start: "fr_limits (sse_framer_new limits) = limits" "fr_event_count (sse_framer_new limits) = 0"
    by (simp_all add: sse_framer_new_def)
  from push_fragments_accounted [OF framer_new_ok run] have
    pushed: "framer_ok fr" "fr_limits fr = limits" "list_all (event_ok limits) events"
      "fr_event_count fr = length events" by (simp_all add: start)
  from framer_finish_accounted [OF pushed(1) finish] pushed show ?thesis
    by (auto simp: run finish framer_ok_def)
qed

text \<open>A crossed bound latches: nothing is framed after it, by pushes or by the flush.\<close>

lemma framer_failure_latches:
  assumes "fr_failure fr = Some error"
  shows "push_fragments fr fragments = (fr, []) \<and> framer_finish fr = (fr, Err error)"
  using assms
  by (induction fragments) (simp_all add: framer_push_def framer_finish_def handed_out_def)

section \<open>The event bound also counts comments\<close>

lemma keep_alive_step:
  assumes "fr_line fr = []" "\<not> fr_pending_cr fr"
    "fr_event_bytes fr + 1 \<le> max_sse_event_bytes (fr_limits fr)" "fr_event_bytes fr + 1 < usize_limit"
  shows "frame_bytes fr events [CHR 0x3A, CHR 0x0A] =
    (fr\<lparr>fr_event_bytes := fr_event_bytes fr + 1\<rparr>, events, Ok ())"
  using assms
  by (simp add: frame_byte_def frame_plain_def finish_line_def usize_checked_add_def Let_def)

lemma keep_alives_overrun:
  "fr_line fr = [] \<Longrightarrow> \<not> fr_pending_cr fr \<Longrightarrow>
    max_sse_event_bytes (fr_limits fr) < fr_event_bytes fr + n \<Longrightarrow>
    fr_event_bytes fr \<le> max_sse_event_bytes (fr_limits fr) \<Longrightarrow>
    \<exists>fr'. frame_bytes fr [] (concat (replicate n [CHR 0x3A, CHR 0x0A])) = (fr', [], Err ResourceLimit)"
proof (induction n arbitrary: fr)
  case 0
  then show ?case by simp
next
  case (Suc n)
  show ?case
  proof (cases "fr_event_bytes fr + 1 \<le> max_sse_event_bytes (fr_limits fr) \<and>
      fr_event_bytes fr + 1 < usize_limit")
    case True
    let ?fr = "fr\<lparr>fr_event_bytes := fr_event_bytes fr + 1\<rparr>"
    have "\<exists>fr'. frame_bytes ?fr [] (concat (replicate n [CHR 0x3A, CHR 0x0A])) =
        (fr', [], Err ResourceLimit)"
      by (rule Suc.IH) (use Suc.prems True in simp_all)
    then show ?thesis
      using frame_bytes_pieces [of fr "[]" "[CHR 0x3A, CHR 0x0A]"]
        keep_alive_step [of fr "[]"] Suc.prems True by simp
  next
    case False
    with Suc.prems show ?thesis
      by (auto simp: frame_byte_def frame_plain_def usize_checked_add_def Let_def)
  qed
qed

text \<open>
  C40. The bound documented as the maximum bytes of one event is charged for every byte
  since the last completed event, comment lines included: a peer that sends nothing but empty
  keep-alive comments, none of them part of any event, exhausts it, and the framer fails with a
  resource limit although no event was ever begun.
\<close>

theorem keep_alives_exhaust_event_bound:
  assumes "max_sse_event_bytes limits < n"
  shows "snd (framer_push (sse_framer_new limits) (concat (replicate n [CHR 0x3A, CHR 0x0A]))) =
    Err ResourceLimit"
  using keep_alives_overrun [of "sse_framer_new limits" n] assms
  by (auto simp: framer_push_def sse_framer_new_def deliver_def)

theorem keep_alives_exhaust_event_bound_witness:
  "snd (framer_push (sse_framer_new (default_observation_limits\<lparr>max_sse_event_bytes := 2\<rparr>))
     [CHR 0x3A, CHR 0x0A, CHR 0x3A, CHR 0x0A, CHR 0x3A, CHR 0x0A]) = Err ResourceLimit"
  using keep_alives_exhaust_event_bound
    [of "default_observation_limits\<lparr>max_sse_event_bytes := 2\<rparr>" 3]
  by (simp add: numeral_3_eq_3)

end
