(* ===== verification/Provider_Stream.thy ===== *)
theory Provider_Stream
  imports Provider_Usage Provider_Sse
begin

text \<open>
  \<open>crates/tracepress-provider/src/sse.rs\<close>, lines 277 to 641, and \<open>observer.rs\<close>: the semantic
  observer of a Responses stream. \<open>clock n\<close> is the result of the \<open>n\<close>-th reading of the elapsed
  microseconds; \<open>deserializer\<close> and \<open>from_slice\<close> are the parsers of \<open>serde_json\<close>.
\<close>

section \<open>The observer\<close>

type_synonym clock = "nat \<Rightarrow> u64 option"

record streaming_observer =
  so_framer :: sse_framer
  so_reads :: nat
  so_status :: observation_status
  so_response :: response_observation
  so_evidence :: "provider_response_state option"
  so_usage_evidence :: "usage_status option"
  so_settled :: bool
  so_terminal :: bool

definition streaming_observer_new :: "observation_limits \<Rightarrow> streaming_observer" where
  "streaming_observer_new limits =
     \<lparr>so_framer = sse_framer_new limits, so_reads = 0, so_status = StatusComplete,
      so_response = (response_observation_empty StatusComplete)
        \<lparr>ro_chunk_count := Some 0, ro_byte_count := Some 0\<rparr>,
      so_evidence = None, so_usage_evidence = None, so_settled = False, so_terminal = False\<rparr>"

definition checked_count ::
  "u64 option \<Rightarrow> u64 \<Rightarrow> observation_status \<Rightarrow> u64 option \<times> observation_status" where
  "checked_count current amount status =
     (case checked_add (case current of Some n \<Rightarrow> n | None \<Rightarrow> 0) amount of
        Some n \<Rightarrow> (Some n, status)
      | None \<Rightarrow> (None, StatusResourceLimit))"

definition severity :: "observation_status \<Rightarrow> nat" where
  "severity status =
     (case status of
        StatusComplete \<Rightarrow> 0 | StatusPartial \<Rightarrow> 1 | StatusUnsupported \<Rightarrow> 2 | StatusCancelled \<Rightarrow> 3
      | StatusObserverBackpressure \<Rightarrow> 4 | StatusMalformed \<Rightarrow> 5 | StatusResourceLimit \<Rightarrow> 6)"

definition degrade :: "observation_status \<Rightarrow> streaming_observer \<Rightarrow> streaming_observer" where
  "degrade status obs =
     (if severity status > severity (so_status obs) then obs\<lparr>so_status := status\<rparr> else obs)"

definition summary :: "streaming_observer \<Rightarrow> response_observation" where
  "summary obs = (so_response obs)\<lparr>ro_status := so_status obs\<rparr>"

definition update_response ::
  "(response_observation \<Rightarrow> response_observation) \<Rightarrow> streaming_observer \<Rightarrow> streaming_observer" where
  "update_response f obs = obs\<lparr>so_response := f (so_response obs)\<rparr>"

definition elapsed_us :: "clock \<Rightarrow> streaming_observer \<Rightarrow> streaming_observer \<times> u64 option" where
  "elapsed_us clock obs = (obs\<lparr>so_reads := Suc (so_reads obs)\<rparr>, clock (so_reads obs))"

definition freeze :: "clock \<Rightarrow> streaming_observer \<Rightarrow> streaming_observer" where
  "freeze clock obs =
     (let obs = (if ro_duration_us (so_response obs) = None
          then (case elapsed_us clock obs of
              (obs, t) \<Rightarrow> update_response (\<lambda>r. r\<lparr>ro_duration_us := t\<rparr>) obs)
          else obs)
      in obs\<lparr>so_terminal := True\<rparr>)"

definition settle :: "clock \<Rightarrow> streaming_observer \<Rightarrow> streaming_observer" where
  "settle clock obs = (freeze clock obs)\<lparr>so_settled := True\<rparr>"

definition unconfirmed_usage_status :: "streaming_observer \<Rightarrow> usage_status" where
  "unconfirmed_usage_status obs =
     (case so_usage_evidence obs of
        None \<Rightarrow> UsageUnavailable
      | Some status \<Rightarrow> settle_usage_status status False)"

definition absorb_framing_failure :: "streaming_observer \<Rightarrow> streaming_observer" where
  "absorb_framing_failure obs =
     (case fr_failure (so_framer obs) of
        Some error \<Rightarrow> degrade (status_for_error error) obs
      | None \<Rightarrow> obs)"

section \<open>One event\<close>

fun contains :: "string \<Rightarrow> string \<Rightarrow> bool" where
  "contains [] needle = (needle = [])"
| "contains (c # rest) needle =
     (take (length needle) (c # rest) = needle \<or> contains rest needle)"

definition lifecycle_of :: "string \<Rightarrow> provider_response_state option" where
  "lifecycle_of name =
     (if name = ''response.created'' \<or> name = ''response.queued'' then Some Queued
      else if name = ''response.in_progress'' then Some InProgress
      else if name = ''response.completed'' then Some Completed
      else if name = ''response.incomplete'' then Some StateIncomplete
      else if name = ''response.failed'' \<or> name = ''error'' then Some Failed
      else if name = ''response.cancelled'' \<or> name = ''response.canceled'' then Some StateCancelled
      else None)"

definition semantic_output :: "string \<Rightarrow> bool" where
  "semantic_output name \<longleftrightarrow>
     contains name ''output'' \<and> (contains name ''delta'' \<or> contains name ''item'')"

definition note_first_output :: "clock \<Rightarrow> string \<Rightarrow> streaming_observer \<Rightarrow> streaming_observer" where
  "note_first_output clock name obs =
     (if semantic_output name \<and> ro_ttft_us (so_response obs) = None
      then (case elapsed_us clock obs of
          (obs, t) \<Rightarrow> update_response (\<lambda>r. r\<lparr>ro_ttft_us := t\<rparr>) obs)
      else obs)"

text \<open>The response object of an event, and the exact bytes it was read from.\<close>

definition event_object :: "json \<Rightarrow> string \<Rightarrow> json \<times> string" where
  "event_object payload data =
     (case json_get payload ''response'' of
        None \<Rightarrow> (payload, data)
      | Some nested \<Rightarrow>
          (nested, case member_span data ''response'' of Some bytes \<Rightarrow> bytes | None \<Rightarrow> []))"

text \<open>A string is only looked for while the observation does not hold one.\<close>

definition first_string ::
  "string_extraction \<Rightarrow> string option \<Rightarrow> json option \<Rightarrow> string \<Rightarrow> string_extraction \<times> string option"
  where
  "first_string extraction held object key =
     (case (held, object) of
        (None, Some (Object members)) \<Rightarrow> extract_string extraction members key
      | _ \<Rightarrow> (extraction, held))"

definition observe_strings ::
  "observation_limits \<Rightarrow> json_map \<Rightarrow> streaming_observer \<Rightarrow> streaming_observer" where
  "observe_strings limits object obs =
     (let r = so_response obs;
          ext = string_extraction_new (max_string_bytes limits);
          (ext, response_id) =
            first_string ext (ro_provider_response_id r) (Some (Object object)) ''id'';
          (ext, model) = first_string ext (ro_model r) (Some (Object object)) ''model'';
          (ext, reason) = first_string ext (ro_incomplete_reason r)
            (map_of object ''incomplete_details'') ''reason'';
          (ext, code) = first_string ext (ro_error_code r) (map_of object ''error'') ''code'';
          obs = update_response (\<lambda>r. r\<lparr>ro_provider_response_id := response_id,
            ro_model := model, ro_incomplete_reason := reason, ro_error_code := code\<rparr>) obs
      in if se_partial ext then degrade StatusPartial obs else obs)"

definition observe_usage ::
  "usage_evidence \<Rightarrow> streaming_observer \<Rightarrow> streaming_observer" where
  "observe_usage usage obs =
     (case ue_outcome usage of
        UsageRetained \<Rightarrow>
          update_response (\<lambda>r. r\<lparr>ro_normalized_usage := ue_normalized usage,
              ro_raw_usage := ue_raw usage\<rparr>)
            (obs\<lparr>so_usage_evidence := Some (ue_status usage)\<rparr>)
      | UsageUnusable \<Rightarrow> degrade StatusPartial obs
      | UsageOversized \<Rightarrow> degrade StatusResourceLimit obs
      | UsageAbsent \<Rightarrow> obs)"

definition observe_lifecycle ::
  "clock \<Rightarrow> provider_response_state option \<Rightarrow> streaming_observer \<Rightarrow> streaming_observer" where
  "observe_lifecycle clock lifecycle obs =
     (case lifecycle of
        None \<Rightarrow> obs
      | Some state \<Rightarrow>
          if is_terminal_state state
          then freeze clock (update_response (\<lambda>r. r\<lparr>ro_response_state := state\<rparr>)
            (obs\<lparr>so_evidence := Some state\<rparr>))
          else update_response (\<lambda>r. r\<lparr>ro_response_state := state\<rparr>) obs)"

definition observe_usage_status :: "streaming_observer \<Rightarrow> streaming_observer" where
  "observe_usage_status obs =
     (let status = (case so_usage_evidence obs of
            None \<Rightarrow> UsageUnavailable
          | Some status \<Rightarrow> settle_usage_status status (so_evidence obs \<noteq> None));
          obs = update_response (\<lambda>r. r\<lparr>ro_usage_status := status\<rparr>) obs
      in if so_evidence obs = Some Completed \<and> status = UsageUnavailable
         then degrade StatusPartial obs else obs)"

definition observe_payload ::
  "clock \<Rightarrow> (string \<Rightarrow> json option) \<Rightarrow> provider_response_state option \<Rightarrow> json \<Rightarrow> string
    \<Rightarrow> streaming_observer \<Rightarrow> streaming_observer" where
  "observe_payload clock from_slice lifecycle payload data obs =
     (let limits = fr_limits (so_framer obs);
          (object, object_bytes) = event_object payload data;
          obs = (if contains_compaction_item payload
            then update_response (\<lambda>r. r\<lparr>ro_compaction_output_seen := True\<rparr>) obs else obs);
          obs = (case as_object object of
              Some members \<Rightarrow>
                observe_usage
                  (extract_usage from_slice members object_bytes (max_usage_bytes limits))
                  (observe_strings limits members obs)
            | None \<Rightarrow> obs)
      in observe_usage_status (observe_lifecycle clock lifecycle obs))"

definition observe_event ::
  "clock \<Rightarrow> (string \<Rightarrow> jtree \<times> bool) \<Rightarrow> (string \<Rightarrow> json option) \<Rightarrow> streaming_observer \<Rightarrow> sse_event
    \<Rightarrow> streaming_observer" where
  "observe_event clock deserializer from_slice obs event =
     (let name = (case ev_event event of Some name \<Rightarrow> name | None \<Rightarrow> []);
          lifecycle = lifecycle_of name;
          obs = note_first_output clock name obs
      in case parse_bounded deserializer (ev_data event) (fr_limits (so_framer obs)) of
           Ok payload \<Rightarrow> observe_payload clock from_slice lifecycle payload (ev_data event) obs
         | Err error \<Rightarrow>
             if lifecycle \<noteq> None
             then degrade (case error of
                 ResourceLimit \<Rightarrow> StatusResourceLimit
               | InvalidText \<Rightarrow> StatusPartial
               | Malformed \<Rightarrow> StatusPartial) obs
             else obs)"

fun observe_events ::
  "clock \<Rightarrow> (string \<Rightarrow> jtree \<times> bool) \<Rightarrow> (string \<Rightarrow> json option) \<Rightarrow> streaming_observer
    \<Rightarrow> sse_event list \<Rightarrow> streaming_observer" where
  "observe_events clock deserializer from_slice obs [] = obs"
| "observe_events clock deserializer from_slice obs (event # events) =
     (if so_terminal obs then obs
      else observe_events clock deserializer from_slice
        (observe_event clock deserializer from_slice obs event) events)"

section \<open>The operations of the stream owner\<close>

definition count_fragment :: "string \<Rightarrow> streaming_observer \<Rightarrow> streaming_observer" where
  "count_fragment bytes obs =
     (let (chunks, status) = checked_count (ro_chunk_count (so_response obs)) 1 (so_status obs);
          (count, status) =
            checked_count (ro_byte_count (so_response obs)) (of_nat (length bytes)) status
      in (update_response (\<lambda>r. r\<lparr>ro_chunk_count := chunks, ro_byte_count := count\<rparr>) obs)
         \<lparr>so_status := status\<rparr>)"

definition note_first_byte :: "clock \<Rightarrow> string \<Rightarrow> streaming_observer \<Rightarrow> streaming_observer" where
  "note_first_byte clock bytes obs =
     (if ro_ttfb_us (so_response obs) = None \<and> bytes \<noteq> []
      then (case elapsed_us clock obs of
          (obs, t) \<Rightarrow> update_response (\<lambda>r. r\<lparr>ro_ttfb_us := t\<rparr>) obs)
      else obs)"

definition observer_push ::
  "clock \<Rightarrow> (string \<Rightarrow> jtree \<times> bool) \<Rightarrow> (string \<Rightarrow> json option) \<Rightarrow> streaming_observer \<Rightarrow> string
    \<Rightarrow> streaming_observer \<times> (unit, observation_error) result" where
  "observer_push clock deserializer from_slice obs bytes =
     (if so_settled obs then (obs, Ok ())
      else let obs = count_fragment bytes obs
        in if so_terminal obs then (obs, Ok ())
           else let obs = note_first_byte clock bytes obs
             in case framer_push (so_framer obs) bytes of
                  (framer, Ok events) \<Rightarrow>
                    (observe_events clock deserializer from_slice (obs\<lparr>so_framer := framer\<rparr>) events,
                     Ok ())
                | (framer, Err error) \<Rightarrow>
                    (degrade (status_for_error error) (obs\<lparr>so_framer := framer\<rparr>), Err error))"

definition observer_finish ::
  "clock \<Rightarrow> (string \<Rightarrow> jtree \<times> bool) \<Rightarrow> (string \<Rightarrow> json option) \<Rightarrow> streaming_observer
    \<Rightarrow> streaming_observer \<times> response_observation" where
  "observer_finish clock deserializer from_slice obs =
     (let obs =
        (if so_settled obs then obs
         else let obs =
           (if so_terminal obs then obs
            else let obs = (case framer_finish (so_framer obs) of
                  (framer, Ok events) \<Rightarrow>
                    observe_events clock deserializer from_slice (obs\<lparr>so_framer := framer\<rparr>) events
                | (framer, Err _) \<Rightarrow> obs\<lparr>so_framer := framer\<rparr>);
                obs = absorb_framing_failure obs
              in if so_evidence obs = None
                 then degrade StatusPartial (update_response (\<lambda>r. r\<lparr>
                   ro_response_state := StateIncomplete,
                   ro_usage_status := unconfirmed_usage_status obs\<rparr>) obs)
                 else obs)
           in settle clock obs)
      in (obs, summary obs))"

definition settle_without_completion ::
  "clock \<Rightarrow> provider_response_state \<Rightarrow> observation_status \<Rightarrow> streaming_observer
    \<Rightarrow> streaming_observer \<times> response_observation" where
  "settle_without_completion clock state status obs =
     (let obs =
        (if so_settled obs then obs
         else let obs = (if \<not> so_terminal obs then absorb_framing_failure obs else obs);
           obs = (if so_evidence obs = None
             then degrade status (update_response (\<lambda>r. r\<lparr>ro_response_state := state,
               ro_usage_status := unconfirmed_usage_status obs\<rparr>) obs)
             else obs)
           in settle clock obs)
      in (obs, summary obs))"

definition observer_cancel ::
  "clock \<Rightarrow> streaming_observer \<Rightarrow> streaming_observer \<times> response_observation" where
  "observer_cancel clock = settle_without_completion clock StateCancelled StatusCancelled"

definition observer_disconnect ::
  "clock \<Rightarrow> streaming_observer \<Rightarrow> streaming_observer \<times> response_observation" where
  "observer_disconnect clock = settle_without_completion clock Disconnected StatusPartial"

text \<open>\<open>OpenAiResponsesV1Observer::observe_stream\<close> stops feeding at the first reported bound.\<close>

fun push_until_error ::
  "clock \<Rightarrow> (string \<Rightarrow> jtree \<times> bool) \<Rightarrow> (string \<Rightarrow> json option) \<Rightarrow> streaming_observer \<Rightarrow> string list
    \<Rightarrow> streaming_observer" where
  "push_until_error clock deserializer from_slice obs [] = obs"
| "push_until_error clock deserializer from_slice obs (chunk # chunks) =
     (case observer_push clock deserializer from_slice obs chunk of
        (obs, Err _) \<Rightarrow> obs
      | (obs, Ok _) \<Rightarrow> push_until_error clock deserializer from_slice obs chunks)"

definition observe_stream ::
  "clock \<Rightarrow> (string \<Rightarrow> jtree \<times> bool) \<Rightarrow> (string \<Rightarrow> json option) \<Rightarrow> observation_limits \<Rightarrow> string list
    \<Rightarrow> response_observation" where
  "observe_stream clock deserializer from_slice limits chunks =
     snd (observer_finish clock deserializer from_slice
       (push_until_error clock deserializer from_slice (streaming_observer_new limits) chunks))"

end
