(* ===== verification/Provider_Fragments.thy ===== *)
theory Provider_Fragments
  imports Provider_Stream
begin

text \<open>
  Fragmentation invariance of the streaming observer: what it reports, apart from transport
  counters and timings, depends on the bytes of the stream only. The observer is shown to
  simulate a feeding of \<open>Fragmentation\<close> whose framer is the one of \<open>Provider_Sse\<close>.
\<close>

section \<open>Transport accounting and timings do not influence interpretation\<close>

text \<open>The semantic projection: counters and timings are blanked.\<close>

definition semantic_projection :: "response_observation \<Rightarrow> response_observation" where
  "semantic_projection r =
     r\<lparr>ro_chunk_count := None, ro_byte_count := None, ro_ttfb_us := None, ro_ttft_us := None,
       ro_duration_us := None\<rparr>"

definition no_clock :: clock where
  "no_clock n = None"

definition erase :: "streaming_observer \<Rightarrow> streaming_observer" where
  "erase obs = obs\<lparr>so_framer := sse_framer_new (fr_limits (so_framer obs)), so_reads := 0,
     so_response := semantic_projection (so_response obs)\<rparr>"

lemma erase_simps [simp]:
  "so_status (erase obs) = so_status obs"
  "so_evidence (erase obs) = so_evidence obs"
  "so_usage_evidence (erase obs) = so_usage_evidence obs"
  "so_settled (erase obs) = so_settled obs"
  "so_terminal (erase obs) = so_terminal obs"
  "fr_limits (so_framer (erase obs)) = fr_limits (so_framer obs)"
  "so_response (erase obs) = semantic_projection (so_response obs)"
  "erase (erase obs) = erase obs"
  by (simp_all add: erase_def semantic_projection_def sse_framer_new_def)

lemma projection_simps [simp]:
  "ro_provider_response_id (semantic_projection r) = ro_provider_response_id r"
  "ro_model (semantic_projection r) = ro_model r"
  "ro_incomplete_reason (semantic_projection r) = ro_incomplete_reason r"
  "ro_error_code (semantic_projection r) = ro_error_code r"
  by (simp_all add: semantic_projection_def)

lemma update_response_simps [simp]:
  "so_status (update_response f obs) = so_status obs"
  "so_evidence (update_response f obs) = so_evidence obs"
  "so_usage_evidence (update_response f obs) = so_usage_evidence obs"
  "so_settled (update_response f obs) = so_settled obs"
  "so_terminal (update_response f obs) = so_terminal obs"
  "so_framer (update_response f obs) = so_framer obs"
  "so_response (update_response f obs) = f (so_response obs)"
  by (simp_all add: update_response_def)

lemmas erasing = erase_def semantic_projection_def update_response_def elapsed_us_def

lemma erase_degrade: "erase (degrade status obs) = degrade status (erase obs)"
  by (simp add: degrade_def) (simp add: erase_def)

lemma erase_first_output: "erase (note_first_output clock name obs) = erase obs"
  by (simp add: note_first_output_def erasing)

lemma erase_freeze: "erase (freeze clock obs) = (erase obs)\<lparr>so_terminal := True\<rparr>"
  by (simp add: freeze_def Let_def erasing)

lemma erase_set_strings:
  "erase (update_response (\<lambda>r. r\<lparr>ro_provider_response_id := a, ro_model := b,
      ro_incomplete_reason := c, ro_error_code := d\<rparr>) obs) =
     update_response (\<lambda>r. r\<lparr>ro_provider_response_id := a, ro_model := b,
       ro_incomplete_reason := c, ro_error_code := d\<rparr>) (erase obs)"
  by (cases "so_response obs") (simp add: erasing)

lemma erase_strings:
  "erase (observe_strings limits object obs) = observe_strings limits object (erase obs)"
  by (simp add: observe_strings_def Let_def erase_degrade erase_set_strings split: prod.splits)

lemma erase_usage: "erase (observe_usage usage obs) = observe_usage usage (erase obs)"
  by (simp add: observe_usage_def erase_degrade split: usage_outcome.splits) (simp add: erasing)

lemma erase_lifecycle:
  "erase (observe_lifecycle clock lifecycle obs) = erase (observe_lifecycle no_clock lifecycle (erase obs))"
  by (simp add: observe_lifecycle_def erase_freeze split: option.splits) (simp add: erasing sse_framer_new_def)

lemma erase_set_usage_status:
  "erase (update_response (\<lambda>r. r\<lparr>ro_usage_status := status\<rparr>) obs) =
     update_response (\<lambda>r. r\<lparr>ro_usage_status := status\<rparr>) (erase obs)"
  by (cases "so_response obs") (simp add: erasing)

lemma erase_usage_status: "erase (observe_usage_status obs) = observe_usage_status (erase obs)"
  unfolding observe_usage_status_def Let_def update_response_simps erase_simps
  by (auto simp: erase_degrade erase_set_usage_status)

lemma erase_compaction:
  "erase (update_response (\<lambda>r. r\<lparr>ro_compaction_output_seen := True\<rparr>) obs) =
     update_response (\<lambda>r. r\<lparr>ro_compaction_output_seen := True\<rparr>) (erase obs)"
  by (simp add: erasing)

lemma erase_payload:
  "erase (observe_payload clock from_slice lifecycle payload data obs) =
     erase (observe_payload no_clock from_slice lifecycle payload data (erase obs))"
proof -
  obtain object bytes where object: "event_object payload data = (object, bytes)" by fastforce
  let ?seen = "\<lambda>obs. if contains_compaction_item payload
    then update_response (\<lambda>r. r\<lparr>ro_compaction_output_seen := True\<rparr>) obs else obs"
  define L where "L = fr_limits (so_framer obs)"
  let ?fields = "\<lambda>obs. case as_object object of
      Some members \<Rightarrow>
        observe_usage (extract_usage from_slice members bytes (max_usage_bytes L))
          (observe_strings L members obs)
    | None \<Rightarrow> obs"
  have seen: "erase (?seen obs) = ?seen (erase obs)" by (simp add: erase_compaction)
  have fields: "erase (?fields x) = ?fields (erase x)" for x
    by (simp add: erase_usage erase_strings split: option.splits)
  have run: "observe_payload clock from_slice lifecycle payload data obs =
      observe_usage_status (observe_lifecycle clock lifecycle (?fields (?seen obs)))"
    "observe_payload no_clock from_slice lifecycle payload data (erase obs) =
      observe_usage_status (observe_lifecycle no_clock lifecycle (?fields (?seen (erase obs))))"
    by (simp_all add: observe_payload_def object Let_def L_def cong: option.case_cong)
  show ?thesis
    unfolding run
    by (simp only: erase_usage_status erase_lifecycle [of clock] erase_lifecycle [of no_clock _ "?fields (?seen (erase obs))"]
        fields seen erase_simps)
qed

lemma first_output_framer [simp]:
  "so_framer (note_first_output clock name obs) = so_framer obs"
  by (simp add: note_first_output_def elapsed_us_def)

lemma erase_event:
  "erase (observe_event clock deserializer from_slice obs event) =
     erase (observe_event no_clock deserializer from_slice (erase obs) event)"
proof -
  let ?name = "case ev_event event of Some name \<Rightarrow> name | None \<Rightarrow> []"
  let ?a = "note_first_output clock ?name obs"
  let ?b = "note_first_output no_clock ?name (erase obs)"
  have same: "erase ?a = erase ?b" by (simp add: erase_first_output)
  show ?thesis
  proof (cases "parse_bounded deserializer (ev_data event) (fr_limits (so_framer obs))")
    case (Ok payload)
    have "erase (observe_payload clock from_slice (lifecycle_of ?name) payload (ev_data event) ?a) =
        erase (observe_payload no_clock from_slice (lifecycle_of ?name) payload (ev_data event) ?b)"
      using erase_payload [of clock from_slice "lifecycle_of ?name" payload "ev_data event" ?a]
        erase_payload [of no_clock from_slice "lifecycle_of ?name" payload "ev_data event" ?b] same
      by simp
    with Ok show ?thesis by (simp add: observe_event_def Let_def)
  next
    case (Err error)
    with same show ?thesis by (simp add: observe_event_def Let_def erase_degrade)
  qed
qed

text \<open>The observer never touches its framer while it interprets events.\<close>

lemma interpretation_framer [simp]:
  "so_framer (degrade status obs) = so_framer obs"
  "so_framer (freeze clock obs) = so_framer obs"
  "so_framer (observe_strings limits object obs) = so_framer obs"
  "so_framer (observe_usage usage obs) = so_framer obs"
  "so_framer (observe_lifecycle clock lifecycle obs) = so_framer obs"
  "so_framer (observe_usage_status obs) = so_framer obs"
proof -
  show degrade: "so_framer (degrade status obs) = so_framer obs" for status obs
    by (simp add: degrade_def)
  show freeze: "so_framer (freeze clock obs) = so_framer obs" for clock obs
    by (simp add: freeze_def elapsed_us_def Let_def)
  show "so_framer (observe_strings limits object obs) = so_framer obs"
    by (simp add: observe_strings_def Let_def degrade split: prod.splits)
  show "so_framer (observe_usage usage obs) = so_framer obs"
    by (simp add: observe_usage_def degrade split: usage_outcome.splits)
  show "so_framer (observe_lifecycle clock lifecycle obs) = so_framer obs"
    by (simp add: observe_lifecycle_def freeze split: option.splits)
  show "so_framer (observe_usage_status obs) = so_framer obs"
    by (simp add: observe_usage_status_def Let_def degrade)
qed

lemma observe_event_framer [simp]:
  "so_framer (observe_event clock deserializer from_slice obs event) = so_framer obs"
  by (auto simp: observe_event_def observe_payload_def Let_def
      split: result.splits prod.splits option.splits)

lemma observe_events_framer [simp]:
  "so_framer (observe_events clock deserializer from_slice obs events) = so_framer obs"
  by (induction events arbitrary: obs) simp_all

text \<open>Interpreting a list of events is consuming it, on the erased observer.\<close>

definition interpret_event ::
  "(string \<Rightarrow> jtree \<times> bool) \<Rightarrow> (string \<Rightarrow> json option) \<Rightarrow> streaming_observer \<Rightarrow> sse_event
    \<Rightarrow> streaming_observer" where
  "interpret_event deserializer from_slice obs event =
     erase (observe_event no_clock deserializer from_slice obs event)"

lemma erase_events:
  "erase (observe_events clock deserializer from_slice obs events) =
     consume_all so_terminal (interpret_event deserializer from_slice) (erase obs) events"
  by (induction events arbitrary: obs)
    (simp_all add: interpret_event_def erase_event [of clock])

section \<open>The observer simulates a feeding\<close>

definition steady :: "sse_framer \<Rightarrow> framed \<Rightarrow> bool" where
  "steady fr framing =
     (case framing of (fr', events, r) \<Rightarrow>
        fr_limits fr' = fr_limits fr \<and> fr_failure fr' = fr_failure fr \<and>
        (case r of Ok _ \<Rightarrow> True | Err error \<Rightarrow> error = ResourceLimit))"

lemma finish_line_steady: "steady fr (finish_line (fr\<lparr>fr_pending_cr := b\<rparr>) events)"
  by (cases rule: finish_line_cases [of "fr\<lparr>fr_pending_cr := b\<rparr>" events])
    (auto simp: steady_def emit_event_def split: option.splits)

lemma frame_byte_steady: "steady fr (frame_byte fr events c)"
proof -
  have line: "steady g (finish_line g events)" for g events
    using finish_line_steady [of g "fr_pending_cr g" events] by simp
  have plain: "steady g (frame_plain g events c)" for g events
    using line [of g events] by (auto simp: frame_plain_def steady_def Let_def split: option.splits)
  show ?thesis
    using line [of "fr\<lparr>fr_pending_cr := False\<rparr>" events] plain
    by (fastforce simp: frame_byte_def steady_def Let_def split: prod.splits result.splits)
qed

lemma frame_bytes_steady: "steady fr (frame_bytes fr events bytes)"
proof (induction bytes arbitrary: fr events)
  case Nil
  then show ?case by (simp add: steady_def)
next
  case (Cons c bytes)
  obtain fr1 events1 r where step: "frame_byte fr events c = (fr1, events1, r)" by (metis prod_cases3)
  with frame_byte_steady [of fr events c] Cons.IH [of fr1 events1] show ?case
    by (cases r) (auto simp: steady_def split: prod.splits)
qed

text \<open>
  The observer and a feeding agree on the framer, on whether it failed, and, up to erasure, on
  what was interpreted. Once the framer failed before a terminal event the status of the observer
  may already carry the failure, which the end of the stream adds in any case.
\<close>

definition simulates :: "streaming_observer \<Rightarrow> (sse_framer, streaming_observer) feeding \<Rightarrow> bool" where
  "simulates obs s \<longleftrightarrow>
     fd_framer s = (so_framer obs)\<lparr>fr_failure := None\<rparr> \<and>
     fr_failure (so_framer obs) = (if fd_failed s then Some ResourceLimit else None) \<and>
     (erase obs)\<lparr>so_status := so_status (fd_consumer s)\<rparr> = fd_consumer s \<and>
     (fd_failed s \<and> \<not> so_terminal obs \<or> so_status obs = so_status (fd_consumer s)) \<and>
     \<not> so_settled obs"

abbreviation feed_observer where
  "feed_observer deserializer from_slice \<equiv>
     feed sse_framing so_terminal (interpret_event deserializer from_slice)"

lemma erase_count:
  assumes "ro_chunk_count (so_response obs) = Some c" "ro_byte_count (so_response obs) = Some b"
    and "unat c + 1 < 2 ^ 64" "unat b + length bytes < 2 ^ 64"
  shows "erase (count_fragment bytes obs) = erase obs \<and>
    ro_chunk_count (so_response (count_fragment bytes obs)) = Some (c + 1) \<and>
    ro_byte_count (so_response (count_fragment bytes obs)) = Some (b + of_nat (length bytes)) \<and>
    so_framer (count_fragment bytes obs) = so_framer obs \<and>
    so_terminal (count_fragment bytes obs) = so_terminal obs \<and>
    so_status (count_fragment bytes obs) = so_status obs \<and>
    so_settled (count_fragment bytes obs) = so_settled obs"
proof -
  have "unat (of_nat (length bytes) :: u64) = length bytes"
    using assms(4) by (simp add: unat_of_nat)
  then have adds: "checked_add c 1 = Some (c + 1)"
    "checked_add b (of_nat (length bytes)) = Some (b + of_nat (length bytes))"
    using assms(3,4) by (simp_all add: checked_add_def)
  show ?thesis
    using assms(1,2)
    by (simp add: count_fragment_def checked_count_def adds Let_def) (simp add: erasing)
qed

text \<open>Interpretation leaves the counters and the settlement alone.\<close>

definition transport :: "streaming_observer \<Rightarrow> u64 option \<times> u64 option \<times> bool" where
  "transport obs =
     (ro_chunk_count (so_response obs), ro_byte_count (so_response obs), so_settled obs)"

lemma transport_steps [simp]:
  "transport (degrade status obs) = transport obs"
  "transport (freeze clock obs) = transport obs"
  "transport (note_first_output clock name obs) = transport obs"
  "transport (observe_strings limits object obs) = transport obs"
  "transport (observe_usage usage obs) = transport obs"
  "transport (observe_lifecycle clock lifecycle obs) = transport obs"
  "transport (observe_usage_status obs) = transport obs"
proof -
  show degrade: "transport (degrade status obs) = transport obs" for status obs
    by (simp add: degrade_def transport_def)
  show freeze: "transport (freeze clock obs) = transport obs" for clock obs
    by (simp add: freeze_def elapsed_us_def Let_def transport_def)
  show "transport (note_first_output clock name obs) = transport obs"
    by (simp add: note_first_output_def elapsed_us_def transport_def)
  show "transport (observe_strings limits object obs) = transport obs"
    by (auto simp: observe_strings_def Let_def degrade split: prod.splits) (simp_all add: transport_def)
  show "transport (observe_usage usage obs) = transport obs"
    by (auto simp: observe_usage_def degrade split: usage_outcome.splits) (simp add: transport_def)
  show "transport (observe_lifecycle clock lifecycle obs) = transport obs"
    by (auto simp: observe_lifecycle_def freeze split: option.splits) (simp_all add: transport_def)
  show "transport (observe_usage_status obs) = transport obs"
    by (auto simp: observe_usage_status_def Let_def degrade) (simp_all add: transport_def)
qed

lemma transport_events [simp]:
  "transport (observe_events clock deserializer from_slice obs events) = transport obs"
proof (induction events arbitrary: obs)
  case (Cons event events)
  have "transport (update_response (\<lambda>r. r\<lparr>ro_compaction_output_seen := True\<rparr>) x) = transport x" for x
    by (simp add: transport_def)
  then have "transport (observe_event clock deserializer from_slice obs event) = transport obs"
    by (auto simp: observe_event_def observe_payload_def Let_def
        split: result.splits prod.splits option.splits)
  with Cons show ?case by simp
qed simp

lemma first_byte_simps:
  "erase (note_first_byte clock bytes obs) = erase obs"
  "so_framer (note_first_byte clock bytes obs) = so_framer obs"
  "transport (note_first_byte clock bytes obs) = transport obs"
  "so_terminal (note_first_byte clock bytes obs) = so_terminal obs"
  "so_status (note_first_byte clock bytes obs) = so_status obs"
  by (simp_all add: note_first_byte_def elapsed_us_def transport_def) (simp add: erasing)

definition counted :: "streaming_observer \<Rightarrow> nat \<Rightarrow> nat \<Rightarrow> bool" where
  "counted obs chunks bytes =
     (case transport obs of
        (Some c, Some b, _) \<Rightarrow> unat c + chunks < 2 ^ 64 \<and> unat b + bytes < 2 ^ 64
      | _ \<Rightarrow> False)"

lemma counted_transport: "transport obs = transport obs' \<Longrightarrow> counted obs n m = counted obs' n m"
  by (simp add: counted_def)

lemma counted_step:
  assumes "counted obs (Suc n) (length bytes + m)"
  shows "counted (count_fragment bytes obs) n m \<and> erase (count_fragment bytes obs) = erase obs \<and>
    so_framer (count_fragment bytes obs) = so_framer obs \<and>
    so_status (count_fragment bytes obs) = so_status obs \<and>
    so_terminal (count_fragment bytes obs) = so_terminal obs \<and>
    so_settled (count_fragment bytes obs) = so_settled obs"
proof -
  obtain c b where cb: "ro_chunk_count (so_response obs) = Some c" "ro_byte_count (so_response obs) = Some b"
    and fit: "unat c + Suc n < 2 ^ 64" "unat b + (length bytes + m) < 2 ^ 64"
    using assms by (auto simp: counted_def transport_def split: option.splits)
  have "unat (of_nat (length bytes) :: u64) = length bytes" using fit by (simp add: unat_of_nat)
  then have "unat (c + 1) = unat c + 1" "unat (b + of_nat (length bytes)) = unat b + length bytes"
    using fit by (simp_all add: unat_word_ariths)
  with erase_count [OF cb] fit show ?thesis
    by (simp add: counted_def transport_def)
qed

lemma erase_framer:
  "fr_limits framer = fr_limits (so_framer obs) \<Longrightarrow> erase (obs\<lparr>so_framer := framer\<rparr>) = erase obs"
  by (simp add: erase_def)

lemma degrade_erased: "(erase (degrade status obs))\<lparr>so_status := x\<rparr> = (erase obs)\<lparr>so_status := x\<rparr>"
  by (simp add: degrade_def) (simp add: erase_def)

lemma degrade_limit: "so_status (degrade StatusResourceLimit obs) = StatusResourceLimit"
  by (auto simp: degrade_def severity_def split: observation_status.splits)

text \<open>One fragment.\<close>

lemma simulates_push:
  assumes sim: "simulates obs s" and room: "counted obs (Suc n) (length bytes + m)"
    and push: "observer_push clock deserializer from_slice obs bytes = (obs', r)"
  shows "simulates obs' (feed_observer deserializer from_slice s bytes) \<and> counted obs' n m \<and>
    (is_ok r \<or> fd_failed (feed_observer deserializer from_slice s bytes))"
proof -
  define obs1 where "obs1 = count_fragment bytes obs"
  note step = counted_step [OF room, folded obs1_def]
  have open_obs: "\<not> so_settled obs" and consumer: "so_terminal (fd_consumer s) = so_terminal obs"
    and sim1: "simulates obs1 s"
    using sim step by (auto simp: simulates_def dest: arg_cong [of _ _ so_terminal])
  show ?thesis
  proof (cases "so_terminal obs")
    case True
    then have "obs' = obs1" "r = Ok ()"
      using push open_obs step by (simp_all add: observer_push_def Let_def obs1_def)
    with True consumer sim1 step show ?thesis by (simp add: feed_stopped)
  next
    case False
    define obs2 where "obs2 = note_first_byte clock bytes obs1"
    have obs2: "erase obs2 = erase obs" "so_framer obs2 = so_framer obs" "transport obs2 = transport obs1"
      "so_terminal obs2 = so_terminal obs" "so_status obs2 = so_status obs" "\<not> so_settled obs2"
      using step open_obs first_byte_simps [of clock bytes obs1]
      by (auto simp: obs2_def transport_def)
    have count2: "counted obs2 n m"
      using step counted_transport [OF obs2(3)] by simp
    have run: "observer_push clock deserializer from_slice obs bytes =
      (case framer_push (so_framer obs) bytes of
         (framer, Ok events) \<Rightarrow>
           (observe_events clock deserializer from_slice (obs2\<lparr>so_framer := framer\<rparr>) events, Ok ())
       | (framer, Err error) \<Rightarrow>
           (degrade (status_for_error error) (obs2\<lparr>so_framer := framer\<rparr>), Err error))"
      using False open_obs step unfolding obs2_def obs1_def
      by (simp add: observer_push_def Let_def first_byte_simps)
    show ?thesis
    proof (cases "fd_failed s")
      case True
      then have "framer_push (so_framer obs) bytes = (so_framer obs, Err ResourceLimit)"
        using sim by (simp add: framer_push_def simulates_def)
      moreover have "obs2\<lparr>so_framer := so_framer obs\<rparr> = obs2"
        by (simp add: obs2(2) [symmetric])
      ultimately have obs': "obs' = degrade StatusResourceLimit obs2" using push run by simp
      have "feed_observer deserializer from_slice s bytes = s" using True by (simp add: feed_def)
      moreover have "simulates obs' s"
        using sim True False obs2
        by (auto simp: simulates_def obs' degrade_erased) (auto simp: degrade_def split: if_splits)
      moreover have "counted obs' n m"
        using count2 counted_transport [of obs' obs2] by (simp add: obs')
      ultimately show ?thesis using True by simp
    next
      case live: False
      have none: "fr_failure (so_framer obs) = None" using sim live by (simp add: simulates_def)
      then have fr: "fd_framer s = so_framer obs" using sim by (simp add: simulates_def)
      have "erase obs = (erase obs)\<lparr>so_status := so_status obs\<rparr>" by (simp add: erase_def)
      also have "so_status obs = so_status (fd_consumer s)" using sim live by (simp add: simulates_def)
      also have "(erase obs)\<lparr>so_status := so_status (fd_consumer s)\<rparr> = fd_consumer s"
        using sim by (simp add: simulates_def)
      finally have same: "erase obs = fd_consumer s" .
      obtain framer events outcome where framed: "frame_bytes (so_framer obs) [] bytes = (framer, events, outcome)"
        by (metis prod_cases3)
      have steady: "fr_limits framer = fr_limits (so_framer obs)" "fr_failure framer = None"
        "\<not> is_ok outcome \<Longrightarrow> outcome = Err ResourceLimit"
        using frame_bytes_steady [of "so_framer obs" "[]" bytes] framed none
        by (auto simp: steady_def not_is_ok)
      have fed: "feed_observer deserializer from_slice s bytes =
        \<lparr>fd_framer = framer, fd_failed = \<not> is_ok outcome,
         fd_consumer = consume_all so_terminal (interpret_event deserializer from_slice) (erase obs) events\<rparr>"
        using live False consumer by (simp add: feed_def sse_framing_def fr framed same)
      define latched where "latched = (if is_ok outcome then framer else framer\<lparr>fr_failure := Some ResourceLimit\<rparr>)"
      define seen where "seen = observe_events clock deserializer from_slice (obs2\<lparr>so_framer := latched\<rparr>) events"
      have latched: "latched\<lparr>fr_failure := None\<rparr> = framer" "fr_limits latched = fr_limits (so_framer obs)"
        "fr_failure latched = (if is_ok outcome then None else Some ResourceLimit)"
        using steady by (simp_all add: latched_def)
      have seen: "erase seen = fd_consumer (feed_observer deserializer from_slice s bytes)"
        "so_framer seen = latched" "transport seen = transport obs2"
        using obs2 latched by (simp_all add: seen_def fed erase_events erase_framer)
          (simp add: transport_def)
      have simulated: "simulates seen (feed_observer deserializer from_slice s bytes)"
      proof -
        let ?fed = "feed_observer deserializer from_slice s bytes"
        have status: "so_status seen = so_status (fd_consumer ?fed)"
          using arg_cong [OF seen(1), of so_status] by (simp only: erase_simps)
        have "(erase seen)\<lparr>so_status := so_status (fd_consumer ?fed)\<rparr> = fd_consumer ?fed"
          unfolding seen(1) by simp
        moreover have "\<not> so_settled seen" using seen(3) obs2(6) by (simp add: transport_def)
        ultimately show ?thesis
          using status seen(2) latched by (simp add: simulates_def) (simp add: fed)
      qed
      have count: "counted seen n m" using count2 counted_transport [OF seen(3)] by simp
      show ?thesis
      proof (cases "is_ok outcome \<or> events \<noteq> []")
        case True
        then have "framer_push (so_framer obs) bytes = (latched, Ok events)"
          using none framed steady by (cases outcome) (auto simp: framer_push_def deliver_def latched_def)
        with push run have "obs' = seen" "r = Ok ()" by (auto simp: seen_def)
        with simulated count show ?thesis by simp
      next
        case bare: False
        then have "framer_push (so_framer obs) bytes = (latched, Err ResourceLimit)"
          using none framed steady by (cases outcome) (auto simp: framer_push_def deliver_def latched_def)
        with push run have obs': "obs' = degrade StatusResourceLimit (obs2\<lparr>so_framer := latched\<rparr>)"
          by auto
        from bare have seen': "seen = obs2\<lparr>so_framer := latched\<rparr>" by (simp add: seen_def)
        have "simulates obs' (feed_observer deserializer from_slice s bytes)"
          using simulated bare False obs2(4)
          by (auto simp: simulates_def obs' seen' degrade_erased fed) (auto simp: degrade_def split: if_splits)
        moreover have "counted obs' n m"
          using count counted_transport [of obs' seen] by (simp add: obs' seen')
        ultimately show ?thesis using bare by (simp add: fed)
      qed
    qed
  qed
qed

lemma simulates_new: "simulates (streaming_observer_new limits)
    \<lparr>fd_framer = sse_framer_new limits, fd_failed = False,
     fd_consumer = erase (streaming_observer_new limits)\<rparr>"
  by (simp add: simulates_def streaming_observer_new_def sse_framer_new_def erase_def)

lemma feed_failed: "fd_failed s \<Longrightarrow> feed frame stop consume s bytes = s"
  by (simp add: feed_def)

lemma fold_feed_failed:
  "fd_failed s \<Longrightarrow> fold (\<lambda>bytes s. feed frame stop consume s bytes) chunks s = s"
  by (induction chunks) (simp_all add: feed_failed)

lemma simulates_push_until_error:
  "simulates obs s \<Longrightarrow> counted obs (length chunks) (length (concat chunks)) \<Longrightarrow>
    simulates (push_until_error clock deserializer from_slice obs chunks)
      (fold (\<lambda>bytes s. feed_observer deserializer from_slice s bytes) chunks s)"
proof (induction chunks arbitrary: obs s)
  case Nil
  then show ?case by simp
next
  case (Cons chunk chunks)
  obtain obs' r where push: "observer_push clock deserializer from_slice obs chunk = (obs', r)"
    by fastforce
  have room: "counted obs (Suc (length chunks)) (length chunk + length (concat chunks))"
    using Cons.prems(2) by simp
  note step = simulates_push [OF Cons.prems(1) room push]
  show ?case
  proof (cases r)
    case (Ok u)
    with step Cons.IH push show ?thesis by simp
  next
    case (Err e)
    with step push show ?thesis by (simp add: fold_feed_failed)
  qed
qed

section \<open>The end of the stream\<close>

text \<open>What \<open>finish\<close> does after the flushed events, and its dependence on the erased observer.\<close>

definition conclude :: "streaming_observer \<Rightarrow> streaming_observer" where
  "conclude obs =
     (let obs = absorb_framing_failure obs
      in if so_evidence obs = None
         then degrade StatusPartial (update_response (\<lambda>r. r\<lparr>ro_response_state := StateIncomplete,
           ro_usage_status := unconfirmed_usage_status obs\<rparr>) obs)
         else obs)"

lemma erase_conclusion:
  "erase (update_response (\<lambda>r. r\<lparr>ro_response_state := a, ro_usage_status := b\<rparr>) obs) =
     update_response (\<lambda>r. r\<lparr>ro_response_state := a, ro_usage_status := b\<rparr>) (erase obs)"
  by (cases "so_response obs") (simp add: erasing)

lemma unconfirmed_erase: "unconfirmed_usage_status (erase obs) = unconfirmed_usage_status obs"
  by (simp add: unconfirmed_usage_status_def)

lemma erase_conclude:
  assumes "erase (absorb_framing_failure o1) = erase (absorb_framing_failure o2)"
  shows "erase (conclude o1) = erase (conclude o2)"
proof -
  let ?c = "\<lambda>obs. if so_evidence obs = None
    then degrade StatusPartial (update_response (\<lambda>r. r\<lparr>ro_response_state := StateIncomplete,
      ro_usage_status := unconfirmed_usage_status obs\<rparr>) obs)
    else obs"
  have c: "erase (?c obs) = ?c (erase obs)" for obs
    by (simp add: erase_degrade erase_conclusion unconfirmed_erase)
  have e: "erase (conclude obs) = ?c (erase (absorb_framing_failure obs))" for obs
    unfolding conclude_def Let_def by (rule c)
  show ?thesis by (simp only: e assms)
qed

lemma summary_settled:
  "semantic_projection (summary (settle clock obs)) = summary (erase obs)"
proof -
  have "semantic_projection (summary (settle clock obs)) = summary (erase (settle clock obs))"
    by (cases "so_response (settle clock obs)") (simp add: summary_def semantic_projection_def)
  also have "erase (settle clock obs) = (erase (freeze clock obs))\<lparr>so_settled := True\<rparr>"
    by (simp add: settle_def erase_def)
  also have "summary \<dots> = summary (erase obs)" by (simp add: erase_freeze summary_def)
  finally show ?thesis .
qed

lemma finish_cases:
  assumes "\<not> so_settled obs"
  shows "semantic_projection (snd (observer_finish clock deserializer from_slice obs)) =
    summary (erase (if so_terminal obs then obs else conclude (case framer_finish (so_framer obs) of
        (framer, Ok events) \<Rightarrow>
          observe_events clock deserializer from_slice (obs\<lparr>so_framer := framer\<rparr>) events
      | (framer, Err _) \<Rightarrow> obs\<lparr>so_framer := framer\<rparr>)))"
  using assms by (simp add: observer_finish_def Let_def conclude_def summary_settled)

text \<open>Observers that the end of the stream cannot tell apart.\<close>

definition same_view :: "streaming_observer \<Rightarrow> streaming_observer \<Rightarrow> bool" where
  "same_view o1 o2 \<longleftrightarrow>
     (erase o1)\<lparr>so_status := StatusComplete\<rparr> = (erase o2)\<lparr>so_status := StatusComplete\<rparr> \<and>
     (so_terminal o1 \<or> so_framer o1 = so_framer o2) \<and>
     (so_status o1 = so_status o2 \<or>
       \<not> so_terminal o1 \<and> fr_failure (so_framer o1) = Some ResourceLimit) \<and>
     \<not> so_settled o1 \<and> \<not> so_settled o2"

lemma erase_status_eq:
  assumes "(erase o1)\<lparr>so_status := StatusComplete\<rparr> = (erase o2)\<lparr>so_status := StatusComplete\<rparr>"
    and "so_status o1 = so_status o2"
  shows "erase o1 = erase o2"
proof -
  have "erase x = ((erase x)\<lparr>so_status := StatusComplete\<rparr>)\<lparr>so_status := so_status x\<rparr>" for x
    by (simp add: erase_def)
  with assms show ?thesis by metis
qed

lemma absorb_same:
  assumes "erase o1 = erase o2" and "fr_failure (so_framer o1) = fr_failure (so_framer o2)"
  shows "erase (absorb_framing_failure o1) = erase (absorb_framing_failure o2)"
  using assms by (simp add: absorb_framing_failure_def erase_degrade split: option.splits)

lemma framer_finish_limits:
  assumes "framer_finish fr = (fr', r)"
  shows "fr_limits fr' = fr_limits fr"
proof -
  have line: "fr_limits (fst (finish_line (fr\<lparr>fr_pending_cr := b\<rparr>) es)) = fr_limits fr" for b es
    using finish_line_steady [of fr b es] by (auto simp: steady_def split: prod.splits)
  have emit: "fr_limits (fst (emit_event g es)) = fr_limits g" for g es
    by (simp add: emit_event_def split: option.splits)
  have "fr_limits (fst (flush fr [])) = fr_limits fr"
    using line [of False] line [of "fr_pending_cr fr"] emit
    by (auto simp: flush_def split: prod.splits result.splits if_splits) (metis fst_conv)+
  with assms show ?thesis
    by (auto simp: framer_finish_def deliver_def split: option.splits prod.splits result.splits)
qed

lemma finish_same_view:
  assumes "same_view o1 o2"
  shows "semantic_projection (snd (observer_finish clock1 deserializer from_slice o1)) =
    semantic_projection (snd (observer_finish clock2 deserializer from_slice o2))"
proof -
  note view = assms [unfolded same_view_def]
  have terminal_eq: "so_terminal o1 = so_terminal o2"
    using arg_cong [OF conjunct1 [OF view], of so_terminal] by simp
  show ?thesis
  proof (cases "so_terminal o1")
    case True
    with view have "erase o1 = erase o2" by (auto intro: erase_status_eq)
    with True terminal_eq view show ?thesis by (simp add: finish_cases)
  next
    case False
    with view have framers: "so_framer o1 = so_framer o2" by simp
    obtain framer outcome where flushed: "framer_finish (so_framer o2) = (framer, outcome)" by fastforce
    let ?after = "\<lambda>clock obs. case outcome of
        Ok events \<Rightarrow> observe_events clock deserializer from_slice (obs\<lparr>so_framer := framer\<rparr>) events
      | Err _ \<Rightarrow> obs\<lparr>so_framer := framer\<rparr>"
    have limits: "fr_limits framer = fr_limits (so_framer o2)"
      by (rule framer_finish_limits [OF flushed])
    have "erase (absorb_framing_failure (?after clock1 o1)) =
        erase (absorb_framing_failure (?after clock2 o2))"
    proof (cases "so_status o1 = so_status o2")
      case True
      with view have "erase o1 = erase o2" by (auto intro: erase_status_eq)
      with limits framers have "erase (o1\<lparr>so_framer := framer\<rparr>) = erase (o2\<lparr>so_framer := framer\<rparr>)"
        by (simp add: erase_framer)
      then show ?thesis
        by (intro absorb_same) (cases outcome; simp add: erase_events)+
    next
      case differ: False
      with view have failed: "fr_failure (so_framer o2) = Some ResourceLimit"
        using framers by auto
      then have kept: "framer = so_framer o2" "outcome = Err ResourceLimit"
        using flushed by (simp_all add: framer_finish_def)
      have absorbed: "erase (absorb_framing_failure obs) =
          ((erase obs)\<lparr>so_status := StatusComplete\<rparr>)\<lparr>so_status := StatusResourceLimit\<rparr>"
        if "fr_failure (so_framer obs) = Some ResourceLimit" for obs
        using that by (auto simp: absorb_framing_failure_def degrade_def erase_def severity_def
            split: observation_status.splits)
      have after: "?after clock1 o1 = o1" "?after clock2 o2 = o2"
        using kept framers by simp_all
      show ?thesis
        unfolding after using absorbed [of o1] absorbed [of o2] failed framers view by simp
    qed
    from erase_conclude [OF this] show ?thesis
      using False terminal_eq view by (simp add: finish_cases framers flushed)
  qed
qed

lemma simulates_same_view:
  assumes "simulates o1 s1" and "simulates o2 s2" and "same_feeding so_terminal s1 s2"
  shows "same_view o1 o2"
proof -
  have consumer: "fd_consumer s1 = fd_consumer s2" using assms(3) by (simp add: same_feeding_def)
  have status: "(erase x)\<lparr>so_status := StatusComplete\<rparr> = (fd_consumer s)\<lparr>so_status := StatusComplete\<rparr>"
    and terminal_eq: "so_terminal x = so_terminal (fd_consumer s)" if "simulates x s" for x s
  proof -
    have "(erase x)\<lparr>so_status := so_status (fd_consumer s)\<rparr> = fd_consumer s"
      using that by (simp add: simulates_def)
    from arg_cong [OF this, of "\<lambda>c. c\<lparr>so_status := StatusComplete\<rparr>"] arg_cong [OF this, of so_terminal]
    show "(erase x)\<lparr>so_status := StatusComplete\<rparr> = (fd_consumer s)\<lparr>so_status := StatusComplete\<rparr>"
      "so_terminal x = so_terminal (fd_consumer s)" by simp_all
  qed
  have framer: "so_framer x = (fd_framer s)\<lparr>fr_failure := if fd_failed s then Some ResourceLimit else None\<rparr>"
    if "simulates x s" for x s
  proof -
    have "so_framer x =
        ((so_framer x)\<lparr>fr_failure := None\<rparr>)\<lparr>fr_failure := fr_failure (so_framer x)\<rparr>" by simp
    also have "fr_failure (so_framer x) = (if fd_failed s then Some ResourceLimit else None)"
      using that by (simp add: simulates_def)
    also have "(so_framer x)\<lparr>fr_failure := None\<rparr> = fd_framer s" using that by (simp add: simulates_def)
    finally show ?thesis .
  qed
  show ?thesis
  proof (cases "so_terminal o1")
    case True
    with assms consumer show ?thesis
      unfolding same_view_def status [OF assms(1)] status [OF assms(2)]
      using terminal_eq [OF assms(1)] terminal_eq [OF assms(2)] by (auto simp: simulates_def)
  next
    case False
    then have "s1 = s2" using assms(3) terminal_eq [OF assms(1)] by (simp add: same_feeding_def)
    with False assms consumer show ?thesis
      unfolding same_view_def status [OF assms(1)] status [OF assms(2)]
      using terminal_eq [OF assms(1)] terminal_eq [OF assms(2)] framer [OF assms(1)] framer [OF assms(2)]
      by (auto simp: simulates_def)
  qed
qed

text \<open>
  C1. The meaning of a stream does not depend on how the transport cut it: apart from the
  transport counters and the timings, the observation of any sequence of fragments is the
  observation of their concatenation delivered at once, whatever the limits, the clock and the
  JSON parsers, for streams whose length and fragment count fit 64 bits.
\<close>

theorem observation_fragmentation_invariant:
  assumes "length chunks + length (concat chunks) + 1 < 2 ^ 64"
  shows "semantic_projection (observe_stream clock deserializer from_slice limits chunks) =
    semantic_projection (observe_stream clock' deserializer from_slice limits [concat chunks])"
proof -
  let ?s = "\<lparr>fd_framer = sse_framer_new limits, fd_failed = False,
     fd_consumer = erase (streaming_observer_new limits)\<rparr>"
  have room: "counted (streaming_observer_new limits) n m" if "n < 2 ^ 64" "m < 2 ^ 64" for n m
    using that by (simp add: counted_def transport_def streaming_observer_new_def
        response_observation_empty_def)
  have "same_feeding so_terminal
      (fold (\<lambda>bytes s. feed_observer deserializer from_slice s bytes) chunks ?s)
      (fold (\<lambda>bytes s. feed_observer deserializer from_slice s bytes) [concat chunks] ?s)"
    using sse.feed_fragments by simp
  moreover have "simulates (push_until_error clock deserializer from_slice (streaming_observer_new limits) chunks)
      (fold (\<lambda>bytes s. feed_observer deserializer from_slice s bytes) chunks ?s)"
    by (rule simulates_push_until_error [OF simulates_new]) (rule room; use assms in simp)
  moreover have "simulates (push_until_error clock' deserializer from_slice (streaming_observer_new limits) [concat chunks])
      (fold (\<lambda>bytes s. feed_observer deserializer from_slice s bytes) [concat chunks] ?s)"
    by (rule simulates_push_until_error [OF simulates_new]) (rule room; use assms in simp)
  ultimately show ?thesis
    unfolding observe_stream_def
    by (intro finish_same_view simulates_same_view)
qed

text \<open>An event in three fragments, the second of which ends inside the line end.\<close>

theorem observation_fragmentation_invariant_witness:
  "semantic_projection (observe_stream (\<lambda>n. Some (of_nat n)) (\<lambda>_. (JMap [] True, True)) (\<lambda>_. None)
      default_observation_limits
      [''event: response.comp'', ''leted'' @ [CHR 0x0D], [CHR 0x0A] @ ''data: {}'' @ [CHR 0x0A, CHR 0x0A]]) =
   semantic_projection (observe_stream no_clock (\<lambda>_. (JMap [] True, True)) (\<lambda>_. None)
      default_observation_limits
      [''event: response.completed'' @ [CHR 0x0D, CHR 0x0A] @ ''data: {}'' @ [CHR 0x0A, CHR 0x0A]])"
proof -
  let ?chunks = "[''event: response.comp'', ''leted'' @ [CHR 0x0D],
    [CHR 0x0A] @ ''data: {}'' @ [CHR 0x0A, CHR 0x0A]]"
  have "length ?chunks + length (concat ?chunks) + 1 < 2 ^ 64" by simp
  from observation_fragmentation_invariant [OF this, of "\<lambda>n. Some (of_nat n)" "\<lambda>_. (JMap [] True, True)"
      "\<lambda>_. None" default_observation_limits no_clock]
  show ?thesis by simp
qed

end
