(* ===== verification/Provider_Lifecycle.thy ===== *)
theory Provider_Lifecycle
  imports Provider_Fragments
begin

text \<open>
  The life of a streaming observer in the hands of its owner (\<open>sse.rs\<close>): any interleaving of
  \<open>push\<close>, \<open>finish\<close>, \<open>cancel\<close> and \<open>disconnect\<close>, as a step relation, and what the
  observation can claim after it. The second component of a state collects the events the framer
  handed out so far.
\<close>

section \<open>The steps of the owner\<close>

definition pushed_events :: "streaming_observer \<Rightarrow> string \<Rightarrow> sse_event list" where
  "pushed_events obs bytes =
     (if so_settled obs \<or> so_terminal obs then []
      else handed_out (snd (framer_push (so_framer obs) bytes)))"

definition flushed_events :: "streaming_observer \<Rightarrow> sse_event list" where
  "flushed_events obs =
     (if so_settled obs \<or> so_terminal obs then []
      else handed_out (snd (framer_finish (so_framer obs))))"

type_synonym owned_stream = "streaming_observer \<times> sse_event list"

inductive owner_step ::
  "clock \<Rightarrow> (string \<Rightarrow> jtree \<times> bool) \<Rightarrow> (string \<Rightarrow> json option) \<Rightarrow> owned_stream \<Rightarrow> owned_stream
    \<Rightarrow> bool"
  for clock deserializer from_slice where
  push: "owner_step clock deserializer from_slice (obs, es)
    (fst (observer_push clock deserializer from_slice obs bytes), es @ pushed_events obs bytes)"
| finish: "owner_step clock deserializer from_slice (obs, es)
    (fst (observer_finish clock deserializer from_slice obs), es @ flushed_events obs)"
| cancel: "owner_step clock deserializer from_slice (obs, es) (fst (observer_cancel clock obs), es)"
| disconnect:
    "owner_step clock deserializer from_slice (obs, es) (fst (observer_disconnect clock obs), es)"

inductive_cases owner_stepE: "owner_step clock deserializer from_slice (obs, es) t"

abbreviation owner_steps where
  "owner_steps clock deserializer from_slice \<equiv> (owner_step clock deserializer from_slice)\<^sup>*\<^sup>*"

definition observed_from ::
  "clock \<Rightarrow> (string \<Rightarrow> jtree \<times> bool) \<Rightarrow> (string \<Rightarrow> json option) \<Rightarrow> observation_limits
    \<Rightarrow> owned_stream \<Rightarrow> bool" where
  "observed_from clock deserializer from_slice limits =
     owner_steps clock deserializer from_slice (streaming_observer_new limits, [])"

section \<open>Settlement\<close>

lemma settle_simps [simp]:
  "so_settled (settle clock obs)" "so_terminal (settle clock obs)"
  "so_status (settle clock obs) = so_status obs"
  "so_evidence (settle clock obs) = so_evidence obs"
  "so_usage_evidence (settle clock obs) = so_usage_evidence obs"
  "so_framer (settle clock obs) = so_framer obs"
  "ro_response_state (so_response (settle clock obs)) = ro_response_state (so_response obs)"
  "ro_usage_status (so_response (settle clock obs)) = ro_usage_status (so_response obs)"
  "ro_raw_usage (so_response (settle clock obs)) = ro_raw_usage (so_response obs)"
  "ro_normalized_usage (so_response (settle clock obs)) = ro_normalized_usage (so_response obs)"
  "semantic_projection (so_response (settle clock obs)) = semantic_projection (so_response obs)"
  by (simp_all add: settle_def freeze_def elapsed_us_def Let_def semantic_projection_def)

lemma freeze_simps [simp]:
  "so_settled (freeze clock obs) = so_settled obs" "so_terminal (freeze clock obs)"
  "so_status (freeze clock obs) = so_status obs"
  "so_evidence (freeze clock obs) = so_evidence obs"
  "so_usage_evidence (freeze clock obs) = so_usage_evidence obs"
  "ro_response_state (so_response (freeze clock obs)) = ro_response_state (so_response obs)"
  "ro_usage_status (so_response (freeze clock obs)) = ro_usage_status (so_response obs)"
  "ro_raw_usage (so_response (freeze clock obs)) = ro_raw_usage (so_response obs)"
  "ro_normalized_usage (so_response (freeze clock obs)) = ro_normalized_usage (so_response obs)"
  by (simp_all add: freeze_def elapsed_us_def Let_def)

lemma settles:
  "so_settled (fst (observer_finish clock deserializer from_slice obs))"
  "so_settled (fst (observer_cancel clock obs))"
  "so_settled (fst (observer_disconnect clock obs))"
  by (simp_all add: observer_finish_def observer_cancel_def observer_disconnect_def
      settle_without_completion_def Let_def)

lemma settled_step:
  assumes "owner_step clock deserializer from_slice (obs, es) t" and "so_settled obs"
  shows "t = (obs, es)"
  using assms
  by (auto elim!: owner_stepE simp: observer_push_def observer_finish_def observer_cancel_def
      observer_disconnect_def settle_without_completion_def pushed_events_def flushed_events_def)

lemma settled_steps:
  "owner_steps clock deserializer from_slice s t \<Longrightarrow> so_settled (fst s) \<Longrightarrow> t = s"
proof (induction rule: rtranclp_induct)
  case (step t u)
  then show ?case using settled_step by (metis prod.collapse)
qed simp

text \<open>
  The owner's decision is final: after a finish, a cancellation or a disconnect, no sequence
  of further calls changes the observer, its timings and counters included, and the summary each
  later call returns is the one of the first.
\<close>

theorem settlement_is_final:
  assumes "settled \<in> {fst (observer_finish clock deserializer from_slice obs),
      fst (observer_cancel clock obs), fst (observer_disconnect clock obs)}"
    and "owner_steps clock' deserializer' from_slice' (settled, es) (obs', es')"
  shows "obs' = settled \<and> es' = es \<and>
    snd (observer_finish clock' deserializer' from_slice' obs') = summary settled \<and>
    snd (observer_cancel clock' obs') = summary settled \<and>
    snd (observer_disconnect clock' obs') = summary settled"
proof -
  have "so_settled settled" using assms(1) settles by auto
  with settled_steps [OF assms(2)] show ?thesis
    by (simp add: observer_finish_def observer_cancel_def observer_disconnect_def
        settle_without_completion_def)
qed

theorem settlement_is_final_witness:
  "fst (observer_push no_clock (\<lambda>_. (JUnit, True)) (\<lambda>_. None)
      (fst (observer_cancel no_clock (streaming_observer_new default_observation_limits))) ''data: x'') =
   fst (observer_cancel no_clock (streaming_observer_new default_observation_limits))"
proof -
  let ?d = "\<lambda>_ :: string. (JUnit, True)" and ?f = "\<lambda>_ :: string. None :: json option"
  let ?settled = "fst (observer_cancel no_clock (streaming_observer_new default_observation_limits))"
  let ?after = "fst (observer_push no_clock ?d ?f ?settled ''data: x'')"
  have "owner_steps no_clock ?d ?f (?settled, []) (?after, [] @ pushed_events ?settled ''data: x'')"
    by (rule r_into_rtranclp) (rule owner_step.push)
  with settlement_is_final [of ?settled no_clock ?d ?f "streaming_observer_new default_observation_limits"
      no_clock ?d ?f "[]" ?after]
  show ?thesis by simp
qed

section \<open>What the observation may claim\<close>

definition event_lifecycle :: "sse_event \<Rightarrow> provider_response_state option" where
  "event_lifecycle event =
     lifecycle_of (case ev_event event of Some name \<Rightarrow> name | None \<Rightarrow> [])"

text \<open>An event of that lifecycle state whose payload parsed within the limits.\<close>

definition evidences ::
  "(string \<Rightarrow> jtree \<times> bool) \<Rightarrow> observation_limits \<Rightarrow> sse_event list \<Rightarrow> provider_response_state
    \<Rightarrow> bool" where
  "evidences deserializer limits es state \<longleftrightarrow>
     (\<exists>event\<in>set es. event_lifecycle event = Some state \<and>
        (\<exists>payload. parse_bounded deserializer (ev_data event) limits = Ok payload))"

definition usage_held :: "(string \<Rightarrow> json option) \<Rightarrow> streaming_observer \<Rightarrow> bool" where
  "usage_held from_slice obs \<longleftrightarrow>
     (\<forall>status. so_usage_evidence obs = Some status \<longrightarrow>
       (\<exists>raw. ro_raw_usage (so_response obs) = Some raw \<and>
          ro_normalized_usage (so_response obs) = Some (normalize_usage from_slice raw) \<and>
          nu_status (normalize_usage from_slice raw) = status))"

definition claims_ok ::
  "(string \<Rightarrow> jtree \<times> bool) \<Rightarrow> (string \<Rightarrow> json option) \<Rightarrow> observation_limits
    \<Rightarrow> streaming_observer \<Rightarrow> sse_event list \<Rightarrow> bool" where
  "claims_ok deserializer from_slice limits obs es \<longleftrightarrow>
     fr_limits (so_framer obs) = limits \<and>
     (so_settled obs \<longrightarrow> so_terminal obs) \<and>
     (so_terminal obs \<and> \<not> so_settled obs \<longrightarrow> so_evidence obs \<noteq> None) \<and>
     (\<forall>state. so_evidence obs = Some state \<longrightarrow>
        so_terminal obs \<and> is_terminal_state state \<and> ro_response_state (so_response obs) = state \<and>
        evidences deserializer limits es state) \<and>
     (ro_response_state (so_response obs) = Completed \<longrightarrow> so_evidence obs \<noteq> None) \<and>
     usage_held from_slice obs \<and>
     (ro_usage_status (so_response obs) = UsageFinal \<longrightarrow>
        so_evidence obs \<noteq> None \<and> so_usage_evidence obs = Some UsageFinal)"

text \<open>Everything \<open>claims_ok\<close> reads; most steps of the interpretation leave it alone.\<close>

definition claim_of where
  "claim_of obs =
     (fr_limits (so_framer obs), so_settled obs, so_terminal obs, so_evidence obs,
      so_usage_evidence obs, ro_response_state (so_response obs),
      ro_usage_status (so_response obs), ro_raw_usage (so_response obs),
      ro_normalized_usage (so_response obs))"

lemma claims_ok_cong:
  "claim_of obs = claim_of obs' \<Longrightarrow>
    claims_ok deserializer from_slice limits obs es = claims_ok deserializer from_slice limits obs' es"
  by (simp add: claim_of_def claims_ok_def usage_held_def)

lemma claim_of_steps [simp]:
  "claim_of (degrade status obs) = claim_of obs"
  "claim_of (note_first_output clock name obs) = claim_of obs"
  "claim_of (note_first_byte clock bytes obs) = claim_of obs"
  "claim_of (count_fragment bytes obs) = claim_of obs"
  "claim_of (absorb_framing_failure obs) = claim_of obs"
  "claim_of (observe_strings limits object obs) = claim_of obs"
  "claim_of (update_response (\<lambda>r. r\<lparr>ro_compaction_output_seen := True\<rparr>) obs) = claim_of obs"
proof -
  show degrade: "claim_of (degrade status obs) = claim_of obs" for status obs
    by (simp add: degrade_def claim_of_def)
  show "claim_of (note_first_output clock name obs) = claim_of obs"
    by (simp add: note_first_output_def elapsed_us_def claim_of_def)
  show "claim_of (note_first_byte clock bytes obs) = claim_of obs"
    by (simp add: note_first_byte_def elapsed_us_def claim_of_def)
  show "claim_of (count_fragment bytes obs) = claim_of obs"
    by (simp add: count_fragment_def Let_def claim_of_def split: prod.splits)
  show "claim_of (absorb_framing_failure obs) = claim_of obs"
    by (simp add: absorb_framing_failure_def degrade split: option.splits)
  show "claim_of (observe_strings limits object obs) = claim_of obs"
    by (auto simp: observe_strings_def Let_def degrade split: prod.splits) (simp_all add: claim_of_def)
  show "claim_of (update_response (\<lambda>r. r\<lparr>ro_compaction_output_seen := True\<rparr>) obs) = claim_of obs"
    by (simp add: claim_of_def)
qed

lemma evidences_more: "evidences d l es state \<Longrightarrow> evidences d l (es @ fs) state"
  by (auto simp: evidences_def)

lemma claims_ok_more:
  "claims_ok deserializer from_slice limits obs es \<Longrightarrow>
    claims_ok deserializer from_slice limits obs (es @ fs)"
  by (auto simp: claims_ok_def evidences_more)

lemma usage_retained_raw:
  "ue_outcome (extract_usage from_slice object bytes limit) = UsageRetained \<Longrightarrow>
    \<exists>raw. ue_raw (extract_usage from_slice object bytes limit) = Some raw"
  by (auto simp: extract_usage_def unusable_def Let_def
      split: option.splits json.splits result.splits usage_error.splits)

lemma observe_usage_claims:
  assumes "claims_ok deserializer from_slice limits obs es" and "\<not> so_terminal obs"
  shows "claims_ok deserializer from_slice limits
    (observe_usage (extract_usage from_slice object bytes limit) obs) es"
proof (cases "ue_outcome (extract_usage from_slice object bytes limit)")
  case UsageRetained
  from usage_retained_raw [OF this] obtain raw where
    raw: "ue_raw (extract_usage from_slice object bytes limit) = Some raw" by blast
  with extract_usage_retained [OF raw] assms UsageRetained show ?thesis
    by (auto simp: observe_usage_def claims_ok_def usage_held_def)
qed (use assms in \<open>simp_all add: observe_usage_def claims_ok_cong [OF claim_of_steps(1)]\<close>)

lemma observe_usage_terminal [simp]: "so_terminal (observe_usage usage obs) = so_terminal obs"
  by (simp add: observe_usage_def degrade_def split: usage_outcome.splits)

text \<open>The lifecycle and the usage status of an event that brings evidence, or none.\<close>

lemma observe_end_claims:
  assumes ok: "claims_ok deserializer from_slice limits obs es" and running: "\<not> so_terminal obs"
    and evidence: "\<And>state. lifecycle = Some state \<Longrightarrow> evidences deserializer limits es state"
  shows "claims_ok deserializer from_slice limits
    (observe_usage_status (observe_lifecycle clock lifecycle obs)) es"
proof -
  have completed: "is_terminal_state Completed" by (simp add: is_terminal_state_def)
  let ?obs = "observe_lifecycle clock lifecycle obs"
  have life: "so_settled ?obs = so_settled obs" "so_usage_evidence ?obs = so_usage_evidence obs"
    "ro_raw_usage (so_response ?obs) = ro_raw_usage (so_response obs)"
    "ro_normalized_usage (so_response ?obs) = ro_normalized_usage (so_response obs)"
    by (simp_all add: observe_lifecycle_def split: option.splits)
  have states: "\<not> so_settled obs \<and> (case lifecycle of
      Some state \<Rightarrow> ro_response_state (so_response ?obs) = state \<and>
        (if is_terminal_state state then so_evidence ?obs = Some state \<and> so_terminal ?obs
         else so_evidence ?obs = None \<and> \<not> so_terminal ?obs)
    | None \<Rightarrow> ?obs = obs \<and> so_evidence ?obs = None \<and> \<not> so_terminal ?obs)"
    using ok running by (auto simp: observe_lifecycle_def claims_ok_def split: option.splits)
  have final: "claims_ok deserializer from_slice limits (update_response (\<lambda>r. r\<lparr>ro_usage_status :=
      (case so_usage_evidence ?obs of None \<Rightarrow> UsageUnavailable
        | Some status \<Rightarrow> settle_usage_status status (so_evidence ?obs \<noteq> None))\<rparr>) ?obs) es"
    using ok running states evidence life completed
    by (cases lifecycle) (auto simp: claims_ok_def usage_held_def settle_usage_status_final
        split: option.splits if_splits)
  then show ?thesis
    by (auto simp: observe_usage_status_def Let_def claims_ok_cong [OF claim_of_steps(1)])
qed

lemma observe_event_claims:
  assumes ok: "claims_ok deserializer from_slice limits obs es" and running: "\<not> so_terminal obs"
    and here: "event \<in> set es"
  shows "claims_ok deserializer from_slice limits
    (observe_event clock deserializer from_slice obs event) es"
proof -
  let ?name = "case ev_event event of Some name \<Rightarrow> name | None \<Rightarrow> []"
  let ?start = "note_first_output clock ?name obs"
  have start: "claims_ok deserializer from_slice limits ?start es"
    using ok by (simp add: claims_ok_cong [OF claim_of_steps(2)])
  have same: "so_terminal ?start = so_terminal obs"
    using claim_of_steps(2) [of clock ?name obs] by (simp add: claim_of_def)
  have limits: "fr_limits (so_framer obs) = limits" using ok by (simp add: claims_ok_def)
  show ?thesis
  proof (cases "parse_bounded deserializer (ev_data event) limits")
    case (Err error)
    with start limits show ?thesis
      by (simp add: observe_event_def Let_def claims_ok_cong [OF claim_of_steps(1)])
  next
    case (Ok payload)
    have evidence: "evidences deserializer limits es state"
      if "lifecycle_of ?name = Some state" for state
      using that here Ok by (auto simp: evidences_def event_lifecycle_def)
    obtain object bytes where object: "event_object payload (ev_data event) = (object, bytes)"
      by fastforce
    define seen where "seen = (if contains_compaction_item payload
      then update_response (\<lambda>r. r\<lparr>ro_compaction_output_seen := True\<rparr>) ?start else ?start)"
    have seen_claim: "claim_of seen = claim_of ?start" by (simp add: seen_def)
    define fields where "fields = (case as_object object of
        Some members \<Rightarrow> observe_usage
          (extract_usage from_slice members bytes (max_usage_bytes limits))
          (observe_strings limits members seen)
      | None \<Rightarrow> seen)"
    have "claims_ok deserializer from_slice limits (observe_strings limits members seen) es \<and>
        so_terminal (observe_strings limits members seen) = so_terminal obs" for members
      using start same seen_claim claim_of_steps(6) [of limits members seen]
        claims_ok_cong [of "observe_strings limits members seen" ?start]
      by (simp add: claim_of_def)
    moreover have "claims_ok deserializer from_slice limits seen es"
      using start claims_ok_cong [OF seen_claim] by simp
    moreover have "so_terminal seen = so_terminal obs"
      using seen_claim same by (simp add: claim_of_def)
    ultimately have "claims_ok deserializer from_slice limits fields es \<and> \<not> so_terminal fields"
      using running
      by (cases "as_object object") (auto simp: fields_def intro!: observe_usage_claims)
    moreover have "observe_event clock deserializer from_slice obs event =
        observe_usage_status (observe_lifecycle clock (lifecycle_of ?name) fields)"
      using Ok limits object
      by (simp add: observe_event_def observe_payload_def Let_def fields_def seen_def
          cong: option.case_cong)
    ultimately show ?thesis using observe_end_claims evidence by simp
  qed
qed

lemma observe_events_claims:
  "claims_ok deserializer from_slice limits obs es \<Longrightarrow> set events \<subseteq> set es \<Longrightarrow>
    claims_ok deserializer from_slice limits
      (observe_events clock deserializer from_slice obs events) es"
  by (induction events arbitrary: obs) (simp_all add: observe_event_claims)

lemma claims_ok_framer:
  "claims_ok deserializer from_slice limits obs es \<Longrightarrow> fr_limits fr = limits \<Longrightarrow>
    claims_ok deserializer from_slice limits (obs\<lparr>so_framer := fr\<rparr>) es"
  by (simp add: claims_ok_def usage_held_def)

lemma framer_push_limits:
  assumes "framer_push fr bytes = (fr', r)"
  shows "fr_limits fr' = fr_limits fr"
  using assms frame_bytes_steady [of fr "[]" bytes]
  by (auto simp: framer_push_def deliver_def steady_def split: option.splits prod.splits result.splits)

lemma handed_out_Ok [simp]: "handed_out (Ok events) = events" "handed_out (Err error) = []"
  by (simp_all add: handed_out_def)

lemma push_claims:
  assumes ok: "claims_ok deserializer from_slice limits obs es"
  shows "claims_ok deserializer from_slice limits
    (fst (observer_push clock deserializer from_slice obs bytes)) (es @ pushed_events obs bytes)"
proof -
  define counted where "counted = count_fragment bytes obs"
  define fed where "fed = note_first_byte clock bytes counted"
  have same: "claim_of fed = claim_of obs" "claim_of counted = claim_of obs"
    by (simp_all add: fed_def counted_def)
  then have flags: "so_terminal counted = so_terminal obs" "fr_limits (so_framer fed) = limits"
    using ok by (simp_all add: claim_of_def claims_ok_def)
  have framer: "so_framer fed = so_framer obs"
    by (simp add: fed_def counted_def first_byte_simps count_fragment_def Let_def split: prod.splits)
  have ok_fed: "claims_ok deserializer from_slice limits fed (es @ pushed_events obs bytes)"
    using claims_ok_more [OF ok] claims_ok_cong [OF same(1)] by simp
  have ok_counted: "claims_ok deserializer from_slice limits counted es"
    using ok claims_ok_cong [OF same(2)] by simp
  obtain fr r where push: "framer_push (so_framer obs) bytes = (fr, r)" by fastforce
  have fr: "fr_limits fr = limits"
    using framer_push_limits [OF push] flags(2) framer by simp
  show ?thesis
  proof (cases "so_settled obs \<or> so_terminal obs")
    case True
    with ok ok_counted flags show ?thesis
      by (auto simp: observer_push_def pushed_events_def Let_def counted_def [symmetric])
  next
    case False
    then have run: "fst (observer_push clock deserializer from_slice obs bytes) =
        (case r of Ok events \<Rightarrow> observe_events clock deserializer from_slice (fed\<lparr>so_framer := fr\<rparr>) events
         | Err error \<Rightarrow> degrade (status_for_error error) (fed\<lparr>so_framer := fr\<rparr>))"
      using flags push framer
      by (simp add: observer_push_def Let_def fed_def counted_def split: result.splits)
    have handed: "pushed_events obs bytes = handed_out r"
      using False push by (simp add: pushed_events_def)
    from claims_ok_framer [OF ok_fed fr] show ?thesis
      unfolding run
      by (cases r) (auto simp: handed claims_ok_cong [OF claim_of_steps(1)] intro!: observe_events_claims)
  qed
qed

text \<open>The conclusions an owner draws on its own are not terminal evidence.\<close>

lemma conclude_claims:
  assumes "claims_ok deserializer from_slice limits obs es"
    and "so_evidence obs = None" and "state \<noteq> Completed"
  shows "claims_ok deserializer from_slice limits (settle clock (degrade status
    (update_response (\<lambda>r. r\<lparr>ro_response_state := state,
      ro_usage_status := unconfirmed_usage_status obs\<rparr>) obs))) es"
proof -
  have "claims_ok deserializer from_slice limits (settle clock (update_response
      (\<lambda>r. r\<lparr>ro_response_state := state, ro_usage_status := unconfirmed_usage_status obs\<rparr>) obs)) es"
    using assms by (auto simp: claims_ok_def usage_held_def unconfirmed_usage_status_def
        settle_usage_status_final split: option.splits)
  moreover have "claim_of (settle clock (degrade status x)) = claim_of (settle clock x)" for x
    by (simp add: claim_of_def degrade_def)
  ultimately show ?thesis using claims_ok_cong by blast
qed

lemma settle_claims:
  "claims_ok deserializer from_slice limits obs es \<Longrightarrow>
    claims_ok deserializer from_slice limits (settle clock obs) es"
  by (simp add: claims_ok_def usage_held_def)

lemma without_completion_claims:
  assumes ok: "claims_ok deserializer from_slice limits obs es" and "state \<noteq> Completed"
  shows "claims_ok deserializer from_slice limits
    (fst (settle_without_completion clock state status obs)) es"
proof -
  define known where "known = (if \<not> so_terminal obs then absorb_framing_failure obs else obs)"
  have "claim_of known = claim_of obs" by (simp add: known_def)
  with ok have "claims_ok deserializer from_slice limits known es" using claims_ok_cong by blast
  with ok assms(2) show ?thesis
    by (auto simp: settle_without_completion_def Let_def known_def [symmetric]
        intro: conclude_claims settle_claims)
qed

lemma finish_claims:
  assumes ok: "claims_ok deserializer from_slice limits obs es"
  shows "claims_ok deserializer from_slice limits
    (fst (observer_finish clock deserializer from_slice obs)) (es @ flushed_events obs)"
proof (cases "so_settled obs \<or> so_terminal obs")
  case True
  with ok show ?thesis
    by (auto simp: observer_finish_def flushed_events_def Let_def settle_claims)
next
  case False
  obtain fr r where finish: "framer_finish (so_framer obs) = (fr, r)" by fastforce
  then have fr: "fr_limits fr = limits"
    using framer_finish_limits ok by (simp add: claims_ok_def)
  have handed: "flushed_events obs = handed_out r"
    using False finish by (simp add: flushed_events_def)
  define read where "read = (case r of
      Ok events \<Rightarrow> observe_events clock deserializer from_slice (obs\<lparr>so_framer := fr\<rparr>) events
    | Err _ \<Rightarrow> obs\<lparr>so_framer := fr\<rparr>)"
  define known where "known = absorb_framing_failure read"
  have "claims_ok deserializer from_slice limits read (es @ flushed_events obs)"
    using claims_ok_framer [OF claims_ok_more [OF ok] fr] claims_ok_framer [OF ok fr]
    by (cases r) (auto simp: read_def handed intro!: observe_events_claims)
  then have ok_known: "claims_ok deserializer from_slice limits known (es @ flushed_events obs)"
    using claims_ok_cong [OF claim_of_steps(5)] by (simp add: known_def)
  have "fst (observer_finish clock deserializer from_slice obs) =
      settle clock (if so_evidence known = None then degrade StatusPartial (update_response (\<lambda>r.
        r\<lparr>ro_response_state := StateIncomplete, ro_usage_status := unconfirmed_usage_status known\<rparr>) known)
      else known)"
    using False finish by (simp add: observer_finish_def Let_def known_def read_def split: result.splits)
  then show ?thesis
    using conclude_claims [OF ok_known, of StateIncomplete clock StatusPartial] settle_claims [OF ok_known]
    by simp
qed

lemma new_claims: "claims_ok deserializer from_slice limits (streaming_observer_new limits) []"
  by (simp add: claims_ok_def usage_held_def streaming_observer_new_def sse_framer_new_def
      response_observation_empty_def)

lemma owner_step_claims:
  assumes "owner_step clock deserializer from_slice s t"
    and "claims_ok deserializer from_slice limits (fst s) (snd s)"
  shows "claims_ok deserializer from_slice limits (fst t) (snd t)"
  using assms
  by cases (auto simp: push_claims finish_claims observer_cancel_def observer_disconnect_def
      intro: without_completion_claims)

lemma observed_claims:
  assumes "observed_from clock deserializer from_slice limits s"
  shows "claims_ok deserializer from_slice limits (fst s) (snd s)"
  using assms unfolding observed_from_def
  by (induction rule: rtranclp_induct) (auto simp: new_claims intro: owner_step_claims)

lemma evidences_completed:
  assumes "evidences deserializer limits es Completed"
  shows "\<exists>event\<in>set es. ev_event event = Some ''response.completed'' \<and>
    (\<exists>payload. parse_bounded deserializer (ev_data event) limits = Ok payload)"
proof -
  have "ev_event event = Some ''response.completed''"
    if "event_lifecycle event = Some Completed" for event
    using that by (auto simp: event_lifecycle_def lifecycle_of_def split: option.splits if_splits)
  with assms show ?thesis unfolding evidences_def by blast
qed

text \<open>
  C2. However the owner interleaves its calls, an observation claims completion only if the
  stream delivered an event named \<open>response.completed\<close> with a payload that parses within the
  limits, and final usage only if the provider reported a terminal state and the usage held is
  the anomaly-free normalisation of the raw usage retained with it.
\<close>

theorem claims_are_evidenced:
  assumes "observed_from clock deserializer from_slice limits (obs, es)"
  shows "(ro_response_state (summary obs) = Completed \<longrightarrow>
      (\<exists>event\<in>set es. ev_event event = Some ''response.completed'' \<and>
        (\<exists>payload. parse_bounded deserializer (ev_data event) limits = Ok payload))) \<and>
    (ro_usage_status (summary obs) = UsageFinal \<longrightarrow>
      is_terminal_state (ro_response_state (summary obs)) \<and>
      evidences deserializer limits es (ro_response_state (summary obs)) \<and>
      (\<exists>raw. ro_raw_usage (summary obs) = Some raw \<and>
        ro_normalized_usage (summary obs) = Some (normalize_usage from_slice raw) \<and>
        anomalies (normalize_usage from_slice raw) = no_anomalies))"
proof -
  from observed_claims [OF assms] have ok: "claims_ok deserializer from_slice limits obs es" by simp
  have "anomalies (normalize_usage from_slice raw) = no_anomalies"
    if "nu_status (normalize_usage from_slice raw) = UsageFinal" for raw
    using that normalize_usage_consistent [of from_slice raw] by (simp add: consistent_usage_def)
  with ok show ?thesis
    unfolding summary_def
    by (auto simp: claims_ok_def usage_held_def intro!: evidences_completed)
qed

section \<open>Evidence is final, outcomes only degrade\<close>

lemma terminal_step:
  assumes "owner_step clock deserializer from_slice (obs, es) (obs', es')"
    and "so_evidence obs = Some state" and "so_terminal obs"
  shows "so_evidence obs' = Some state \<and> so_terminal obs' \<and> es' = es \<and>
    semantic_projection (so_response obs') = semantic_projection (so_response obs) \<and>
    so_status obs' \<in> {so_status obs, StatusResourceLimit}"
  using assms
proof (cases rule: owner_step.cases)
  case (push bytes)
  have "so_status (count_fragment bytes obs) \<in> {so_status obs, StatusResourceLimit} \<and>
      semantic_projection (so_response (count_fragment bytes obs)) = semantic_projection (so_response obs)"
    by (auto simp: count_fragment_def checked_count_def Let_def semantic_projection_def
        split: option.splits prod.splits)
  moreover have "so_terminal (count_fragment bytes obs) = so_terminal obs"
    "so_evidence (count_fragment bytes obs) = so_evidence obs"
    using claim_of_steps(4) [of bytes obs] by (simp_all add: claim_of_def)
  ultimately show ?thesis
    using push assms(2,3) by (auto simp: observer_push_def pushed_events_def Let_def)
qed (auto simp: observer_finish_def observer_cancel_def observer_disconnect_def flushed_events_def
    settle_without_completion_def Let_def)

text \<open>
  C22. Terminal evidence of the provider is authoritative: once it was observed, no later push,
  finish, cancellation or disconnect changes the response state, any other field of the
  observation but the transport counters and timings, or what was framed; the outcome stays, or
  becomes a resource limit when a counter overflows.
\<close>

theorem terminal_evidence_is_final:
  assumes "observed_from clock deserializer from_slice limits (obs, es)"
    and "so_evidence obs = Some state"
    and "owner_steps clock deserializer from_slice (obs, es) (obs', es')"
  shows "ro_response_state (summary obs') = state \<and> es' = es \<and>
    semantic_projection ((summary obs')\<lparr>ro_status := ro_status (summary obs)\<rparr>) =
      semantic_projection (summary obs) \<and>
    ro_status (summary obs') \<in> {ro_status (summary obs), StatusResourceLimit}"
proof -
  have start: "so_terminal obs" "ro_response_state (so_response obs) = state"
    using observed_claims [OF assms(1)] assms(2) by (simp_all add: claims_ok_def)
  have "so_evidence (fst t) = Some state \<and> so_terminal (fst t) \<and> snd t = es \<and>
      semantic_projection (so_response (fst t)) = semantic_projection (so_response obs) \<and>
      so_status (fst t) \<in> {so_status obs, StatusResourceLimit}"
    if "owner_steps clock deserializer from_slice (obs, es) t" for t
    using that
  proof (induction rule: rtranclp_induct)
    case base
    then show ?case using assms(2) start by simp
  next
    case (step t u)
    obtain a b c d where "t = (a, b)" "u = (c, d)" by fastforce
    with step terminal_step [of clock deserializer from_slice a b c d state] show ?case by auto
  qed
  from this [OF assms(3)] have
    same: "semantic_projection (so_response obs') = semantic_projection (so_response obs)"
    "es' = es" "so_status obs' \<in> {so_status obs, StatusResourceLimit}" by auto
  have "ro_response_state (so_response obs') = ro_response_state (so_response obs)"
    using arg_cong [OF same(1), of ro_response_state] by (simp add: semantic_projection_def)
  with same start show ?thesis
    by (cases "so_response obs", cases "so_response obs'") (auto simp: summary_def semantic_projection_def)
qed

lemma severity_limit [simp]: "severity status \<le> severity StatusResourceLimit"
  by (cases status) (simp_all add: severity_def)

lemma severity_degrade [simp]: "severity (so_status obs) \<le> severity (so_status (degrade status obs))"
  by (simp add: degrade_def)

lemma degrade_reaches [simp]: "severity status \<le> severity (so_status (degrade status obs))"
  by (simp add: degrade_def)

lemma severity_absorb [simp]:
  "severity (so_status obs) \<le> severity (so_status (absorb_framing_failure obs))"
  by (simp add: absorb_framing_failure_def split: option.splits)

lemma severity_steps [simp]:
  "so_status (note_first_output clock name obs) = so_status obs"
  "severity (so_status obs) \<le> severity (so_status (observe_strings limits members obs))"
  "severity (so_status obs) \<le> severity (so_status (observe_usage usage obs))"
  "so_status (observe_lifecycle clock lifecycle obs) = so_status obs"
  "severity (so_status obs) \<le> severity (so_status (observe_usage_status obs))"
  "severity (so_status obs) \<le> severity (so_status (count_fragment bytes obs))"
  "so_status (note_first_byte clock bytes obs) = so_status obs"
proof -
  have update: "severity (so_status obs) \<le> severity (so_status (degrade status (update_response f obs)))"
    for status f by (metis severity_degrade update_response_simps(1))
  show "so_status (note_first_output clock name obs) = so_status obs"
    "so_status (note_first_byte clock bytes obs) = so_status obs"
    by (simp_all add: note_first_output_def note_first_byte_def elapsed_us_def)
  show "so_status (observe_lifecycle clock lifecycle obs) = so_status obs"
    by (simp add: observe_lifecycle_def split: option.splits)
  show "severity (so_status obs) \<le> severity (so_status (observe_strings limits members obs))"
    "severity (so_status obs) \<le> severity (so_status (observe_usage_status obs))"
    using update by (auto simp: observe_strings_def observe_usage_status_def Let_def split: prod.splits)
  show "severity (so_status obs) \<le> severity (so_status (observe_usage usage obs))"
    by (simp add: observe_usage_def split: usage_outcome.splits)
  show "severity (so_status obs) \<le> severity (so_status (count_fragment bytes obs))"
    by (auto simp: count_fragment_def checked_count_def Let_def split: option.splits prod.splits)
qed

lemma severity_payload:
  "severity (so_status obs) \<le>
    severity (so_status (observe_payload clock from_slice lifecycle payload data obs))"
proof -
  obtain object bytes where object: "event_object payload data = (object, bytes)" by fastforce
  define seen where "seen = (if contains_compaction_item payload
    then update_response (\<lambda>r. r\<lparr>ro_compaction_output_seen := True\<rparr>) obs else obs)"
  define fields where "fields = (case as_object object of
      Some members \<Rightarrow> observe_usage
        (extract_usage from_slice members bytes (max_usage_bytes (fr_limits (so_framer obs))))
        (observe_strings (fr_limits (so_framer obs)) members seen)
    | None \<Rightarrow> seen)"
  have "severity (so_status seen) \<le> severity (so_status fields)"
    unfolding fields_def
    by (cases "as_object object") (auto intro: order_trans [OF severity_steps(2) severity_steps(3)])
  also have "\<dots> \<le> severity (so_status (observe_usage_status (observe_lifecycle clock lifecycle fields)))"
    using severity_steps(5) [of "observe_lifecycle clock lifecycle fields"] severity_steps(4) by simp
  finally have "severity (so_status seen) \<le>
      severity (so_status (observe_usage_status (observe_lifecycle clock lifecycle fields)))" .
  moreover have "so_status seen = so_status obs" by (simp add: seen_def)
  moreover have "observe_payload clock from_slice lifecycle payload data obs =
      observe_usage_status (observe_lifecycle clock lifecycle fields)"
    by (simp add: observe_payload_def Let_def object seen_def fields_def cong: option.case_cong)
  ultimately show ?thesis by simp
qed

lemma severity_event:
  "severity (so_status obs) \<le>
    severity (so_status (observe_event clock deserializer from_slice obs event))"
proof -
  let ?name = "case ev_event event of Some name \<Rightarrow> name | None \<Rightarrow> []"
  let ?start = "note_first_output clock ?name obs"
  show ?thesis
  proof (cases "parse_bounded deserializer (ev_data event) (fr_limits (so_framer obs))")
    case (Ok payload)
    then have "observe_event clock deserializer from_slice obs event =
        observe_payload clock from_slice (lifecycle_of ?name) payload (ev_data event) ?start"
      by (simp add: observe_event_def Let_def)
    with severity_payload [of ?start] show ?thesis by simp
  next
    case (Err error)
    then have "\<exists>status. observe_event clock deserializer from_slice obs event = degrade status ?start \<or>
        observe_event clock deserializer from_slice obs event = ?start"
      by (simp add: observe_event_def Let_def) blast
    then show ?thesis using severity_degrade [of ?start] by auto
  qed
qed

lemma severity_events:
  "severity (so_status obs) \<le>
    severity (so_status (observe_events clock deserializer from_slice obs events))"
  by (induction events arbitrary: obs) (auto intro: order_trans [OF severity_event])

lemma severity_push:
  "severity (so_status obs) \<le>
    severity (so_status (fst (observer_push clock deserializer from_slice obs bytes)))"
proof -
  define fed where "fed = note_first_byte clock bytes (count_fragment bytes obs)"
  have start: "severity (so_status obs) \<le> severity (so_status fed)" by (simp add: fed_def)
  obtain fr r where push: "framer_push (so_framer fed) bytes = (fr, r)" by fastforce
  have "severity (so_status fed) \<le> severity (so_status (case r of
      Ok events \<Rightarrow> observe_events clock deserializer from_slice (fed\<lparr>so_framer := fr\<rparr>) events
    | Err error \<Rightarrow> degrade (status_for_error error) (fed\<lparr>so_framer := fr\<rparr>)))"
    using severity_events [of "fed\<lparr>so_framer := fr\<rparr>"]
      severity_degrade [of "fed\<lparr>so_framer := fr\<rparr>"]
    by (auto split: result.split)
  with start push show ?thesis
    by (auto simp: observer_push_def Let_def fed_def split: result.splits
        intro: order_trans [OF severity_steps(6)])
qed

lemma severity_finish:
  "severity (so_status obs) \<le>
    severity (so_status (fst (observer_finish clock deserializer from_slice obs)))"
proof -
  obtain fr r where finish: "framer_finish (so_framer obs) = (fr, r)" by fastforce
  define read where "read = (case r of
      Ok events \<Rightarrow> observe_events clock deserializer from_slice (obs\<lparr>so_framer := fr\<rparr>) events
    | Err _ \<Rightarrow> obs\<lparr>so_framer := fr\<rparr>)"
  define known where "known = absorb_framing_failure read"
  have "severity (so_status obs) \<le> severity (so_status read)"
    using severity_events [of "obs\<lparr>so_framer := fr\<rparr>"] by (auto simp: read_def split: result.split)
  then have known: "severity (so_status obs) \<le> severity (so_status known)"
    unfolding known_def using severity_absorb order_trans by blast
  moreover have "severity (so_status known) \<le> severity (so_status (degrade StatusPartial (update_response f known)))"
    for f by (metis severity_degrade update_response_simps(1))
  ultimately have "severity (so_status obs) \<le>
      severity (so_status (degrade StatusPartial (update_response f known)))" for f
    by (meson order_trans)
  with known finish show ?thesis
    by (auto simp: observer_finish_def Let_def known_def read_def split: result.splits)
qed

lemma severity_without_completion:
  "severity (so_status obs) \<le>
    severity (so_status (fst (settle_without_completion clock state status obs)))"
proof -
  define known where "known = (if \<not> so_terminal obs then absorb_framing_failure obs else obs)"
  have "severity (so_status obs) \<le> severity (so_status known)" by (simp add: known_def)
  moreover have "severity (so_status known) \<le> severity (so_status (degrade status (update_response f known)))"
    for f by (metis severity_degrade update_response_simps(1))
  ultimately show ?thesis
    unfolding settle_without_completion_def Let_def known_def [symmetric]
    by (auto intro: order_trans)
qed

text \<open>
  The outcome of an observation only degrades: along any sequence of calls of the owner its
  severity never decreases, so a partial, malformed or limited observation is never again reported
  as complete.
\<close>

theorem outcome_only_degrades:
  assumes "owner_steps clock deserializer from_slice (obs, es) (obs', es')"
  shows "severity (ro_status (summary obs)) \<le> severity (ro_status (summary obs'))"
proof -
  have step: "severity (so_status (fst s)) \<le> severity (so_status (fst t))"
    if "owner_step clock deserializer from_slice s t" for s t
    using that by cases (auto simp: severity_push severity_finish severity_without_completion
        observer_cancel_def observer_disconnect_def)
  have "severity (so_status obs) \<le> severity (so_status (fst t))"
    if "owner_steps clock deserializer from_slice (obs, es) t" for t
    using that by (induction rule: rtranclp_induct) (auto dest!: step)
  from this [OF assms] show ?thesis by (simp add: summary_def)
qed

text \<open>
  A cancellation or a disconnect by the owner yields to the provider: with terminal evidence
  the observation is the one held before it, apart from timings; without, it reports exactly the
  owner's state, an outcome at least as severe as the owner's, and never final usage.
\<close>

theorem owner_decision_yields_to_evidence:
  assumes "observed_from clock deserializer from_slice limits (obs, es)" and "\<not> so_settled obs"
    and "(reported, state, status) \<in>
      {(snd (observer_cancel clock obs), StateCancelled, StatusCancelled),
       (snd (observer_disconnect clock obs), Disconnected, StatusPartial)}"
  shows "case so_evidence obs of
      Some _ \<Rightarrow> semantic_projection reported = semantic_projection (summary obs)
    | None \<Rightarrow> ro_response_state reported = state \<and>
        severity status \<le> severity (ro_status reported) \<and>
        ro_usage_status reported \<noteq> UsageFinal \<and>
        ro_raw_usage reported = ro_raw_usage (summary obs)"
proof -
  define known where "known = (if \<not> so_terminal obs then absorb_framing_failure obs else obs)"
  have same: "claim_of known = claim_of obs" by (simp add: known_def)
  have reported: "reported = snd (settle_without_completion clock state status obs)"
    using assms(3) by (auto simp: observer_cancel_def observer_disconnect_def)
  show ?thesis
  proof (cases "so_evidence obs")
    case (Some evidence)
    then have "so_terminal obs"
      using observed_claims [OF assms(1)] by (simp add: claims_ok_def)
    with Some assms(2) show ?thesis
      by (simp add: reported settle_without_completion_def Let_def summary_def settle_def freeze_def
          elapsed_us_def semantic_projection_def)
  next
    case None
    then have known_None: "so_evidence known = None"
      "ro_raw_usage (so_response known) = ro_raw_usage (so_response obs)"
      using same by (simp_all add: claim_of_def)
    have "unconfirmed_usage_status known \<noteq> UsageFinal"
      by (auto simp: unconfirmed_usage_status_def settle_usage_status_final split: option.splits)
    moreover have "reported = summary (settle clock (degrade status (update_response (\<lambda>r.
        r\<lparr>ro_response_state := state, ro_usage_status := unconfirmed_usage_status known\<rparr>) known)))"
      using assms(2) known_None
      by (simp add: reported settle_without_completion_def Let_def known_def)
    moreover have "ro_response_state (so_response (degrade status (update_response f known))) =
        ro_response_state (f (so_response known))"
      "ro_usage_status (so_response (degrade status (update_response f known))) =
        ro_usage_status (f (so_response known))"
      "ro_raw_usage (so_response (degrade status (update_response f known))) =
        ro_raw_usage (f (so_response known))" for f
      by (simp_all add: degrade_def)
    ultimately show ?thesis using None known_None by (simp add: summary_def)
  qed
qed

section \<open>A run\<close>

text \<open>A completed response without usage, cancelled by the client after its terminal event.\<close>

definition run_limits :: observation_limits where
  "run_limits = \<lparr>max_semantic_bytes = 16, max_usage_bytes = 4, max_sse_event_bytes = 64,
     max_sse_events = 4, max_json_depth = 4, max_json_items = 4, max_string_bytes = 64\<rparr>"

definition run_deserializer :: "string \<Rightarrow> jtree \<times> bool" where
  "run_deserializer = (\<lambda>_. (JMap [] True, True))"

definition run_bytes :: string where
  "run_bytes = ''event: response.completed'' @ [CHR 0x0A] @ ''data: {}'' @ [CHR 0x0A, CHR 0x0A]"

definition run_pushed :: streaming_observer where
  "run_pushed = fst (observer_push no_clock run_deserializer (\<lambda>_. None)
     (streaming_observer_new run_limits) run_bytes)"

definition run_events :: "sse_event list" where
  "run_events = pushed_events (streaming_observer_new run_limits) run_bytes"

lemma run_observed:
  "observed_from no_clock run_deserializer (\<lambda>_. None) run_limits (run_pushed, run_events)"
proof -
  have "owner_step no_clock run_deserializer (\<lambda>_. None) (streaming_observer_new run_limits, [])
      (run_pushed, [] @ run_events)"
    unfolding run_pushed_def run_events_def by (rule owner_step.push)
  then show ?thesis unfolding observed_from_def by (simp add: r_into_rtranclp)
qed

lemma run_framing:
  "framer_push (sse_framer_new run_limits) run_bytes =
     ((sse_framer_new run_limits)\<lparr>fr_event_count := 1\<rparr>,
      Ok [\<lparr>ev_event = Some ''response.completed'', ev_data = ''{}''\<rparr>])"
  by (simp add: framer_push_def run_bytes_def sse_framer_new_def run_limits_def frame_byte_def
      frame_plain_def finish_line_def split_field_def emit_event_def deliver_def
      usize_checked_add_def usize_limit_def byte_def)

lemma run_parses:
  "parse_bounded run_deserializer bytes run_limits = Ok (Object [])"
  by (simp add: parse_bounded_def run_deserializer_def enter_def run_limits_def
      usize_saturating_add_def usize_limit_def)

lemma run_event:
  "so_evidence (observe_event no_clock run_deserializer (\<lambda>_. None) obs
      \<lparr>ev_event = Some ''response.completed'', ev_data = ''{}''\<rparr>) = Some Completed"
  "so_settled (observe_event no_clock run_deserializer (\<lambda>_. None) obs
      \<lparr>ev_event = Some ''response.completed'', ev_data = ''{}''\<rparr>) = so_settled obs"
  if "fr_limits (so_framer obs) = run_limits"
  using that
  by (simp_all add: observe_event_def run_parses lifecycle_of_def observe_payload_def event_object_def
      json_get_def observe_usage_status_def observe_lifecycle_def is_terminal_state_def
      observe_usage_def extract_usage_def unusable_def observe_strings_def first_string_def
      note_first_output_def elapsed_us_def degrade_def Let_def string_extraction_new_def
      split: prod.split option.splits)

lemma run_outcome:
  "so_evidence run_pushed = Some Completed" "\<not> so_settled run_pushed"
proof -
  let ?fed = "note_first_byte no_clock run_bytes (count_fragment run_bytes (streaming_observer_new run_limits))"
  have start: "so_framer ?fed = sse_framer_new run_limits"
    by (simp add: first_byte_simps count_fragment_def streaming_observer_new_def Let_def split: prod.splits)
  have flags: "\<not> so_settled ?fed" "\<not> so_terminal ?fed"
    "\<not> so_terminal (count_fragment run_bytes (streaming_observer_new run_limits))"
    using claim_of_steps(3) [of no_clock run_bytes "count_fragment run_bytes (streaming_observer_new run_limits)"]
      claim_of_steps(4) [of run_bytes "streaming_observer_new run_limits"]
    by (simp_all add: claim_of_def streaming_observer_new_def)
  let ?framed = "?fed\<lparr>so_framer := (sse_framer_new run_limits)\<lparr>fr_event_count := 1\<rparr>\<rparr>"
  have run: "run_pushed = observe_event no_clock run_deserializer (\<lambda>_. None) ?framed
      \<lparr>ev_event = Some ''response.completed'', ev_data = ''{}''\<rparr>"
    using flags start run_framing
    by (simp add: run_pushed_def observer_push_def Let_def) (simp add: streaming_observer_new_def)
  have limits: "fr_limits (so_framer ?framed) = run_limits" by (simp add: sse_framer_new_def)
  show "so_evidence run_pushed = Some Completed"
    unfolding run by (rule run_event(1) [OF limits])
  show "\<not> so_settled run_pushed"
    unfolding run run_event(2) [OF limits] using flags(1) by simp
qed

lemma run_completed: "ro_response_state (summary run_pushed) = Completed"
  using observed_claims [OF run_observed] run_outcome by (simp add: claims_ok_def summary_def)

theorem claims_are_evidenced_witness:
  "\<exists>event\<in>set run_events. ev_event event = Some ''response.completed'' \<and>
     (\<exists>payload. parse_bounded run_deserializer (ev_data event) run_limits = Ok payload)"
  using claims_are_evidenced [OF run_observed] run_completed by simp

lemma run_cancelled:
  "owner_steps no_clock run_deserializer (\<lambda>_. None) (run_pushed, run_events)
     (fst (observer_cancel no_clock run_pushed), run_events)"
  by (rule r_into_rtranclp) (rule owner_step.cancel)

theorem terminal_evidence_is_final_witness:
  "ro_response_state (summary (fst (observer_cancel no_clock run_pushed))) = Completed"
  using terminal_evidence_is_final [OF run_observed run_outcome(1) run_cancelled] by simp

theorem outcome_only_degrades_witness:
  "severity (ro_status (summary run_pushed)) \<le>
    severity (ro_status (summary (fst (observer_cancel no_clock run_pushed))))"
  using outcome_only_degrades [OF run_cancelled] .

theorem owner_decision_yields_to_evidence_witness:
  "semantic_projection (snd (observer_cancel no_clock run_pushed)) =
    semantic_projection (summary run_pushed)"
  using owner_decision_yields_to_evidence [OF run_observed run_outcome(2),
      of "snd (observer_cancel no_clock run_pushed)" StateCancelled StatusCancelled]
    run_outcome(1)
  by simp

end
