(* ===== verification/Tool_Admission.thy ===== *)
theory Tool_Admission
  imports Provider_Json
begin

text \<open>
  \<open>crates/tracepress-tool-proxy/src\<close>: \<open>model.rs\<close>, \<open>admission.rs\<close>, \<open>policy.rs\<close>,
  \<open>codex_hook.rs\<close> and \<open>execution.rs\<close>: which commands are admitted, which reducers may change
  what an agent sees, how the Codex hook rewrites a call, and how an admitted command is run.
\<close>

section \<open>The model\<close>

datatype output_contract = AgentReadable | LineOrientedMachine | StructuredMachine | ContractUnknown

datatype command_family = CargoTest | CargoCheck | CargoClippy | Ripgrep | GitStatus

datatype fail_open_reason = Unsupported | ShellSyntax

datatype rewrite_decision = Passthrough command_family output_contract | FailOpen fail_open_reason

section \<open>Admission\<close>

definition shell_syntax :: string where
  "shell_syntax =
     [CHR ''|'', CHR ''>'', CHR ''<'', CHR '';'', CHR ''&'', CHR ''$'', CHR 0x60, CHR ''('', CHR '')'',
      CHR 0x0A, CHR 0x0D, CHR 0x27, CHR 0x22, CHR 0x5C, CHR ''*'', CHR ''?'', CHR ''['', CHR '']'',
      CHR ''{'', CHR ''}'', CHR ''~'', CHR ''!'']"

definition decide :: "string \<Rightarrow> rewrite_decision" where
  "decide command =
     (if list_ex (\<lambda>c. c \<in> set shell_syntax) command then FailOpen ShellSyntax
      else let words = split_ascii_whitespace command
        in if take 2 words = [''cargo'', ''test''] then Passthrough CargoTest AgentReadable
           else if take 2 words = [''cargo'', ''check''] then Passthrough CargoCheck AgentReadable
           else if take 2 words = [''cargo'', ''clippy''] then Passthrough CargoClippy AgentReadable
           else if take 1 words = [''rg''] then Passthrough Ripgrep AgentReadable
           else if words = [''git'', ''status''] then Passthrough GitStatus AgentReadable
           else FailOpen Unsupported)"

definition admitted :: "string \<Rightarrow> bool" where
  "admitted command = (case decide command of Passthrough _ _ \<Rightarrow> True | FailOpen _ \<Rightarrow> False)"

section \<open>Policies\<close>

datatype source_policy_mode = Shadow | ActiveMode

datatype source_policy_decision = ShadowOnly | AcceptedOptIn | Rejected

record source_reducer_policy =
  srp_reducer_id :: string
  srp_command_family :: command_family
  srp_mode :: source_policy_mode
  srp_decision :: source_policy_decision

definition policy_entry ::
  "string \<Rightarrow> command_family \<Rightarrow> source_policy_mode \<Rightarrow> source_policy_decision
    \<Rightarrow> source_reducer_policy" where
  "policy_entry reducer family mode decision =
     \<lparr>srp_reducer_id = reducer, srp_command_family = family, srp_mode = mode,
      srp_decision = decision\<rparr>"

definition SOURCE_REDUCER_POLICIES :: "source_reducer_policy list" where
  "SOURCE_REDUCER_POLICIES =
     [policy_entry ''cargo_test_v1_shadow'' CargoTest Shadow ShadowOnly,
      policy_entry ''cargo_test_v1_active'' CargoTest ActiveMode AcceptedOptIn,
      policy_entry ''cargo_check_v1_shadow'' CargoCheck Shadow ShadowOnly,
      policy_entry ''cargo_check_v1_active'' CargoCheck ActiveMode Rejected,
      policy_entry ''cargo_check_v2_shadow'' CargoCheck Shadow ShadowOnly,
      policy_entry ''cargo_check_v2_active'' CargoCheck ActiveMode AcceptedOptIn,
      policy_entry ''cargo_clippy_v1_shadow'' CargoClippy Shadow Rejected,
      policy_entry ''rg_v1_shadow'' Ripgrep Shadow ShadowOnly,
      policy_entry ''rg_v1_active'' Ripgrep ActiveMode AcceptedOptIn,
      policy_entry ''git_status_v1_shadow'' GitStatus Shadow ShadowOnly,
      policy_entry ''git_status_v1_active'' GitStatus ActiveMode Rejected]"

definition source_reducer_policy :: "string \<Rightarrow> source_reducer_policy option" where
  "source_reducer_policy reducer =
     find (\<lambda>policy. srp_reducer_id policy = reducer) SOURCE_REDUCER_POLICIES"

definition active_source_policy_allowed :: "string \<Rightarrow> command_family \<Rightarrow> bool" where
  "active_source_policy_allowed reducer family =
     (case source_reducer_policy reducer of
        None \<Rightarrow> False
      | Some policy \<Rightarrow> srp_command_family policy = family \<and> srp_mode policy = ActiveMode \<and>
          srp_decision policy = AcceptedOptIn)"

section \<open>The Codex hook\<close>

text \<open>
  \<open>from_slice\<close> parses, \<open>to_vec\<close> prints JSON; \<open>tool_bin\<close> is the environment variable
  \<open>TRACEPRESS_TOOL_BIN\<close>.
\<close>

definition as_string_member :: "json \<Rightarrow> string \<Rightarrow> string option" where
  "as_string_member payload key = Option.bind (json_get payload key) as_str"

definition hook_command :: "json \<Rightarrow> string option" where
  "hook_command payload =
     (case (as_string_member payload ''hook_event_name'', as_string_member payload ''tool_name'') of
        (Some event, Some tool) \<Rightarrow>
          if event \<noteq> ''PreToolUse'' \<or> tool \<noteq> ''Bash'' then None
          else (case Option.bind (Option.bind (json_get payload ''tool_input'')
                  (\<lambda>input. json_get input ''command'')) as_str of
              None \<Rightarrow> None
            | Some command \<Rightarrow> if admitted command then Some command else None)
      | _ \<Rightarrow> None)"

definition tool_bin_ok :: "string \<Rightarrow> bool" where
  "tool_bin_ok value \<longleftrightarrow> value \<noteq> [] \<and>
     \<not> list_ex (\<lambda>c. c \<in> set [CHR '' '', CHR 0x27, CHR 0x22, CHR ''$'', CHR 0x60, CHR 0x5C]) value"

definition hook_executable :: "string option \<Rightarrow> string" where
  "hook_executable tool_bin =
     (case tool_bin of
        Some value \<Rightarrow> if tool_bin_ok value then value else ''tracepress''
      | None \<Rightarrow> ''tracepress'')"

definition session_ok :: "string \<Rightarrow> bool" where
  "session_ok value \<longleftrightarrow>
     length value \<le> 128 \<and> list_all (\<lambda>c. is_ascii_alphanumeric c \<or> c = CHR ''-'') value"

definition hook_session :: "json \<Rightarrow> string option" where
  "hook_session payload =
     (case Option.bind
         (case json_get payload ''session_id'' of
            Some value \<Rightarrow> Some value
          | None \<Rightarrow> json_get payload ''turn_id'') as_str of
        Some value \<Rightarrow> if session_ok value then Some value else None
      | None \<Rightarrow> None)"

definition session_prefix :: "string option \<Rightarrow> string" where
  "session_prefix session =
     (case session of
        None \<Rightarrow> []
      | Some value \<Rightarrow> ''TRACEPRESS_SOURCE_SESSION_ID='' @ value @ '' '')"

definition hook_response :: "string \<Rightarrow> json" where
  "hook_response command =
     Object [(''hookSpecificOutput'', Object
       [(''hookEventName'', Text ''PreToolUse''), (''permissionDecision'', Text ''allow''),
        (''updatedInput'', Object [(''command'', Text command)])])]"

definition rewritten_command :: "string option \<Rightarrow> json \<Rightarrow> string \<Rightarrow> string" where
  "rewritten_command tool_bin payload command =
     session_prefix (hook_session payload) @ hook_executable tool_bin @ '' tool '' @ command"

definition codex_pre_tool_use_rewrite ::
  "(string \<Rightarrow> json option) \<Rightarrow> (json \<Rightarrow> string option) \<Rightarrow> string option \<Rightarrow> string \<Rightarrow> string option" where
  "codex_pre_tool_use_rewrite from_slice to_vec tool_bin input =
     (case from_slice input of
        None \<Rightarrow> None
      | Some payload \<Rightarrow>
          (case hook_command payload of
             None \<Rightarrow> None
           | Some command \<Rightarrow> to_vec (hook_response (rewritten_command tool_bin payload command))))"

definition codex_pre_tool_use_identity_rewrite ::
  "(string \<Rightarrow> json option) \<Rightarrow> (json \<Rightarrow> string option) \<Rightarrow> string \<Rightarrow> string option" where
  "codex_pre_tool_use_identity_rewrite from_slice to_vec input =
     (case from_slice input of
        None \<Rightarrow> None
      | Some payload \<Rightarrow>
          (case hook_command payload of
             None \<Rightarrow> None
           | Some command \<Rightarrow> to_vec (hook_response command)))"

section \<open>Execution\<close>

type_synonym i32 = "32 word"

record source_execution_metadata =
  sem_source_execution_id :: string
  sem_command_family :: command_family
  sem_output_contract :: output_contract
  sem_raw_stdout_bytes :: u64
  sem_raw_stderr_bytes :: u64
  sem_emitted_bytes :: u64
  sem_exit_code :: "i32 option"
  sem_termination_signal :: "i32 option"
  sem_duration_us :: nat

text \<open>What the operating system reports of a finished process.\<close>

record process_output =
  po_stdout :: string
  po_stderr :: string
  po_code :: "i32 option"
  po_signal :: "i32 option"

datatype 'ie execution_error = NotAdmitted | EmptyCommand | ExecutionIo 'ie

definition execute_passthrough ::
  "(string \<Rightarrow> string list \<Rightarrow> (process_output, 'ie) result) \<Rightarrow> string option \<Rightarrow> string \<Rightarrow> nat \<Rightarrow> string
    \<Rightarrow> (string \<times> string \<times> source_execution_metadata, 'ie execution_error) result" where
  "execute_passthrough run real_cargo execution_id duration command =
     (case decide command of
        FailOpen _ \<Rightarrow> Err NotAdmitted
      | Passthrough family contract \<Rightarrow>
          (case split_ascii_whitespace command of
             [] \<Rightarrow> Err EmptyCommand
           | program # arguments \<Rightarrow>
               let executable =
                 (if program = ''cargo''
                  then (case real_cargo of Some path \<Rightarrow> path | None \<Rightarrow> program) else program)
               in and_then (map_err ExecutionIo (run executable arguments)) (\<lambda>output.
                    let raw_stdout = u64_of_len_or_max (length (po_stdout output));
                        raw_stderr = u64_of_len_or_max (length (po_stderr output))
                    in Ok (po_stdout output, po_stderr output,
                         \<lparr>sem_source_execution_id = execution_id, sem_command_family = family,
                          sem_output_contract = contract, sem_raw_stdout_bytes = raw_stdout,
                          sem_raw_stderr_bytes = raw_stderr,
                          sem_emitted_bytes = saturating_add raw_stdout raw_stderr,
                          sem_exit_code = po_code output, sem_termination_signal = po_signal output,
                          sem_duration_us = duration\<rparr>))))"

section \<open>What is admitted\<close>

definition shell_free :: "string \<Rightarrow> bool" where
  "shell_free s \<longleftrightarrow> list_all (\<lambda>c. c \<notin> set shell_syntax) s"

lemma shell_free_append [simp]: "shell_free (s @ t) \<longleftrightarrow> shell_free s \<and> shell_free t"
  by (simp add: shell_free_def)

lemma decide_FailOpen_syntax: "decide command = FailOpen ShellSyntax \<longleftrightarrow> \<not> shell_free command"
  by (auto simp: decide_def shell_free_def Let_def list_ex_iff list_all_iff)

lemma admitted_iff:
  "admitted command \<longleftrightarrow> shell_free command \<and>
     (let words = split_ascii_whitespace command
      in take 2 words \<in> {[''cargo'', ''test''], [''cargo'', ''check''], [''cargo'', ''clippy'']} \<or>
         take 1 words = [''rg''] \<or> words = [''git'', ''status''])"
  by (auto simp: admitted_def decide_def shell_free_def Let_def list_ex_iff list_all_iff)

lemma admitted_words: "admitted command \<Longrightarrow> split_ascii_whitespace command \<noteq> []"
  by (auto simp: admitted_iff Let_def)

lemma decide_depends_on_words:
  "shell_free a \<Longrightarrow> shell_free b \<Longrightarrow> split_ascii_whitespace a = split_ascii_whitespace b \<Longrightarrow>
    decide a = decide b"
  by (auto simp: decide_def shell_free_def Let_def list_ex_iff list_all_iff)

lemma find_unique:
  "distinct (map f xs) \<Longrightarrow> find (\<lambda>x. f x = k) xs = Some x \<longleftrightarrow> x \<in> set xs \<and> f x = k"
  by (induction xs) auto

lemma policy_ids_distinct: "distinct (map srp_reducer_id SOURCE_REDUCER_POLICIES)"
  by (simp add: SOURCE_REDUCER_POLICIES_def policy_entry_def)

lemma source_reducer_policy_Some:
  "source_reducer_policy reducer = Some policy \<longleftrightarrow>
     policy \<in> set SOURCE_REDUCER_POLICIES \<and> srp_reducer_id policy = reducer"
  unfolding source_reducer_policy_def by (rule find_unique [OF policy_ids_distinct])

lemma active_source_policy_iff:
  "active_source_policy_allowed reducer family \<longleftrightarrow>
     (\<exists>policy \<in> set SOURCE_REDUCER_POLICIES. srp_reducer_id policy = reducer \<and>
        srp_command_family policy = family \<and> srp_mode policy = ActiveMode \<and>
        srp_decision policy = AcceptedOptIn)"
proof (cases "source_reducer_policy reducer")
  case None
  then have "srp_reducer_id policy \<noteq> reducer" if "policy \<in> set SOURCE_REDUCER_POLICIES" for policy
    using that source_reducer_policy_Some [of reducer policy] by auto
  with None show ?thesis by (auto simp: active_source_policy_allowed_def)
next
  case (Some policy)
  then have "policy' = policy \<longleftrightarrow> policy' \<in> set SOURCE_REDUCER_POLICIES \<and> srp_reducer_id policy' = reducer"
    for policy' using source_reducer_policy_Some [of reducer policy'] by auto
  with Some show ?thesis unfolding active_source_policy_allowed_def by simp metis
qed

text \<open>
  Only three reducers may ever change what an agent sees, each for one command family: the
  registry authorises exactly these pairs.
\<close>

theorem authorised_reducers:
  "active_source_policy_allowed reducer family \<longleftrightarrow>
     (reducer, family) \<in> {(''cargo_test_v1_active'', CargoTest),
       (''cargo_check_v2_active'', CargoCheck), (''rg_v1_active'', Ripgrep)}"
  unfolding active_source_policy_iff
  by (simp add: SOURCE_REDUCER_POLICIES_def policy_entry_def) blast

text \<open>
  A command is run only when it was admitted, and then as one process with exactly the words
  of the command as its arguments; the program is the first word, except that cargo may be
  replaced by the configured real cargo, and the output is handed back unfiltered.
\<close>

theorem execution_runs_admitted_words:
  assumes "execute_passthrough run real_cargo execution_id duration command = Ok (out, err, metadata)"
  shows "admitted command \<and> decide command =
      Passthrough (sem_command_family metadata) (sem_output_contract metadata) \<and>
    (\<exists>program arguments output. split_ascii_whitespace command = program # arguments \<and>
      run (if program = ''cargo'' then (case real_cargo of Some path \<Rightarrow> path | None \<Rightarrow> program)
           else program) arguments = Ok output \<and>
      out = po_stdout output \<and> err = po_stderr output \<and>
      sem_exit_code metadata = po_code output \<and> sem_termination_signal metadata = po_signal output)"
proof -
  from assms obtain family contract where decided: "decide command = Passthrough family contract"
    by (cases "decide command") (simp_all add: execute_passthrough_def)
  from decided have admitted: "admitted command" by (simp add: admitted_def)
  then obtain program arguments where words: "split_ascii_whitespace command = program # arguments"
    using admitted_words by (cases "split_ascii_whitespace command") auto
  from assms decided words show ?thesis
    by (cases "run (if program = ''cargo'' then (case real_cargo of Some path \<Rightarrow> path | None \<Rightarrow> program)
          else program) arguments")
      (use admitted in \<open>auto simp: execute_passthrough_def Let_def\<close>)
qed

theorem execution_runs_admitted_words_witness:
  "admitted ''rg -n fn''"
proof -
  let ?run = "\<lambda>program arguments. Ok \<lparr>po_stdout = program, po_stderr = concat arguments,
    po_code = Some 0, po_signal = None\<rparr> :: (process_output, unit) result"
  have "\<exists>out err metadata. execute_passthrough ?run None ''id'' 0 ''rg -n fn'' = Ok (out, err, metadata)"
    by (simp add: execute_passthrough_def decide_def shell_syntax_def split_ascii_whitespace_def
        is_ascii_whitespace_def and_then_def map_err_def Let_def)
  then show ?thesis using execution_runs_admitted_words by blast
qed

section \<open>The rewritten command\<close>

lemma session_words:
  assumes "session_ok value"
  shows "shell_free value" "list_all (\<lambda>c. \<not> is_ascii_whitespace c) value"
proof -
  have "c \<notin> set shell_syntax \<and> \<not> is_ascii_whitespace c"
    if "is_ascii_alphanumeric c \<or> c = CHR ''-''" for c
    using that by (auto simp: is_ascii_alphanumeric_def is_ascii_digit_def shell_syntax_def
        is_ascii_whitespace_def byte_def)
  then show "shell_free value" "list_all (\<lambda>c. \<not> is_ascii_whitespace c) value"
    using assms by (auto simp: session_ok_def shell_free_def list_all_iff)
qed

lemma hook_session_ok: "hook_session payload = Some value \<Longrightarrow> session_ok value"
  by (auto simp: hook_session_def split: option.splits if_splits)

lemma session_prefix_words:
  "shell_free (session_prefix (hook_session payload))"
  "split_ascii_whitespace (session_prefix (hook_session payload) @ rest) =
     (case hook_session payload of None \<Rightarrow> [] | Some value \<Rightarrow> [''TRACEPRESS_SOURCE_SESSION_ID='' @ value])
     @ split_ascii_whitespace rest"
proof -
  show "shell_free (session_prefix (hook_session payload))"
    using session_words(1) hook_session_ok
    by (auto simp: session_prefix_def shell_free_def shell_syntax_def split: option.split)
  show "split_ascii_whitespace (session_prefix (hook_session payload) @ rest) =
     (case hook_session payload of None \<Rightarrow> [] | Some value \<Rightarrow> [''TRACEPRESS_SOURCE_SESSION_ID='' @ value])
     @ split_ascii_whitespace rest"
  proof (cases "hook_session payload")
    case None
    then show ?thesis by (simp add: session_prefix_def)
  next
    case (Some session)
    let ?word = "''TRACEPRESS_SOURCE_SESSION_ID='' @ session"
    have "list_all (\<lambda>c. \<not> is_ascii_whitespace c) ?word"
      using session_words(2) [OF hook_session_ok [OF Some]] by (simp add: is_ascii_whitespace_def)
    then have "split_ascii_whitespace ?word = [?word]"
      by (intro split_ascii_whitespace_word) simp_all
    moreover have "is_ascii_whitespace CHR '' ''" by (simp add: is_ascii_whitespace_def)
    ultimately show ?thesis
      using Some split_ascii_whitespace_append [of "CHR '' ''" ?word rest] by (simp add: session_prefix_def)
  qed
qed

lemma tool_words:
  assumes "exe \<noteq> []" and "list_all (\<lambda>c. \<not> is_ascii_whitespace c) exe"
  shows "split_ascii_whitespace (exe @ '' tool '' @ command) =
    exe # ''tool'' # split_ascii_whitespace command"
proof -
  have space: "is_ascii_whitespace CHR '' ''" by (simp add: is_ascii_whitespace_def)
  have "split_ascii_whitespace (''tool'' @ CHR '' '' # command) = ''tool'' # split_ascii_whitespace command"
    by (simp only: split_ascii_whitespace_append [OF space])
      (simp add: split_ascii_whitespace_def is_ascii_whitespace_def)
  then show ?thesis
    using split_ascii_whitespace_append [OF space, of exe "''tool'' @ CHR '' '' # command"]
      split_ascii_whitespace_word [OF assms] by simp
qed

lemma hook_command_admitted: "hook_command payload = Some command \<Longrightarrow> admitted command"
  by (auto simp: hook_command_def split: option.splits if_splits)

text \<open>
  C34. The hook only wraps: when it answers, the call was a Bash tool use of an admitted command,
  and the words of the rewritten command are an optional session assignment, the executable, the
  word \<open>tool\<close> and the words of the original command, unchanged and in order, with no shell
  syntax, provided the executable carries neither shell syntax nor white space.
\<close>

theorem hook_rewrite_wraps_command:
  assumes "codex_pre_tool_use_rewrite from_slice to_vec tool_bin input = Some response"
    and "shell_free (hook_executable tool_bin)"
    and "list_all (\<lambda>c. \<not> is_ascii_whitespace c) (hook_executable tool_bin)"
  shows "\<exists>payload command session. from_slice input = Some payload \<and>
    as_string_member payload ''tool_name'' = Some ''Bash'' \<and> admitted command \<and>
    to_vec (hook_response (rewritten_command tool_bin payload command)) = Some response \<and>
    shell_free (rewritten_command tool_bin payload command) \<and>
    split_ascii_whitespace (rewritten_command tool_bin payload command) =
      session @ hook_executable tool_bin # ''tool'' # split_ascii_whitespace command \<and>
    length session \<le> 1"
proof -
  obtain payload command where call: "from_slice input = Some payload" "hook_command payload = Some command"
    and response: "to_vec (hook_response (rewritten_command tool_bin payload command)) = Some response"
    using assms(1) by (auto simp: codex_pre_tool_use_rewrite_def split: option.splits)
  have bash: "as_string_member payload ''tool_name'' = Some ''Bash''"
    using call(2) by (auto simp: hook_command_def split: option.splits if_splits)
  note admitted = hook_command_admitted [OF call(2)]
  have exe: "hook_executable tool_bin \<noteq> []"
    by (auto simp: hook_executable_def tool_bin_ok_def split: option.split)
  have "shell_free '' tool ''" by (simp add: shell_free_def shell_syntax_def)
  then have free: "shell_free (rewritten_command tool_bin payload command)"
    using assms(2) admitted session_prefix_words(1)
    unfolding rewritten_command_def shell_free_append by (simp add: admitted_iff)
  have "split_ascii_whitespace (rewritten_command tool_bin payload command) =
      (case hook_session payload of None \<Rightarrow> [] | Some value \<Rightarrow> [''TRACEPRESS_SOURCE_SESSION_ID='' @ value])
      @ hook_executable tool_bin # ''tool'' # split_ascii_whitespace command"
    unfolding rewritten_command_def session_prefix_words(2) tool_words [OF exe assms(3)] ..
  moreover have "length (case hook_session payload of None \<Rightarrow> []
      | Some value \<Rightarrow> [''TRACEPRESS_SOURCE_SESSION_ID='' @ value]) \<le> 1"
    by (simp split: option.split)
  ultimately show ?thesis using call response bash admitted free by blast
qed

text \<open>
  The response of a rewrite carries an explicit permission, although it is documented as a
  rewrite \<open>without granting permission\<close>.
\<close>

lemma hook_response_grants_permission:
  "Option.bind (json_get (hook_response command) ''hookSpecificOutput'')
     (\<lambda>output. json_get output ''permissionDecision'') = Some (Text ''allow'')"
  by (simp add: hook_response_def json_get_def)

definition sample_call :: json where
  "sample_call = Object [(''hook_event_name'', Text ''PreToolUse''), (''tool_name'', Text ''Bash''),
     (''tool_input'', Object [(''command'', Text ''git status'')]), (''session_id'', Text ''s-1'')]"

lemma sample_call_command: "hook_command sample_call = Some ''git status''"
  by (simp add: hook_command_def sample_call_def as_string_member_def json_get_def admitted_def
      decide_def shell_syntax_def split_ascii_whitespace_def is_ascii_whitespace_def Let_def)

theorem hook_rewrite_wraps_command_witness:
  "\<exists>payload command session. Some sample_call = Some payload \<and> admitted command \<and>
     split_ascii_whitespace (rewritten_command None payload command) =
       session @ ''tracepress'' # ''tool'' # split_ascii_whitespace command"
proof -
  have "codex_pre_tool_use_rewrite (\<lambda>_. Some sample_call) (\<lambda>_. Some []) None [] = Some []"
    by (simp add: codex_pre_tool_use_rewrite_def sample_call_command)
  moreover have "shell_free (hook_executable None)"
    "list_all (\<lambda>c. \<not> is_ascii_whitespace c) (hook_executable None)"
    by (simp_all add: hook_executable_def shell_free_def shell_syntax_def is_ascii_whitespace_def)
  ultimately show ?thesis
    using hook_rewrite_wraps_command [of "\<lambda>_. Some sample_call" "\<lambda>_. Some []" None "[]" "[]"]
    by (fastforce simp: hook_executable_def)
qed

text \<open>
  The hook's check of \<open>TRACEPRESS_TOOL_BIN\<close> is weaker than the admission of commands: it lets
  through an executable with a command separator, so the rewritten command of an admitted call
  need not be free of shell syntax.
\<close>

theorem hook_executable_may_carry_shell_syntax:
  "tool_bin_ok ''tracepress;reboot'' \<and>
   hook_command sample_call = Some ''git status'' \<and> admitted ''git status'' \<and>
   \<not> shell_free (rewritten_command (Some ''tracepress;reboot'') sample_call ''git status'')"
proof -
  have ok: "tool_bin_ok ''tracepress;reboot''" by (simp add: tool_bin_ok_def)
  then have "\<not> shell_free (hook_executable (Some ''tracepress;reboot''))"
    by (simp add: hook_executable_def shell_free_def shell_syntax_def)
  then show ?thesis
    using ok sample_call_command hook_command_admitted [OF sample_call_command]
    by (simp add: rewritten_command_def)
qed

end
