(* ===== verification/Tool_Reducers.thy ===== *)
theory Tool_Reducers
  imports Tool_Admission
begin

text \<open>
  \<open>crates/tracepress-tool-proxy/src/reducers\<close>: the output reducers of \<open>git status\<close>,
  \<open>ripgrep\<close>, \<open>cargo test\<close> and the Cargo diagnostics. \<open>elapsed\<close> is the time the reducer
  measures for itself.
\<close>

section \<open>Candidates\<close>

record source_output_candidate =
  soc_stdout :: string
  soc_stderr :: string
  soc_raw_bytes :: u64
  soc_candidate_bytes :: u64
  soc_estimated_raw_tokens :: u64
  soc_estimated_candidate_tokens :: u64
  soc_omitted_passing_tests :: u64
  soc_omitted_progress_lines :: u64
  soc_omitted_advisory_lines :: u64
  soc_grouped_match_lines :: u64
  soc_recovery_hint_bytes :: u64
  soc_reducer_duration :: nat
  soc_applicable :: bool
  soc_never_worse_accepted :: bool

definition estimated_tokens :: "u64 \<Rightarrow> u64" where
  "estimated_tokens bytes = saturating_add bytes 3 div 4"

definition measured_bytes :: "string \<Rightarrow> string \<Rightarrow> u64" where
  "measured_bytes out err = u64_of_len_or_max (usize_saturating_add (length out) (length err))"

text \<open>The end of every reducer: the sizes, their token estimates and the verdict.\<close>

definition weigh_candidate ::
  "string \<Rightarrow> string \<Rightarrow> string \<Rightarrow> string \<Rightarrow> u64 \<Rightarrow> nat \<Rightarrow> bool \<Rightarrow> source_output_candidate" where
  "weigh_candidate raw_out raw_err out err hint_bytes elapsed applicable =
     (let raw_bytes = measured_bytes raw_out raw_err;
          candidate_bytes = measured_bytes out err;
          raw_tokens = estimated_tokens raw_bytes;
          candidate_tokens = estimated_tokens candidate_bytes
      in \<lparr>soc_stdout = out, soc_stderr = err, soc_raw_bytes = raw_bytes,
          soc_candidate_bytes = candidate_bytes, soc_estimated_raw_tokens = raw_tokens,
          soc_estimated_candidate_tokens = candidate_tokens, soc_omitted_passing_tests = 0,
          soc_omitted_progress_lines = 0, soc_omitted_advisory_lines = 0,
          soc_grouped_match_lines = 0, soc_recovery_hint_bytes = hint_bytes,
          soc_reducer_duration = elapsed, soc_applicable = applicable,
          soc_never_worse_accepted =
            (applicable \<and> candidate_bytes < raw_bytes \<and> candidate_tokens < raw_tokens)\<rparr>)"

text \<open>A hint in front of the output, and its length.\<close>

definition with_hint :: "string option \<Rightarrow> string \<Rightarrow> string \<times> u64" where
  "with_hint hint out =
     (case hint of None \<Rightarrow> (out, 0) | Some h \<Rightarrow> (h @ out, u64_of_len_or_max (length h)))"

definition count_text :: "u64 \<Rightarrow> string" where
  "count_text n = decimal (unat n)"

section \<open>git status\<close>

definition recognized_header :: "string \<Rightarrow> bool" where
  "recognized_header line \<longleftrightarrow>
     prefix ''On branch '' line \<or> prefix ''HEAD detached at '' line \<or>
     prefix ''HEAD detached from '' line \<or> line = ''Not currently on any branch.''"

definition recognized_section :: "string \<Rightarrow> bool" where
  "recognized_section out \<longleftrightarrow>
     list_ex (\<lambda>heading. sublist heading out)
       [''Changes to be committed:'' @ [newline], ''Changes not staged for commit:'' @ [newline],
        ''Untracked files:'' @ [newline], ''Unmerged paths:'' @ [newline]]"

definition is_advisory :: "string \<Rightarrow> bool" where
  "is_advisory line \<longleftrightarrow> prefix (''  (use '' @ [CHR 0x22]) line \<and> suffix '')'' (trim_end line)"

fun omit_advisory :: "string list \<Rightarrow> string \<times> u64 \<Rightarrow> string \<times> u64" where
  "omit_advisory [] state = state"
| "omit_advisory (line # lines) (candidate, omitted) =
     (if is_advisory line then omit_advisory lines (candidate, saturating_add omitted 1)
      else omit_advisory lines (candidate @ line, omitted))"

definition git_status_parse :: "string \<Rightarrow> (string \<times> u64) option" where
  "git_status_parse out =
     (if \<not> utf8_ok out then None
      else let header = (case str_lines out of [] \<Rightarrow> False | line # _ \<Rightarrow> recognized_header line)
        in if \<not> header \<or> \<not> recognized_section out then None
           else let (candidate, omitted) = omit_advisory (split_inclusive out) ([], 0)
             in if omitted > 0 then Some (candidate, omitted) else None)"

definition git_status_hint :: "u64 \<Rightarrow> string \<Rightarrow> string" where
  "git_status_hint omitted command =
     ''[Tracepress: '' @ count_text omitted @ '' status hints omitted; full: '' @ command
       @ '']'' @ [newline]"

definition git_status_candidate ::
  "nat \<Rightarrow> string \<Rightarrow> string \<Rightarrow> string option \<Rightarrow> source_output_candidate" where
  "git_status_candidate elapsed out err recovery =
     (let (candidate, omitted, applicable) =
        (case git_status_parse out of
           None \<Rightarrow> (out, 0, False) | Some (candidate, lines) \<Rightarrow> (candidate, lines, True));
        (candidate, hint_bytes) =
          with_hint (if applicable then map_option (git_status_hint omitted) recovery else None)
            candidate
      in (weigh_candidate out err candidate err hint_bytes elapsed applicable)
           \<lparr>soc_omitted_advisory_lines := omitted\<rparr>)"

definition git_status_v1_shadow :: "nat \<Rightarrow> string \<Rightarrow> string \<Rightarrow> source_output_candidate" where
  "git_status_v1_shadow elapsed out err = git_status_candidate elapsed out err None"

definition git_status_v1_active ::
  "nat \<Rightarrow> string \<Rightarrow> string \<Rightarrow> string \<Rightarrow> source_output_candidate" where
  "git_status_v1_active elapsed out err command = git_status_candidate elapsed out err (Some command)"

section \<open>ripgrep\<close>

definition split_colon :: "string \<Rightarrow> (string \<times> string) option" where
  "split_colon s =
     (let number = takeWhile (\<lambda>c. c \<noteq> CHR '':'') s
      in if length number < length s then Some (number, drop (length number + 1) s) else None)"

text \<open>
  The loop of \<open>match_parts\<close> over the colons of a line: \<open>path\<close> is what lies before the colon
  under inspection. A second candidate makes the line ambiguous.
\<close>

type_synonym match_parts = "string \<times> string \<times> string"

fun match_loop :: "string \<Rightarrow> string \<Rightarrow> match_parts option \<Rightarrow> match_parts option" where
  "match_loop path [] found = found"
| "match_loop path (c # rest) found =
     (if c \<noteq> CHR '':'' then match_loop (path @ [c]) rest found
      else (case split_colon rest of
          None \<Rightarrow> match_loop (path @ [c]) rest found
        | Some (number, content) \<Rightarrow>
            if number \<noteq> [] \<and> list_all is_ascii_digit number
            then (if found \<noteq> None then None
                  else match_loop (path @ [c]) rest (Some (path, number, content)))
            else match_loop (path @ [c]) rest found))"

definition match_parts :: "string \<Rightarrow> match_parts option" where
  "match_parts line = match_loop [] line None"

definition split_ending :: "string \<Rightarrow> string \<times> string" where
  "split_ending raw_line =
     (case strip_suffix [newline] raw_line of
        Some line \<Rightarrow> (line, [newline]) | None \<Rightarrow> (raw_line, []))"

record grouping =
  gr_candidate :: string
  gr_current_file :: "string option"
  gr_grouped :: u64

fun group_lines :: "string list \<Rightarrow> grouping \<Rightarrow> grouping option" where
  "group_lines [] g = Some g"
| "group_lines (raw_line # lines) g =
     (let (line, ending) = split_ending raw_line
      in case match_parts line of
           None \<Rightarrow> None
         | Some (path, number, content) \<Rightarrow>
             let g = (if gr_current_file g \<noteq> Some path
               then g\<lparr>gr_candidate := gr_candidate g @ path @ '':'' @ [newline],
                      gr_current_file := Some path\<rparr>
               else g)
             in group_lines lines
                  (g\<lparr>gr_candidate :=
                       gr_candidate g @ ''  '' @ number @ '':'' @ content @ ending,
                     gr_grouped := saturating_add (gr_grouped g) 1\<rparr>))"

definition rg_parse :: "string \<Rightarrow> (string \<times> u64) option" where
  "rg_parse out =
     (if \<not> utf8_ok out then None
      else (case group_lines (split_inclusive out)
              \<lparr>gr_candidate = [], gr_current_file = None, gr_grouped = 0\<rparr> of
          None \<Rightarrow> None
        | Some g \<Rightarrow> if gr_grouped g > 0 then Some (gr_candidate g, gr_grouped g) else None))"

definition rg_hint :: "u64 \<Rightarrow> string \<Rightarrow> string" where
  "rg_hint grouped command =
     ''[Tracepress: grouped '' @ count_text grouped @ '' matches by file. Exact output: '' @ command
       @ '']'' @ [newline]"

definition rg_candidate ::
  "nat \<Rightarrow> string \<Rightarrow> string \<Rightarrow> string option \<Rightarrow> source_output_candidate" where
  "rg_candidate elapsed out err recovery =
     (let (candidate, grouped, applicable) =
        (case rg_parse out of
           None \<Rightarrow> (out, 0, False) | Some (candidate, lines) \<Rightarrow> (candidate, lines, True));
        (candidate, hint_bytes) =
          with_hint (if applicable then map_option (rg_hint grouped) recovery else None) candidate
      in (weigh_candidate out err candidate err hint_bytes elapsed applicable)
           \<lparr>soc_grouped_match_lines := grouped\<rparr>)"

definition rg_v1_shadow :: "nat \<Rightarrow> string \<Rightarrow> string \<Rightarrow> source_output_candidate" where
  "rg_v1_shadow elapsed out err = rg_candidate elapsed out err None"

definition rg_v1_active ::
  "nat \<Rightarrow> string \<Rightarrow> string \<Rightarrow> string \<Rightarrow> source_output_candidate" where
  "rg_v1_active elapsed out err command = rg_candidate elapsed out err (Some command)"

section \<open>cargo test\<close>

definition is_passing_test :: "string \<Rightarrow> bool" where
  "is_passing_test trimmed \<longleftrightarrow> prefix ''test '' trimmed \<and> suffix '' ... ok'' trimmed"

definition is_test_count :: "string \<Rightarrow> bool" where
  "is_test_count trimmed \<longleftrightarrow> prefix ''running '' trimmed \<and> suffix '' tests'' trimmed"

fun omit_passing :: "string list \<Rightarrow> string \<times> u64 \<Rightarrow> string \<times> u64" where
  "omit_passing [] state = state"
| "omit_passing (line # lines) (candidate, omitted) =
     (let trimmed = trim line
      in if is_passing_test trimmed \<or> is_test_count trimmed
         then omit_passing lines
           (candidate, if prefix ''test '' trimmed then saturating_add omitted 1 else omitted)
         else omit_passing lines (candidate @ line, omitted))"

definition progress_words :: "string list" where
  "progress_words = [''Compiling '', ''Checking '', ''Downloading '', ''Downloaded '']"

definition is_progress :: "bool \<Rightarrow> string \<Rightarrow> bool" where
  "is_progress preserve_finished line \<longleftrightarrow>
     (let trimmed = trim_start line
      in list_ex (\<lambda>word. prefix word trimmed) progress_words \<or>
         (\<not> preserve_finished \<and> prefix ''Finished '' trimmed))"

fun omit_progress :: "bool \<Rightarrow> string list \<Rightarrow> string \<times> u64 \<Rightarrow> string \<times> u64" where
  "omit_progress preserve_finished [] state = state"
| "omit_progress preserve_finished (line # lines) (candidate, omitted) =
     (if is_progress preserve_finished line
      then omit_progress preserve_finished lines (candidate, saturating_add omitted 1)
      else omit_progress preserve_finished lines (candidate @ line, omitted))"

definition cargo_test_streams :: "string \<Rightarrow> string \<Rightarrow> string \<times> string \<times> u64 \<times> u64" where
  "cargo_test_streams out err =
     (let (candidate_out, passing) = omit_passing (split_inclusive out) ([], 0);
          (candidate_err, progress) = omit_progress False (split_inclusive err) ([], 0)
      in (candidate_out, candidate_err, passing, progress))"

definition cargo_test_hint :: "u64 \<Rightarrow> u64 \<Rightarrow> string option \<Rightarrow> string" where
  "cargo_test_hint passing progress recovery =
     ''[Tracepress: '' @ count_text passing @ '' passing test lines and '' @ count_text progress
       @ (case recovery of
            None \<Rightarrow> '' progress lines omitted; recovery available when active.]'' @ [newline]
          | Some command \<Rightarrow>
              '' progress lines omitted. Full output: '' @ command @ '']'' @ [newline])"

definition cargo_test_candidate ::
  "nat \<Rightarrow> string \<Rightarrow> string \<Rightarrow> string option \<Rightarrow> source_output_candidate" where
  "cargo_test_candidate elapsed out err recovery =
     (let (candidate_out, candidate_err, passing, progress) =
        (if utf8_ok out \<and> utf8_ok err then cargo_test_streams out err else (out, err, 0, 0));
        applicable = (passing > 0 \<or> progress > 0);
        (candidate_out, hint_bytes) =
          with_hint (if applicable then Some (cargo_test_hint passing progress recovery) else None)
            candidate_out
      in (weigh_candidate out err candidate_out candidate_err hint_bytes elapsed applicable)
           \<lparr>soc_omitted_passing_tests := passing, soc_omitted_progress_lines := progress\<rparr>)"

definition cargo_test_v1_shadow :: "nat \<Rightarrow> string \<Rightarrow> string \<Rightarrow> source_output_candidate" where
  "cargo_test_v1_shadow elapsed out err = cargo_test_candidate elapsed out err None"

definition cargo_test_v1_active ::
  "nat \<Rightarrow> string \<Rightarrow> string \<Rightarrow> string \<Rightarrow> source_output_candidate" where
  "cargo_test_v1_active elapsed out err command = cargo_test_candidate elapsed out err (Some command)"

section \<open>Cargo diagnostics\<close>

record diagnostics_policy =
  dp_active_recovery_command :: "string option"
  dp_preserve_finished :: bool

definition diagnostics_hint :: "u64 \<Rightarrow> string option \<Rightarrow> string" where
  "diagnostics_hint progress recovery =
     ''[Tracepress: '' @ count_text progress
       @ (case recovery of
            None \<Rightarrow> '' Cargo progress lines omitted; recovery available when active.]'' @ [newline]
          | Some command \<Rightarrow>
              '' Cargo progress lines omitted. Full output: '' @ command @ '']'' @ [newline])"

definition diagnostics_candidate ::
  "nat \<Rightarrow> string \<Rightarrow> string \<Rightarrow> diagnostics_policy \<Rightarrow> source_output_candidate" where
  "diagnostics_candidate elapsed out err policy =
     (let (candidate_err, omitted, applicable) =
        (if utf8_ok err
         then (case omit_progress (dp_preserve_finished policy) (split_inclusive err) ([], 0) of
             (candidate, omitted) \<Rightarrow> (candidate, omitted, omitted > 0))
         else (err, 0, False));
        (candidate_out, hint_bytes) =
          with_hint (if applicable
            then Some (diagnostics_hint omitted (dp_active_recovery_command policy)) else None) out
      in (weigh_candidate out err candidate_out candidate_err hint_bytes elapsed applicable)
           \<lparr>soc_omitted_progress_lines := omitted\<rparr>)"

definition cargo_check_v1_shadow :: "nat \<Rightarrow> string \<Rightarrow> string \<Rightarrow> source_output_candidate" where
  "cargo_check_v1_shadow elapsed out err = diagnostics_candidate elapsed out err
     \<lparr>dp_active_recovery_command = None, dp_preserve_finished = False\<rparr>"

definition cargo_check_v1_active ::
  "nat \<Rightarrow> string \<Rightarrow> string \<Rightarrow> string \<Rightarrow> source_output_candidate" where
  "cargo_check_v1_active elapsed out err command = diagnostics_candidate elapsed out err
     \<lparr>dp_active_recovery_command = Some command, dp_preserve_finished = False\<rparr>"

definition cargo_check_v2_shadow :: "nat \<Rightarrow> string \<Rightarrow> string \<Rightarrow> source_output_candidate" where
  "cargo_check_v2_shadow elapsed out err = diagnostics_candidate elapsed out err
     \<lparr>dp_active_recovery_command = None, dp_preserve_finished = True\<rparr>"

definition cargo_check_v2_active ::
  "nat \<Rightarrow> string \<Rightarrow> string \<Rightarrow> string \<Rightarrow> source_output_candidate" where
  "cargo_check_v2_active elapsed out err command = diagnostics_candidate elapsed out err
     \<lparr>dp_active_recovery_command = Some command, dp_preserve_finished = True\<rparr>"

definition cargo_clippy_v1_shadow :: "nat \<Rightarrow> string \<Rightarrow> string \<Rightarrow> source_output_candidate" where
  "cargo_clippy_v1_shadow elapsed out err = cargo_check_v2_shadow elapsed out err"

end
