(* ===== verification/Tool_Reductions.thy ===== *)
theory Tool_Reductions
  imports Tool_Reducers
begin

text \<open>
  What the reducers of \<open>crates/tracepress-tool-proxy/src/reducers\<close> keep, what they drop and what
  they count: the loops over lines are filters, the grouping of ripgrep can be undone, and an
  accepted candidate is smaller than the output it replaces.
\<close>

section \<open>The never-worse contract\<close>

text \<open>
  What the emission of a candidate relies on, for every reducer: the sizes are measured, and the
  verdict compares them.
\<close>

locale never_worse_reducer =
  fixes reduce :: "string \<Rightarrow> string \<Rightarrow> source_output_candidate"
  assumes raw_measured: "soc_raw_bytes (reduce out err) = measured_bytes out err"
    and candidate_measured:
      "soc_candidate_bytes (reduce out err) =
        measured_bytes (soc_stdout (reduce out err)) (soc_stderr (reduce out err))"
    and accepted_smaller: "soc_never_worse_accepted (reduce out err) \<Longrightarrow>
      soc_applicable (reduce out err) \<and>
      soc_candidate_bytes (reduce out err) < soc_raw_bytes (reduce out err)"

lemma unat_measured_bytes:
  "unat (measured_bytes out err) = min (length out + length err) (2 ^ 64 - 1)"
  by (simp add: measured_bytes_def unat_u64_of_len_or_max usize_saturating_add_def usize_limit_def)

lemma measured_bytes_less:
  "measured_bytes out err < measured_bytes out' err' \<Longrightarrow>
    length out + length err < length out' + length err'"
  by (simp add: word_less_nat_alt unat_measured_bytes min_def split: if_splits)

context never_worse_reducer
begin

lemma accepted_shrinks:
  "soc_never_worse_accepted (reduce out err) \<Longrightarrow>
    length (soc_stdout (reduce out err)) + length (soc_stderr (reduce out err))
      < length out + length err"
  using accepted_smaller [of out err] raw_measured [of out err] candidate_measured [of out err]
  by (metis measured_bytes_less)

end

text \<open>Every reducer weighs its candidate the same way, whatever it counts.\<close>

definition weighed :: "string \<Rightarrow> string \<Rightarrow> source_output_candidate \<Rightarrow> bool" where
  "weighed out err c \<longleftrightarrow>
     soc_raw_bytes c = measured_bytes out err \<and>
     soc_candidate_bytes c = measured_bytes (soc_stdout c) (soc_stderr c) \<and>
     soc_estimated_raw_tokens c = estimated_tokens (soc_raw_bytes c) \<and>
     soc_estimated_candidate_tokens c = estimated_tokens (soc_candidate_bytes c) \<and>
     (soc_never_worse_accepted c \<longleftrightarrow> soc_applicable c \<and> soc_candidate_bytes c < soc_raw_bytes c \<and>
        soc_estimated_candidate_tokens c < soc_estimated_raw_tokens c)"

lemma weigh_candidate_simps [simp]:
  "soc_stdout (weigh_candidate out err cout cerr h e a) = cout"
  "soc_stderr (weigh_candidate out err cout cerr h e a) = cerr"
  "soc_applicable (weigh_candidate out err cout cerr h e a) = a"
  "soc_recovery_hint_bytes (weigh_candidate out err cout cerr h e a) = h"
  by (simp_all add: weigh_candidate_def Let_def)

lemma weighed_weigh_candidate: "weighed out err (weigh_candidate out err cout cerr h e a)"
  by (simp add: weighed_def weigh_candidate_def Let_def)

lemma weighed_update [simp]:
  "weighed out err (c\<lparr>soc_omitted_passing_tests := p\<rparr>) = weighed out err c"
  "weighed out err (c\<lparr>soc_omitted_progress_lines := p\<rparr>) = weighed out err c"
  "weighed out err (c\<lparr>soc_omitted_advisory_lines := p\<rparr>) = weighed out err c"
  "weighed out err (c\<lparr>soc_grouped_match_lines := p\<rparr>) = weighed out err c"
  by (simp_all add: weighed_def)

lemma weighed_candidates:
  "weighed out err (git_status_candidate e out err r)"
  "weighed out err (rg_candidate e out err r)"
  "weighed out err (cargo_test_candidate e out err r)"
  "weighed out err (diagnostics_candidate e out err policy)"
  by (simp_all add: git_status_candidate_def rg_candidate_def cargo_test_candidate_def
      diagnostics_candidate_def weighed_weigh_candidate Let_def split_def)

lemma never_worse_weighed:
  assumes "\<And>out err. weighed out err (reduce out err)"
  shows "never_worse_reducer reduce"
  using assms by unfold_locales (simp_all add: weighed_def)

interpretation git_status: never_worse_reducer "\<lambda>out err. git_status_candidate e out err r" for e r
  by (rule never_worse_weighed) (rule weighed_candidates)

interpretation ripgrep: never_worse_reducer "\<lambda>out err. rg_candidate e out err r" for e r
  by (rule never_worse_weighed) (rule weighed_candidates)

interpretation cargo_test: never_worse_reducer "\<lambda>out err. cargo_test_candidate e out err r" for e r
  by (rule never_worse_weighed) (rule weighed_candidates)

interpretation diagnostics: never_worse_reducer
  "\<lambda>out err. diagnostics_candidate e out err policy" for e policy
  by (rule never_worse_weighed) (rule weighed_candidates)

section \<open>The loops are filters\<close>

definition clamped :: "nat \<Rightarrow> u64" where
  "clamped n = u64_of_len_or_max n"

lemma clamped_Suc: "saturating_add x 1 = clamped (Suc n)" if "x = clamped n"
  using that by (simp add: clamped_def word_unat_eq_iff unat_u64_of_len_or_max unat_saturating_add)

lemma clamped_0 [simp]: "clamped 0 = 0"
  by (simp add: clamped_def word_unat_eq_iff unat_u64_of_len_or_max)

lemma omit_advisory_filter:
  "omit_advisory lines (candidate, clamped n) =
     (candidate @ concat (filter (\<lambda>l. \<not> is_advisory l) lines),
      clamped (n + length (filter is_advisory lines)))"
  by (induction lines arbitrary: candidate n) (simp_all add: clamped_Suc [OF refl])

lemma omit_progress_filter:
  "omit_progress keep lines (candidate, clamped n) =
     (candidate @ concat (filter (\<lambda>l. \<not> is_progress keep l) lines),
      clamped (n + length (filter (is_progress keep) lines)))"
  by (induction lines arbitrary: candidate n) (simp_all add: clamped_Suc [OF refl])

lemma counted_are_passing:
  "(is_passing_test t \<or> is_test_count t) \<and> prefix ''test '' t \<longleftrightarrow> is_passing_test t"
  by (cases t) (auto simp: is_passing_test_def is_test_count_def)

definition dropped_test_line :: "string \<Rightarrow> bool" where
  "dropped_test_line line \<longleftrightarrow> is_passing_test (trim line) \<or> is_test_count (trim line)"

lemma omit_passing_filter:
  "omit_passing lines (candidate, clamped n) =
     (candidate @ concat (filter (\<lambda>l. \<not> dropped_test_line l) lines),
      clamped (n + length (filter (\<lambda>l. is_passing_test (trim l)) lines)))"
proof (induction lines arbitrary: candidate n)
  case (Cons line lines)
  show ?case
    using counted_are_passing [of "trim line"]
    by (auto simp: Let_def dropped_test_line_def Cons.IH clamped_Suc [OF refl])
qed simp


text \<open>
  A candidate of the cargo test reducer that is not applicable may still differ from the raw
  output: a dropped line that announces a test count is counted nowhere.
\<close>

theorem test_count_lines_uncounted:
  "let c = cargo_test_v1_shadow e (''running 2 tests'' @ [newline]) []
   in \<not> soc_applicable c \<and> soc_stdout c = [] \<and> soc_omitted_passing_tests c = 0 \<and>
      soc_recovery_hint_bytes c = 0"
  by (simp add: cargo_test_v1_shadow_def cargo_test_candidate_def cargo_test_streams_def
      is_passing_test_def is_test_count_def trim_def trim_start_def trim_end_def white_space_def
      trim_with.simps Let_def with_hint_def byte_def upt_rec suffix_def)

section \<open>The grouping of ripgrep can be undone\<close>

lemma split_colon_SomeD: "split_colon s = Some (number, content) \<Longrightarrow> s = number @ CHR '':'' # content"
proof (induction s arbitrary: number)
  case (Cons c s)
  then show ?case
    by (cases "c = CHR '':''") (auto simp: split_colon_def Let_def split: if_splits)
qed (simp add: split_colon_def)

definition parts_of :: "string \<Rightarrow> match_parts option \<Rightarrow> bool" where
  "parts_of line found \<longleftrightarrow> (case found of None \<Rightarrow> True
     | Some (path, number, content) \<Rightarrow> line = path @ CHR '':'' # number @ CHR '':'' # content \<and>
         number \<noteq> [] \<and> list_all is_ascii_digit number)"

lemma match_loop_parts:
  "parts_of (path @ rest) found \<Longrightarrow> parts_of (path @ rest) (match_loop path rest found)"
proof (induction path rest found rule: match_loop.induct)
  case (2 path c rest found)
  show ?case
  proof (cases "c = CHR '':''")
    case colon: True
    show ?thesis
    proof (cases "split_colon rest")
      case None
      with colon 2 show ?thesis by simp
    next
      case (Some parts)
      obtain number content where parts: "parts = (number, content)" by (cases parts)
      show ?thesis
      proof (cases "number \<noteq> [] \<and> list_all is_ascii_digit number \<and> found = None")
        case True
        then have "parts_of ((path @ [c]) @ rest) (Some (path, number, content))"
          using split_colon_SomeD Some parts colon by (simp add: parts_of_def)
        with True colon Some parts 2(3) show ?thesis by simp
      next
        case False
        with colon Some parts 2 show ?thesis by (auto simp: parts_of_def)
      qed
    qed
  qed (use 2 in simp)
qed simp

lemma match_parts_SomeD:
  assumes "match_parts line = Some (path, number, content)"
  shows "line = path @ CHR '':'' # number @ CHR '':'' # content" "number \<noteq> []"
    "list_all is_ascii_digit number"
  using match_loop_parts [of "[]" line None] assms by (simp_all add: parts_of_def match_parts_def)

text \<open>A row of the grouped output, and the way back from it.\<close>

definition grouped_row :: "string \<Rightarrow> bool" where
  "grouped_row line \<longleftrightarrow> (case strip_prefix ''  '' line of
     None \<Rightarrow> False
   | Some rest \<Rightarrow> let number = takeWhile is_ascii_digit rest
       in number \<noteq> [] \<and> prefix [CHR '':''] (drop (length number) rest))"

fun ungroup_lines :: "string \<Rightarrow> string list \<Rightarrow> string" where
  "ungroup_lines path [] = []"
| "ungroup_lines path (line # lines) =
     (if grouped_row line then path @ CHR '':'' # drop 2 line @ ungroup_lines path lines
      else ungroup_lines (take (length line - 2) line) lines)"

definition ungroup :: "string \<Rightarrow> string" where
  "ungroup grouped = ungroup_lines [] (split_inclusive grouped)"

lemma takeWhile_digits_colon:
  "list_all is_ascii_digit number \<Longrightarrow> takeWhile is_ascii_digit (number @ CHR '':'' # rest) = number"
  by (induction number) (simp_all add: is_ascii_digit_def byte_def)

lemma grouped_row_row:
  "number \<noteq> [] \<Longrightarrow> list_all is_ascii_digit number \<Longrightarrow>
    grouped_row (''  '' @ number @ CHR '':'' # rest)"
  by (simp add: grouped_row_def takeWhile_digits_colon)

lemma strip_prefix_SomeD: "strip_prefix p s = Some rest \<Longrightarrow> s = p @ rest"
  by (induction p s rule: strip_prefix.induct) (auto split: if_splits)

lemma grouped_rowE:
  assumes "grouped_row line"
  obtains number rest where "line = ''  '' @ number @ CHR '':'' # rest" "number \<noteq> []"
    "list_all is_ascii_digit number"
proof -
  from assms obtain rest where rest: "line = ''  '' @ rest" "takeWhile is_ascii_digit rest \<noteq> []"
    "prefix [CHR '':''] (drop (length (takeWhile is_ascii_digit rest)) rest)"
    by (auto simp: grouped_row_def Let_def split: option.splits dest!: strip_prefix_SomeD)
  moreover have "list_all is_ascii_digit (takeWhile is_ascii_digit rest)"
    by (auto simp: list_all_iff dest: set_takeWhileD)
  moreover from rest(3) obtain tail where
    "rest = takeWhile is_ascii_digit rest @ CHR '':'' # tail"
    by (metis append_Cons append_take_drop_id append.left_neutral prefixE takeWhile_eq_take
        dropWhile_eq_drop takeWhile_dropWhile_id)
  ultimately show ?thesis using that by metis
qed

text \<open>A path that would make its own heading a row makes the line it comes from a row too.\<close>

lemma heading_not_row:
  assumes "\<not> grouped_row (path @ CHR '':'' # rest)"
  shows "\<not> grouped_row (path @ [CHR '':'', newline])"
proof
  assume "grouped_row (path @ [CHR '':'', newline])"
  then obtain number tail where row: "path @ [CHR '':'', newline] = ''  '' @ number @ CHR '':'' # tail"
    and number: "number \<noteq> []" "list_all is_ascii_digit number" by (rule grouped_rowE)
  have "tail \<noteq> []"
    using arg_cong [OF row, of last] by (auto split: if_splits)
  then have "path @ [CHR '':''] = ''  '' @ number @ CHR '':'' # butlast tail"
    using arg_cong [OF row, of butlast] by (simp add: butlast_append)
  then have "path @ CHR '':'' # rest = ''  '' @ number @ CHR '':'' # butlast tail @ rest"
    by (metis append_assoc append_Cons append_Nil)
  with assms number grouped_row_row show False by metis
qed

lemma grouped_row_append: "grouped_row line \<Longrightarrow> grouped_row (line @ rest)"
  by (elim grouped_rowE) (simp add: grouped_row_row [simplified])

lemma grouped_lines:
  assumes "newline \<notin> set path" "newline \<notin> set number" "newline \<notin> set content"
  shows "split_inclusive (path @ CHR '':'' # newline # tail) =
      (path @ [CHR '':'', newline]) # split_inclusive tail"
    "split_inclusive (''  '' @ number @ CHR '':'' # content @ newline # tail) =
      (''  '' @ number @ CHR '':'' # content @ [newline]) # split_inclusive tail"
    "split_inclusive (''  '' @ number @ CHR '':'' # content) = [''  '' @ number @ CHR '':'' # content]"
  using assms split_inclusive_append [of "path @ [CHR '':'']" tail]
    split_inclusive_append [of "''  '' @ number @ CHR '':'' # content" tail]
    split_inclusive_unterminated [of "''  '' @ number @ CHR '':'' # content"]
  by simp_all

lemma split_ending_simps:
  "split_ending (line @ [newline]) = (line, [newline])"
  "newline \<notin> set line \<Longrightarrow> split_ending line = (line, [])"
  by (simp_all add: split_ending_def strip_newline_content)

text \<open>What one line adds to the grouped output, and how it is read back.\<close>

definition heading :: "grouping \<Rightarrow> string \<Rightarrow> string" where
  "heading g path = (if gr_current_file g \<noteq> Some path then path @ [CHR '':'', newline] else [])"

lemma group_line:
  assumes "match_parts line = Some (path, number, content)" and "split_ending raw_line = (line, ending)"
  obtains g' where
    "group_lines (raw_line # lines) g = group_lines lines g'"
    "gr_candidate g' = gr_candidate g @ heading g path @ ''  '' @ number @ CHR '':'' # content @ ending"
    "gr_current_file g' = Some path" "gr_grouped g' = saturating_add (gr_grouped g) 1"
  using assms by (cases "gr_current_file g = Some path") (auto simp: heading_def Let_def)

lemma digits_no_newline: "list_all is_ascii_digit number \<Longrightarrow> newline \<notin> set number"
  by (auto simp: list_all_iff is_ascii_digit_def byte_def)

lemma ungroup_line:
  assumes parts: "match_parts line = Some (path, number, content)" and "newline \<notin> set line"
    and "\<not> grouped_row line" and "\<And>q. gr_current_file g = Some q \<Longrightarrow> p = q"
  shows "ungroup_lines p (split_inclusive
      (heading g path @ ''  '' @ number @ CHR '':'' # content @ newline # tail)) =
      line @ newline # ungroup_lines path (split_inclusive tail)"
    "ungroup_lines p (split_inclusive (heading g path @ ''  '' @ number @ CHR '':'' # content)) = line"
proof -
  note line = match_parts_SomeD [OF parts]
  have clean: "newline \<notin> set path" "newline \<notin> set number" "newline \<notin> set content"
    using assms(2) unfolding line(1) by auto
  have "\<not> grouped_row (path @ [CHR '':'', newline])"
    using assms(3) unfolding line(1) by (rule heading_not_row)
  moreover have "grouped_row (''  '' @ number @ CHR '':'' # content @ [newline])"
    "grouped_row (''  '' @ number @ CHR '':'' # content)"
    by (rule grouped_row_row [OF line(2,3)])+
  ultimately show "ungroup_lines p (split_inclusive
      (heading g path @ ''  '' @ number @ CHR '':'' # content @ newline # tail)) =
      line @ newline # ungroup_lines path (split_inclusive tail)"
    "ungroup_lines p (split_inclusive (heading g path @ ''  '' @ number @ CHR '':'' # content)) = line"
    using assms(4) unfolding heading_def
    by (cases "gr_current_file g = Some path"; simp add: grouped_lines [OF clean, simplified] line(1))+
qed

lemma group_lines_undone:
  assumes "group_lines (split_inclusive s) g = Some g'"
    and "list_all (\<lambda>line. \<not> grouped_row line) (split_inclusive s)"
  shows "\<exists>tail. gr_candidate g' = gr_candidate g @ tail \<and>
    (\<forall>p. (\<forall>q. gr_current_file g = Some q \<longrightarrow> p = q) \<longrightarrow> ungroup_lines p (split_inclusive tail) = s)"
  using assms
proof (induction s arbitrary: g rule: line_induct)
  case (unterminated line)
  then have raw: "split_inclusive line = [line]" by (simp add: split_inclusive_unterminated)
  with unterminated obtain path number content where
    parts: "match_parts line = Some (path, number, content)"
    by (auto simp: split_ending_simps(2) split: option.splits)
  obtain g1 where "group_lines [line] g = Some g1"
    "gr_candidate g1 = gr_candidate g @ heading g path @ ''  '' @ number @ CHR '':'' # content"
    using group_line [OF parts split_ending_simps(2) [OF unterminated(2)], of "[]" g] by auto
  then show ?case
    using unterminated raw ungroup_line(2) [OF parts unterminated(2)] by auto
next
  case (line line rest)
  then have raw: "split_inclusive (line @ newline # rest) = (line @ [newline]) # split_inclusive rest"
    by (simp add: split_inclusive_append)
  with line.prems obtain path number content where
    parts: "match_parts line = Some (path, number, content)"
    by (auto simp: split_ending_simps(1) split: option.splits)
  obtain g1 where g1: "group_lines (split_inclusive (line @ newline # rest)) g
      = group_lines (split_inclusive rest) g1"
    "gr_candidate g1 =
      gr_candidate g @ heading g path @ ''  '' @ number @ CHR '':'' # content @ [newline]"
    "gr_current_file g1 = Some path"
    using group_line [OF parts split_ending_simps(1)] raw by metis
  obtain tail where "gr_candidate g' = gr_candidate g1 @ tail"
    "ungroup_lines path (split_inclusive tail) = rest"
    using line.IH [of g1] line.prems g1 raw by auto
  moreover have "\<not> grouped_row line"
    using line.prems(2) grouped_row_append [of line "[newline]"] unfolding raw by auto
  ultimately show ?case
    using g1(2) ungroup_line(1) [OF parts line.hyps]
    by (intro exI [of _ "heading g path @ ''  '' @ number @ CHR '':'' # content @ newline # tail"]) simp
qed simp

lemma group_lines_count:
  "group_lines lines g = Some g' \<Longrightarrow> gr_grouped g = clamped n \<Longrightarrow>
    gr_grouped g' = clamped (n + length lines)"
proof (induction lines arbitrary: g n)
  case (Cons raw_line lines)
  obtain line ending where ending: "split_ending raw_line = (line, ending)" by force
  have "match_parts line \<noteq> None"
    using Cons.prems(1) ending by (cases "match_parts line") simp_all
  then obtain path number content where parts: "match_parts line = Some (path, number, content)"
    by (cases "match_parts line") auto
  obtain g1 where "group_lines lines g1 = Some g'" "gr_grouped g1 = saturating_add (gr_grouped g) 1"
    using group_line [OF parts ending, of lines g] Cons.prems(1) by metis
  then show ?case using Cons.IH [of g1 "Suc n"] Cons.prems(2) by (simp add: clamped_Suc)
qed simp

text \<open>
  C11. Grouping ripgrep's output by file loses nothing: whenever no line of the output looks
  like a row of the grouped form (two spaces, digits and a colon), the grouped text determines
  the output, and the count in the hint is the number of its lines, up to saturation.
\<close>

theorem ripgrep_grouping_lossless:
  assumes "rg_parse out = Some (grouped, n)"
    and "list_all (\<lambda>line. \<not> grouped_row line) (split_inclusive out)"
  shows "ungroup grouped = out \<and> n = clamped (length (split_inclusive out))"
proof -
  let ?start = "\<lparr>gr_candidate = [], gr_current_file = None, gr_grouped = 0\<rparr>"
  from assms(1) obtain g where g: "group_lines (split_inclusive out) ?start = Some g"
    "grouped = gr_candidate g" "n = gr_grouped g"
    by (auto simp: rg_parse_def split: if_splits option.splits)
  then show ?thesis
    using group_lines_undone [OF g(1) assms(2)] group_lines_count [OF g(1), of 0]
    by (auto simp: ungroup_def)
qed

lemma sample_rows:
  "match_parts ''a:1:x'' = Some (''a'', ''1'', ''x'')"
  "match_parts ''a:1:y'' = Some (''a'', ''1'', ''y'')"
  "match_parts ''a:2:y'' = Some (''a'', ''2'', ''y'')"
  "match_parts ''a:12:'' = Some (''a'', ''12'', [])"
  "match_parts ''a:5:x'' = Some (''a'', ''5'', ''x'')"
  "match_parts ''  12:5:x'' = Some (''  12'', ''5'', ''x'')"
  by (simp_all add: match_parts_def split_colon_def is_ascii_digit_def byte_def)

lemma sample_endings:
  "split_ending (''a:1:x'' @ [newline]) = (''a:1:x'', [newline])"
  "split_ending (''a:1:y'' @ [newline]) = (''a:1:y'', [newline])"
  "split_ending (''a:2:y'' @ [newline]) = (''a:2:y'', [newline])"
  "split_ending (''a:12:'' @ [newline]) = (''a:12:'', [newline])"
  "split_ending (''a:5:x'' @ [newline]) = (''a:5:x'', [newline])"
  "split_ending (''  12:5:x'' @ [newline]) = (''  12:5:x'', [newline])"
  by (rule split_ending_simps(1))+

lemmas sample_evaluation = sample_rows sample_endings [simplified] rg_parse_def byte_def

theorem ripgrep_grouping_lossless_witness:
  "let out = ''a:1:x'' @ newline # ''a:2:y'' @ [newline];
       grouped = ''a:'' @ newline # ''  1:x'' @ newline # ''  2:y'' @ [newline]
   in rg_parse out = Some (grouped, 2) \<and> ungroup grouped = out"
proof -
  let ?out = "''a:1:x'' @ newline # ''a:2:y'' @ [newline]"
  let ?grouped = "''a:'' @ newline # ''  1:x'' @ newline # ''  2:y'' @ [newline]"
  have parse: "rg_parse ?out = Some (?grouped, 2)"
    by (simp add: sample_evaluation saturating_add_def)
  moreover have "list_all (\<lambda>line. \<not> grouped_row line) (split_inclusive ?out)"
    by (simp add: grouped_row_def)
  ultimately show ?thesis
    using ripgrep_grouping_lossless [of ?out ?grouped 2] unfolding Let_def by blast
qed

text \<open>
  The condition is needed: a file whose name is two spaces and digits makes two different
  outputs of ripgrep group to the same text, so grouping can lose which file a match is in.
\<close>

theorem ripgrep_grouping_ambiguous:
  "let out = ''a:1:y'' @ newline # ''  12:5:x'' @ [newline];
       other = ''a:1:y'' @ newline # ''a:12:'' @ newline # ''a:5:x'' @ [newline]
   in out \<noteq> other \<and> map_option fst (rg_parse out) = map_option fst (rg_parse other) \<and>
      rg_parse out \<noteq> None"
  by (simp add: sample_evaluation saturating_add_def)

end
