(* ===== verification/Tool_Recovery.thy ===== *)
theory Tool_Recovery
  imports Provider_Json
begin

text \<open>
  \<open>crates/tracepress-cli/src/main.rs\<close>, the recovery store of the tool proxy: raw output kept
  under a session and a random token, its expiry, and the recall that prints it again.

  The store maps a session and a directory name to the files of that directory. What the file
  system does with one call (which operations fail, what a failed write or removal leaves, what
  a listing yields) is a record of outcomes, so that every error path is a path of the model.
  \<open>encode\<close> and \<open>decode\<close> are the derived JSON forms of the metadata.
\<close>

section \<open>Tokens and sessions\<close>

definition hex_digit :: "nat \<Rightarrow> char" where
  "hex_digit n = char_of (if n < 10 then 48 + n else 87 + n)"

definition hex_pair :: "char \<Rightarrow> string" where
  "hex_pair c = [hex_digit (byte c div 16), hex_digit (byte c mod 16)]"

text \<open>\<open>random\<close> is what \<open>getrandom::fill\<close> leaves in the buffer of 16 bytes.\<close>

definition source_recovery_token :: "string option \<Rightarrow> string option" where
  "source_recovery_token random = map_option (\<lambda>bytes. concat (map hex_pair bytes)) random"

definition valid_source_recovery_token :: "string \<Rightarrow> bool" where
  "valid_source_recovery_token value \<longleftrightarrow> length value = 32 \<and>
     list_all (\<lambda>c. is_ascii_digit c \<or> byte CHR ''a'' \<le> byte c \<and> byte c \<le> byte CHR ''f'') value"

definition safe_source_recovery_executable :: "string \<Rightarrow> bool" where
  "safe_source_recovery_executable value \<longleftrightarrow> value \<noteq> [] \<and>
     list_all (\<lambda>c. is_ascii_alphanumeric c \<or>
       c \<in> {CHR ''/'', CHR ''.'', CHR ''_'', CHR ''-''}) value"

text \<open>\<open>session_ok\<close> is \<open>parse::<SessionId>().is_ok()\<close>.\<close>

record session_variables =
  sv_source_session :: "string option"
  sv_session :: "string option"

definition source_session_id :: "(string \<Rightarrow> bool) \<Rightarrow> session_variables \<Rightarrow> string option" where
  "source_session_id session_ok vars =
     (case (case sv_source_session vars of Some value \<Rightarrow> Some value | None \<Rightarrow> sv_session vars) of
        None \<Rightarrow> None
      | Some value \<Rightarrow> if session_ok value then Some value else None)"

section \<open>The store and the file system\<close>

definition SOURCE_RECOVERY_TTL_SECONDS :: u64 where
  "SOURCE_RECOVERY_TTL_SECONDS = 60 * 60"

definition SOURCE_RECOVERY_MAX_BYTES :: u64 where
  "SOURCE_RECOVERY_MAX_BYTES = 8 * 1024 * 1024"

record source_recovery_metadata =
  srm_version :: u32
  srm_source_execution_id :: string
  srm_created_at_unix :: u64
  srm_expires_at_unix :: u64
  srm_stdout_bytes :: u64
  srm_stderr_bytes :: u64

datatype recovery_file = StdoutFile | StderrFile | MetadataFile

type_synonym recovery_dir = "recovery_file \<rightharpoonup> string"

type_synonym recovery_store = "string \<times> string \<rightharpoonup> recovery_dir"

text \<open>A write that stops early leaves the first bytes of what was to be written.\<close>

datatype write_outcome = Written | NotOpened | WrittenPartly nat

record filesystem =
  fs_now :: "u64 option"
  fs_creates_session_root :: bool
  fs_restricts_session_root :: bool
  fs_listing :: "string list"
  fs_reads :: "string \<Rightarrow> recovery_file \<Rightarrow> bool"
  fs_creates_dir :: bool
  fs_restricts_dir :: bool
  fs_write :: "recovery_file \<Rightarrow> write_outcome"
  fs_remove :: "recovery_dir \<Rightarrow> recovery_dir option"

datatype recovery_error =
    ExceedsStoreLimit
  | ClockError
  | FileError
  | InvalidRecoveryId
  | MissingSession
  | RecoveryUnavailable
  | MetadataInvalid
  | RecoveryExpired
  | ExceedsReadLimit
  | StdoutUnavailable
  | StderrUnavailable
  | ByteCountMismatch

definition write_private_file ::
  "filesystem \<Rightarrow> recovery_file \<Rightarrow> string \<Rightarrow> recovery_dir
    \<Rightarrow> recovery_dir \<times> (unit, recovery_error) result" where
  "write_private_file fs file bytes dir =
     (if dir file \<noteq> None then (dir, Err FileError)
      else case fs_write fs file of
        Written \<Rightarrow> (dir(file \<mapsto> bytes), Ok ())
      | NotOpened \<Rightarrow> (dir, Err FileError)
      | WrittenPartly n \<Rightarrow> (dir(file \<mapsto> take n bytes), Err FileError))"

definition read_recovery_file ::
  "filesystem \<Rightarrow> recovery_store \<Rightarrow> string \<Rightarrow> string \<Rightarrow> recovery_file \<Rightarrow> string option" where
  "read_recovery_file fs store session name file =
     (if fs_reads fs name file then Option.bind (store (session, name)) (\<lambda>dir. dir file) else None)"

definition remove_dir_all ::
  "filesystem \<Rightarrow> string \<Rightarrow> string \<Rightarrow> recovery_store \<Rightarrow> recovery_store" where
  "remove_dir_all fs session name store =
     store((session, name) := Option.bind (store (session, name)) (fs_remove fs))"

section \<open>Storing\<close>

definition entry_expired ::
  "filesystem \<Rightarrow> (string \<Rightarrow> source_recovery_metadata option) \<Rightarrow> string \<Rightarrow> u64 \<Rightarrow> recovery_store \<Rightarrow> string
    \<Rightarrow> bool" where
  "entry_expired fs decode session now store name =
     (case Option.bind (read_recovery_file fs store session name MetadataFile) decode of
        None \<Rightarrow> False
      | Some metadata \<Rightarrow> srm_expires_at_unix metadata < now)"

fun cleanup_entries ::
  "filesystem \<Rightarrow> (string \<Rightarrow> source_recovery_metadata option) \<Rightarrow> string \<Rightarrow> u64 \<Rightarrow> string list
    \<Rightarrow> recovery_store \<Rightarrow> recovery_store" where
  "cleanup_entries fs decode session now [] store = store"
| "cleanup_entries fs decode session now (name # names) store =
     (if \<not> valid_source_recovery_token name then cleanup_entries fs decode session now names store
      else if entry_expired fs decode session now store name
        then cleanup_entries fs decode session now names (remove_dir_all fs session name store)
      else cleanup_entries fs decode session now names store)"

definition cleanup_expired_source_recoveries ::
  "filesystem \<Rightarrow> (string \<Rightarrow> source_recovery_metadata option) \<Rightarrow> string \<Rightarrow> u64 \<Rightarrow> recovery_store
    \<Rightarrow> recovery_store" where
  "cleanup_expired_source_recoveries fs decode session now store =
     cleanup_entries fs decode session now (fs_listing fs) store"

record source_recovery_write =
  srw_session_id :: string
  srw_token :: string
  srw_source_execution_id :: string
  srw_stdout :: string
  srw_stderr :: string

definition recovery_metadata :: "source_recovery_write \<Rightarrow> u64 \<Rightarrow> source_recovery_metadata" where
  "recovery_metadata write now =
     \<lparr>srm_version = 1, srm_source_execution_id = srw_source_execution_id write,
      srm_created_at_unix = now,
      srm_expires_at_unix = saturating_add now SOURCE_RECOVERY_TTL_SECONDS,
      srm_stdout_bytes = u64_of_len_or_max (length (srw_stdout write)),
      srm_stderr_bytes = u64_of_len_or_max (length (srw_stderr write))\<rparr>"

definition write_recovery_files ::
  "filesystem \<Rightarrow> (source_recovery_metadata \<Rightarrow> string option) \<Rightarrow> source_recovery_write \<Rightarrow> u64
    \<Rightarrow> recovery_dir \<times> (unit, recovery_error) result" where
  "write_recovery_files fs encode write now =
     (let (dir, result) = write_private_file fs StdoutFile (srw_stdout write) Map.empty
      in if \<not> is_ok result then (dir, result)
      else let (dir, result) = write_private_file fs StderrFile (srw_stderr write) dir
      in if \<not> is_ok result then (dir, result)
      else case encode (recovery_metadata write now) of
          None \<Rightarrow> (dir, Err FileError)
        | Some encoded \<Rightarrow> write_private_file fs MetadataFile encoded dir)"

definition store_source_recovery ::
  "filesystem \<Rightarrow> (source_recovery_metadata \<Rightarrow> string option)
    \<Rightarrow> (string \<Rightarrow> source_recovery_metadata option) \<Rightarrow> source_recovery_write \<Rightarrow> recovery_store
    \<Rightarrow> recovery_store \<times> (unit, recovery_error) result" where
  "store_source_recovery fs encode decode write store =
     (let raw_bytes = u64_of_len_or_max
        (usize_saturating_add (length (srw_stdout write)) (length (srw_stderr write)));
          key = (srw_session_id write, srw_token write)
      in if raw_bytes > SOURCE_RECOVERY_MAX_BYTES then (store, Err ExceedsStoreLimit)
      else case fs_now fs of
        None \<Rightarrow> (store, Err ClockError)
      | Some now \<Rightarrow>
          if \<not> fs_creates_session_root fs \<or> \<not> fs_restricts_session_root fs
          then (store, Err FileError)
          else let store = cleanup_expired_source_recoveries fs decode (srw_session_id write) now store
          in if store key \<noteq> None \<or> \<not> fs_creates_dir fs then (store, Err FileError)
          else if \<not> fs_restricts_dir fs then (store(key \<mapsto> Map.empty), Err FileError)
          else let (dir, result) = write_recovery_files fs encode write now;
                   store = store(key \<mapsto> dir)
            in (if is_ok result then store
                else remove_dir_all fs (srw_session_id write) (srw_token write) store, result))"

section \<open>Recall\<close>

text \<open>What the process has printed, and the log of recall events.\<close>

record recall_state =
  rs_store :: recovery_store
  rs_stdout :: string
  rs_stderr :: string
  rs_events :: string

record recall_io =
  ri_stdout :: write_outcome
  ri_stderr :: write_outcome
  ri_event :: write_outcome
  ri_newline :: write_outcome

definition append_outcome :: "write_outcome \<Rightarrow> string \<Rightarrow> string \<times> (unit, recovery_error) result" where
  "append_outcome outcome bytes =
     (case outcome of
        Written \<Rightarrow> (bytes, Ok ())
      | NotOpened \<Rightarrow> ([], Err FileError)
      | WrittenPartly n \<Rightarrow> (take n bytes, Err FileError))"

definition recall_event :: "string \<Rightarrow> source_recovery_metadata \<Rightarrow> json" where
  "recall_event session metadata =
     Object [(''recovered_stderr_bytes'', Number (PosInt (srm_stderr_bytes metadata))),
       (''recovered_stdout_bytes'', Number (PosInt (srm_stdout_bytes metadata))),
       (''session_id'', Text session), (''success'', Bool True)]"

definition record_source_recovery ::
  "recall_io \<Rightarrow> (json \<Rightarrow> string) \<Rightarrow> string \<Rightarrow> source_recovery_metadata \<Rightarrow> recall_state
    \<Rightarrow> recall_state \<times> (unit, recovery_error) result" where
  "record_source_recovery io to_text session metadata st =
     (let (event, result) = append_outcome (ri_event io) (to_text (recall_event session metadata));
          st = st\<lparr>rs_events := rs_events st @ event\<rparr>
      in if \<not> is_ok result then (st, result)
      else let (ending, result) = append_outcome (ri_newline io) [newline]
      in (st\<lparr>rs_events := rs_events st @ ending\<rparr>, result))"

definition print_recovered ::
  "recall_io \<Rightarrow> (json \<Rightarrow> string) \<Rightarrow> string \<Rightarrow> source_recovery_metadata \<Rightarrow> string \<Rightarrow> string \<Rightarrow> recall_state
    \<Rightarrow> recall_state \<times> (unit, recovery_error) result" where
  "print_recovered io to_text session metadata out err st =
     (let (printed, result) = append_outcome (ri_stdout io) out;
          st = st\<lparr>rs_stdout := rs_stdout st @ printed\<rparr>
      in if \<not> is_ok result then (st, result)
      else let (printed, result) = append_outcome (ri_stderr io) err;
               st = st\<lparr>rs_stderr := rs_stderr st @ printed\<rparr>
      in if \<not> is_ok result then (st, result)
      else record_source_recovery io to_text session metadata st)"

text \<open>The files of an unexpired recovery, checked against the metadata.\<close>

definition read_recovered ::
  "filesystem \<Rightarrow> string \<Rightarrow> string \<Rightarrow> source_recovery_metadata \<Rightarrow> recovery_store
    \<Rightarrow> (string \<times> string, recovery_error) result" where
  "read_recovered fs session name metadata store =
     (if saturating_add (srm_stdout_bytes metadata) (srm_stderr_bytes metadata)
         > SOURCE_RECOVERY_MAX_BYTES then Err ExceedsReadLimit
      else and_then (ok_or (read_recovery_file fs store session name StdoutFile) StdoutUnavailable)
        (\<lambda>out. and_then (ok_or (read_recovery_file fs store session name StderrFile) StderrUnavailable)
        (\<lambda>err. if u64_of_len_or_max (length out) \<noteq> srm_stdout_bytes metadata \<or>
             u64_of_len_or_max (length err) \<noteq> srm_stderr_bytes metadata
           then Err ByteCountMismatch else Ok (out, err))))"

definition recall_source_output ::
  "filesystem \<Rightarrow> recall_io \<Rightarrow> (string \<Rightarrow> source_recovery_metadata option) \<Rightarrow> (json \<Rightarrow> string)
    \<Rightarrow> string option \<Rightarrow> string \<Rightarrow> recall_state \<Rightarrow> recall_state \<times> (unit, recovery_error) result" where
  "recall_source_output fs io decode to_text session_id recovery_id st =
     (if \<not> valid_source_recovery_token recovery_id then (st, Err InvalidRecoveryId)
      else case session_id of
        None \<Rightarrow> (st, Err MissingSession)
      | Some session \<Rightarrow>
      (case read_recovery_file fs (rs_store st) session recovery_id MetadataFile of
        None \<Rightarrow> (st, Err RecoveryUnavailable)
      | Some encoded \<Rightarrow>
      (case decode encoded of
        None \<Rightarrow> (st, Err MetadataInvalid)
      | Some metadata \<Rightarrow>
      (case fs_now fs of
        None \<Rightarrow> (st, Err ClockError)
      | Some now \<Rightarrow>
          if srm_expires_at_unix metadata < now
          then (st\<lparr>rs_store := remove_dir_all fs session recovery_id (rs_store st)\<rparr>,
                Err RecoveryExpired)
          else (case read_recovered fs session recovery_id metadata (rs_store st) of
              Err e \<Rightarrow> (st, Err e)
            | Ok (out, err) \<Rightarrow>
                print_recovered io to_text session metadata out err st)))))"

section \<open>Tokens\<close>

lemma byte_div_mod: "byte c div 16 < 16" "byte c mod 16 < 16"
proof -
  have "byte c < 256"
    by (simp add: byte_def)
  then show "byte c div 16 < 16" "byte c mod 16 < 16" by simp_all
qed

lemma byte_hex_digit: "n < 16 \<Longrightarrow> byte (hex_digit n) = (if n < 10 then 48 + n else 87 + n)"
  by (simp add: byte_def hex_digit_def)

lemma hex_digit_valid:
  "n < 16 \<Longrightarrow> is_ascii_digit (hex_digit n) \<or>
    byte CHR ''a'' \<le> byte (hex_digit n) \<and> byte (hex_digit n) \<le> byte CHR ''f''"
  by (auto simp: is_ascii_digit_def byte_hex_digit) (simp_all add: byte_def)

text \<open>A generated token is always accepted by the recall.\<close>

lemma generated_token_valid:
  assumes "source_recovery_token random = Some token" and "\<And>bytes. random = Some bytes \<Longrightarrow> length bytes = 16"
  shows "valid_source_recovery_token token"
proof -
  from assms obtain bytes where token: "token = concat (map hex_pair bytes)" and "length bytes = 16"
    by (auto simp: source_recovery_token_def)
  have "length (concat (map hex_pair bytes)) = 2 * length bytes"
    by (induction bytes) (simp_all add: hex_pair_def)
  moreover have "list_all (\<lambda>c. is_ascii_digit c \<or> byte CHR ''a'' \<le> byte c \<and> byte c \<le> byte CHR ''f'') token"
    unfolding token list_all_iff
    using hex_digit_valid [OF byte_div_mod(1)] hex_digit_valid [OF byte_div_mod(2)]
    by (auto simp: hex_pair_def)
  ultimately show ?thesis
    using \<open>length bytes = 16\<close> token by (simp add: valid_source_recovery_token_def)
qed

section \<open>Facts about the store\<close>

lemma write_private_file_Ok:
  "write_private_file fs file bytes dir = (dir', Ok ()) \<longleftrightarrow>
     dir file = None \<and> fs_write fs file = Written \<and> dir' = dir(file \<mapsto> bytes)"
  by (auto simp: write_private_file_def split: write_outcome.split)

lemma write_recovery_files_Ok:
  assumes "write_recovery_files fs encode write now = (dir, Ok ())"
  shows "dir StdoutFile = Some (srw_stdout write) \<and> dir StderrFile = Some (srw_stderr write) \<and>
    dir MetadataFile = encode (recovery_metadata write now) \<and> dir MetadataFile \<noteq> None"
proof -
  obtain dir1 r1 where first: "write_private_file fs StdoutFile (srw_stdout write) Map.empty = (dir1, r1)"
    by force
  obtain dir2 r2 where second: "write_private_file fs StderrFile (srw_stderr write) dir1 = (dir2, r2)"
    by force
  have oks: "r1 = Ok ()" "r2 = Ok ()"
    using assms first second
    by (cases r1; cases r2; simp add: write_recovery_files_def)+
  then obtain encoded where "encode (recovery_metadata write now) = Some encoded"
    "write_private_file fs MetadataFile encoded dir2 = (dir, Ok ())"
    using assms first second by (auto simp: write_recovery_files_def split: option.splits)
  then show ?thesis
    using first second unfolding oks by (auto simp: write_private_file_Ok)
qed

lemma remove_dir_all_other:
  "(s, t) \<noteq> (session, name) \<Longrightarrow> remove_dir_all fs session name store (s, t) = store (s, t)"
  by (auto simp: remove_dir_all_def)

text \<open>Only expired entries of the session can change in a cleanup.\<close>

lemma cleanup_entries_live:
  "(s = session \<Longrightarrow> \<not> entry_expired fs decode session now store t) \<Longrightarrow>
    cleanup_entries fs decode session now names store (s, t) = store (s, t)"
proof (induction names arbitrary: store)
  case (Cons name names)
  let ?removed = "remove_dir_all fs session name store"
  show ?case
  proof (cases "valid_source_recovery_token name \<and> entry_expired fs decode session now store name")
    case True
    with Cons.prems have other: "(s, t) \<noteq> (session, name)" by auto
    then have "s = session \<Longrightarrow> \<not> entry_expired fs decode session now ?removed t"
      using Cons.prems
      by (auto simp: entry_expired_def read_recovery_file_def remove_dir_all_other)
    then show ?thesis
      using True other Cons.IH [of ?removed] by (simp add: remove_dir_all_other)
  qed (use Cons in auto)
qed simp

lemma store_source_recovery_Ok:
  assumes "store_source_recovery fs encode decode write store = (store', Ok ())"
  obtains now dir where "fs_now fs = Some now"
    "u64_of_len_or_max (usize_saturating_add (length (srw_stdout write)) (length (srw_stderr write)))
       \<le> SOURCE_RECOVERY_MAX_BYTES"
    "write_recovery_files fs encode write now = (dir, Ok ())"
    "store' (srw_session_id write, srw_token write) = Some dir"
proof -
  from assms obtain now where now: "fs_now fs = Some now"
    by (auto simp: store_source_recovery_def Let_def split: if_splits option.splits)
  obtain dir result where files: "write_recovery_files fs encode write now = (dir, result)" by force
  show ?thesis
    using assms now files that [OF now, of dir]
    by (cases result) (auto simp: store_source_recovery_def Let_def split: if_splits)
qed

lemma read_limit:
  assumes "u64_of_len_or_max (usize_saturating_add m n) \<le> SOURCE_RECOVERY_MAX_BYTES"
  shows "saturating_add (u64_of_len_or_max m) (u64_of_len_or_max n) \<le> SOURCE_RECOVERY_MAX_BYTES"
  using assms
  by (auto simp: word_le_nat_alt unat_u64_of_len_or_max unat_saturating_add usize_saturating_add_def
      usize_limit_def SOURCE_RECOVERY_MAX_BYTES_def min_def split: if_splits)

text \<open>
  What the recovery store accepted is printed back byte for byte: after a successful store,
  a recall of the token within the hour, in the same session, prints exactly the raw standard
  output and standard error, and leaves the store as it is. \<open>decode\<close> must read back what \<open>encode\<close>
  wrote, and the reads and the two writes of the recall must succeed.
\<close>

lemma stored_output_is_recalled:
  assumes stored: "store_source_recovery fs encode decode write store = (rs_store st, Ok ())"
    and serde: "\<And>metadata encoded. encode metadata = Some encoded \<Longrightarrow> decode encoded = Some metadata"
    and token: "valid_source_recovery_token (srw_token write)"
    and clock: "fs_now fs = Some now" "fs_now fs' = Some later" "unat later \<le> unat now + 3600"
    and reads: "\<And>file. fs_reads fs' (srw_token write) file"
    and io: "ri_stdout io = Written" "ri_stderr io = Written"
  shows "let st' = fst (recall_source_output fs' io decode to_text (Some (srw_session_id write))
             (srw_token write) st)
    in rs_stdout st' = rs_stdout st @ srw_stdout write \<and>
       rs_stderr st' = rs_stderr st @ srw_stderr write \<and> rs_store st' = rs_store st"
proof -
  from stored obtain dir where
    small: "u64_of_len_or_max (usize_saturating_add (length (srw_stdout write))
       (length (srw_stderr write))) \<le> SOURCE_RECOVERY_MAX_BYTES" and
    files: "write_recovery_files fs encode write now = (dir, Ok ())" and
    kept: "rs_store st (srw_session_id write, srw_token write) = Some dir"
    using store_source_recovery_Ok clock(1) by (metis option.inject)
  note written = write_recovery_files_Ok [OF files]
  then obtain encoded where encoded: "encode (recovery_metadata write now) = Some encoded"
    by (metis not_None_eq)
  have "\<not> srm_expires_at_unix (recovery_metadata write now) < later"
  proof -
    have "\<not> 18446744073709551615 < unat later"
      using word_order.extremum [of later]
      by (simp add: word_le_nat_alt unsigned_minus_1_eq_mask mask_eq_exp_minus_1 not_less)
    then show ?thesis
      using clock(3) by (simp add: word_less_nat_alt recovery_metadata_def unat_saturating_add
          SOURCE_RECOVERY_TTL_SECONDS_def min_def)
  qed
  moreover have "read_recovered fs' (srw_session_id write) (srw_token write)
      (recovery_metadata write now) (rs_store st) = Ok (srw_stdout write, srw_stderr write)"
    using read_limit [OF small] reads kept written
    by (simp add: read_recovered_def read_recovery_file_def recovery_metadata_def not_less)
  moreover have "read_recovery_file fs' (rs_store st) (srw_session_id write) (srw_token write)
      MetadataFile = Some encoded"
    using reads kept written encoded by (simp add: read_recovery_file_def)
  ultimately show ?thesis
    using token clock(2) serde [OF encoded] io
    by (simp add: recall_source_output_def print_recovered_def append_outcome_def
        record_source_recovery_def Let_def split_def)
qed

definition sample_write :: source_recovery_write where
  "sample_write = \<lparr>srw_session_id = ''s'', srw_token = replicate 32 (CHR ''a''),
     srw_source_execution_id = ''e'', srw_stdout = ''out'', srw_stderr = ''err''\<rparr>"

definition working_disk :: "u64 \<Rightarrow> filesystem" where
  "working_disk now = \<lparr>fs_now = Some now, fs_creates_session_root = True,
     fs_restricts_session_root = True, fs_listing = [], fs_reads = (\<lambda>_ _. True),
     fs_creates_dir = True, fs_restricts_dir = True, fs_write = (\<lambda>_. Written),
     fs_remove = (\<lambda>_. None)\<rparr>"

definition sample_encode :: "source_recovery_metadata \<Rightarrow> string option" where
  "sample_encode metadata = (if metadata = recovery_metadata sample_write 100 then Some ''m'' else None)"

definition sample_decode :: "string \<Rightarrow> source_recovery_metadata option" where
  "sample_decode bytes = Some (recovery_metadata sample_write 100)"

definition sample_stored :: recovery_store where
  "sample_stored = fst (store_source_recovery (working_disk 100) sample_encode sample_decode
     sample_write Map.empty)"

lemma store_on_working_disk:
  assumes "encode (recovery_metadata write now) = Some encoded"
    and "length (srw_stdout write) + length (srw_stderr write) \<le> 8 * 1024 * 1024"
  shows "snd (store_source_recovery (working_disk now) encode decode write Map.empty) = Ok ()"
proof -
  have "\<not> u64_of_len_or_max (usize_saturating_add (length (srw_stdout write)) (length (srw_stderr write)))
      > SOURCE_RECOVERY_MAX_BYTES"
    using assms(2)
    by (simp add: word_less_nat_alt unat_u64_of_len_or_max usize_saturating_add_def usize_limit_def
        SOURCE_RECOVERY_MAX_BYTES_def min_def)
  then show ?thesis
    using assms(1)
    by (simp add: store_source_recovery_def working_disk_def Let_def
        cleanup_expired_source_recoveries_def write_recovery_files_def write_private_file_def)
qed

lemma sample_store_Ok:
  "store_source_recovery (working_disk 100) sample_encode sample_decode sample_write Map.empty
    = (sample_stored, Ok ())"
  using store_on_working_disk [of sample_encode sample_write 100 "''m''" sample_decode]
  by (simp add: sample_stored_def prod_eq_iff sample_encode_def) (simp add: sample_write_def)

definition quiet_recall :: recall_io where
  "quiet_recall = \<lparr>ri_stdout = Written, ri_stderr = Written, ri_event = Written, ri_newline = Written\<rparr>"

lemma append_outcome_prefix: "append_outcome outcome bytes = (printed, result) \<Longrightarrow> prefix printed bytes"
  by (auto simp: append_outcome_def take_is_prefix split: write_outcome.splits)

lemma record_source_recovery_prints:
  "record_source_recovery io to_text session metadata st = (st', result) \<Longrightarrow>
    rs_stdout st' = rs_stdout st \<and> rs_stderr st' = rs_stderr st"
  by (auto simp: record_source_recovery_def Let_def split: if_splits prod.splits)

lemma printed_prefixes:
  assumes "print_recovered io to_text session metadata out err st = (st', result)"
  shows "\<exists>printed_out printed_err. rs_stdout st' = rs_stdout st @ printed_out \<and> prefix printed_out out \<and>
    rs_stderr st' = rs_stderr st @ printed_err \<and> prefix printed_err err"
proof -
  obtain printed_out r1 where first: "append_outcome (ri_stdout io) out = (printed_out, r1)" by force
  obtain printed_err r2 where second: "append_outcome (ri_stderr io) err = (printed_err, r2)" by force
  have "rs_stdout st' = rs_stdout st @ printed_out \<and>
      rs_stderr st' = rs_stderr st @ (if is_ok r1 then printed_err else [])"
    using assms first second
    by (cases "is_ok r1"; cases "is_ok r2")
      (auto simp: print_recovered_def dest!: record_source_recovery_prints)
  then show ?thesis
    using append_outcome_prefix [OF first] append_outcome_prefix [OF second]
    by (intro exI [of _ printed_out] exI [of _ "if is_ok r1 then printed_err else []"]) simp
qed

text \<open>
  C37. A recall prints nothing that was not checked: whatever it prints is the beginning of the
  two files kept under a valid token in the caller's own session, whose lengths are those of the
  metadata, which has not expired and stays within the read limit. In every other case nothing
  is printed.
\<close>

theorem recall_prints_only_checked_output:
  assumes "recall_source_output fs io decode to_text session_id recovery_id st = (st', result)"
    and "rs_stdout st' \<noteq> rs_stdout st \<or> rs_stderr st' \<noteq> rs_stderr st"
  shows "\<exists>session dir metadata now out err printed_out printed_err.
    session_id = Some session \<and> valid_source_recovery_token recovery_id \<and>
    rs_store st (session, recovery_id) = Some dir \<and>
    Option.bind (dir MetadataFile) decode = Some metadata \<and>
    dir StdoutFile = Some out \<and> dir StderrFile = Some err \<and>
    fs_now fs = Some now \<and> now \<le> srm_expires_at_unix metadata \<and>
    srm_stdout_bytes metadata = u64_of_len_or_max (length out) \<and>
    srm_stderr_bytes metadata = u64_of_len_or_max (length err) \<and>
    length out + length err \<le> 8 * 1024 * 1024 \<and>
    rs_stdout st' = rs_stdout st @ printed_out \<and> prefix printed_out out \<and>
    rs_stderr st' = rs_stderr st @ printed_err \<and> prefix printed_err err"
proof -
  from assms obtain session encoded metadata now out err where
    path: "session_id = Some session" "valid_source_recovery_token recovery_id"
      "read_recovery_file fs (rs_store st) session recovery_id MetadataFile = Some encoded"
      "decode encoded = Some metadata" "fs_now fs = Some now"
      "\<not> srm_expires_at_unix metadata < now"
      "read_recovered fs session recovery_id metadata (rs_store st) = Ok (out, err)" and
    printed: "(st', result) = print_recovered io to_text session metadata out err st"
    by (auto simp: recall_source_output_def split: if_splits option.splits result.splits)
  from path(3) obtain dir where dir: "rs_store st (session, recovery_id) = Some dir"
    "dir MetadataFile = Some encoded"
    by (cases "rs_store st (session, recovery_id)") (auto simp: read_recovery_file_def split: if_splits)
  have files: "dir StdoutFile = Some out" "dir StderrFile = Some err"
    "srm_stdout_bytes metadata = u64_of_len_or_max (length out)"
    "srm_stderr_bytes metadata = u64_of_len_or_max (length err)"
    "\<not> saturating_add (srm_stdout_bytes metadata) (srm_stderr_bytes metadata)
      > SOURCE_RECOVERY_MAX_BYTES"
    using path(7) dir(1)
    by (auto simp: read_recovered_def read_recovery_file_def and_then_eq_Ok split: if_splits)
  then have "length out + length err \<le> 8 * 1024 * 1024"
    by (simp add: word_less_nat_alt unat_saturating_add unat_u64_of_len_or_max
        SOURCE_RECOVERY_MAX_BYTES_def min_def split: if_splits)
  moreover obtain printed_out printed_err where
    "rs_stdout st' = rs_stdout st @ printed_out" "prefix printed_out out"
    "rs_stderr st' = rs_stderr st @ printed_err" "prefix printed_err err"
    using printed_prefixes [OF printed [symmetric]] by blast
  ultimately show ?thesis
    using path dir files
    by (intro exI [of _ session] exI [of _ dir] exI [of _ metadata] exI [of _ now] exI [of _ out]
        exI [of _ err] exI [of _ printed_out] exI [of _ printed_err]) (simp add: not_less)
qed

text \<open>
  C38. Storing one recovery never overwrites or removes another that is still alive: an entry of
  the store changes only when it has expired and the cleanup of its own session removes it.
\<close>

theorem live_recoveries_survive:
  assumes "store_source_recovery fs encode decode write store = (store', result)"
    and "store (session, token) = Some dir"
    and "\<And>now. fs_now fs = Some now \<Longrightarrow> session = srw_session_id write \<Longrightarrow>
      \<not> entry_expired fs decode session now store token"
  shows "store' (session, token) = Some dir"
proof (cases "fs_now fs")
  case None
  with assms show ?thesis by (auto simp: store_source_recovery_def Let_def split: if_splits)
next
  case (Some now)
  let ?cleaned = "cleanup_expired_source_recoveries fs decode (srw_session_id write) now store"
  have live: "?cleaned (session, token) = Some dir"
    unfolding cleanup_expired_source_recoveries_def
    using assms(2,3) Some cleanup_entries_live by metis
  obtain files outcome where files: "write_recovery_files fs encode write now = (files, outcome)"
    by force
  show ?thesis
    using assms(1,2) Some live files
    by (auto simp: store_source_recovery_def Let_def remove_dir_all_def split: if_splits)
qed

theorem recall_prints_only_checked_output_witness:
  "\<exists>session dir. rs_store \<lparr>rs_store = sample_stored, rs_stdout = [], rs_stderr = [], rs_events = []\<rparr>
     (session, replicate 32 (CHR ''a'')) = Some dir \<and> dir StdoutFile = Some ''out''"
proof -
  let ?st = "\<lparr>rs_store = sample_stored, rs_stdout = [], rs_stderr = [], rs_events = []\<rparr>"
  obtain dir where dir: "write_recovery_files (working_disk 100) sample_encode sample_write 100 = (dir, Ok ())"
    "sample_stored (''s'', replicate 32 (CHR ''a'')) = Some dir"
    using store_source_recovery_Ok [OF sample_store_Ok] by (auto simp: working_disk_def sample_write_def)
  have token: "valid_source_recovery_token (replicate 32 (CHR ''a''))"
    by (simp add: valid_source_recovery_token_def byte_def numeral_eq_Suc)
  have "read_recovered (working_disk 100) ''s'' (replicate 32 (CHR ''a''))
      (recovery_metadata sample_write 100) sample_stored = Ok (''out'', ''err'')"
    using write_recovery_files_Ok [OF dir(1)] dir(2)
    by (simp add: read_recovered_def read_recovery_file_def working_disk_def)
      (simp add: recovery_metadata_def sample_write_def u64_of_len_or_max_def saturating_add_def
        SOURCE_RECOVERY_MAX_BYTES_def)
  moreover have "read_recovery_file (working_disk 100) sample_stored ''s'' (replicate 32 (CHR ''a''))
      MetadataFile = Some ''m''"
    using write_recovery_files_Ok [OF dir(1)] dir(2)
    by (simp add: read_recovery_file_def working_disk_def sample_encode_def)
  moreover have "\<not> srm_expires_at_unix (recovery_metadata sample_write 100) < 100"
    by (simp add: recovery_metadata_def SOURCE_RECOVERY_TTL_SECONDS_def saturating_add_def)
  ultimately obtain st' result where "recall_source_output (working_disk 100) quiet_recall sample_decode
      (\<lambda>_. []) (Some ''s'') (replicate 32 (CHR ''a'')) ?st = (st', result)"
    "rs_stdout st' \<noteq> rs_stdout ?st"
    using token
    by (simp add: recall_source_output_def sample_decode_def working_disk_def print_recovered_def
        quiet_recall_def append_outcome_def record_source_recovery_def)
  then show ?thesis
    using recall_prints_only_checked_output [of "working_disk 100" quiet_recall sample_decode "\<lambda>_. []"
      "Some ''s''" "replicate 32 (CHR ''a'')" ?st st' result] dir(2) write_recovery_files_Ok [OF dir(1)]
    by (auto simp: sample_write_def)
qed

theorem live_recoveries_survive_witness:
  "\<exists>dir. fst (store_source_recovery (working_disk 200) sample_encode sample_decode sample_write
      sample_stored) (''s'', replicate 32 (CHR ''a'')) = Some dir"
proof -
  obtain dir where dir: "sample_stored (''s'', replicate 32 (CHR ''a'')) = Some dir"
    using store_source_recovery_Ok [OF sample_store_Ok] by (auto simp: sample_write_def)
  have "\<not> entry_expired (working_disk 200) sample_decode ''s'' now sample_stored
      (replicate 32 (CHR ''a''))" if "fs_now (working_disk 200) = Some now" for now
    using that
    by (auto simp: entry_expired_def sample_decode_def working_disk_def recovery_metadata_def
        SOURCE_RECOVERY_TTL_SECONDS_def saturating_add_def bind_eq_Some_conv split: option.split)
  then show ?thesis
    using live_recoveries_survive [of "working_disk 200" sample_encode sample_decode sample_write
        sample_stored _ _ "''s''" "replicate 32 (CHR ''a'')" dir] dir by (metis prod.collapse)
qed

end
