(* ===== verification/Tool_Pipeline.thy ===== *)
theory Tool_Pipeline
  imports Tool_Reductions Tool_Recovery
begin

text \<open>
  \<open>crates/tracepress-cli/src/main.rs\<close>, the \<open>tool\<close> command: it runs an admitted command, asks
  the requested reducer for a candidate, stores the raw output before it replaces anything, and
  prints either the candidate or the raw output. The environment of one run is a record; \<open>run\<close>
  executes the command.
\<close>

section \<open>Which reducer\<close>

definition source_reducer_id :: "string option \<Rightarrow> string" where
  "source_reducer_id requested =
     (case Option.bind requested source_reducer_policy of
        None \<Rightarrow> ''passthrough'' | Some policy \<Rightarrow> srp_reducer_id policy)"

definition source_policy_decision_name :: "string option \<Rightarrow> string" where
  "source_policy_decision_name requested =
     (case requested of
        None \<Rightarrow> ''passthrough''
      | Some reducer \<Rightarrow>
          (case map_option srp_decision (source_reducer_policy reducer) of
             Some ShadowOnly \<Rightarrow> ''shadow_only''
           | Some AcceptedOptIn \<Rightarrow> ''accepted_opt_in''
           | Some Rejected \<Rightarrow> ''rejected''
           | None \<Rightarrow> ''unknown''))"

definition shadow_source_candidate ::
  "nat \<Rightarrow> string option \<Rightarrow> command_family \<Rightarrow> string \<Rightarrow> string \<Rightarrow> source_output_candidate option" where
  "shadow_source_candidate elapsed requested family out err =
     (if requested = Some ''cargo_test_v1_shadow'' \<and> family = CargoTest
      then Some (cargo_test_v1_shadow elapsed out err)
      else if requested = Some ''cargo_check_v1_shadow'' \<and> family = CargoCheck
      then Some (cargo_check_v1_shadow elapsed out err)
      else if requested = Some ''cargo_check_v2_shadow'' \<and> family = CargoCheck
      then Some (cargo_check_v2_shadow elapsed out err)
      else if requested = Some ''cargo_clippy_v1_shadow'' \<and> family = CargoClippy
      then Some (cargo_clippy_v1_shadow elapsed out err)
      else if requested = Some ''rg_v1_shadow'' \<and> family = Ripgrep
      then Some (rg_v1_shadow elapsed out err)
      else if requested = Some ''git_status_v1_shadow'' \<and> family = GitStatus
      then Some (git_status_v1_shadow elapsed out err)
      else None)"

type_synonym active_reducer = "string \<Rightarrow> string \<Rightarrow> string \<Rightarrow> source_output_candidate"

definition active_source_reducer ::
  "nat \<Rightarrow> string option \<Rightarrow> command_family \<Rightarrow> active_reducer option" where
  "active_source_reducer elapsed requested family =
     (case requested of
        None \<Rightarrow> None
      | Some reducer \<Rightarrow>
          if \<not> active_source_policy_allowed reducer family then None
          else if reducer = ''cargo_test_v1_active'' \<and> family = CargoTest
            then Some (cargo_test_v1_active elapsed)
          else if reducer = ''cargo_check_v2_active'' \<and> family = CargoCheck
            then Some (cargo_check_v2_active elapsed)
          else if reducer = ''rg_v1_active'' \<and> family = Ripgrep then Some (rg_v1_active elapsed)
          else None)"

definition source_policy_fail_open_reason :: "string option \<Rightarrow> command_family \<Rightarrow> string option" where
  "source_policy_fail_open_reason requested family =
     (case requested of
        None \<Rightarrow> None
      | Some reducer \<Rightarrow>
          (case source_reducer_policy reducer of
             None \<Rightarrow> Some ''unknown_reducer''
           | Some policy \<Rightarrow>
               if srp_command_family policy \<noteq> family then Some ''policy_family_mismatch''
               else if srp_mode policy = ActiveMode \<and> srp_decision policy = Rejected
               then Some ''policy_rejected'' else None))"

section \<open>The active candidate\<close>

record tool_environment =
  te_real_cargo :: "string option"
  te_execution_id :: string
  te_duration_us :: nat
  te_reducer :: "string option"
  te_elapsed_us :: nat
  te_sessions :: session_variables
  te_tool_bin :: "string option"
  te_random :: "string option"
  te_filesystem :: filesystem
  te_prints_stdout :: write_outcome
  te_prints_stderr :: write_outcome
  te_root_ready :: bool
  te_appends_record :: write_outcome
  te_appends_newline :: write_outcome

text \<open>The parameters of the model: what the operating system and the libraries provide.\<close>

record 'ie tool_parameters =
  tp_run :: "string \<Rightarrow> string list \<Rightarrow> (process_output, 'ie) result"
  tp_session_ok :: "string \<Rightarrow> bool"
  tp_encode :: "source_recovery_metadata \<Rightarrow> string option"
  tp_decode :: "string \<Rightarrow> source_recovery_metadata option"
  tp_to_text :: "json \<Rightarrow> string"

definition recovery_executable :: "string option \<Rightarrow> string" where
  "recovery_executable tool_bin =
     (case tool_bin of
        Some value \<Rightarrow> if safe_source_recovery_executable value then value else ''tracepress''
      | None \<Rightarrow> ''tracepress'')"

definition recovery_command :: "string option \<Rightarrow> string \<Rightarrow> string" where
  "recovery_command tool_bin token = recovery_executable tool_bin @ '' recall '' @ token"

definition prepare_active_source_candidate ::
  "'ie tool_parameters \<Rightarrow> tool_environment \<Rightarrow> source_execution_metadata \<Rightarrow> string \<Rightarrow> string
    \<Rightarrow> (string \<Rightarrow> source_output_candidate) \<Rightarrow> recovery_store
    \<Rightarrow> recovery_store \<times> source_output_candidate option \<times> bool \<times> string option" where
  "prepare_active_source_candidate ps env metadata out err evaluate store =
     (case source_session_id (tp_session_ok ps) (te_sessions env) of
        None \<Rightarrow> (store, None, False, Some ''missing_session'')
      | Some session \<Rightarrow>
      (case source_recovery_token (te_random env) of
        None \<Rightarrow> (store, None, False, Some ''token_generation_failed'')
      | Some token \<Rightarrow>
          let evaluated = evaluate (recovery_command (te_tool_bin env) token)
          in if \<not> soc_never_worse_accepted evaluated
          then (store, Some evaluated, False, Some ''never_worse_rejected'')
          else let (store, result) = store_source_recovery (te_filesystem env) (tp_encode ps)
                 (tp_decode ps)
                 \<lparr>srw_session_id = session, srw_token = token,
                  srw_source_execution_id = sem_source_execution_id metadata,
                  srw_stdout = out, srw_stderr = err\<rparr> store
            in if is_ok result then (store, Some evaluated, True, None)
               else (store, None, False, Some ''recovery_store_failed'')))"

section \<open>Emission\<close>

record emission =
  em_store :: recovery_store
  em_candidate :: "source_output_candidate option"
  em_active :: bool
  em_recovery_available :: bool
  em_fail_open_reason :: "string option"

definition choose_candidate ::
  "'ie tool_parameters \<Rightarrow> tool_environment \<Rightarrow> source_execution_metadata \<Rightarrow> string \<Rightarrow> string
    \<Rightarrow> recovery_store \<Rightarrow> emission" where
  "choose_candidate ps env metadata out err store =
     (let requested = te_reducer env;
          family = sem_command_family metadata;
          reason = source_policy_fail_open_reason requested family
      in case active_source_reducer (te_elapsed_us env) requested family of
           None \<Rightarrow>
             \<lparr>em_store = store,
              em_candidate = shadow_source_candidate (te_elapsed_us env) requested family out err,
              em_active = False, em_recovery_available = False, em_fail_open_reason = reason\<rparr>
         | Some evaluate \<Rightarrow>
             let (store, candidate, available, active_reason) =
               prepare_active_source_candidate ps env metadata out err (evaluate out err) store
             in \<lparr>em_store = store, em_candidate = candidate, em_active = True,
                 em_recovery_available = available,
                 em_fail_open_reason =
                   (case active_reason of Some r \<Rightarrow> Some r | None \<Rightarrow> reason)\<rparr>)"

definition emitted_candidate :: "emission \<Rightarrow> source_output_candidate option" where
  "emitted_candidate e =
     (case (if em_active e then em_candidate e else None) of
        None \<Rightarrow> None
      | Some evaluated \<Rightarrow>
          if em_recovery_available e \<and> soc_never_worse_accepted evaluated then Some evaluated
          else None)"

definition emitted_output :: "emission \<Rightarrow> string \<Rightarrow> string \<Rightarrow> string \<times> string" where
  "emitted_output e out err =
     (case emitted_candidate e of
        None \<Rightarrow> (out, err)
      | Some candidate \<Rightarrow> (soc_stdout candidate, soc_stderr candidate))"

section \<open>The record of an execution\<close>

definition json_option :: "('a \<Rightarrow> json) \<Rightarrow> 'a option \<Rightarrow> json" where
  "json_option f x = (case x of None \<Rightarrow> Null | Some a \<Rightarrow> f a)"

definition json_u64 :: "u64 \<Rightarrow> json" where
  "json_u64 n = Number (PosInt n)"

definition exit_status_class :: "source_execution_metadata \<Rightarrow> string" where
  "exit_status_class metadata =
     (if sem_termination_signal metadata \<noteq> None then ''signal''
      else if sem_exit_code metadata = Some 0 then ''success'' else ''nonzero'')"

fun command_family_name :: "command_family \<Rightarrow> string" where
  "command_family_name CargoTest = ''cargo_test''"
| "command_family_name CargoCheck = ''cargo_check''"
| "command_family_name CargoClippy = ''cargo_clippy''"
| "command_family_name Ripgrep = ''rg''"
| "command_family_name GitStatus = ''git_status''"

text \<open>The members in the order in which \<open>serde_json\<close> keeps them.\<close>

definition source_execution_record ::
  "string option \<Rightarrow> source_execution_metadata \<Rightarrow> string option \<Rightarrow> emission \<Rightarrow> u64 \<Rightarrow> json" where
  "source_execution_record session metadata requested e emitted_bytes =
     (let of_candidate = (\<lambda>field. json_option (json_u64 \<circ> field) (em_candidate e))
      in Object
       [(''active'', Bool (em_active e)),
        (''candidate_applicable'', json_option (Bool \<circ> soc_applicable) (em_candidate e)),
        (''candidate_bytes'', of_candidate soc_candidate_bytes),
        (''command_family'', Text (command_family_name (sem_command_family metadata))),
        (''duration_us'', json_u64 (u64_of_len_or_max (sem_duration_us metadata))),
        (''emitted_bytes'', json_u64 emitted_bytes),
        (''estimated_candidate_tokens'', of_candidate soc_estimated_candidate_tokens),
        (''estimated_raw_tokens'', of_candidate soc_estimated_raw_tokens),
        (''exit_status_class'', Text (exit_status_class metadata)),
        (''fail_open_reason'', json_option Text (em_fail_open_reason e)),
        (''forwarding_mutation'', Bool (em_active e \<and> em_recovery_available e)),
        (''grouped_match_lines'', of_candidate soc_grouped_match_lines),
        (''never_worse_accepted'', json_option (Bool \<circ> soc_never_worse_accepted) (em_candidate e)),
        (''omitted_advisory_lines'', of_candidate soc_omitted_advisory_lines),
        (''omitted_passing_tests'', of_candidate soc_omitted_passing_tests),
        (''omitted_progress_lines'', of_candidate soc_omitted_progress_lines),
        (''output_contract'', Text ''agent_readable''),
        (''policy_decision'', Text (source_policy_decision_name requested)),
        (''raw_stderr_bytes'', json_u64 (sem_raw_stderr_bytes metadata)),
        (''raw_stdout_bytes'', json_u64 (sem_raw_stdout_bytes metadata)),
        (''recovery_available'', Bool (em_recovery_available e)),
        (''recovery_hint_bytes'', of_candidate soc_recovery_hint_bytes),
        (''reducer_duration_us'',
          json_option (json_u64 \<circ> u64_of_len_or_max \<circ> soc_reducer_duration) (em_candidate e)),
        (''reducer_id'', Text (source_reducer_id requested)),
        (''reducer_version'', Text ''v1''),
        (''session_id'', json_option Text session),
        (''shadow'', Bool (em_candidate e \<noteq> None \<and> \<not> em_active e)),
        (''source_execution_id'', Text (sem_source_execution_id metadata))])"

definition record_source_execution ::
  "'ie tool_parameters \<Rightarrow> tool_environment \<Rightarrow> json \<Rightarrow> string \<Rightarrow> string" where
  "record_source_execution ps env record entries =
     (if \<not> te_root_ready env then entries
      else let (text, result) = append_outcome (te_appends_record env) (tp_to_text ps record)
        in if \<not> is_ok result then entries @ text
           else entries @ text @ fst (append_outcome (te_appends_newline env) [newline]))"

section \<open>The command\<close>

record tool_state =
  ts_store :: recovery_store
  ts_stdout :: string
  ts_stderr :: string
  ts_executions :: string

datatype 'ie tool_exit =
    Finished
  | Refused "'ie execution_error"
  | OutputFailed
  | Signalled i32
  | Exited i32

definition reproduce_exit :: "source_execution_metadata \<Rightarrow> 'ie tool_exit" where
  "reproduce_exit metadata =
     (case sem_termination_signal metadata of
        Some signal \<Rightarrow> Signalled signal
      | None \<Rightarrow>
          (case sem_exit_code metadata of
             Some code \<Rightarrow> if code \<noteq> 0 then Exited code else Finished
           | None \<Rightarrow> Finished))"

fun join_words :: "string list \<Rightarrow> string" where
  "join_words [] = []"
| "join_words [word] = word"
| "join_words (word # words) = word @ '' '' @ join_words words"

definition tool_command ::
  "'ie tool_parameters \<Rightarrow> tool_environment \<Rightarrow> string list \<Rightarrow> tool_state \<Rightarrow> tool_state \<times> 'ie tool_exit"
  where
  "tool_command ps env args st =
     (case execute_passthrough (tp_run ps) (te_real_cargo env) (te_execution_id env)
         (te_duration_us env) (join_words args) of
        Err e \<Rightarrow> (st, Refused e)
      | Ok (out, err, metadata) \<Rightarrow>
          let e = choose_candidate ps env metadata out err (ts_store st);
              (emitted_out, emitted_err) = emitted_output e out err;
              st = st\<lparr>ts_store := em_store e\<rparr>;
              (printed, result) = append_outcome (te_prints_stdout env) emitted_out;
              st = st\<lparr>ts_stdout := ts_stdout st @ printed\<rparr>
          in if \<not> is_ok result then (st, OutputFailed)
          else let (printed, result) = append_outcome (te_prints_stderr env) emitted_err;
                   st = st\<lparr>ts_stderr := ts_stderr st @ printed\<rparr>
          in if \<not> is_ok result then (st, OutputFailed)
          else let emitted_bytes =
                 u64_of_len_or_max (usize_saturating_add (length emitted_out) (length emitted_err));
                   record = source_execution_record
                     (source_session_id (tp_session_ok ps) (te_sessions env)) metadata
                     (te_reducer env) e emitted_bytes
            in (st\<lparr>ts_executions := record_source_execution ps env record (ts_executions st)\<rparr>,
                reproduce_exit metadata))"

section \<open>The active reducers keep the contract\<close>

lemma active_source_reducer_cases:
  assumes "active_source_reducer elapsed requested family = Some evaluate"
  obtains "requested = Some ''cargo_test_v1_active''" "evaluate = cargo_test_v1_active elapsed"
  | "requested = Some ''cargo_check_v2_active''" "evaluate = cargo_check_v2_active elapsed"
  | "requested = Some ''rg_v1_active''" "evaluate = rg_v1_active elapsed"
  using assms that by (auto simp: active_source_reducer_def split: option.splits if_splits)

lemma active_source_reducer_allowed:
  "active_source_reducer elapsed requested family = Some evaluate \<Longrightarrow>
    \<exists>reducer. requested = Some reducer \<and> active_source_policy_allowed reducer family"
  by (auto simp: active_source_reducer_def split: option.splits if_splits)

lemma active_shrinks:
  assumes "active_source_reducer elapsed requested family = Some evaluate"
    and "soc_never_worse_accepted (evaluate out err command)"
  shows "length (soc_stdout (evaluate out err command)) + length (soc_stderr (evaluate out err command))
    < length out + length err"
  using assms(1)
proof (cases rule: active_source_reducer_cases)
  case 1
  with assms(2) show ?thesis
    by (simp add: cargo_test_v1_active_def cargo_test.accepted_shrinks)
next
  case 2
  with assms(2) show ?thesis
    by (simp add: cargo_check_v2_active_def diagnostics.accepted_shrinks)
next
  case 3
  with assms(2) show ?thesis
    by (simp add: rg_v1_active_def ripgrep.accepted_shrinks)
qed

text \<open>An accepted candidate of an active reducer opens with a hint that holds the command.\<close>

lemma sublist_middle: "sublist command (a @ command @ b)"
  by (auto simp: sublist_def)

lemma hints_hold_command:
  "sublist command (cargo_test_hint p q (Some command) @ rest)"
  "sublist command (diagnostics_hint p (Some command) @ rest)"
  "sublist command (rg_hint p command @ rest)"
  unfolding cargo_test_hint_def diagnostics_hint_def rg_hint_def option.case
  by (metis append_assoc sublist_middle)+

lemma active_hint:
  assumes "active_source_reducer elapsed requested family = Some evaluate"
    and "soc_never_worse_accepted (evaluate out err command)"
  shows "sublist command (soc_stdout (evaluate out err command))"
  using assms(1)
proof (cases rule: active_source_reducer_cases)
  case 1
  then show ?thesis
    using assms(2) cargo_test.accepted_smaller [of elapsed out err "Some command"]
      hints_hold_command(1) [of command]
    by (auto simp: cargo_test_v1_active_def cargo_test_candidate_def Let_def split_def with_hint_def
        split: if_splits)
next
  case 2
  then show ?thesis
    using assms(2) diagnostics.accepted_smaller
      [of elapsed out err "\<lparr>dp_active_recovery_command = Some command, dp_preserve_finished = True\<rparr>"]
      hints_hold_command(2) [of command]
    by (auto simp: cargo_check_v2_active_def diagnostics_candidate_def Let_def split_def with_hint_def
        split: if_splits)
next
  case 3
  then show ?thesis
    using assms(2) ripgrep.accepted_smaller [of elapsed out err "Some command"]
      hints_hold_command(3) [of command]
    by (auto simp: rg_v1_active_def rg_candidate_def Let_def split_def with_hint_def
        split: if_splits option.splits)
qed

section \<open>What an agent sees\<close>

lemma prepare_available:
  assumes "prepare_active_source_candidate ps env metadata out err evaluate store
    = (store', candidate, True, reason)"
  obtains session token evaluated where
    "source_session_id (tp_session_ok ps) (te_sessions env) = Some session"
    "source_recovery_token (te_random env) = Some token"
    "evaluated = evaluate (recovery_command (te_tool_bin env) token)"
    "candidate = Some evaluated" "soc_never_worse_accepted evaluated"
    "store_source_recovery (te_filesystem env) (tp_encode ps) (tp_decode ps)
       \<lparr>srw_session_id = session, srw_token = token,
        srw_source_execution_id = sem_source_execution_id metadata,
        srw_stdout = out, srw_stderr = err\<rparr> store = (store', Ok ())"
  using assms
  by (auto simp: prepare_active_source_candidate_def Let_def is_ok_def
      split: option.splits if_splits prod.splits)

lemma emitted_candidate_cases:
  assumes "emitted_candidate (choose_candidate ps env metadata out err store) = Some candidate"
  obtains evaluate session token where
    "active_source_reducer (te_elapsed_us env) (te_reducer env) (sem_command_family metadata)
       = Some evaluate"
    "source_session_id (tp_session_ok ps) (te_sessions env) = Some session"
    "source_recovery_token (te_random env) = Some token"
    "candidate = evaluate out err (recovery_command (te_tool_bin env) token)"
    "soc_never_worse_accepted candidate"
    "store_source_recovery (te_filesystem env) (tp_encode ps) (tp_decode ps)
       \<lparr>srw_session_id = session, srw_token = token,
        srw_source_execution_id = sem_source_execution_id metadata,
        srw_stdout = out, srw_stderr = err\<rparr> store
       = (em_store (choose_candidate ps env metadata out err store), Ok ())"
proof -
  obtain evaluate where evaluate: "active_source_reducer (te_elapsed_us env) (te_reducer env)
      (sem_command_family metadata) = Some evaluate"
    using assms
    by (cases "active_source_reducer (te_elapsed_us env) (te_reducer env) (sem_command_family metadata)")
      (simp_all add: choose_candidate_def emitted_candidate_def Let_def)
  obtain store' cand available reason where prepared: "prepare_active_source_candidate ps env metadata
      out err (evaluate out err) store = (store', cand, available, reason)"
    by (metis prod_cases4)
  have chosen: "cand = Some candidate" "available"
    "em_store (choose_candidate ps env metadata out err store) = store'"
    using assms evaluate prepared
    by (auto simp: choose_candidate_def emitted_candidate_def Let_def split: option.splits if_splits)
  show ?thesis
    using prepared unfolding chosen(1) eqTrueI [OF chosen(2)]
    by (rule prepare_available) (use that [OF evaluate] chosen(3) in auto)
qed

lemma emitted_no_larger:
  "length (fst (emitted_output (choose_candidate ps env metadata out err store) out err)) +
   length (snd (emitted_output (choose_candidate ps env metadata out err store) out err))
     \<le> length out + length err"
proof (cases "emitted_candidate (choose_candidate ps env metadata out err store)")
  case (Some candidate)
  then show ?thesis
    by (rule emitted_candidate_cases) (use Some active_shrinks in \<open>fastforce simp: emitted_output_def\<close>)
qed (simp add: emitted_output_def)

text \<open>
  C10. The tool command never prints more than the command it ran: whatever reducer is requested
  and whatever fails on the way, the bytes it prints are at most those of the raw output.
\<close>

theorem tool_never_prints_more:
  assumes "execute_passthrough (tp_run ps) (te_real_cargo env) (te_execution_id env)
      (te_duration_us env) (join_words args) = Ok (out, err, metadata)"
    and "tool_command ps env args st = (st', exit)"
  shows "\<exists>printed_out printed_err. ts_stdout st' = ts_stdout st @ printed_out \<and>
    ts_stderr st' = ts_stderr st @ printed_err \<and>
    length printed_out + length printed_err \<le> length out + length err"
proof -
  define e where "e = choose_candidate ps env metadata out err (ts_store st)"
  obtain emitted_out emitted_err where emitted: "emitted_output e out err = (emitted_out, emitted_err)"
    by force
  then have small: "length emitted_out + length emitted_err \<le> length out + length err"
    using emitted_no_larger [of ps env metadata out err "ts_store st"] by (simp add: e_def)
  obtain po r1 where first: "append_outcome (te_prints_stdout env) emitted_out = (po, r1)" by force
  obtain pe r2 where second: "append_outcome (te_prints_stderr env) emitted_err = (pe, r2)" by force
  have "length po \<le> length emitted_out" "length pe \<le> length emitted_err"
    using append_outcome_prefix first second prefix_length_le by blast+
  moreover have "ts_stdout st' = ts_stdout st @ po \<and>
      ts_stderr st' = ts_stderr st @ (if is_ok r1 then pe else [])"
    using assms emitted first second
    by (cases "is_ok r1"; cases "is_ok r2") (auto simp: tool_command_def Let_def e_def [symmetric])
  ultimately show ?thesis
    using small by (intro exI [of _ po] exI [of _ "if is_ok r1 then pe else []"]) simp
qed

definition sample_environment :: "string option \<Rightarrow> tool_environment" where
  "sample_environment reducer =
     \<lparr>te_real_cargo = None, te_execution_id = ''e'', te_duration_us = 5, te_reducer = reducer,
      te_elapsed_us = 1, te_sessions = \<lparr>sv_source_session = Some ''s'', sv_session = None\<rparr>,
      te_tool_bin = None, te_random = Some (replicate 16 (CHR ''k'')),
      te_filesystem = working_disk 100, te_prints_stdout = Written, te_prints_stderr = Written,
      te_root_ready = True, te_appends_record = Written, te_appends_newline = Written\<rparr>"

definition sample_parameters :: "source_recovery_metadata \<Rightarrow> unit tool_parameters" where
  "sample_parameters kept =
     \<lparr>tp_run = (\<lambda>_ _. Ok \<lparr>po_stdout = ''clean'', po_stderr = [], po_code = Some 0, po_signal = None\<rparr>),
      tp_session_ok = (\<lambda>_. True),
      tp_encode = (\<lambda>metadata. if metadata = kept then Some ''m'' else None),
      tp_decode = (\<lambda>_. Some kept), tp_to_text = (\<lambda>_. [])\<rparr>"

definition sample_kept :: source_recovery_metadata where
  "sample_kept = recovery_metadata
     \<lparr>srw_session_id = ''s'', srw_token = concat (map hex_pair (replicate 16 (CHR ''k''))),
      srw_source_execution_id = ''e'', srw_stdout = [],
      srw_stderr = ''Compiling '' @ replicate 300 (CHR ''x'') @ [newline]\<rparr> 100"

theorem tool_never_prints_more_witness:
  "let st = \<lparr>ts_store = Map.empty, ts_stdout = [], ts_stderr = [], ts_executions = []\<rparr>;
       st' = fst (tool_command (sample_parameters sample_kept) (sample_environment None)
         [''git'', ''status''] st)
   in \<exists>printed_out printed_err. ts_stdout st' = ts_stdout st @ printed_out \<and>
        ts_stderr st' = ts_stderr st @ printed_err \<and>
        length printed_out + length printed_err \<le> length ''clean'' + length ''''"
proof -
  let ?ps = "sample_parameters sample_kept" and ?env = "sample_environment None"
  have "decide ''git status'' = Passthrough GitStatus AgentReadable"
    by (simp add: decide_def shell_syntax_def split_ascii_whitespace_def is_ascii_whitespace_def Let_def)
  moreover have "split_ascii_whitespace ''git status'' = [''git'', ''status'']"
    by (simp add: split_ascii_whitespace_def is_ascii_whitespace_def)
  ultimately obtain metadata where run: "execute_passthrough (tp_run ?ps) (te_real_cargo ?env)
      (te_execution_id ?env) (te_duration_us ?env) (join_words [''git'', ''status''])
      = Ok (''clean'', [], metadata)"
    by (simp add: execute_passthrough_def sample_parameters_def Let_def)
  let ?st = "\<lparr>ts_store = Map.empty, ts_stdout = [], ts_stderr = [], ts_executions = []\<rparr>"
  obtain st' exit where command: "tool_command ?ps ?env [''git'', ''status''] ?st = (st', exit)"
    by (rule prod.exhaust)
  show ?thesis
    using tool_never_prints_more [OF run command] by (simp add: command)
qed

text \<open>
  C5. Output that an agent sees reduced can always be recovered: when the tool prints anything
  other than the raw output, the requested reducer is authorised for the command, the printed
  text names a recall command, and running that command within the hour in the same session
  prints the raw standard output and standard error byte for byte.
\<close>

theorem reduced_output_is_recoverable:
  assumes "e = choose_candidate ps env metadata out err store"
    and reduced: "emitted_output e out err \<noteq> (out, err)"
    and random: "\<And>bytes. te_random env = Some bytes \<Longrightarrow> length bytes = 16"
    and serde: "\<And>metadata encoded. tp_encode ps metadata = Some encoded \<Longrightarrow>
      tp_decode ps encoded = Some metadata"
    and clock: "fs_now (te_filesystem env) = Some now" "fs_now fs' = Some later"
      "unat later \<le> unat now + 3600"
    and reads: "\<And>token file. fs_reads fs' token file"
    and io: "ri_stdout io = Written" "ri_stderr io = Written"
    and st: "rs_store st = em_store e"
  shows "\<exists>reducer session token. te_reducer env = Some reducer \<and>
    active_source_policy_allowed reducer (sem_command_family metadata) \<and>
    source_session_id (tp_session_ok ps) (te_sessions env) = Some session \<and>
    sublist (recovery_command (te_tool_bin env) token) (fst (emitted_output e out err)) \<and>
    (let st' = fst (recall_source_output fs' io (tp_decode ps) to_text (Some session) token st)
     in rs_stdout st' = rs_stdout st @ out \<and> rs_stderr st' = rs_stderr st @ err)"
proof -
  from reduced obtain candidate where candidate: "emitted_candidate e = Some candidate"
    by (cases "emitted_candidate e") (auto simp: emitted_output_def)
  then show ?thesis
    unfolding assms(1)
  proof (rule emitted_candidate_cases)
    fix evaluate session token
    assume evaluate: "active_source_reducer (te_elapsed_us env) (te_reducer env)
        (sem_command_family metadata) = Some evaluate"
      and session: "source_session_id (tp_session_ok ps) (te_sessions env) = Some session"
      and token: "source_recovery_token (te_random env) = Some token"
      and evaluated: "candidate = evaluate out err (recovery_command (te_tool_bin env) token)"
        "soc_never_worse_accepted candidate"
      and stored: "store_source_recovery (te_filesystem env) (tp_encode ps) (tp_decode ps)
        \<lparr>srw_session_id = session, srw_token = token,
         srw_source_execution_id = sem_source_execution_id metadata,
         srw_stdout = out, srw_stderr = err\<rparr> store
        = (em_store (choose_candidate ps env metadata out err store), Ok ())"
    have "valid_source_recovery_token token"
      by (rule generated_token_valid [OF token random])
    then have "let st' = fst (recall_source_output fs' io (tp_decode ps) to_text (Some session) token st)
        in rs_stdout st' = rs_stdout st @ out \<and> rs_stderr st' = rs_stderr st @ err"
      using stored_output_is_recalled [OF stored [folded assms(1) st] serde _ clock reads io]
      by (simp add: Let_def)
    moreover have "sublist (recovery_command (te_tool_bin env) token) (fst (emitted_output e out err))"
      using active_hint [OF evaluate] evaluated candidate by (simp add: emitted_output_def)
    ultimately show "\<exists>reducer session token. te_reducer env = Some reducer \<and>
      active_source_policy_allowed reducer (sem_command_family metadata) \<and>
      source_session_id (tp_session_ok ps) (te_sessions env) = Some session \<and>
      sublist (recovery_command (te_tool_bin env) token)
        (fst (emitted_output (choose_candidate ps env metadata out err store) out err)) \<and>
      (let st' = fst (recall_source_output fs' io (tp_decode ps) to_text (Some session) token st)
       in rs_stdout st' = rs_stdout st @ out \<and> rs_stderr st' = rs_stderr st @ err)"
      using active_source_reducer_allowed [OF evaluate] session assms(1) by blast
  qed
qed

definition sample_progress :: string where
  "sample_progress = ''Compiling '' @ replicate 300 (CHR ''x'') @ [newline]"

definition sample_metadata :: source_execution_metadata where
  "sample_metadata =
     \<lparr>sem_source_execution_id = ''e'', sem_command_family = CargoCheck,
      sem_output_contract = AgentReadable, sem_raw_stdout_bytes = 0, sem_raw_stderr_bytes = 311,
      sem_emitted_bytes = 311, sem_exit_code = Some 0, sem_termination_signal = None,
      sem_duration_us = 5\<rparr>"

lemma utf8_ok_ascii: "list_all (\<lambda>c. byte c < 0x80) s \<Longrightarrow> utf8_ok s"
  by (induction s) simp_all

lemma sample_progress_omitted:
  "utf8_ok sample_progress"
  "omit_progress True (split_inclusive sample_progress) ([], 0) = ([], 1)"
proof -
  show "utf8_ok sample_progress"
    unfolding sample_progress_def
    by (rule utf8_ok_ascii) (simp add: byte_def list_all_iff)
  have "is_progress True (''Compiling '' @ rest)" for rest
    by (simp add: is_progress_def trim_start_def white_space_def trim_with.simps progress_words_def
        upt_rec)
  moreover have "split_inclusive sample_progress = [sample_progress]"
    using split_inclusive_append [of "''Compiling '' @ replicate 300 (CHR ''x'')" "[]"]
    by (simp add: sample_progress_def)
  ultimately show "omit_progress True (split_inclusive sample_progress) ([], 0) = ([], 1)"
    by (simp add: sample_progress_def saturating_add_def del: append.simps)
qed

abbreviation sample_cargo_check :: tool_environment where
  "sample_cargo_check \<equiv> sample_environment (Some ''cargo_check_v2_active'')"

lemma sample_token_length: "length (concat (map hex_pair (replicate 16 (CHR ''k'')))) = 32"
  by (simp add: hex_pair_def length_concat sum_list_replicate)

lemma sample_candidate_accepted:
  assumes "length token = 32"
  shows "soc_never_worse_accepted
    (cargo_check_v2_active e [] sample_progress (recovery_command None token))"
proof -
  have "length (diagnostics_hint 1 (Some (recovery_command None token))) < 160"
    using assms by (simp add: diagnostics_hint_def recovery_command_def recovery_executable_def
        count_text_def decimal.simps)
  then have "unat (measured_bytes (diagnostics_hint 1 (Some (recovery_command None token))) []) < 160"
    by (simp add: unat_measured_bytes)
  moreover have "unat (measured_bytes [] sample_progress) = 311"
    by (simp add: unat_measured_bytes sample_progress_def)
  ultimately show ?thesis
    by (simp add: cargo_check_v2_active_def diagnostics_candidate_def sample_progress_omitted
        with_hint_def weigh_candidate_def Let_def word_less_nat_alt estimated_tokens_def
        unat_saturating_add unat_div)
qed

lemma sample_emission:
  "emitted_output (choose_candidate (sample_parameters sample_kept) sample_cargo_check sample_metadata
     [] sample_progress Map.empty) [] sample_progress \<noteq> ([], sample_progress)"
proof -
  let ?ps = "sample_parameters sample_kept"
  let ?token = "concat (map hex_pair (replicate 16 (CHR ''k'')))"
  let ?entry = "\<lparr>srw_session_id = ''s'', srw_token = ?token, srw_source_execution_id = ''e'',
    srw_stdout = [], srw_stderr = sample_progress\<rparr>"
  let ?c = "cargo_check_v2_active 1 [] sample_progress (recovery_command None ?token)"
  have reducer: "active_source_reducer 1 (Some ''cargo_check_v2_active'') CargoCheck
      = Some (cargo_check_v2_active 1)"
    using active_source_policy_iff [of "''cargo_check_v2_active''" CargoCheck]
    by (simp add: active_source_reducer_def SOURCE_REDUCER_POLICIES_def policy_entry_def)
  have accepted: "soc_never_worse_accepted ?c"
    by (rule sample_candidate_accepted [OF sample_token_length])
  have "snd (store_source_recovery (working_disk 100) (tp_encode ?ps) (tp_decode ?ps) ?entry Map.empty)
      = Ok ()"
    by (rule store_on_working_disk [of _ _ _ "''m''"])
      (simp_all add: sample_parameters_def sample_kept_def sample_progress_def)
  then have "emitted_candidate (choose_candidate ?ps sample_cargo_check sample_metadata
      [] sample_progress Map.empty) = Some ?c"
    using reducer accepted
    by (simp add: choose_candidate_def emitted_candidate_def prepare_active_source_candidate_def
        sample_environment_def sample_metadata_def source_session_id_def source_recovery_token_def
        sample_parameters_def Let_def split_def)
  moreover have "length (soc_stdout ?c) + length (soc_stderr ?c) < length sample_progress"
    using active_shrinks [OF reducer accepted] by simp
  ultimately show ?thesis by (auto simp: emitted_output_def)
qed

theorem reduced_output_is_recoverable_witness:
  "\<exists>session token.
     (let ps = sample_parameters sample_kept;
          e = choose_candidate ps sample_cargo_check sample_metadata [] sample_progress Map.empty;
          st = \<lparr>rs_store = em_store e, rs_stdout = [], rs_stderr = [], rs_events = []\<rparr>;
          st' = fst (recall_source_output (working_disk 3700) quiet_recall (tp_decode ps) (\<lambda>_. [])
            (Some session) token st)
      in sublist (recovery_command None token) (fst (emitted_output e [] sample_progress)) \<and>
         rs_stderr st' = sample_progress)"
proof -
  let ?ps = "sample_parameters sample_kept"
  let ?e = "choose_candidate ?ps sample_cargo_check sample_metadata [] sample_progress Map.empty"
  let ?st = "\<lparr>rs_store = em_store ?e, rs_stdout = [], rs_stderr = [], rs_events = []\<rparr>"
  have random: "te_random sample_cargo_check = Some bytes \<Longrightarrow> length bytes = 16" for bytes
    by (auto simp: sample_environment_def)
  have serde: "tp_encode ?ps metadata = Some encoded \<Longrightarrow> tp_decode ?ps encoded = Some metadata"
    for metadata encoded by (simp add: sample_parameters_def split: if_splits)
  have disk: "fs_now (te_filesystem sample_cargo_check) = Some 100" "fs_now (working_disk 3700) = Some 3700"
    "unat (3700 :: u64) \<le> unat (100 :: u64) + 3600" "fs_reads (working_disk 3700) token f"
    "te_tool_bin sample_cargo_check = None" for token f
    by (simp_all add: sample_environment_def working_disk_def)
  have io: "ri_stdout quiet_recall = Written" "ri_stderr quiet_recall = Written"
    by (simp_all add: quiet_recall_def)
  show ?thesis
    using reduced_output_is_recoverable [OF refl sample_emission random serde disk(1,2,3,4) io,
        of ?st "\<lambda>_. []"]
    by (auto simp: Let_def disk(5))
qed

end
