(* ===== verification/Context_Limits.thy ===== *)
theory Context_Limits
  imports Core_Budgets Core_Content Provider_Domain
begin

text \<open>
  \<open>crates/tracepress-context/src\<close>: \<open>limits.rs\<close>, \<open>digest.rs\<close>, \<open>visibility.rs\<close> and
  \<open>reconciliation.rs\<close>: the bounds of one context analysis, the digests it compares, what it can
  claim to have seen, and how its estimate is compared with what a provider reported.
\<close>

section \<open>Limits\<close>

datatype context_analysis_limit_field =
    AnalyzedBytes | Blocks | JsonDepth | StringBytesInspected | AnalysisWorkUnits
  | AnalysisWallTimeMs | Batches

record context_analysis_limit_values =
  cv_max_analyzed_bytes :: u64
  cv_max_blocks :: u64
  cv_max_json_depth :: u64
  cv_max_string_bytes_inspected :: u64
  cv_max_analysis_work_units :: u64
  cv_max_analysis_wall_time_ms :: u64
  cv_max_batches :: u64

record context_analysis_limits =
  cl_max_analyzed_bytes :: nat
  cl_max_blocks :: nat
  cl_max_json_depth :: limit
  cl_max_string_bytes_inspected :: nat
  cl_max_analysis_work_units :: max_cpu_work_units
  cl_max_analysis_wall_time_ms :: max_processing_time_ms
  cl_max_batches :: nat

datatype context_analysis_limits_error =
    ZeroBound context_analysis_limit_field
  | UnrepresentableBound context_analysis_limit_field u64

definition ANALYZED_BYTES_CEILING :: u64 where "ANALYZED_BYTES_CEILING = 4 * 1024 * 1024"
definition MAX_BLOCKS :: u64 where "MAX_BLOCKS = 8192"
definition MAX_JSON_DEPTH :: u64 where "MAX_JSON_DEPTH = 64"
definition MAX_STRING_BYTES_INSPECTED :: u64 where "MAX_STRING_BYTES_INSPECTED = 65536"
definition MAX_ANALYSIS_WALL_TIME_MS :: u64 where "MAX_ANALYSIS_WALL_TIME_MS = 250"
definition MAX_BATCHES :: u64 where "MAX_BATCHES = 128"
definition WORK_UNIT_SHARE_DIVISOR :: u64 where "WORK_UNIT_SHARE_DIVISOR = 2"

definition addressable ::
  "u64 \<Rightarrow> context_analysis_limit_field \<Rightarrow> (nat, context_analysis_limits_error) result" where
  "addressable bound field =
     (if \<not> unat bound < usize_limit then Err (UnrepresentableBound field bound)
      else if unat bound = 0 then Err (ZeroBound field)
      else Ok (unat bound))"

definition nonzero_limit ::
  "u64 \<Rightarrow> context_analysis_limit_field \<Rightarrow> (limit, context_analysis_limits_error) result" where
  "nonzero_limit bound field = map_err (\<lambda>_. ZeroBound field) (limit_new bound)"

definition context_analysis_limits_new ::
  "context_analysis_limit_values \<Rightarrow> (context_analysis_limits, context_analysis_limits_error) result" where
  "context_analysis_limits_new bounds =
     and_then (addressable (cv_max_analyzed_bytes bounds) AnalyzedBytes) (\<lambda>analyzed.
     and_then (addressable (cv_max_blocks bounds) Blocks) (\<lambda>blocks.
     and_then (nonzero_limit (cv_max_json_depth bounds) JsonDepth) (\<lambda>depth.
     and_then (addressable (cv_max_string_bytes_inspected bounds) StringBytesInspected) (\<lambda>inspected.
     and_then (nonzero_limit (cv_max_analysis_work_units bounds) AnalysisWorkUnits) (\<lambda>work.
     and_then (nonzero_limit (cv_max_analysis_wall_time_ms bounds) AnalysisWallTimeMs) (\<lambda>wall.
     and_then (addressable (cv_max_batches bounds) Batches) (\<lambda>batches.
     Ok \<lparr>cl_max_analyzed_bytes = analyzed, cl_max_blocks = blocks, cl_max_json_depth = depth,
         cl_max_string_bytes_inspected = inspected, cl_max_analysis_work_units = work,
         cl_max_analysis_wall_time_ms = wall, cl_max_batches = batches\<rparr>)))))))"

definition checked_div :: "u64 \<Rightarrow> u64 \<Rightarrow> u64 option" where
  "checked_div x y = (if y = 0 then None else Some (x div y))"

definition from_resource_limits ::
  "resource_limits \<Rightarrow> (context_analysis_limits, context_analysis_limits_error) result" where
  "from_resource_limits limits =
     (let configured = limit_get (rl_max_cpu_work_units limits);
          work = max (case checked_div configured WORK_UNIT_SHARE_DIVISOR of
            Some share \<Rightarrow> share | None \<Rightarrow> configured) 1
      in context_analysis_limits_new
        \<lparr>cv_max_analyzed_bytes = min (limit_get (rl_max_request_body_bytes limits)) ANALYZED_BYTES_CEILING,
         cv_max_blocks = MAX_BLOCKS, cv_max_json_depth = MAX_JSON_DEPTH,
         cv_max_string_bytes_inspected = MAX_STRING_BYTES_INSPECTED,
         cv_max_analysis_work_units = work,
         cv_max_analysis_wall_time_ms =
           min MAX_ANALYSIS_WALL_TIME_MS (limit_get (rl_max_processing_time_ms limits)),
         cv_max_batches = MAX_BATCHES\<rparr>)"

definition analysis_processing_budget :: "context_analysis_limits \<Rightarrow> processing_budget" where
  "analysis_processing_budget limits =
     processing_budget_new (cl_max_analysis_wall_time_ms limits) (cl_max_analysis_work_units limits)"

section \<open>Digests\<close>

text \<open>\<open>digest.rs\<close> repeats the text form of \<open>content_id.rs\<close> line by line for its own type.\<close>

datatype context_digest = ContextDigest (digest_as_bytes: digest32)

definition context_digest_from_bytes :: "(u8 list \<Rightarrow> digest32) \<Rightarrow> u8 list \<Rightarrow> context_digest" where
  "context_digest_from_bytes sha256 bytes = ContextDigest (sha256 bytes)"

definition map_ok :: "('a \<Rightarrow> 'b) \<Rightarrow> ('a, 'e) result \<Rightarrow> ('b, 'e) result" where
  "map_ok f r = (case r of Ok a \<Rightarrow> Ok (f a) | Err e \<Rightarrow> Err e)"

definition context_digest_display :: "context_digest \<Rightarrow> u8 list" where
  "context_digest_display d = concat (map hex_byte (digest_bytes (digest_as_bytes d)))"

definition context_digest_from_str :: "u8 list \<Rightarrow> (context_digest, content_id_parse_error) result" where
  "context_digest_from_str text =
     (if length text \<noteq> 64 then Err (InvalidLength (length text))
      else let (pairs, remainder) = as_chunks2 text
        in if remainder \<noteq> [] then Err (InvalidLength (length text))
           else and_then (decode_pairs pairs) (\<lambda>bytes. Ok (ContextDigest (Digest32 bytes))))"

section \<open>Visibility\<close>

datatype logical_context_status =
  ExplicitOnly | ProviderManagedPartial | ExternalReferencesPartial | MixedPartial | StatusUnknown

record context_visibility =
  vi_explicit_request_complete :: bool
  vi_uses_previous_response :: bool
  vi_uses_conversation_state :: bool
  vi_uses_item_references :: bool
  vi_uses_prompt_reference :: bool
  vi_uses_external_files :: bool
  vi_uses_external_images :: bool
  vi_contains_opaque_items :: bool

definition references_provider_managed_content :: "context_visibility \<Rightarrow> bool" where
  "references_provider_managed_content v \<longleftrightarrow>
     vi_uses_previous_response v \<or> vi_uses_conversation_state v \<or> vi_uses_item_references v \<or>
     vi_uses_prompt_reference v \<or> vi_contains_opaque_items v"

definition references_external_content :: "context_visibility \<Rightarrow> bool" where
  "references_external_content v \<longleftrightarrow> vi_uses_external_files v \<or> vi_uses_external_images v"

definition logical_context_status :: "context_visibility \<Rightarrow> logical_context_status" where
  "logical_context_status v =
     (case (references_provider_managed_content v, references_external_content v) of
        (True, True) \<Rightarrow> MixedPartial
      | (True, False) \<Rightarrow> ProviderManagedPartial
      | (False, True) \<Rightarrow> ExternalReferencesPartial
      | (False, False) \<Rightarrow> if vi_explicit_request_complete v then ExplicitOnly else StatusUnknown)"

section \<open>Reconciliation\<close>

datatype reconciliation_status =
  ComparableApproximate | PartialVisibility | MissingProviderUsage | MissingLocalEstimate
  | NotComparable

record 'snapshot token_reconciliation =
  tr_snapshot_id :: 'snapshot
  tr_visible_estimated_tokens :: "u64 option"
  tr_provider_input_tokens :: "u64 option"
  tr_residual_tokens :: "i64 option"
  tr_comparability :: reconciliation_status

text \<open>\<open>i64::try_from\<close> of an unsigned count, and \<open>i64::checked_sub\<close>.\<close>

definition i64_of_u64 :: "u64 \<Rightarrow> i64 option" where
  "i64_of_u64 n = (if unat n < 2 ^ 63 then Some n else None)"

definition i64_checked_sub :: "i64 \<Rightarrow> i64 \<Rightarrow> i64 option" where
  "i64_checked_sub x y =
     (let d = sint x - sint y in if - (2 ^ 63) \<le> d \<and> d < 2 ^ 63 then Some (word_of_int d) else None)"

definition token_reconcile ::
  "'snapshot \<Rightarrow> context_visibility \<Rightarrow> u64 option \<Rightarrow> u64 option \<Rightarrow> bool \<Rightarrow> 'snapshot token_reconciliation"
  where
  "token_reconcile snapshot visibility visible provider otherwise_comparable =
     (let (residual, status) =
        (case (provider, visible) of
           (None, _) \<Rightarrow> (None, MissingProviderUsage)
         | (Some _, None) \<Rightarrow> (None, MissingLocalEstimate)
         | (Some p, Some l) \<Rightarrow>
             (case (i64_of_u64 p, i64_of_u64 l) of
                (Some p, Some l) \<Rightarrow>
                  if \<not> otherwise_comparable then (None, NotComparable)
                  else (i64_checked_sub p l,
                    (case logical_context_status visibility of
                       ExplicitOnly \<Rightarrow> ComparableApproximate | _ \<Rightarrow> PartialVisibility))
              | _ \<Rightarrow> (None, NotComparable)))
      in \<lparr>tr_snapshot_id = snapshot, tr_visible_estimated_tokens = visible,
          tr_provider_input_tokens = provider, tr_residual_tokens = residual,
          tr_comparability = status\<rparr>)"

section \<open>What the limits and the reconciliation promise\<close>

lemma addressable_Ok: "b \<noteq> 0 \<Longrightarrow> addressable b field = Ok (unat b)"
  using unsigned_less [of b, where 'a = nat]
  by (simp add: addressable_def usize_limit_def unat_eq_zero)

lemma nonzero_limit_Ok: "b \<noteq> 0 \<Longrightarrow> nonzero_limit b field = Ok (limit_from_non_zero b)"
  by (simp add: nonzero_limit_def limit_new_def)

text \<open>
  C34. Bounds of an analysis can always be derived from validated resource limits: the derivation
  never fails, it never admits more bytes than a request body may have nor more than four
  mebibytes, it takes at most half of the configured work units but at least one, and at most the
  configured processing time.
\<close>

theorem analysis_limits_always_derived:
  "\<exists>derived. from_resource_limits limits = Ok derived \<and>
     cl_max_analyzed_bytes derived =
       min (unat (limit_get (rl_max_request_body_bytes limits))) (4 * 1024 * 1024) \<and>
     unat (limit_get (cl_max_analysis_work_units derived)) =
       max 1 (unat (limit_get (rl_max_cpu_work_units limits)) div 2) \<and>
     unat (limit_get (cl_max_analysis_wall_time_ms derived)) =
       min 250 (unat (limit_get (rl_max_processing_time_ms limits))) \<and>
     cl_max_blocks derived = 8192 \<and> limit_get (cl_max_json_depth derived) = 64 \<and>
     cl_max_string_bytes_inspected derived = 65536 \<and> cl_max_batches derived = 128"
proof -
  let ?work = "max (limit_get (rl_max_cpu_work_units limits) div 2) 1"
  let ?bytes = "min (limit_get (rl_max_request_body_bytes limits)) (4 * 1024 * 1024)"
  let ?wall = "min 250 (limit_get (rl_max_processing_time_ms limits))"
  have nonzero: "?work \<noteq> 0" "?bytes \<noteq> 0" "?wall \<noteq> 0"
    by (auto simp: max_def min_def)
  have "unat ?work = max 1 (unat (limit_get (rl_max_cpu_work_units limits)) div 2)"
    by (simp add: max_def word_le_nat_alt unat_div)
  moreover have "unat ?bytes = min (unat (limit_get (rl_max_request_body_bytes limits))) (4 * 1024 * 1024)"
    "unat ?wall = min 250 (unat (limit_get (rl_max_processing_time_ms limits)))"
    by (simp_all add: min_def word_le_nat_alt)
  ultimately show ?thesis
    using nonzero
    by (simp add: from_resource_limits_def context_analysis_limits_new_def addressable_Ok
        nonzero_limit_Ok checked_div_def WORK_UNIT_SHARE_DIVISOR_def ANALYZED_BYTES_CEILING_def
        MAX_BLOCKS_def MAX_JSON_DEPTH_def MAX_STRING_BYTES_INSPECTED_def
        MAX_ANALYSIS_WALL_TIME_MS_def MAX_BATCHES_def)
qed

lemma sint_small:
  fixes x :: i64
  assumes "unat x < 2 ^ 63"
  shows "sint x = int (unat x)"
proof -
  have eq: "uint x = int (unat x)" by simp
  have "unat x < 9223372036854775808" using assms by simp
  then have "- 9223372036854775808 \<le> int (unat x) \<and> int (unat x) < 9223372036854775808" by linarith
  then have "- (2 ^ 63) \<le> int (unat x)" "int (unat x) < 2 ^ 63" by simp_all
  note signed_take_bit_int_eq_self [OF this]
  then show ?thesis unfolding sint_uint eq by simp
qed

lemma i64_difference:
  assumes "unat p < 2 ^ 63" and "unat l < 2 ^ 63"
  obtains d where "i64_checked_sub p l = Some d" "sint d = int (unat p) - int (unat l)"
proof -
  let ?d = "int (unat p) - int (unat l)"
  have "unat p < 9223372036854775808" "unat l < 9223372036854775808" using assms by simp_all
  then have "- 9223372036854775808 \<le> ?d \<and> ?d < 9223372036854775808" by linarith
  then have range: "- (2 ^ 63) \<le> ?d" "?d < 2 ^ 63" by simp_all
  then have "i64_checked_sub p l = Some (word_of_int ?d)"
    using sint_small [OF assms(1)] sint_small [OF assms(2)]
    unfolding i64_checked_sub_def Let_def by presburger
  moreover have "sint (word_of_int ?d :: i64) = ?d"
    unfolding signed_of_int using signed_take_bit_int_eq_self [OF range] by simp
  ultimately show ?thesis by (rule that)
qed

text \<open>
  A residual is recorded exactly when both totals are known, fit the signed range and are
  otherwise comparable; it is then their exact difference, and the comparison is called
  approximate rather than partial exactly when every explicit byte was seen and no signal of
  hidden content was.
\<close>

theorem reconciliation_exact:
  fixes snapshot :: 'snapshot
  shows "let r = token_reconcile snapshot visibility visible provider comparable
   in (tr_residual_tokens r \<noteq> None \<longleftrightarrow> comparable \<and>
         (\<exists>p l. provider = Some p \<and> visible = Some l \<and> unat p < 2 ^ 63 \<and> unat l < 2 ^ 63)) \<and>
      (case (tr_residual_tokens r, provider, visible) of
         (Some d, Some p, Some l) \<Rightarrow> sint d = int (unat p) - int (unat l) \<and>
           (tr_comparability r = ComparableApproximate \<or> tr_comparability r = PartialVisibility)
       | _ \<Rightarrow> True) \<and>
      (tr_comparability r = ComparableApproximate \<longleftrightarrow> tr_residual_tokens r \<noteq> None \<and>
         vi_explicit_request_complete visibility \<and> \<not> references_provider_managed_content visibility \<and>
         \<not> references_external_content visibility) \<and>
      tr_visible_estimated_tokens r = visible \<and> tr_provider_input_tokens r = provider"
proof -
  have explicit: "(case logical_context_status visibility of
      ExplicitOnly \<Rightarrow> ComparableApproximate | _ \<Rightarrow> PartialVisibility) =
    (if vi_explicit_request_complete visibility \<and> \<not> references_provider_managed_content visibility \<and>
        \<not> references_external_content visibility then ComparableApproximate else PartialVisibility)"
    by (simp add: logical_context_status_def split: bool.split)
  consider "provider = None" | "visible = None"
    | p l where "provider = Some p" "visible = Some l" "\<not> (unat p < 2 ^ 63 \<and> unat l < 2 ^ 63)"
    | p l where "provider = Some p" "visible = Some l" "unat p < 2 ^ 63" "unat l < 2 ^ 63"
    by (cases provider; cases visible) auto
  then show ?thesis
  proof cases
    case 4
    then obtain d where "i64_checked_sub p l = Some d" "sint d = int (unat p) - int (unat l)"
      using i64_difference by blast
    with 4 show ?thesis
      by (simp add: token_reconcile_def explicit i64_of_u64_def Let_def)
  qed (auto simp: token_reconcile_def i64_of_u64_def Let_def split: option.split)
qed

text \<open>The text form of a digest is read back, in either case.\<close>

lemma context_digest_round_trip:
  "context_digest_from_str s = Ok d \<longleftrightarrow>
     length s = 64 \<and> list_all is_hex s \<and> map ascii_lower s = context_digest_display d"
proof -
  have "context_digest_from_str s = map_ok ContextDigest (content_id_from_str s)"
    by (simp add: context_digest_from_str_def content_id_from_str_def map_ok_def Let_def split_def
        and_then_def split: result.split)
  then show ?thesis
    using content_id_parse [of s "digest_as_bytes d"]
    by (cases "content_id_from_str s"; cases d)
      (auto simp: map_ok_def context_digest_display_def content_id_display_def)
qed

end
