(* ===== verification/Context_Delta.thy ===== *)
theory Context_Delta
  imports Context_Limits "HOL-Library.Multiset" "HOL-Library.Sublist"
begin

text \<open>
  \<open>crates/tracepress-context/src/delta.rs\<close>: the bounded comparison of two ordered lists of block
  summaries. A hash map of counts is a map to 64-bit words; its operations are exact because the
  lists compared are shorter than \<open>2 ^ 64\<close>.
\<close>

section \<open>Data\<close>

datatype context_analysis_status =
    AnalysisComplete | AnalysisPartial | AnalysisResourceLimit | AnalysisMalformed
  | ObserverBackpressure | CorrelationDegraded | AnalysisUnsupported | AnalysisCancelled

record semantic_fingerprint =
  sf_fingerprint_version :: u32
  sf_digest :: context_digest

record context_block_summary =
  bs_exact_fingerprint :: context_digest
  bs_semantic_fingerprint :: "semantic_fingerprint option"
  bs_estimated_tokens :: "u64 option"

record 'snapshot context_delta_request =
  dr_previous_snapshot_id :: 'snapshot
  dr_current_snapshot_id :: 'snapshot
  dr_previous :: "context_block_summary list"
  dr_current :: "context_block_summary list"
  dr_previous_analysis_status :: context_analysis_status
  dr_current_analysis_status :: context_analysis_status
  dr_limits :: context_analysis_limits

datatype context_delta_status = DeltaComplete | DeltaResourceLimit

record 'snapshot context_delta =
  cd_previous_snapshot_id :: 'snapshot
  cd_current_snapshot_id :: 'snapshot
  cd_status :: context_delta_status
  cd_compared_previous_blocks :: u64
  cd_compared_current_blocks :: u64
  cd_repeated_blocks :: u64
  cd_new_blocks :: u64
  cd_changed_blocks :: u64
  cd_removed_blocks :: u64
  cd_repeated_estimated_tokens :: "u64 option"
  cd_new_estimated_tokens :: "u64 option"
  cd_common_prefix_blocks :: "u64 option"
  cd_common_prefix_estimated_tokens :: "u64 option"

section \<open>Counting\<close>

type_synonym 'k counts = "'k \<rightharpoonup> u64"

definition increment :: "u64 \<Rightarrow> u64" where
  "increment n = saturating_add n 1"

definition take_one :: "'k counts \<Rightarrow> 'k \<Rightarrow> bool \<times> 'k counts" where
  "take_one counts key =
     (case counts key of
        None \<Rightarrow> (False, counts)
      | Some held \<Rightarrow>
          if held = 0 then (False, counts) else (True, counts(key \<mapsto> saturating_sub held 1)))"

text \<open>\<open>increment(counts.entry(key).or_default())\<close>.\<close>

definition increment_entry :: "'k \<Rightarrow> 'k counts \<Rightarrow> 'k counts" where
  "increment_entry key counts =
     counts(key \<mapsto> increment (case counts key of None \<Rightarrow> 0 | Some held \<Rightarrow> held))"

record token_total =
  tt_total :: u64
  tt_unknown :: bool

definition token_total_default :: token_total where
  "token_total_default = \<lparr>tt_total = 0, tt_unknown = False\<rparr>"

definition token_total_push :: "token_total \<Rightarrow> u64 option \<Rightarrow> token_total" where
  "token_total_push t tokens =
     (case tokens of
        Some n \<Rightarrow> t\<lparr>tt_total := saturating_add (tt_total t) n\<rparr>
      | None \<Rightarrow> t\<lparr>tt_unknown := True\<rparr>)"

definition token_total_finish :: "token_total \<Rightarrow> u64 option" where
  "token_total_finish t = (if tt_unknown t then None else Some (tt_total t))"

section \<open>Matching\<close>

fun count_exact :: "context_block_summary list \<Rightarrow> context_digest counts \<Rightarrow> context_digest counts" where
  "count_exact [] available = available"
| "count_exact (block # blocks) available =
     count_exact blocks (increment_entry (bs_exact_fingerprint block) available)"

type_synonym block_identity = "context_digest \<times> semantic_fingerprint option"

definition identity :: "context_block_summary \<Rightarrow> block_identity" where
  "identity block = (bs_exact_fingerprint block, bs_semantic_fingerprint block)"

text \<open>The state of the loop over the current blocks.\<close>

record exact_matching =
  em_available :: "context_digest counts"
  em_consumed :: "context_digest counts"
  em_preferred :: "block_identity counts"
  em_unmatched :: "context_block_summary list"
  em_repeated :: u64
  em_tokens :: token_total

fun match_exact :: "context_block_summary list \<Rightarrow> exact_matching \<Rightarrow> exact_matching" where
  "match_exact [] m = m"
| "match_exact (block # blocks) m =
     (let (taken, available) = take_one (em_available m) (bs_exact_fingerprint block)
      in match_exact blocks
        (if taken
         then m\<lparr>em_available := available, em_repeated := increment (em_repeated m),
                em_consumed := increment_entry (bs_exact_fingerprint block) (em_consumed m),
                em_preferred := increment_entry (identity block) (em_preferred m),
                em_tokens := token_total_push (em_tokens m) (bs_estimated_tokens block)\<rparr>
         else m\<lparr>em_available := available, em_unmatched := em_unmatched m @ [block]\<rparr>))"

text \<open>
  The two passes over the previous blocks: one flag per block says whether an occurrence of it was
  consumed by an exact match.
\<close>

fun consume_preferred ::
  "context_block_summary list \<Rightarrow> block_identity counts \<Rightarrow> context_digest counts
    \<Rightarrow> bool list \<times> context_digest counts" where
  "consume_preferred [] preferred consumed = ([], consumed)"
| "consume_preferred (block # blocks) preferred consumed =
     (let (taken, preferred) = take_one preferred (identity block);
          consumed = (if taken then snd (take_one consumed (bs_exact_fingerprint block)) else consumed);
          (flags, consumed) = consume_preferred blocks preferred consumed
      in (taken # flags, consumed))"

fun consume_remaining ::
  "context_block_summary list \<Rightarrow> bool list \<Rightarrow> context_digest counts \<Rightarrow> bool list" where
  "consume_remaining (block # blocks) (flag # flags) consumed =
     (if flag then True # consume_remaining blocks flags consumed
      else let (taken, consumed) = take_one consumed (bs_exact_fingerprint block)
        in taken # consume_remaining blocks flags consumed)"
| "consume_remaining _ _ consumed = []"

fun count_semantics ::
  "context_block_summary list \<Rightarrow> bool list \<Rightarrow> semantic_fingerprint counts \<Rightarrow> u64
    \<Rightarrow> semantic_fingerprint counts \<times> u64" where
  "count_semantics (block # blocks) (flag # flags) semantics remaining =
     (if flag then count_semantics blocks flags semantics remaining
      else count_semantics blocks flags
        (case bs_semantic_fingerprint block of
           None \<Rightarrow> semantics
         | Some semantic \<Rightarrow> increment_entry semantic semantics)
        (increment remaining))"
| "count_semantics _ _ semantics remaining = (semantics, remaining)"

definition unmatched_previous_semantics ::
  "context_block_summary list \<Rightarrow> context_digest counts \<Rightarrow> block_identity counts
    \<Rightarrow> semantic_fingerprint counts \<times> u64" where
  "unmatched_previous_semantics previous consumed preferred =
     (let (flags, consumed) = consume_preferred previous preferred consumed;
          flags = consume_remaining previous flags consumed
      in count_semantics previous flags Map.empty 0)"

record semantic_matching =
  sm_available :: "semantic_fingerprint counts"
  sm_changed :: u64
  sm_new :: u64
  sm_tokens :: token_total
  sm_remaining :: u64

fun match_semantic :: "context_block_summary list \<Rightarrow> semantic_matching \<Rightarrow> semantic_matching" where
  "match_semantic [] m = m"
| "match_semantic (block # blocks) m =
     (let (taken, available) =
        (case bs_semantic_fingerprint block of
           None \<Rightarrow> (False, sm_available m)
         | Some semantic \<Rightarrow> take_one (sm_available m) semantic)
      in match_semantic blocks
        (if taken
         then m\<lparr>sm_available := available, sm_changed := increment (sm_changed m),
                sm_remaining := saturating_sub (sm_remaining m) 1\<rparr>
         else m\<lparr>sm_available := available, sm_new := increment (sm_new m),
                sm_tokens := token_total_push (sm_tokens m) (bs_estimated_tokens block)\<rparr>))"

section \<open>The exact prefix\<close>

fun prefix_run ::
  "context_block_summary list \<Rightarrow> context_block_summary list \<Rightarrow> u64 \<Rightarrow> token_total
    \<Rightarrow> u64 \<times> token_total \<times> bool" where
  "prefix_run (before # previous) (after # current) blocks tokens =
     (if bs_exact_fingerprint before \<noteq> bs_exact_fingerprint after then (blocks, tokens, True)
      else prefix_run previous current (increment blocks)
        (token_total_push tokens (bs_estimated_tokens after)))"
| "prefix_run _ _ blocks tokens = (blocks, tokens, False)"

definition exact_prefix ::
  "context_block_summary list \<Rightarrow> context_block_summary list \<Rightarrow> bool \<Rightarrow> u64 option \<times> u64 option" where
  "exact_prefix previous current possibly_cut =
     (let (blocks, tokens, mismatched) = prefix_run previous current 0 token_total_default
      in if possibly_cut \<and> \<not> mismatched \<and> length previous = length current then (None, None)
         else (Some blocks, token_total_finish tokens))"

section \<open>The delta\<close>

definition compute_bounded_delta ::
  "'snapshot \<Rightarrow> 'snapshot \<Rightarrow> context_block_summary list \<Rightarrow> context_block_summary list \<Rightarrow> bool \<Rightarrow> bool
    \<Rightarrow> 'snapshot context_delta" where
  "compute_bounded_delta previous_id current_id previous current previous_limited current_limited =
     (let m = match_exact current
        \<lparr>em_available = count_exact previous Map.empty, em_consumed = Map.empty,
         em_preferred = Map.empty, em_unmatched = [], em_repeated = 0,
         em_tokens = token_total_default\<rparr>;
          (semantics, remaining) =
            unmatched_previous_semantics previous (em_consumed m) (em_preferred m);
          s = match_semantic (em_unmatched m)
            \<lparr>sm_available = semantics, sm_changed = 0, sm_new = 0, sm_tokens = token_total_default,
             sm_remaining = remaining\<rparr>;
          (prefix_blocks, prefix_tokens) =
            exact_prefix previous current (previous_limited \<or> current_limited)
      in \<lparr>cd_previous_snapshot_id = previous_id, cd_current_snapshot_id = current_id,
          cd_status = (if previous_limited \<or> current_limited then DeltaResourceLimit
            else DeltaComplete),
          cd_compared_previous_blocks = u64_of_len_or_max (length previous),
          cd_compared_current_blocks = u64_of_len_or_max (length current),
          cd_repeated_blocks = em_repeated m, cd_new_blocks = sm_new s,
          cd_changed_blocks = sm_changed s, cd_removed_blocks = sm_remaining s,
          cd_repeated_estimated_tokens = token_total_finish (em_tokens m),
          cd_new_estimated_tokens = token_total_finish (sm_tokens s),
          cd_common_prefix_blocks = prefix_blocks,
          cd_common_prefix_estimated_tokens = prefix_tokens\<rparr>)"

definition admitted_blocks ::
  "context_analysis_limits \<Rightarrow> context_block_summary list \<Rightarrow> context_block_summary list" where
  "admitted_blocks limits blocks = take (min (length blocks) (cl_max_blocks limits)) blocks"

definition was_limited ::
  "context_analysis_limits \<Rightarrow> context_analysis_status \<Rightarrow> context_block_summary list \<Rightarrow> bool" where
  "was_limited limits status blocks \<longleftrightarrow>
     status \<noteq> AnalysisComplete \<or> length blocks > cl_max_blocks limits"

definition compute_context_delta :: "'snapshot context_delta_request \<Rightarrow> 'snapshot context_delta" where
  "compute_context_delta request =
     compute_bounded_delta (dr_previous_snapshot_id request) (dr_current_snapshot_id request)
       (admitted_blocks (dr_limits request) (dr_previous request))
       (admitted_blocks (dr_limits request) (dr_current request))
       (was_limited (dr_limits request) (dr_previous_analysis_status request) (dr_previous request))
       (was_limited (dr_limits request) (dr_current_analysis_status request) (dr_current request))"

end
