(* ===== verification/Context_Comparison.thy ===== *)
theory Context_Comparison
  imports Context_Delta
begin

text \<open>
  What a context delta means: its counts of words are multisets, its matching loops are
  intersections of multisets, and its classes partition the blocks of both snapshots.
\<close>

section \<open>Counts are multisets\<close>

definition held :: "'k counts \<Rightarrow> 'k \<Rightarrow> nat" where
  "held counts key = (case counts key of None \<Rightarrow> 0 | Some n \<Rightarrow> unat n)"

definition represents :: "'k counts \<Rightarrow> 'k multiset \<Rightarrow> bool" where
  "represents counts M \<longleftrightarrow> (\<forall>key. held counts key = count M key)"

lemma represents_empty [simp]: "represents Map.empty {#}"
  by (simp add: represents_def held_def)

lemma unat_increment: "unat n < 2 ^ 64 - 1 \<Longrightarrow> unat (increment n) = Suc (unat n)"
  by (simp add: increment_def unat_saturating_add)

lemma take_one_represents:
  assumes "represents counts M"
  shows "fst (take_one counts key) \<longleftrightarrow> key \<in># M"
    and "represents (snd (take_one counts key)) (M - {#key#})"
proof -
  have count: "count M k = held counts k" for k using assms by (simp add: represents_def)
  show "fst (take_one counts key) \<longleftrightarrow> key \<in># M"
    using count [of key] count_eq_zero_iff [of M key]
    by (auto simp: take_one_def held_def unat_eq_zero split: option.splits)
  show "represents (snd (take_one counts key)) (M - {#key#})"
    by (auto simp: represents_def take_one_def held_def count unat_saturating_sub split: option.split)
qed

lemma increment_entry_represents:
  assumes "represents counts M" and "size M < 2 ^ 64 - 1"
  shows "represents (increment_entry key counts) (add_mset key M)"
proof -
  have count: "held counts k = count M k" for k using assms(1) by (simp add: represents_def)
  have "held counts key < 2 ^ 64 - 1"
    using assms(2) count_le_size [of M key] count [of key] by linarith
  then have "unat (increment (case counts key of None \<Rightarrow> 0 | Some n \<Rightarrow> n)) = Suc (held counts key)"
    by (auto simp: held_def unat_increment split: option.splits)
  then show ?thesis
    using count by (simp add: represents_def increment_entry_def held_def)
qed

lemma count_exact_represents:
  "represents counts M \<Longrightarrow> size M + length blocks < 2 ^ 64 \<Longrightarrow>
    represents (count_exact blocks counts) (M + mset (map bs_exact_fingerprint blocks))"
proof (induction blocks arbitrary: counts M)
  case (Cons block blocks)
  then show ?case
    using Cons.IH [OF increment_entry_represents, of counts M "bs_exact_fingerprint block"] by simp
qed simp

section \<open>Exact matching\<close>

abbreviation exacts :: "context_block_summary list \<Rightarrow> context_digest multiset" where
  "exacts blocks \<equiv> mset (map bs_exact_fingerprint blocks)"

definition matching :: "context_digest multiset \<Rightarrow> context_digest multiset \<Rightarrow> exact_matching \<Rightarrow> bool" where
  "matching A C m \<longleftrightarrow> represents (em_available m) A \<and> represents (em_consumed m) C \<and>
     (\<exists>I. represents (em_preferred m) I \<and> image_mset fst I = C) \<and> unat (em_repeated m) = size C"

lemma match_exact_matches:
  assumes "matching A C m" and "size C + length blocks < 2 ^ 64"
  shows "\<exists>u. em_unmatched (match_exact blocks m) = em_unmatched m @ u \<and>
    size (A \<inter># exacts blocks) + length u = length blocks \<and>
    matching (A - exacts blocks) (C + (A \<inter># exacts blocks)) (match_exact blocks m)"
  using assms
proof (induction blocks arbitrary: A C m)
  case (Cons block blocks)
  let ?e = "bs_exact_fingerprint block"
  obtain taken available where take: "take_one (em_available m) ?e = (taken, available)" by force
  from Cons.prems(1) obtain I where I: "represents (em_preferred m) I" "image_mset fst I = C"
    and rep: "represents (em_available m) A" "represents (em_consumed m) C" "unat (em_repeated m) = size C"
    by (auto simp: matching_def)
  have available: "taken \<longleftrightarrow> ?e \<in># A" "represents available (A - {#?e#})"
    using take_one_represents [OF rep(1), of ?e] by (simp_all add: take)
  show ?case
  proof (cases taken)
    case True
    let ?m = "m\<lparr>em_available := available, em_repeated := increment (em_repeated m),
      em_consumed := increment_entry ?e (em_consumed m),
      em_preferred := increment_entry (identity block) (em_preferred m),
      em_tokens := token_total_push (em_tokens m) (bs_estimated_tokens block)\<rparr>"
    have small: "size C < 2 ^ 64 - 1" using Cons.prems(2) by simp
    moreover have "size I = size C" using I(2) by (metis size_image_mset)
    ultimately have "represents (increment_entry (identity block) (em_preferred m)) (add_mset (identity block) I)"
      "represents (increment_entry ?e (em_consumed m)) (add_mset ?e C)"
      by (simp_all add: increment_entry_represents I(1) rep(2))
    then have "matching (A - {#?e#}) (add_mset ?e C) ?m"
      using available(2) rep(3) small I(2)
      by (auto simp: matching_def unat_increment identity_def
          intro!: exI [of _ "add_mset (identity block) I"])
    from Cons.IH [OF this] obtain u where
      "em_unmatched (match_exact blocks ?m) = em_unmatched m @ u"
      "size ((A - {#?e#}) \<inter># exacts blocks) + length u = length blocks"
      "matching (A - {#?e#} - exacts blocks) (add_mset ?e C + ((A - {#?e#}) \<inter># exacts blocks))
        (match_exact blocks ?m)"
      using Cons.prems(2) by auto
    then show ?thesis
      using True available(1) take by (auto simp: inter_add_right2)
  next
    case False
    let ?m = "m\<lparr>em_available := available, em_unmatched := em_unmatched m @ [block]\<rparr>"
    have "matching A C ?m"
      using False available Cons.prems(1) I rep by (auto simp: matching_def diff_single_trivial)
    from Cons.IH [OF this] obtain u where
      "em_unmatched (match_exact blocks ?m) = (em_unmatched m @ [block]) @ u"
      "size (A \<inter># exacts blocks) + length u = length blocks"
      "matching (A - exacts blocks) (C + (A \<inter># exacts blocks)) (match_exact blocks ?m)"
      using Cons.prems(2) by auto
    then show ?thesis
      using False available(1) take
      by (intro exI [of _ "block # u"]) (simp add: inter_add_right1 diff_single_trivial)
  qed
qed (simp add: matching_def)

section \<open>What is left of the previous blocks\<close>

definition flagged :: "bool \<Rightarrow> context_block_summary list \<Rightarrow> bool list \<Rightarrow> context_block_summary list" where
  "flagged b blocks flags = map fst (filter (\<lambda>(block, flag). flag = b) (zip blocks flags))"

lemma flagged_simps [simp]:
  "flagged b [] flags = []"
  "flagged b (block # blocks) (flag # flags) =
     (if flag = b then block # flagged b blocks flags else flagged b blocks flags)"
  by (simp_all add: flagged_def)

lemma flagged_partition:
  "length flags = length blocks \<Longrightarrow> exacts blocks = exacts (flagged True blocks flags) + exacts (flagged False blocks flags)"
  by (induction flags blocks rule: list_induct2) auto

lemma flagged_length:
  "length flags = length blocks \<Longrightarrow>
    length (flagged True blocks flags) + length (flagged False blocks flags) = length blocks"
  by (induction flags blocks rule: list_induct2) auto

lemma consume_preferred_consumes:
  assumes "consume_preferred blocks preferred consumed = (flags, consumed')"
    and "represents preferred I" and "represents consumed C" and "image_mset fst I \<subseteq># C"
  shows "length flags = length blocks \<and> exacts (flagged True blocks flags) \<subseteq># C \<and>
    represents consumed' (C - exacts (flagged True blocks flags))"
  using assms
proof (induction blocks arbitrary: preferred consumed I C flags consumed')
  case (Cons block blocks)
  let ?e = "bs_exact_fingerprint block"
  obtain taken preferred1 where take: "take_one preferred (identity block) = (taken, preferred1)" by force
  let ?consumed = "if taken then snd (take_one consumed ?e) else consumed"
  obtain flags1 consumed1 where rest:
    "consume_preferred blocks preferred1 ?consumed = (flags1, consumed1)" by force
  have result: "flags = taken # flags1" "consumed' = consumed1"
    using Cons.prems(1) take rest by auto
  have taken: "taken \<longleftrightarrow> identity block \<in># I" "represents preferred1 (I - {#identity block#})"
    using take_one_represents [OF Cons.prems(2), of "identity block"] by (simp_all add: take)
  let ?C = "if taken then C - {#?e#} else C"
  have "represents ?consumed ?C"
    using take_one_represents(2) [OF Cons.prems(3)] Cons.prems(3) by simp
  moreover have "image_mset fst (I - {#identity block#}) \<subseteq># ?C"
  proof (cases taken)
    case True
    then have "image_mset fst (I - {#identity block#}) = image_mset fst I - {#?e#}"
      using taken(1) by (simp add: image_mset_Diff identity_def)
    then show ?thesis
      using True Cons.prems(4) by (auto simp: subseteq_mset_def intro: diff_le_mono)
  qed (use taken(1) Cons.prems(4) in \<open>simp add: diff_single_trivial\<close>)
  ultimately have "length flags1 = length blocks" "exacts (flagged True blocks flags1) \<subseteq># ?C"
    "represents consumed1 (?C - exacts (flagged True blocks flags1))"
    using Cons.IH [OF rest taken(2)] by blast+
  moreover have "taken \<Longrightarrow> ?e \<in># C"
    using taken(1) Cons.prems(4) by (auto simp: identity_def dest!: mset_subset_eqD)
  ultimately show ?case
    using result by (auto simp: insert_subset_eq_iff)
qed simp

lemma consume_remaining_consumes:
  assumes "length flags = length blocks" and "represents consumed C"
    and "C \<subseteq># exacts (flagged False blocks flags)"
  shows "length (consume_remaining blocks flags consumed) = length blocks \<and>
    length (flagged True blocks (consume_remaining blocks flags consumed)) =
      length (flagged True blocks flags) + size C"
  using assms
proof (induction flags blocks arbitrary: consumed C rule: list_induct2)
  case (Cons flag flags block blocks)
  let ?e = "bs_exact_fingerprint block"
  show ?case
  proof (cases flag)
    case False
    obtain taken consumed1 where take: "take_one consumed ?e = (taken, consumed1)" by force
    have "taken \<longleftrightarrow> ?e \<in># C" "represents consumed1 (C - {#?e#})"
      using take_one_represents [OF Cons.prems(1), of ?e] by (simp_all add: take)
    moreover have "C - {#?e#} \<subseteq># exacts (flagged False blocks flags)"
      using Cons.prems(2) False by (simp add: subset_eq_diff_conv)
    moreover have "?e \<in># C \<Longrightarrow> size C = Suc (size (C - {#?e#}))"
      by (metis size_Suc_Diff1)
    ultimately show ?thesis
      using False take Cons.IH [of consumed1 "C - {#?e#}"] by (auto simp: diff_single_trivial)
  qed (use Cons in auto)
qed simp

lemma count_semantics_counts:
  assumes "length flags = length blocks" and "represents semantics S"
    and "size S + length blocks < 2 ^ 64" and "unat remaining + length blocks < 2 ^ 64"
  shows "\<exists>S'. represents (fst (count_semantics blocks flags semantics remaining)) S' \<and>
    size S' \<le> size S + length (flagged False blocks flags) \<and>
    unat (snd (count_semantics blocks flags semantics remaining)) =
      unat remaining + length (flagged False blocks flags)"
  using assms
proof (induction flags blocks arbitrary: semantics remaining S rule: list_induct2)
  case (Cons flag flags block blocks)
  show ?case
  proof (cases flag)
    case False
    have remaining: "unat (increment remaining) = Suc (unat remaining)"
      using Cons.prems(3) by (simp add: unat_increment)
    show ?thesis
    proof (cases "bs_semantic_fingerprint block")
      case None
      with False remaining Cons.IH [OF Cons.prems(1), of "increment remaining"] Cons.prems show ?thesis
        by fastforce
    next
      case (Some semantic)
      have "represents (increment_entry semantic semantics) (add_mset semantic S)"
        using Cons.prems by (intro increment_entry_represents) auto
      with False Some remaining Cons.IH [of "increment_entry semantic semantics" "add_mset semantic S"
          "increment remaining"] Cons.prems show ?thesis
        by fastforce
    qed
  qed (use Cons in auto)
qed auto

lemma match_semantic_matches:
  assumes "represents (sm_available m) S" and "size S \<le> unat (sm_remaining m)"
    and "unat (sm_changed m) + unat (sm_new m) + length blocks < 2 ^ 64"
  shows "\<exists>n. n \<le> length blocks \<and> n \<le> unat (sm_remaining m) \<and>
    unat (sm_changed (match_semantic blocks m)) = unat (sm_changed m) + n \<and>
    unat (sm_new (match_semantic blocks m)) = unat (sm_new m) + (length blocks - n) \<and>
    unat (sm_remaining (match_semantic blocks m)) = unat (sm_remaining m) - n"
  using assms
proof (induction blocks arbitrary: m S)
  case (Cons block blocks)
  obtain taken available where step: "(case bs_semantic_fingerprint block of
      None \<Rightarrow> (False, sm_available m) | Some semantic \<Rightarrow> take_one (sm_available m) semantic)
      = (taken, available)" by force
  obtain S' where S': "represents available S'" "size S' + (if taken then 1 else 0) \<le> size S"
  proof (cases "bs_semantic_fingerprint block")
    case None
    with that step Cons.prems(1) show ?thesis by auto
  next
    case (Some semantic)
    have "taken \<longleftrightarrow> semantic \<in># S" "represents available (S - {#semantic#})"
      using take_one_represents [OF Cons.prems(1), of semantic] step Some by simp_all
    moreover have "semantic \<in># S \<Longrightarrow> Suc (size (S - {#semantic#})) = size S"
      by (simp add: size_Suc_Diff1)
    ultimately show ?thesis
      using that [of "S - {#semantic#}"] by (auto simp: diff_single_trivial)
  qed
  show ?case
  proof (cases taken)
    case True
    let ?m = "m\<lparr>sm_available := available, sm_changed := increment (sm_changed m),
      sm_remaining := saturating_sub (sm_remaining m) 1\<rparr>"
    have eq: "match_semantic (block # blocks) m = match_semantic blocks ?m"
      using step True by simp
    have "unat (sm_changed ?m) = Suc (unat (sm_changed m))"
      "unat (sm_remaining ?m) = unat (sm_remaining m) - 1"
      using Cons.prems(3) by (simp_all add: unat_increment unat_saturating_sub)
    moreover from this have "represents (sm_available ?m) S'" "size S' \<le> unat (sm_remaining ?m)"
      "unat (sm_changed ?m) + unat (sm_new ?m) + length blocks < 2 ^ 64"
      using Cons.prems S' True by simp_all
    note Cons.IH [OF this]
    moreover from this obtain n where "n \<le> length blocks" "n \<le> unat (sm_remaining ?m)"
      "unat (sm_changed (match_semantic blocks ?m)) = unat (sm_changed ?m) + n"
      "unat (sm_new (match_semantic blocks ?m)) = unat (sm_new ?m) + (length blocks - n)"
      "unat (sm_remaining (match_semantic blocks ?m)) = unat (sm_remaining ?m) - n"
      by blast
    ultimately show ?thesis
      unfolding eq using Cons.prems(2) S'(2) True by (intro exI [of _ "Suc n"]) auto
  next
    case False
    let ?m = "m\<lparr>sm_available := available, sm_new := increment (sm_new m),
      sm_tokens := token_total_push (sm_tokens m) (bs_estimated_tokens block)\<rparr>"
    have eq: "match_semantic (block # blocks) m = match_semantic blocks ?m"
      using step False by simp
    have "unat (sm_new ?m) = Suc (unat (sm_new m))"
      using Cons.prems(3) by (simp add: unat_increment)
    moreover from this have "represents (sm_available ?m) S'" "size S' \<le> unat (sm_remaining ?m)"
      "unat (sm_changed ?m) + unat (sm_new ?m) + length blocks < 2 ^ 64"
      using Cons.prems S' False by simp_all
    note Cons.IH [OF this]
    moreover from this obtain n where "n \<le> length blocks" "n \<le> unat (sm_remaining ?m)"
      "unat (sm_changed (match_semantic blocks ?m)) = unat (sm_changed ?m) + n"
      "unat (sm_new (match_semantic blocks ?m)) = unat (sm_new ?m) + (length blocks - n)"
      "unat (sm_remaining (match_semantic blocks ?m)) = unat (sm_remaining ?m) - n"
      by blast
    ultimately show ?thesis
      unfolding eq by (intro exI [of _ n]) auto
  qed
qed auto

lemma unmatched_semantics:
  assumes "represents preferred I" and "represents consumed C"
    and "image_mset fst I \<subseteq># C" and "C \<subseteq># exacts blocks" and "length blocks < 2 ^ 64"
    and "unmatched_previous_semantics blocks consumed preferred = (semantics, remaining)"
  shows "\<exists>S. represents semantics S \<and> size S \<le> unat remaining \<and>
    unat remaining + size C = length blocks"
proof -
  obtain flags consumed' where first: "consume_preferred blocks preferred consumed = (flags, consumed')"
    by force
  let ?T = "exacts (flagged True blocks flags)"
  have T: "length flags = length blocks" "?T \<subseteq># C" "represents consumed' (C - ?T)"
    using consume_preferred_consumes [OF first assms(1,2,3)] by simp_all
  have "C - ?T \<subseteq># exacts (flagged False blocks flags)"
    using assms(4) flagged_partition [OF T(1)] by (simp add: subset_eq_diff_conv add.commute)
  from consume_remaining_consumes [OF T(1,3) this]
  have second: "length (consume_remaining blocks flags consumed') = length blocks"
    "length (flagged True blocks (consume_remaining blocks flags consumed')) = size C"
    using size_Diff_submset [OF T(2)] size_mset_mono [OF T(2)] by simp_all
  show ?thesis
    using count_semantics_counts [OF second(1) represents_empty, of 0] flagged_length [OF second(1)]
      second(2) assms(5,6) first
    by (auto simp: unmatched_previous_semantics_def)
qed

section \<open>The exact prefix\<close>

abbreviation common_prefix :: "context_block_summary list \<Rightarrow> context_block_summary list \<Rightarrow> context_digest list" where
  "common_prefix previous current \<equiv>
     longest_common_prefix (map bs_exact_fingerprint previous) (map bs_exact_fingerprint current)"

lemma prefix_run_common:
  assumes "unat blocks + length previous < 2 ^ 64"
  shows "unat (fst (prefix_run previous current blocks tokens)) =
      unat blocks + length (common_prefix previous current)"
    and "\<not> snd (snd (prefix_run previous current blocks tokens)) \<and> length previous = length current
      \<longleftrightarrow> map bs_exact_fingerprint previous = map bs_exact_fingerprint current"
  using assms
  by (induction previous current blocks tokens rule: prefix_run.induct)
    (auto simp: unat_increment)

section \<open>The delta\<close>

text \<open>
  C33. A delta partitions both snapshots: the repeated blocks are the multiset intersection of the
  exact fingerprints, and repeated, changed and new blocks add up to the compared current blocks,
  repeated, changed and removed blocks to the compared previous ones. No block is counted twice
  and none is lost, whatever the semantic fingerprints are.
\<close>

theorem delta_partitions_blocks:
  assumes "length (dr_previous request) < 2 ^ 64" and "length (dr_current request) < 2 ^ 64"
  shows "let d = compute_context_delta request;
      previous = take (cl_max_blocks (dr_limits request)) (dr_previous request);
      current = take (cl_max_blocks (dr_limits request)) (dr_current request)
    in unat (cd_repeated_blocks d) = size (exacts previous \<inter># exacts current) \<and>
       unat (cd_repeated_blocks d) + unat (cd_changed_blocks d) + unat (cd_new_blocks d) = length current \<and>
       unat (cd_repeated_blocks d) + unat (cd_changed_blocks d) + unat (cd_removed_blocks d) = length previous \<and>
       unat (cd_compared_previous_blocks d) = length previous \<and>
       unat (cd_compared_current_blocks d) = length current"
proof -
  define previous where "previous = take (cl_max_blocks (dr_limits request)) (dr_previous request)"
  define current where "current = take (cl_max_blocks (dr_limits request)) (dr_current request)"
  have bounds: "length previous < 2 ^ 64" "length current < 2 ^ 64"
    using assms by (auto simp: previous_def current_def)
  have admitted: "admitted_blocks (dr_limits request) (dr_previous request) = previous"
    "admitted_blocks (dr_limits request) (dr_current request) = current"
    by (simp_all add: admitted_blocks_def previous_def current_def min_def)
  let ?start = "\<lparr>em_available = count_exact previous Map.empty, em_consumed = Map.empty,
    em_preferred = Map.empty, em_unmatched = [], em_repeated = 0, em_tokens = token_total_default\<rparr>"
  let ?m = "match_exact current ?start"
  let ?shared = "exacts previous \<inter># exacts current"
  have "matching (exacts previous) {#} ?start"
    using count_exact_represents [of Map.empty "{#}" previous] bounds
    by (auto simp: matching_def intro!: exI [of _ "{#}"])
  from match_exact_matches [OF this, of current] obtain u where u:
    "em_unmatched ?m = u" "size ?shared + length u = length current"
    and matched: "matching (exacts previous - exacts current) ?shared ?m"
    using bounds by auto
  from matched obtain I where I: "represents (em_preferred ?m) I" "image_mset fst I = ?shared"
    and consumed: "represents (em_consumed ?m) ?shared" and repeated: "unat (em_repeated ?m) = size ?shared"
    by (auto simp: matching_def)
  obtain semantics remaining where left: "unmatched_previous_semantics previous (em_consumed ?m)
      (em_preferred ?m) = (semantics, remaining)" by force
  have "\<exists>S. represents semantics S \<and> size S \<le> unat remaining \<and>
      unat remaining + size ?shared = length previous"
    using unmatched_semantics [OF I(1) consumed _ _ bounds(1) left] I(2) by simp
  then obtain S where S: "represents semantics S" "size S \<le> unat remaining"
    "unat remaining + size ?shared = length previous" by blast
  let ?s = "match_semantic u \<lparr>sm_available = semantics, sm_changed = 0, sm_new = 0,
    sm_tokens = token_total_default, sm_remaining = remaining\<rparr>"
  obtain n where n: "n \<le> length u" "n \<le> unat remaining" "unat (sm_changed ?s) = n"
    "unat (sm_new ?s) = length u - n" "unat (sm_remaining ?s) = unat remaining - n"
    using match_semantic_matches [of "\<lparr>sm_available = semantics, sm_changed = 0, sm_new = 0,
      sm_tokens = token_total_default, sm_remaining = remaining\<rparr>" S u] S u(2) bounds(2) by auto
  show ?thesis
    unfolding compute_context_delta_def admitted previous_def [symmetric] current_def [symmetric]
    using left u n S(3) repeated bounds
    by (simp add: compute_bounded_delta_def Let_def split_def unat_u64_of_len_or_max)
qed

definition sample_block :: context_block_summary where
  "sample_block = \<lparr>bs_exact_fingerprint = ContextDigest (Digest32 (replicate 32 0)),
     bs_semantic_fingerprint = None, bs_estimated_tokens = Some 5\<rparr>"

definition sample_request :: "nat context_delta_request" where
  "sample_request = \<lparr>dr_previous_snapshot_id = 1, dr_current_snapshot_id = 2,
     dr_previous = [sample_block], dr_current = [sample_block, sample_block],
     dr_previous_analysis_status = AnalysisComplete, dr_current_analysis_status = AnalysisComplete,
     dr_limits = \<lparr>cl_max_analyzed_bytes = 1, cl_max_blocks = 8,
       cl_max_json_depth = limit_from_non_zero 1, cl_max_string_bytes_inspected = 1,
       cl_max_analysis_work_units = limit_from_non_zero 1,
       cl_max_analysis_wall_time_ms = limit_from_non_zero 1, cl_max_batches = 1\<rparr>\<rparr>"

theorem delta_partitions_blocks_witness:
  "let d = compute_context_delta sample_request
   in unat (cd_repeated_blocks d) = 1 \<and> unat (cd_changed_blocks d) + unat (cd_new_blocks d) = 1 \<and>
      unat (cd_changed_blocks d) + unat (cd_removed_blocks d) = 0"
proof -
  have "length (dr_previous sample_request) < 2 ^ 64" "length (dr_current sample_request) < 2 ^ 64"
    by (simp_all add: sample_request_def)
  from delta_partitions_blocks [OF this] show ?thesis
    by (auto simp: sample_request_def Let_def)
qed

text \<open>
  The common prefix of a delta is the longest common prefix of the exact fingerprints of the
  compared blocks. It is withheld in one case only: a snapshot was cut short and the two compared
  prefixes agree throughout, so that the run may go on beyond the cut.
\<close>

theorem common_prefix_is_longest:
  assumes "length (dr_previous request) < 2 ^ 64"
  shows "let d = compute_context_delta request;
      previous = take (cl_max_blocks (dr_limits request)) (dr_previous request);
      current = take (cl_max_blocks (dr_limits request)) (dr_current request)
    in case cd_common_prefix_blocks d of
         None \<Rightarrow> cd_status d = DeltaResourceLimit \<and>
           map bs_exact_fingerprint previous = map bs_exact_fingerprint current
       | Some n \<Rightarrow> unat n = length (longest_common_prefix (map bs_exact_fingerprint previous)
             (map bs_exact_fingerprint current)) \<and>
           \<not> (cd_status d = DeltaResourceLimit \<and>
              map bs_exact_fingerprint previous = map bs_exact_fingerprint current)"
proof -
  define previous where "previous = take (cl_max_blocks (dr_limits request)) (dr_previous request)"
  define current where "current = take (cl_max_blocks (dr_limits request)) (dr_current request)"
  have admitted: "admitted_blocks (dr_limits request) (dr_previous request) = previous"
    "admitted_blocks (dr_limits request) (dr_current request) = current"
    by (simp_all add: admitted_blocks_def previous_def current_def min_def)
  have "unat (0 :: u64) + length previous < 2 ^ 64" using assms by (auto simp: previous_def)
  note run = prefix_run_common [OF this, of current token_total_default]
  show ?thesis
    unfolding compute_context_delta_def admitted previous_def [symmetric] current_def [symmetric]
    using run by (auto simp: compute_bounded_delta_def exact_prefix_def Let_def split_def)
qed

theorem common_prefix_is_longest_witness:
  "\<exists>n. cd_common_prefix_blocks (compute_context_delta sample_request) = Some n \<and> unat n = 1"
proof -
  have "length (dr_previous sample_request) < 2 ^ 64" by (simp add: sample_request_def)
  from common_prefix_is_longest [OF this] show ?thesis
    by (cases "cd_common_prefix_blocks (compute_context_delta sample_request)")
      (auto simp: sample_request_def Let_def)
qed

end
