(* ===== verification/Utf8.thy ===== *)
theory Utf8
  imports Text
begin

text \<open>
  The characters of a byte sequence, and how \<open>std::str::from_utf8\<close> fails on one: a sequence that
  is cut short at the end of the input (\<open>error_len\<close> is absent) is told apart from one that no
  further byte can repair. A character is the string of its bytes.
\<close>

section \<open>Decoding\<close>

definition utf8_width :: "char \<Rightarrow> nat" where
  "utf8_width a =
     (if byte a < 0x80 then 1
      else if 0xC2 \<le> byte a \<and> byte a \<le> 0xDF then 2
      else if 0xE0 \<le> byte a \<and> byte a \<le> 0xEF then 3
      else if 0xF0 \<le> byte a \<and> byte a \<le> 0xF4 then 4
      else 0)"

text \<open>The second byte: no overlong forms, no surrogates, nothing above \<open>U+10FFFF\<close>.\<close>

definition second_byte_ok :: "char \<Rightarrow> char \<Rightarrow> bool" where
  "second_byte_ok a b \<longleftrightarrow> continuation b \<and>
     (byte a = 0xE0 \<longrightarrow> 0xA0 \<le> byte b) \<and> (byte a = 0xED \<longrightarrow> byte b < 0xA0) \<and>
     (byte a = 0xF0 \<longrightarrow> 0x90 \<le> byte b) \<and> (byte a = 0xF4 \<longrightarrow> byte b < 0x90)"

datatype utf8_next = Whole string | CutShort | Broken

definition utf8_next :: "string \<Rightarrow> utf8_next" where
  "utf8_next s =
     (case s of
        [] \<Rightarrow> CutShort
      | a # s2 \<Rightarrow>
          if utf8_width a = 0 then Broken
          else if utf8_width a = 1 then Whole [a]
          else case s2 of
            [] \<Rightarrow> CutShort
          | b # s3 \<Rightarrow>
              if \<not> second_byte_ok a b then Broken
              else if utf8_width a = 2 then Whole [a, b]
              else case s3 of
                [] \<Rightarrow> CutShort
              | c # s4 \<Rightarrow>
                  if \<not> continuation c then Broken
                  else if utf8_width a = 3 then Whole [a, b, c]
                  else case s4 of
                    [] \<Rightarrow> CutShort
                  | d # _ \<Rightarrow> if continuation d then Whole [a, b, c, d] else Broken)"

lemma utf8_next_Whole:
  assumes "utf8_next s = Whole c"
  obtains rest where "s = c @ rest" "c \<noteq> []"
  using assms that
  by (auto simp: utf8_next_def split: list.splits if_splits)

lemma utf8_next_shrinks: "utf8_next s = Whole c \<Longrightarrow> length (drop (length c) s) < length s"
  by (elim utf8_next_Whole) simp

text \<open>The characters before the first error, and the bytes from there on.\<close>

function utf8_chars :: "string \<Rightarrow> string list" where
  "utf8_chars s =
     (case utf8_next s of
        Whole c \<Rightarrow> c # utf8_chars (drop (length c) s)
      | _ \<Rightarrow> [])"
  by pat_completeness auto

termination utf8_chars
  by (relation "measure length") (use utf8_next_shrinks in auto)

declare utf8_chars.simps [simp del]

definition utf8_valid_up_to :: "string \<Rightarrow> nat" where
  "utf8_valid_up_to s = length (concat (utf8_chars s))"

definition utf8_rest :: "string \<Rightarrow> string" where
  "utf8_rest s = drop (utf8_valid_up_to s) s"

text \<open>\<open>from_utf8(s)\<close> fails with an absent \<open>error_len\<close>.\<close>

definition utf8_cut_short :: "string \<Rightarrow> bool" where
  "utf8_cut_short s \<longleftrightarrow> utf8_rest s \<noteq> [] \<and> utf8_next (utf8_rest s) = CutShort"

section \<open>Facts\<close>

lemma utf8_chars_Nil [simp]: "utf8_chars [] = []"
  by (simp add: utf8_chars.simps utf8_next_def)

lemma utf8_chars_Whole: "utf8_next (c @ rest) = Whole c \<Longrightarrow> utf8_chars (c @ rest) = c # utf8_chars rest"
  by (simp add: utf8_chars.simps [of "c @ rest"])

lemma utf8_chars_stop: "(\<And>c. utf8_next s \<noteq> Whole c) \<Longrightarrow> utf8_chars s = []"
  by (simp add: utf8_chars.simps [of s] split: utf8_next.split)

lemma utf8_chars_prefix: "concat (utf8_chars s) @ utf8_rest s = s"
proof (induction s rule: utf8_chars.induct)
  case (1 s)
  show ?case
  proof (cases "utf8_next s")
    case (Whole c)
    then obtain rest where s: "s = c @ rest" by (rule utf8_next_Whole)
    with Whole have "utf8_chars s = c # utf8_chars rest" by (simp add: utf8_chars_Whole)
    then show ?thesis
      using 1 [OF Whole] s by (simp add: utf8_rest_def utf8_valid_up_to_def)
  qed (simp_all add: utf8_chars.simps [of s] utf8_rest_def utf8_valid_up_to_def)
qed

text \<open>What a step reads does not depend on what follows, once it is decided.\<close>

lemma utf8_next_simps:
  "utf8_next [] = CutShort"
  "utf8_next [a] = (if utf8_width a = 0 then Broken else if utf8_width a = 1 then Whole [a] else CutShort)"
  "utf8_next [a, b] =
     (if utf8_width a = 0 then Broken else if utf8_width a = 1 then Whole [a]
      else if \<not> second_byte_ok a b then Broken else if utf8_width a = 2 then Whole [a, b] else CutShort)"
  "utf8_next [a, b, c] =
     (if utf8_width a = 0 then Broken else if utf8_width a = 1 then Whole [a]
      else if \<not> second_byte_ok a b then Broken else if utf8_width a = 2 then Whole [a, b]
      else if \<not> continuation c then Broken else if utf8_width a = 3 then Whole [a, b, c] else CutShort)"
  "utf8_next (a # b # c # d # r) =
     (if utf8_width a = 0 then Broken else if utf8_width a = 1 then Whole [a]
      else if \<not> second_byte_ok a b then Broken else if utf8_width a = 2 then Whole [a, b]
      else if \<not> continuation c then Broken else if utf8_width a = 3 then Whole [a, b, c]
      else if continuation d then Whole [a, b, c, d] else Broken)"
  by (simp_all add: utf8_next_def)

lemma four_bytes:
  obtains "s = []" | a where "s = [a]" | a b where "s = [a, b]" | a b c where "s = [a, b, c]"
  | a b c d r where "s = a # b # c # d # r"
  by (cases s; cases "tl s"; cases "tl (tl s)"; cases "tl (tl (tl s))") auto

lemma utf8_next_append:
  assumes "utf8_next s \<noteq> CutShort"
  shows "utf8_next (s @ t) = utf8_next s"
proof (cases s rule: four_bytes)
  case (2 a)
  with assms show ?thesis
    by (cases t rule: four_bytes) (simp_all add: utf8_next_simps split: if_splits)
next
  case (3 a b)
  with assms show ?thesis
    by (cases t rule: four_bytes) (simp_all add: utf8_next_simps split: if_splits)
next
  case (4 a b c)
  with assms show ?thesis
    by (cases t rule: four_bytes) (simp_all add: utf8_next_simps split: if_splits)
qed (use assms in \<open>simp_all add: utf8_next_simps\<close>)

lemma utf8_ok_next:
  "utf8_ok s \<longleftrightarrow> (case utf8_next s of Whole c \<Rightarrow> utf8_ok (drop (length c) s) | _ \<Rightarrow> s = [])"
  by (cases s rule: four_bytes)
    (simp_all add: utf8_next_simps utf8_width_def second_byte_ok_def)

lemma utf8_ok_chars: "utf8_ok s \<longleftrightarrow> utf8_rest s = []"
proof (induction s rule: utf8_chars.induct)
  case (1 s)
  show ?case
  proof (cases "utf8_next s")
    case (Whole c)
    then obtain rest where s: "s = c @ rest" by (rule utf8_next_Whole)
    with Whole have "utf8_chars s = c # utf8_chars rest" by (simp add: utf8_chars_Whole)
    then show ?thesis
      using 1 [OF Whole] s Whole utf8_ok_next [of s] by (simp add: utf8_rest_def utf8_valid_up_to_def)
  qed (use utf8_ok_next [of s] in \<open>simp_all add: utf8_chars.simps [of s] utf8_rest_def utf8_valid_up_to_def\<close>)
qed

lemma utf8_chars_append:
  "utf8_rest s = [] \<Longrightarrow> utf8_chars (s @ t) = utf8_chars s @ utf8_chars t"
proof (induction s rule: utf8_chars.induct)
  case (1 s)
  show ?case
  proof (cases "utf8_next s")
    case (Whole c)
    then obtain rest where s: "s = c @ rest" by (rule utf8_next_Whole)
    with Whole have split: "utf8_chars s = c # utf8_chars rest" by (simp add: utf8_chars_Whole)
    have "utf8_next (s @ t) = Whole c" using Whole utf8_next_append [of s t] by simp
    then have "utf8_chars (s @ t) = c # utf8_chars (rest @ t)" using s by (simp add: utf8_chars_Whole)
    then show ?thesis
      using 1(1) [OF Whole] 1(2) s split by (simp add: utf8_rest_def utf8_valid_up_to_def)
  qed (use 1(2) in \<open>simp_all add: utf8_chars.simps [of s] utf8_rest_def utf8_valid_up_to_def\<close>)
qed

lemma utf8_chars_append_prefix: "prefix (utf8_chars s) (utf8_chars (s @ t))"
proof (induction s rule: utf8_chars.induct)
  case (1 s)
  show ?case
  proof (cases "utf8_next s")
    case (Whole c)
    then obtain rest where s: "s = c @ rest" by (rule utf8_next_Whole)
    with Whole have split: "utf8_chars s = c # utf8_chars rest" by (simp add: utf8_chars_Whole)
    have "utf8_next (s @ t) = Whole c" using Whole utf8_next_append [of s t] by simp
    then have "utf8_chars (s @ t) = c # utf8_chars (rest @ t)" using s by (simp add: utf8_chars_Whole)
    then show ?thesis using 1 [OF Whole] s split by simp
  qed (simp_all add: utf8_chars.simps [of s])
qed

text \<open>A character is decided by its own bytes.\<close>

lemma utf8_next_own: "utf8_next s = Whole c \<Longrightarrow> utf8_next (c @ t) = Whole c"
proof -
  assume whole: "utf8_next s = Whole c"
  then have "utf8_next c = Whole c"
    by (cases s rule: four_bytes) (auto simp: utf8_next_simps split: if_splits)
  then show ?thesis using utf8_next_append [of c t] by simp
qed

lemma utf8_chars_take: "utf8_rest (concat (take k (utf8_chars s))) = []"
proof (induction s arbitrary: k rule: utf8_chars.induct)
  case (1 s)
  show ?case
  proof (cases "utf8_next s")
    case (Whole c)
    then obtain rest where s: "s = c @ rest" by (rule utf8_next_Whole)
    with Whole have split: "utf8_chars s = c # utf8_chars rest" by (simp add: utf8_chars_Whole)
    show ?thesis
    proof (cases k)
      case (Suc j)
      let ?t = "concat (take j (utf8_chars rest))"
      have "utf8_chars (c @ ?t) = c # utf8_chars ?t"
        by (rule utf8_chars_Whole) (rule utf8_next_own [OF Whole])
      then show ?thesis
        using Suc split 1 [OF Whole, of j] s by (simp add: utf8_rest_def utf8_valid_up_to_def)
    qed (simp add: utf8_rest_def)
  qed (simp_all add: utf8_chars.simps [of s] utf8_rest_def)
qed

lemma utf8_chars_ascii: "list_all (\<lambda>c. byte c < 0x80) s \<Longrightarrow> utf8_chars s = map (\<lambda>c. [c]) s"
proof (induction s)
  case (Cons c s)
  then have "utf8_next ([c] @ s) = Whole [c]" by (simp add: utf8_next_def utf8_width_def)
  from utf8_chars_Whole [OF this] Cons show ?case by simp
qed simp

end
