(* ===== verification/Context_Estimator.thy ===== *)
theory Context_Estimator
  imports Context_Limits Utf8
begin

text \<open>
  \<open>crates/tracepress-context/src\<close>: \<open>metadata.rs\<close> and \<open>estimator.rs\<close>: bounded metadata text, the
  structural token heuristic and the aggregation of estimates. Text is the list of its
  characters, each the string of its bytes.
\<close>

section \<open>Bounded metadata text\<close>

record bounded_metadata_text =
  mt_value :: string
  mt_original_bytes :: u64
  mt_full_value_hash :: "context_digest option"

definition SEMANTIC_PATH_MAX_BYTES :: nat where "SEMANTIC_PATH_MAX_BYTES = 256"
definition TOOL_NAME_MAX_BYTES :: nat where "TOOL_NAME_MAX_BYTES = 128"
definition ESTIMATOR_IDENTITY_MAX_BYTES :: nat where "ESTIMATOR_IDENTITY_MAX_BYTES = 64"
definition METADATA_MAX_BYTES :: nat where "METADATA_MAX_BYTES = SEMANTIC_PATH_MAX_BYTES"

datatype metadata_text_error =
    AboveBound u64 nat
  | OriginalShorterThanRetained u64 u64
  | TruncationDigestMismatch bool bool

fun retain_chars :: "nat \<Rightarrow> string \<Rightarrow> string list \<Rightarrow> string" where
  "retain_chars maximum retained [] = retained"
| "retain_chars maximum retained (c # chars) =
     (if usize_saturating_add (length retained) (length c) > maximum then retained
      else retain_chars maximum (retained @ c) chars)"

text \<open>\<open>digest\<close> is \<open>ContextDigest::from_bytes\<close>.\<close>

definition metadata_bounded ::
  "(string \<Rightarrow> context_digest) \<Rightarrow> string \<Rightarrow> nat \<Rightarrow> bounded_metadata_text" where
  "metadata_bounded digest text maximum =
     (let original = u64_of_len_or_max (length text)
      in if length text \<le> maximum
         then \<lparr>mt_value = text, mt_original_bytes = original, mt_full_value_hash = None\<rparr>
         else \<lparr>mt_value = retain_chars maximum [] (utf8_chars text), mt_original_bytes = original,
               mt_full_value_hash = Some (digest text)\<rparr>)"

definition semantic_path :: "(string \<Rightarrow> context_digest) \<Rightarrow> string \<Rightarrow> bounded_metadata_text" where
  "semantic_path digest text = metadata_bounded digest text SEMANTIC_PATH_MAX_BYTES"

definition tool_name :: "(string \<Rightarrow> context_digest) \<Rightarrow> string \<Rightarrow> bounded_metadata_text" where
  "tool_name digest text = metadata_bounded digest text TOOL_NAME_MAX_BYTES"

definition estimator_identity :: "(string \<Rightarrow> context_digest) \<Rightarrow> string \<Rightarrow> bounded_metadata_text" where
  "estimator_identity digest text = metadata_bounded digest text ESTIMATOR_IDENTITY_MAX_BYTES"

definition metadata_validated ::
  "bounded_metadata_text \<Rightarrow> (bounded_metadata_text, metadata_text_error) result" where
  "metadata_validated transported =
     (let retained = u64_of_len_or_max (length (mt_value transported))
      in if length (mt_value transported) > METADATA_MAX_BYTES
         then Err (AboveBound retained METADATA_MAX_BYTES)
         else if mt_original_bytes transported < retained
         then Err (OriginalShorterThanRetained retained (mt_original_bytes transported))
         else let truncated = (mt_original_bytes transported > retained)
           in if truncated \<noteq> (mt_full_value_hash transported \<noteq> None)
              then Err (TruncationDigestMismatch truncated (mt_full_value_hash transported \<noteq> None))
              else Ok transported)"

section \<open>Estimates\<close>

datatype estimate_confidence = ModelMapped | GenericTokenizer | Heuristic

record token_estimate =
  te_tokens :: u64
  te_estimator :: bounded_metadata_text
  te_estimator_version :: u32
  te_encoding :: "bounded_metadata_text option"
  te_confidence :: estimate_confidence

datatype estimate_unavailable = Undecodable | BinaryLike

datatype token_estimation =
    EstimateComplete token_estimate
  | EstimateBounded token_estimate u64 u64
  | EstimateUnavailable estimate_unavailable

fun estimation_estimate :: "token_estimation \<Rightarrow> token_estimate option" where
  "estimation_estimate (EstimateComplete e) = Some e"
| "estimation_estimate (EstimateBounded e inspected skipped) = Some e"
| "estimation_estimate (EstimateUnavailable reason) = None"

definition estimation_tokens :: "token_estimation \<Rightarrow> u64 option" where
  "estimation_tokens estimation = map_option te_tokens (estimation_estimate estimation)"

fun estimation_is_complete :: "token_estimation \<Rightarrow> bool" where
  "estimation_is_complete (EstimateComplete e) = True"
| "estimation_is_complete _ = False"

fun estimation_skipped_bytes :: "token_estimation \<Rightarrow> u64" where
  "estimation_skipped_bytes (EstimateBounded e inspected skipped) = skipped"
| "estimation_skipped_bytes _ = 0"

section \<open>The structural heuristic\<close>

definition WORD_CHARS_PER_TOKEN :: u64 where "WORD_CHARS_PER_TOKEN = 4"
definition SPACES_PER_TOKEN :: u64 where "SPACES_PER_TOKEN = 4"
definition NON_ASCII_BYTES_PER_TOKEN :: u64 where "NON_ASCII_BYTES_PER_TOKEN = 2"
definition CONTROL_SHARE_DIVISOR :: u64 where "CONTROL_SHARE_DIVISOR = 16"

definition ESTIMATOR_NAME :: string where "ESTIMATOR_NAME = ''structural-heuristic''"
definition ESTIMATOR_VERSION :: u32 where "ESTIMATOR_VERSION = 1"

record admitted_text =
  at_inspected :: "string list"
  at_inspected_bytes :: u64
  at_skipped_bytes :: u64

definition saturating_difference :: "u64 \<Rightarrow> u64 \<Rightarrow> u64" where
  "saturating_difference x y = (if y \<le> x then x - y else 0)"

text \<open>The inspected text is kept as its characters.\<close>

definition admitted_text :: "string \<Rightarrow> context_analysis_limits \<Rightarrow> admitted_text option" where
  "admitted_text content limits =
     (let bound = cl_max_analyzed_bytes limits;
          (prefix, bounded) =
            (if bound \<le> length content then (take bound content, True) else (content, False))
      in if \<not> utf8_ok prefix \<and> \<not> (bounded \<and> utf8_cut_short prefix) then None
         else let inspected = u64_of_len_or_max (utf8_valid_up_to prefix)
           in Some \<lparr>at_inspected = utf8_chars prefix, at_inspected_bytes = inspected,
                at_skipped_bytes =
                  saturating_difference (u64_of_len_or_max (length content)) inspected\<rparr>)"

text \<open>\<open>char::is_control\<close>: the code points below \<open>U+0020\<close> and from \<open>U+007F\<close> to \<open>U+009F\<close>.\<close>

definition is_control :: "string \<Rightarrow> bool" where
  "is_control c =
     (case c of
        [a] \<Rightarrow> byte a < 0x20 \<or> byte a = 0x7F
      | [a, b] \<Rightarrow> byte a = 0xC2 \<and> byte b < 0xA0
      | _ \<Rightarrow> False)"

datatype char_class = WordChar | SpaceChar | BreakChar | SymbolChar | NonAsciiChar

definition classify :: "string \<Rightarrow> char_class" where
  "classify c =
     (case c of
        [a] \<Rightarrow>
          if is_ascii_alphanumeric a \<or> a = CHR ''_'' then WordChar
          else if a = CHR '' '' \<or> a = CHR 0x09 then SpaceChar
          else if byte a < 0x20 \<or> byte a = 0x7F then BreakChar
          else SymbolChar
      | _ \<Rightarrow> NonAsciiChar)"

record text_scan =
  ts_tokens :: u64
  ts_characters :: u64
  ts_control_characters :: u64
  ts_has_nul :: bool
  ts_word_run :: u64
  ts_space_run :: u64

definition is_binary_like :: "text_scan \<Rightarrow> bool" where
  "is_binary_like scan \<longleftrightarrow> ts_has_nul scan \<or>
     saturating_mul (ts_control_characters scan) CONTROL_SHARE_DIVISOR > ts_characters scan"

definition div_ceil :: "u64 \<Rightarrow> u64 \<Rightarrow> u64" where
  "div_ceil x y = (if x mod y = 0 then x div y else x div y + 1)"

definition flush_word :: "text_scan \<Rightarrow> text_scan" where
  "flush_word scan =
     (let run = ts_word_run scan; scan = scan\<lparr>ts_word_run := 0\<rparr>
      in if run = 0 then scan
         else scan\<lparr>ts_tokens := saturating_add (ts_tokens scan) (div_ceil run WORD_CHARS_PER_TOKEN)\<rparr>)"

definition flush_spaces :: "text_scan \<Rightarrow> text_scan" where
  "flush_spaces scan =
     (let run = ts_space_run scan; scan = scan\<lparr>ts_space_run := 0\<rparr>
      in scan\<lparr>ts_tokens := saturating_add (ts_tokens scan)
           (case checked_div run SPACES_PER_TOKEN of Some n \<Rightarrow> n | None \<Rightarrow> 0)\<rparr>)"

definition note_character :: "string \<Rightarrow> text_scan \<Rightarrow> text_scan" where
  "note_character c scan =
     (let scan = scan\<lparr>ts_characters := saturating_add (ts_characters scan) 1\<rparr>;
          scan = (if c = [CHR 0x00] then scan\<lparr>ts_has_nul := True\<rparr> else scan)
      in if is_control c \<and> c \<notin> {[CHR 0x09], [CHR 0x0A], [CHR 0x0D]}
         then scan\<lparr>ts_control_characters := saturating_add (ts_control_characters scan) 1\<rparr>
         else scan)"

definition charge_character :: "string \<Rightarrow> text_scan \<Rightarrow> text_scan" where
  "charge_character c scan =
     (case classify c of
        WordChar \<Rightarrow>
          (let scan = flush_spaces scan
           in scan\<lparr>ts_word_run := saturating_add (ts_word_run scan) 1\<rparr>)
      | SpaceChar \<Rightarrow>
          (let scan = flush_word scan
           in scan\<lparr>ts_space_run := saturating_add (ts_space_run scan) 1\<rparr>)
      | NonAsciiChar \<Rightarrow>
          (let scan = flush_spaces (flush_word scan)
           in scan\<lparr>ts_tokens := saturating_add (ts_tokens scan)
                (div_ceil (u64_of_len_or_max (length c)) NON_ASCII_BYTES_PER_TOKEN)\<rparr>)
      | _ \<Rightarrow>
          (let scan = flush_spaces (flush_word scan)
           in scan\<lparr>ts_tokens := saturating_add (ts_tokens scan) 1\<rparr>))"

fun scan_chars :: "string list \<Rightarrow> text_scan \<Rightarrow> text_scan" where
  "scan_chars [] scan = scan"
| "scan_chars (c # chars) scan = scan_chars chars (charge_character c (note_character c scan))"

definition scan_text :: "string list \<Rightarrow> text_scan" where
  "scan_text chars = flush_spaces (flush_word (scan_chars chars
     \<lparr>ts_tokens = 0, ts_characters = 0, ts_control_characters = 0, ts_has_nul = False,
      ts_word_run = 0, ts_space_run = 0\<rparr>))"

definition estimate_of :: "(string \<Rightarrow> context_digest) \<Rightarrow> u64 \<Rightarrow> token_estimate" where
  "estimate_of digest tokens =
     \<lparr>te_tokens = tokens, te_estimator = estimator_identity digest ESTIMATOR_NAME,
      te_estimator_version = ESTIMATOR_VERSION, te_encoding = None, te_confidence = Heuristic\<rparr>"

definition estimate_content ::
  "(string \<Rightarrow> context_digest) \<Rightarrow> string \<Rightarrow> context_analysis_limits \<Rightarrow> token_estimation" where
  "estimate_content digest content limits =
     (case admitted_text content limits of
        None \<Rightarrow> EstimateUnavailable Undecodable
      | Some text \<Rightarrow>
          let scan = scan_text (at_inspected text)
          in if is_binary_like scan then EstimateUnavailable BinaryLike
             else let e = estimate_of digest (ts_tokens scan)
               in if at_skipped_bytes text = 0 then EstimateComplete e
                  else EstimateBounded e (at_inspected_bytes text) (at_skipped_bytes text))"

section \<open>Aggregation\<close>

record token_estimate_aggregate =
  ag_observed_blocks :: u64
  ag_estimated_blocks :: u64
  ag_bounded_blocks :: u64
  ag_subtotal :: u64
  ag_skipped_bytes :: u64
  ag_saturated :: bool
  ag_estimator :: "bounded_metadata_text option"
  ag_estimator_version :: "u32 option"
  ag_mixed_estimators :: bool

definition aggregate_new :: token_estimate_aggregate where
  "aggregate_new =
     \<lparr>ag_observed_blocks = 0, ag_estimated_blocks = 0, ag_bounded_blocks = 0, ag_subtotal = 0,
      ag_skipped_bytes = 0, ag_saturated = False, ag_estimator = None, ag_estimator_version = None,
      ag_mixed_estimators = False\<rparr>"

definition record_identity ::
  "token_estimate \<Rightarrow> token_estimate_aggregate \<Rightarrow> token_estimate_aggregate" where
  "record_identity e ag =
     (case ag_estimator ag of
        None \<Rightarrow> ag\<lparr>ag_estimator := Some (te_estimator e),
                  ag_estimator_version := Some (te_estimator_version e)\<rparr>
      | Some known \<Rightarrow>
          if known \<noteq> te_estimator e \<or> ag_estimator_version ag \<noteq> Some (te_estimator_version e)
          then ag\<lparr>ag_mixed_estimators := True\<rparr> else ag)"

definition observe_estimate ::
  "token_estimate option \<Rightarrow> token_estimate_aggregate \<Rightarrow> token_estimate_aggregate" where
  "observe_estimate est ag =
     (let ag = ag\<lparr>ag_observed_blocks := saturating_add (ag_observed_blocks ag) 1\<rparr>
      in case est of
           None \<Rightarrow> ag
         | Some e \<Rightarrow>
             let ag = ag\<lparr>ag_estimated_blocks := saturating_add (ag_estimated_blocks ag) 1\<rparr>;
                 ag = (case checked_add (ag_subtotal ag) (te_tokens e) of
                     Some subtotal \<Rightarrow> ag\<lparr>ag_subtotal := subtotal\<rparr>
                   | None \<Rightarrow> ag\<lparr>ag_subtotal := - 1, ag_saturated := True\<rparr>)
             in record_identity e ag)"

definition observe_estimation ::
  "token_estimation \<Rightarrow> token_estimate_aggregate \<Rightarrow> token_estimate_aggregate" where
  "observe_estimation estimation ag =
     (let ag = observe_estimate (estimation_estimate estimation) ag;
          ag = (if \<not> estimation_is_complete estimation \<and> estimation_estimate estimation \<noteq> None
            then ag\<lparr>ag_bounded_blocks := saturating_add (ag_bounded_blocks ag) 1\<rparr> else ag)
      in ag\<lparr>ag_skipped_bytes :=
           saturating_add (ag_skipped_bytes ag) (estimation_skipped_bytes estimation)\<rparr>)"

definition aggregate_is_complete :: "token_estimate_aggregate \<Rightarrow> bool" where
  "aggregate_is_complete ag \<longleftrightarrow>
     \<not> ag_saturated ag \<and> ag_observed_blocks ag = ag_estimated_blocks ag"

definition complete_total :: "token_estimate_aggregate \<Rightarrow> u64 option" where
  "complete_total ag = (if aggregate_is_complete ag then Some (ag_subtotal ag) else None)"

definition unestimated_blocks :: "token_estimate_aggregate \<Rightarrow> u64" where
  "unestimated_blocks ag = saturating_difference (ag_observed_blocks ag) (ag_estimated_blocks ag)"

definition aggregate_estimator :: "token_estimate_aggregate \<Rightarrow> bounded_metadata_text option" where
  "aggregate_estimator ag = (if ag_mixed_estimators ag then None else ag_estimator ag)"

definition aggregate_estimator_version :: "token_estimate_aggregate \<Rightarrow> u32 option" where
  "aggregate_estimator_version ag = (if ag_mixed_estimators ag then None else ag_estimator_version ag)"

section \<open>Metadata text is bounded\<close>

lemma retain_chars_longest:
  assumes "length (concat chars) + length retained < usize_limit" and "length retained \<le> maximum"
  shows "\<exists>k. retain_chars maximum retained chars = retained @ concat (take k chars) \<and>
    length (retain_chars maximum retained chars) \<le> maximum \<and>
    (\<forall>j. length (retained @ concat (take j chars)) \<le> maximum \<longrightarrow>
       length (retained @ concat (take j chars)) \<le> length (retain_chars maximum retained chars))"
  using assms
proof (induction chars arbitrary: retained)
  case Nil
  then show ?case by (intro exI [of _ 0]) simp
next
  case (Cons c chars)
  have exact: "usize_saturating_add (length retained) (length c) = length retained + length c"
    using Cons.prems(1) by (simp add: usize_saturating_add_def)
  show ?case
  proof (cases "length retained + length c > maximum")
    case True
    then have "length (retained @ concat (take j (c # chars))) \<le> maximum \<Longrightarrow>
        length (retained @ concat (take j (c # chars))) \<le> length retained" for j
      by (cases j) auto
    with True exact Cons.prems(2) show ?thesis by (intro exI [of _ 0]) simp
  next
    case False
    then obtain k where k: "retain_chars maximum (retained @ c) chars = (retained @ c) @ concat (take k chars)"
      "length (retain_chars maximum (retained @ c) chars) \<le> maximum"
      "\<forall>j. length ((retained @ c) @ concat (take j chars)) \<le> maximum \<longrightarrow>
        length ((retained @ c) @ concat (take j chars)) \<le> length (retain_chars maximum (retained @ c) chars)"
      using Cons.IH [of "retained @ c"] Cons.prems by auto
    have "length (retained @ concat (take j (c # chars))) \<le> maximum \<Longrightarrow>
        length (retained @ concat (take j (c # chars))) \<le> length (retain_chars maximum (retained @ c) chars)" for j
      using k(1,3) by (cases j) auto
    with False exact k(1,2) show ?thesis by (intro exI [of _ "Suc k"]) auto
  qed
qed

text \<open>
  Bounded metadata text keeps the longest prefix of whole characters that fits its bound,
  carries a digest of the full value exactly when something was cut, and is accepted unchanged by
  the validation of transported values.
\<close>

theorem metadata_keeps_longest_prefix:
  assumes "utf8_ok text" and "length text < 2 ^ 64" and "maximum \<le> METADATA_MAX_BYTES"
  shows "let m = metadata_bounded digest text maximum
    in prefix (mt_value m) text \<and> utf8_ok (mt_value m) \<and> length (mt_value m) \<le> maximum \<and>
       (\<forall>k. length (concat (take k (utf8_chars text))) \<le> maximum \<longrightarrow>
          length (concat (take k (utf8_chars text))) \<le> length (mt_value m)) \<and>
       mt_full_value_hash m = (if mt_value m = text then None else Some (digest text)) \<and>
       metadata_validated m = Ok m"
proof (cases "length text \<le> maximum")
  case True
  have "length (concat (take k (utf8_chars text))) \<le> length text" for k
  proof -
    have "length (concat (utf8_chars text)) = length text"
      using utf8_chars_prefix [of "text"] assms(1) utf8_ok_chars [of "text"] by simp
    moreover have "length (concat (take k (utf8_chars text))) \<le> length (concat (utf8_chars text))"
      by (metis append_take_drop_id concat_append le_add1 length_append)
    ultimately show ?thesis by simp
  qed
  with True assms show ?thesis
    by (simp add: metadata_bounded_def metadata_validated_def Let_def)
next
  case False
  have whole: "concat (utf8_chars text) = text"
    using utf8_chars_prefix [of "text"] assms(1) utf8_ok_chars [of "text"] by simp
  let ?kept = "retain_chars maximum [] (utf8_chars text)"
  obtain k where k: "?kept = concat (take k (utf8_chars text))" "length ?kept \<le> maximum"
    "\<forall>j. length (concat (take j (utf8_chars text))) \<le> maximum \<longrightarrow>
      length (concat (take j (utf8_chars text))) \<le> length ?kept"
    using retain_chars_longest [of "utf8_chars text" "[]" maximum] assms(2)
    by (auto simp: whole usize_limit_def)
  have "prefix ?kept text"
    by (metis whole k(1) append_take_drop_id concat_append prefixI)
  moreover have "utf8_ok ?kept" unfolding k(1) utf8_ok_chars by (rule utf8_chars_take)
  moreover have "u64_of_len_or_max (length ?kept) < u64_of_len_or_max (length text)"
    using False k(2) assms(2) by (simp add: word_less_nat_alt unat_u64_of_len_or_max)
  ultimately show ?thesis
    using False k(2,3) assms(3)
    by (auto simp: metadata_bounded_def metadata_validated_def Let_def)
qed

definition sample_digest :: "string \<Rightarrow> context_digest" where
  "sample_digest bytes = ContextDigest (Digest32 (replicate 32 0))"

theorem metadata_keeps_longest_prefix_witness:
  "let m = metadata_bounded sample_digest ''abc'' 2
   in prefix (mt_value m) ''abc'' \<and> length (mt_value m) \<le> 2 \<and> metadata_validated m = Ok m"
proof -
  have "utf8_ok ''abc''" "length ''abc'' < 2 ^ 64" "(2 :: nat) \<le> METADATA_MAX_BYTES"
    by (simp_all add: byte_def METADATA_MAX_BYTES_def SEMANTIC_PATH_MAX_BYTES_def)
  from metadata_keeps_longest_prefix [OF this, of sample_digest] show ?thesis
    by (simp add: Let_def)
qed

section \<open>Estimates are monotone\<close>

definition charge :: "text_scan \<Rightarrow> nat" where
  "charge scan = min (2 ^ 64 - 1)
     (unat (ts_tokens scan) + (unat (ts_word_run scan) + 3) div 4 + unat (ts_space_run scan) div 4)"

lemma unat_word_top: "unat n \<le> 18446744073709551615" for n :: u64
  using word_order.extremum [of n]
  by (simp add: word_le_nat_alt unsigned_minus_1_eq_mask mask_eq_exp_minus_1)

lemma unat_div_ceil4: "unat (div_ceil x 4) = (unat x + 3) div 4" for x :: u64
proof -
  have "Suc (unat x div 4) < 18446744073709551616" using unat_word_top [of x] by linarith
  then have "unat (x div 4 + 1) = unat x div 4 + 1"
    by (simp add: unat_word_ariths unat_div)
  moreover have "x mod 4 = 0 \<longleftrightarrow> unat x mod 4 = 0"
    by (simp add: word_unat_eq_iff unat_mod)
  ultimately show ?thesis
    by (auto simp: div_ceil_def unat_div) presburger+
qed

lemma flush_tokens:
  "unat (ts_tokens (flush_word scan)) = min (2 ^ 64 - 1) (unat (ts_tokens scan) + (unat (ts_word_run scan) + 3) div 4)"
  "unat (ts_tokens (flush_spaces scan)) = min (2 ^ 64 - 1) (unat (ts_tokens scan) + unat (ts_space_run scan) div 4)"
proof -
  have "min (2 ^ 64 - 1) (unat (ts_tokens scan)) = unat (ts_tokens scan)"
    using word_order.extremum [of "ts_tokens scan"]
    by (simp add: word_le_nat_alt unsigned_minus_1_eq_mask mask_eq_exp_minus_1)
  then show "unat (ts_tokens (flush_word scan)) = min (2 ^ 64 - 1) (unat (ts_tokens scan) + (unat (ts_word_run scan) + 3) div 4)"
    by (simp add: flush_word_def Let_def unat_saturating_add unat_div_ceil4 WORD_CHARS_PER_TOKEN_def min.commute)
  show "unat (ts_tokens (flush_spaces scan)) = min (2 ^ 64 - 1) (unat (ts_tokens scan) + unat (ts_space_run scan) div 4)"
    by (simp add: flush_spaces_def Let_def unat_saturating_add SPACES_PER_TOKEN_def checked_div_def
        unat_div min.commute)
qed

lemma flush_runs [simp]:
  "ts_word_run (flush_word scan) = 0" "ts_space_run (flush_word scan) = ts_space_run scan"
  "ts_space_run (flush_spaces scan) = 0" "ts_word_run (flush_spaces scan) = ts_word_run scan"
  by (simp_all add: flush_word_def flush_spaces_def Let_def)

lemma charge_flushed: "unat (ts_tokens (flush_spaces (flush_word scan))) = charge scan"
  by (simp add: flush_tokens charge_def min_def)

lemma note_character_charge [simp]: "charge (note_character c scan) = charge scan"
  by (simp add: note_character_def charge_def Let_def)

lemma charge_character_grows: "charge scan \<le> charge (charge_character c scan)"
proof (cases "classify c")
  case WordChar
  then show ?thesis
    using unat_word_top [of "ts_word_run scan"]
    by (simp add: charge_character_def charge_def flush_tokens unat_saturating_add Let_def min_def) linarith
next
  case SpaceChar
  then show ?thesis
    using unat_word_top [of "ts_space_run scan"]
    by (simp add: charge_character_def charge_def flush_tokens unat_saturating_add Let_def min_def) linarith
qed (simp_all add: charge_character_def charge_def flush_tokens unat_saturating_add Let_def min_def)

lemma scan_chars_grows: "charge scan \<le> charge (scan_chars chars scan)"
  by (induction chars scan rule: scan_chars.induct)
    (auto intro: order_trans [OF charge_character_grows [of "note_character _ _", simplified]])

lemma scan_chars_append: "scan_chars (xs @ ys) scan = scan_chars ys (scan_chars xs scan)"
  by (induction xs arbitrary: scan) simp_all

lemma scan_text_monotone: "prefix xs ys \<Longrightarrow> unat (ts_tokens (scan_text xs)) \<le> unat (ts_tokens (scan_text ys))"
  by (auto simp: scan_text_def charge_flushed scan_chars_append scan_chars_grows elim!: prefixE)

lemma admitted_text_grows:
  assumes "admitted_text content limits = Some t" and "admitted_text (content @ appended) limits = Some t'"
  shows "prefix (at_inspected t) (at_inspected t')"
proof (cases "cl_max_analyzed_bytes limits \<le> length content")
  case True
  with assms show ?thesis
    by (auto simp: admitted_text_def Let_def split: if_splits)
next
  case False
  then have "at_inspected t = utf8_chars content"
    using assms(1) by (auto simp: admitted_text_def Let_def split: if_splits)
  moreover have "\<exists>tail. at_inspected t' = utf8_chars (content @ tail)"
    using assms(2) False by (auto simp: admitted_text_def Let_def split: if_splits)
  ultimately show ?thesis using utf8_chars_append_prefix by metis
qed

lemma estimation_tokens_scan:
  "estimation_tokens (estimate_content digest content limits) = Some n \<Longrightarrow>
    \<exists>t. admitted_text content limits = Some t \<and> n = ts_tokens (scan_text (at_inspected t))"
  by (auto simp: estimate_content_def estimation_tokens_def estimate_of_def Let_def
      split: option.splits if_splits)

text \<open>
  Appending bytes never lowers a token estimate: whenever content and a continuation of it
  both have an estimate, the continuation's is at least as large, whatever the bound cuts off and
  however the bytes fall into characters.
\<close>

theorem estimate_is_monotone:
  assumes "estimation_tokens (estimate_content digest content limits) = Some n"
    and "estimation_tokens (estimate_content digest (content @ appended) limits) = Some n'"
  shows "n \<le> n'"
proof -
  obtain t where t: "admitted_text content limits = Some t" "n = ts_tokens (scan_text (at_inspected t))"
    using estimation_tokens_scan [OF assms(1)] by blast
  obtain t' where t': "admitted_text (content @ appended) limits = Some t'"
    "n' = ts_tokens (scan_text (at_inspected t'))"
    using estimation_tokens_scan [OF assms(2)] by blast
  show ?thesis
    using scan_text_monotone [OF admitted_text_grows [OF t(1) t'(1)]] t(2) t'(2)
    by (simp add: word_le_nat_alt)
qed

definition sample_limits :: context_analysis_limits where
  "sample_limits = \<lparr>cl_max_analyzed_bytes = 8, cl_max_blocks = 8,
     cl_max_json_depth = limit_from_non_zero 1, cl_max_string_bytes_inspected = 1,
     cl_max_analysis_work_units = limit_from_non_zero 1,
     cl_max_analysis_wall_time_ms = limit_from_non_zero 1, cl_max_batches = 1\<rparr>"

lemmas estimator_evaluation = estimation_tokens_def estimate_content_def admitted_text_def
  sample_limits_def utf8_chars_ascii scan_text_def note_character_def charge_character_def classify_def
  is_control_def is_ascii_alphanumeric_def is_ascii_digit_def byte_def flush_word_def flush_spaces_def
  is_binary_like_def saturating_mul_def CONTROL_SHARE_DIVISOR_def saturating_add_def Let_def
  saturating_difference_def utf8_valid_up_to_def u64_of_len_or_max_def

theorem estimate_is_monotone_witness:
  "\<exists>n n'. estimation_tokens (estimate_content sample_digest ''ab'' sample_limits) = Some n \<and>
     estimation_tokens (estimate_content sample_digest (''ab'' @ ''c d'') sample_limits) = Some n' \<and>
     n \<le> n'"
proof -
  have "\<exists>n. estimation_tokens (estimate_content sample_digest ''ab'' sample_limits) = Some n"
    "\<exists>n. estimation_tokens (estimate_content sample_digest (''ab'' @ ''c d'') sample_limits) = Some n"
    by (simp_all add: estimator_evaluation)
  then show ?thesis
    using estimate_is_monotone by blast
qed

section \<open>Aggregates never invent a total\<close>

definition estimates :: "token_estimation list \<Rightarrow> token_estimate list" where
  "estimates es = List.map_filter estimation_estimate es"

definition observe_all :: "token_estimation list \<Rightarrow> token_estimate_aggregate" where
  "observe_all es = fold observe_estimation es aggregate_new"

definition tallies :: "token_estimation list \<Rightarrow> token_estimate_aggregate \<Rightarrow> bool" where
  "tallies es ag \<longleftrightarrow>
     unat (ag_observed_blocks ag) = length es \<and> unat (ag_estimated_blocks ag) = length (estimates es) \<and>
     (let n = (\<Sum>e\<leftarrow>estimates es. unat (te_tokens e))
      in (ag_saturated ag \<longleftrightarrow> \<not> n < 2 ^ 64) \<and>
         unat (ag_subtotal ag) = min n (2 ^ 64 - 1))"

lemma record_identity_keeps [simp]:
  "ag_observed_blocks (record_identity e ag) = ag_observed_blocks ag"
  "ag_estimated_blocks (record_identity e ag) = ag_estimated_blocks ag"
  "ag_subtotal (record_identity e ag) = ag_subtotal ag"
  "ag_saturated (record_identity e ag) = ag_saturated ag"
  by (simp_all add: record_identity_def split: option.split)

lemma estimates_snoc [simp]:
  "estimates (es @ [e]) = estimates es @ (case estimation_estimate e of None \<Rightarrow> [] | Some est \<Rightarrow> [est])"
  by (simp add: estimates_def map_filter_def split: option.split)

lemma length_estimates: "length (estimates es) \<le> length es"
  by (simp add: estimates_def map_filter_def)

lemma tallies_observe:
  assumes "tallies es ag" and "length es < 2 ^ 64 - 1"
  shows "tallies (es @ [e]) (observe_estimation e ag)"
proof -
  let ?n = "\<Sum>e\<leftarrow>estimates es. unat (te_tokens e)"
  have counts: "unat (ag_observed_blocks ag) = length es"
    "unat (ag_estimated_blocks ag) = length (estimates es)"
    "ag_saturated ag \<longleftrightarrow> \<not> ?n < 2 ^ 64" "unat (ag_subtotal ag) = min ?n (2 ^ 64 - 1)"
    using assms(1) by (simp_all add: tallies_def Let_def)
  have one: "unat (saturating_add (ag_observed_blocks ag) 1) = Suc (length es)"
    "unat (saturating_add (ag_estimated_blocks ag) 1) = Suc (length (estimates es))"
    using counts(1,2) assms(2) length_estimates [of es] by (simp_all add: unat_saturating_add)
  show ?thesis
  proof (cases "estimation_estimate e")
    case None
    then show ?thesis
      using counts one by (simp add: tallies_def observe_estimation_def observe_estimate_def Let_def)
  next
    case (Some est)
    show ?thesis
    proof (cases "checked_add (ag_subtotal ag) (te_tokens est)")
      case None
      then have "2 ^ 64 \<le> unat (ag_subtotal ag) + unat (te_tokens est)"
        by (simp add: checked_add_None)
      then have "\<not> ?n + unat (te_tokens est) < 2 ^ 64" using counts(4) by simp
      then show ?thesis
        using Some None counts one
        by (simp add: tallies_def observe_estimation_def observe_estimate_def Let_def
            unsigned_minus_1_eq_mask mask_eq_exp_minus_1)
    next
      case (Some total)
      then have "unat total = unat (ag_subtotal ag) + unat (te_tokens est)"
        by (simp add: checked_add_Some)
      moreover have "unat total \<le> 18446744073709551615" by (rule unat_word_top)
      ultimately show ?thesis
        using Some \<open>estimation_estimate e = Some est\<close> counts one
        by (auto simp: tallies_def observe_estimation_def observe_estimate_def Let_def min_def
            split: if_splits)
    qed
  qed
qed

lemma tallies_all: "length es < 2 ^ 64 \<Longrightarrow> tallies es (observe_all es)"
proof (induction es rule: rev_induct)
  case Nil
  then show ?case by (simp add: tallies_def observe_all_def aggregate_new_def estimates_def map_filter_def)
next
  case (snoc e es)
  then show ?case using tallies_observe [of es "observe_all es" e] by (simp add: observe_all_def)
qed

lemma all_estimated: "length (estimates es) = length es \<longleftrightarrow> list_all (\<lambda>e. estimation_estimate e \<noteq> None) es"
proof (induction es)
  case (Cons e es)
  then show ?case using length_estimates [of es] by (auto simp: estimates_def map_filter_simps split: option.split)
qed (simp add: estimates_def map_filter_simps)

text \<open>
  An aggregate presents a total only when it has one: after any sequence of estimations the
  complete total is known exactly when every block was estimated and the sum fits 64 bits, and is
  then that sum; a saturated or partial subtotal is never passed off as a total.
\<close>

theorem complete_total_exact:
  assumes "length es < 2 ^ 64"
  shows "complete_total (fold observe_estimation es aggregate_new) = Some n \<longleftrightarrow>
    list_all (\<lambda>e. estimation_estimate e \<noteq> None) es \<and>
    unat n = (\<Sum>e\<leftarrow>estimates es. unat (te_tokens e))"
proof -
  let ?ag = "observe_all es" and ?n = "\<Sum>e\<leftarrow>estimates es. unat (te_tokens e)"
  have counts: "unat (ag_observed_blocks ?ag) = length es"
    "unat (ag_estimated_blocks ?ag) = length (estimates es)"
    "ag_saturated ?ag \<longleftrightarrow> \<not> ?n < 2 ^ 64" "unat (ag_subtotal ?ag) = min ?n (2 ^ 64 - 1)"
    using tallies_all [OF assms] by (simp_all add: tallies_def Let_def)
  then have "ag_observed_blocks ?ag = ag_estimated_blocks ?ag \<longleftrightarrow>
      list_all (\<lambda>e. estimation_estimate e \<noteq> None) es"
    using all_estimated [of es] by (auto simp: word_unat_eq_iff)
  moreover have "unat n \<le> 18446744073709551615" by (rule unat_word_top)
  ultimately show ?thesis
    using counts(3,4)
    by (auto simp: observe_all_def [symmetric] complete_total_def aggregate_is_complete_def
        word_unat_eq_iff)
qed

theorem complete_total_exact_witness:
  "\<exists>es. length es = 1 \<and> (complete_total (fold observe_estimation es aggregate_new) = Some 3 \<longleftrightarrow>
     unat (3 :: u64) = (\<Sum>e\<leftarrow>estimates es. unat (te_tokens e)))"
proof -
  let ?es = "[EstimateComplete (estimate_of sample_digest 3)]"
  have "length ?es < 2 ^ 64" by simp
  from complete_total_exact [OF this, of 3] show ?thesis
    by (intro exI [of _ ?es]) simp
qed

end
