(* ===== verification/Json_Units.thy ===== *)
theory Json_Units
  imports Utf8 Context_Limits
begin

text \<open>
  \<open>crates/tracepress-context/src/span.rs\<close>, the part below the scanner: raw spans, the units a JSON
  string body decodes to, and the bounded decoding of one string span. A Rust \<open>char\<close> is its code
  point, a \<open>Chars\<close> iterator is the list of the remaining characters, each the string of its bytes.
\<close>

section \<open>Raw spans\<close>

text \<open>\<open>slice.get(start..end)\<close>.\<close>

definition get_range :: "'a list \<Rightarrow> nat \<Rightarrow> nat \<Rightarrow> 'a list option" where
  "get_range xs start end =
     (if start \<le> end \<and> end \<le> length xs then Some (take (end - start) (drop start xs)) else None)"

record raw_span =
  rs_start :: u64
  rs_end :: u64

definition raw_span_new :: "u64 \<Rightarrow> u64 \<Rightarrow> raw_span option" where
  "raw_span_new start end = (if start > end then None else Some \<lparr>rs_start = start, rs_end = end\<rparr>)"

definition raw_span_len_bytes :: "raw_span \<Rightarrow> u64" where
  "raw_span_len_bytes sp = (if rs_start sp \<le> rs_end sp then rs_end sp - rs_start sp else 0)"

definition raw_span_is_empty :: "raw_span \<Rightarrow> bool" where
  "raw_span_is_empty sp \<longleftrightarrow> rs_start sp = rs_end sp"

definition raw_span_covers :: "raw_span \<Rightarrow> raw_span \<Rightarrow> bool" where
  "raw_span_covers sp inner \<longleftrightarrow> rs_start sp \<le> rs_start inner \<and> rs_end inner \<le> rs_end sp"

definition raw_span_overlaps :: "raw_span \<Rightarrow> raw_span \<Rightarrow> bool" where
  "raw_span_overlaps sp other \<longleftrightarrow> rs_start sp < rs_end other \<and> rs_start other < rs_end sp"

definition raw_span_slice :: "raw_span \<Rightarrow> string \<Rightarrow> string option" where
  "raw_span_slice sp request = get_range request (unat (rs_start sp)) (unat (rs_end sp))"

definition inner_span :: "raw_span \<Rightarrow> raw_span option" where
  "inner_span sp =
     (if raw_span_len_bytes sp < 2 then None
      else raw_span_new (saturating_add (rs_start sp) 1)
        (if 1 \<le> rs_end sp then rs_end sp - 1 else 0))"

definition quoted_text :: "string \<Rightarrow> raw_span \<Rightarrow> string option" where
  "quoted_text request sp =
     (case raw_span_slice sp request of
        Some (first # rest) \<Rightarrow>
          if rest = [] then None
          else if first \<noteq> CHR 0x22 \<or> last rest \<noteq> CHR 0x22 then None
          else if utf8_ok (butlast rest) then Some (butlast rest) else None
      | _ \<Rightarrow> None)"

section \<open>Characters\<close>

text \<open>\<open>u32::from(character)\<close> and \<open>char::encode_utf8\<close>.\<close>

definition char_code :: "string \<Rightarrow> nat" where
  "char_code c =
     (case c of
        [a] \<Rightarrow> byte a
      | [a, b] \<Rightarrow> (byte a - 0xC0) * 0x40 + (byte b - 0x80)
      | [a, b, d] \<Rightarrow> (byte a - 0xE0) * 0x1000 + (byte b - 0x80) * 0x40 + (byte d - 0x80)
      | [a, b, d, e] \<Rightarrow>
          (byte a - 0xF0) * 0x40000 + (byte b - 0x80) * 0x1000 + (byte d - 0x80) * 0x40 + (byte e - 0x80)
      | _ \<Rightarrow> 0)"

definition encode_utf8 :: "nat \<Rightarrow> string" where
  "encode_utf8 code =
     (if code < 0x80 then [char_of code]
      else if code < 0x800 then [char_of (0xC0 + code div 0x40), char_of (0x80 + code mod 0x40)]
      else if code < 0x10000
      then [char_of (0xE0 + code div 0x1000), char_of (0x80 + code div 0x40 mod 0x40),
            char_of (0x80 + code mod 0x40)]
      else [char_of (0xF0 + code div 0x40000), char_of (0x80 + code div 0x1000 mod 0x40),
            char_of (0x80 + code div 0x40 mod 0x40), char_of (0x80 + code mod 0x40)])"

definition HIGH_SURROGATE_START :: nat where "HIGH_SURROGATE_START = 0xD800"
definition LOW_SURROGATE_START :: nat where "LOW_SURROGATE_START = 0xDC00"
definition SURROGATE_END :: nat where "SURROGATE_END = 0xE000"

text \<open>\<open>char::from_u32\<close>: every scalar value, and nothing else.\<close>

definition char_from_u32 :: "nat \<Rightarrow> nat option" where
  "char_from_u32 code =
     (if code < HIGH_SURROGATE_START \<or> SURROGATE_END \<le> code \<and> code < 0x110000 then Some code else None)"

text \<open>\<open>char::to_digit(16)\<close>.\<close>

definition hex_digit_value :: "string \<Rightarrow> nat option" where
  "hex_digit_value c =
     (case c of
        [a] \<Rightarrow>
          if is_ascii_digit a then Some (byte a - byte CHR ''0'')
          else if byte CHR ''a'' \<le> byte a \<and> byte a \<le> byte CHR ''f'' then Some (byte a - byte CHR ''a'' + 10)
          else if byte CHR ''A'' \<le> byte a \<and> byte a \<le> byte CHR ''F'' then Some (byte a - byte CHR ''A'' + 10)
          else None
      | _ \<Rightarrow> None)"

section \<open>The units of a JSON string\<close>

datatype string_unit = Character nat | UnpairedSurrogate nat

datatype string_fault = InvalidEscapeFault | ControlCharacterFault

fun tagged_code :: "string_unit \<Rightarrow> u64" where
  "tagged_code (Character code) = of_nat code"
| "tagged_code (UnpairedSurrogate unit) = saturating_add 0x100000000 (of_nat unit)"

text \<open>
  \<open>read_hex4\<close> reads at most four characters into 16 bits; the iterator it is given is left after
  the last character it took.
\<close>

fun read_hex :: "nat \<Rightarrow> nat \<Rightarrow> string list \<Rightarrow> nat option \<times> string list" where
  "read_hex 0 v chars = (Some v, chars)"
| "read_hex (Suc n) v [] = (None, [])"
| "read_hex (Suc n) v (c # chars) =
     (case hex_digit_value c of
        None \<Rightarrow> (None, chars)
      | Some digit \<Rightarrow>
          if v * 16 + digit < 2 ^ 16 then read_hex n (v * 16 + digit) chars else (None, chars))"

definition read_hex4 :: "string list \<Rightarrow> nat option \<times> string list" where
  "read_hex4 chars = read_hex 4 0 chars"

definition nat_checked_sub :: "nat \<Rightarrow> nat \<Rightarrow> nat option" where
  "nat_checked_sub m n = (if n \<le> m then Some (m - n) else None)"

definition combine_surrogates :: "nat \<Rightarrow> nat \<Rightarrow> nat option" where
  "combine_surrogates high low =
     (case nat_checked_sub high HIGH_SURROGATE_START of
        None \<Rightarrow> None
      | Some high \<Rightarrow>
          (case nat_checked_sub low LOW_SURROGATE_START of
             None \<Rightarrow> None
           | Some low \<Rightarrow> char_from_u32 (0x10000 + (high * 2 ^ 10 + low))))"

definition unicode_escape :: "string list \<Rightarrow> (string_unit, string_fault) result \<times> string list" where
  "unicode_escape chars =
     (case read_hex4 chars of
        (None, chars) \<Rightarrow> (Err InvalidEscapeFault, chars)
      | (Some first, chars) \<Rightarrow>
          if HIGH_SURROGATE_START \<le> first \<and> first < LOW_SURROGATE_START
          then (case chars of
              b # u # lookahead \<Rightarrow>
                if b = [CHR 0x5C] \<and> u = ''u''
                then (case read_hex4 lookahead of
                    (Some second, lookahead) \<Rightarrow>
                      (if LOW_SURROGATE_START \<le> second \<and> second < SURROGATE_END
                       then (case combine_surrogates first second of
                           Some combined \<Rightarrow> (Ok (Character combined), lookahead)
                         | None \<Rightarrow> (Ok (UnpairedSurrogate first), chars))
                       else (Ok (UnpairedSurrogate first), chars))
                  | (None, _) \<Rightarrow> (Ok (UnpairedSurrogate first), chars))
                else (Ok (UnpairedSurrogate first), chars)
            | _ \<Rightarrow> (Ok (UnpairedSurrogate first), chars))
          else if LOW_SURROGATE_START \<le> first \<and> first < SURROGATE_END
          then (Ok (UnpairedSurrogate first), chars)
          else (case char_from_u32 first of
              Some c \<Rightarrow> (Ok (Character c), chars)
            | None \<Rightarrow> (Err InvalidEscapeFault, chars)))"

definition simple_escapes :: "(string \<times> nat) list" where
  "simple_escapes =
     [([CHR 0x22], 0x22), ([CHR 0x5C], 0x5C), (''/'', 0x2F), (''b'', 0x08), (''f'', 0x0C),
      (''n'', 0x0A), (''r'', 0x0D), (''t'', 0x09)]"

definition string_escape :: "string list \<Rightarrow> (string_unit, string_fault) result \<times> string list" where
  "string_escape chars =
     (case chars of
        [] \<Rightarrow> (Err InvalidEscapeFault, [])
      | marker # chars \<Rightarrow>
          (case map_of simple_escapes marker of
             Some unescaped \<Rightarrow> (Ok (Character unescaped), chars)
           | None \<Rightarrow> if marker = ''u'' then unicode_escape chars else (Err InvalidEscapeFault, chars)))"

text \<open>\<open>Iterator for JsonStringUnits\<close>: the next unit and the characters after it.\<close>

definition units_next ::
  "string list \<Rightarrow> ((string_unit, string_fault) result \<times> string list) option" where
  "units_next chars =
     (case chars of
        [] \<Rightarrow> None
      | c # chars \<Rightarrow>
          Some (if c = [CHR 0x5C] then string_escape chars
                else if char_code c < 0x20 then (Err ControlCharacterFault, chars)
                else (Ok (Character (char_code c)), chars)))"

definition remaining_bytes :: "string list \<Rightarrow> nat" where
  "remaining_bytes chars = length (concat chars)"

lemma read_hex_shrinks: "length (snd (read_hex n v chars)) \<le> length chars"
  by (induction n v chars rule: read_hex.induct) (auto split: option.splits)

lemma unicode_escape_shrinks: "length (snd (unicode_escape chars)) \<le> length chars"
proof -
  have rest: "length (snd (read_hex4 cs)) \<le> length cs" for cs
    unfolding read_hex4_def by (rule read_hex_shrinks)
  have weaken: "read_hex4 cs = (v, ds) \<Longrightarrow> length ds \<le> length cs" for cs v ds
    using rest [of cs] by simp
  show ?thesis
    unfolding unicode_escape_def
    by (auto split: prod.split option.split list.split dest!: weaken)
qed

lemma string_escape_shrinks: "length (snd (string_escape chars)) \<le> length chars"
  using unicode_escape_shrinks
  by (auto simp: string_escape_def le_SucI split: list.split option.split)

lemma units_next_shrinks: "units_next chars = Some (r, rest) \<Longrightarrow> length rest < length chars"
  using string_escape_shrinks [of "tl chars"]
  by (auto simp: units_next_def less_Suc_eq_le split: list.splits if_splits)

section \<open>Decoding one string span\<close>

datatype json_string_decode_error =
    NotAJsonString | NotUtf8 | InvalidEscape | ControlCharacter | UnpairedSurrogateError
  | AboveInspectionBound u64

function decode_units ::
  "nat \<Rightarrow> string \<Rightarrow> string list \<Rightarrow> (string, json_string_decode_error) result" where
  "decode_units maximum decoded chars =
     (case units_next chars of
        None \<Rightarrow> Ok decoded
      | Some (Ok (Character c), chars') \<Rightarrow>
          if usize_saturating_add (length decoded) (length (encode_utf8 c)) > maximum
          then Err (AboveInspectionBound (u64_of_len_or_max maximum))
          else decode_units maximum (decoded @ encode_utf8 c) chars'
      | Some (Ok (UnpairedSurrogate u), chars') \<Rightarrow> Err UnpairedSurrogateError
      | Some (Err InvalidEscapeFault, chars') \<Rightarrow> Err InvalidEscape
      | Some (Err ControlCharacterFault, chars') \<Rightarrow> Err ControlCharacter)"
  by pat_completeness auto

termination decode_units
  by (relation "measure (\<lambda>(maximum, decoded, chars). length chars)") (auto dest: units_next_shrinks)

declare decode_units.simps [simp del]

definition decode_json_string ::
  "string \<Rightarrow> raw_span \<Rightarrow> context_analysis_limits \<Rightarrow> (string, json_string_decode_error) result" where
  "decode_json_string request sp limits =
     and_then (ok_or (quoted_text request sp) NotAJsonString) (\<lambda>text.
       decode_units (cl_max_string_bytes_inspected limits) [] (utf8_chars text))"

section \<open>Comparing names\<close>

function units_match :: "string list \<Rightarrow> string list \<Rightarrow> bool" where
  "units_match decoded expected =
     (case units_next decoded of
        None \<Rightarrow> expected = []
      | Some (Ok (Character observed), decoded') \<Rightarrow>
          (case expected of
             wanted # expected' \<Rightarrow> observed = char_code wanted \<and> units_match decoded' expected'
           | [] \<Rightarrow> False)
      | Some _ \<Rightarrow> False)"
  by pat_completeness auto

termination units_match
  by (relation "measure (\<lambda>(decoded, expected). length decoded)") (auto dest: units_next_shrinks)

declare units_match.simps [simp del]

text \<open>The FNV-1a fingerprint of a name mixes the eight little-endian bytes of each unit.\<close>

definition NAME_HASH_OFFSET :: u64 where "NAME_HASH_OFFSET = 0xcbf29ce484222325"
definition NAME_HASH_PRIME :: u64 where "NAME_HASH_PRIME = 0x00000100000001b3"

definition u64_to_le_bytes :: "u64 \<Rightarrow> u8 list" where
  "u64_to_le_bytes v = map (\<lambda>i. ucast (drop_bit (8 * i) v)) [0..<8]"

definition mix :: "u64 \<Rightarrow> u64 \<Rightarrow> u64" where
  "mix hash v = fold (\<lambda>b mixed. xor mixed (ucast b) * NAME_HASH_PRIME) (u64_to_le_bytes v) hash"

text \<open>The decimal digits of an array position, written from the last one.\<close>

function decimal_digits :: "string \<Rightarrow> nat \<Rightarrow> string" where
  "decimal_digits digits remaining =
     (let digits = char_of (byte CHR ''0'' + remaining mod 10) # digits; remaining = remaining div 10
      in if remaining = 0 then digits else decimal_digits digits remaining)"
  by pat_completeness auto

termination decimal_digits
  by (relation "measure snd") auto

declare decimal_digits.simps [simp del]

definition decimal_bytes :: "u32 \<Rightarrow> string" where
  "decimal_bytes v = decimal_digits [] (unat v)"

end
