(* ===== verification/Json_Decoding.thy ===== *)
theory Json_Decoding
  imports Json_Units
begin

text \<open>
  Bounded decoding of a JSON string against its specification: decode everything up to the first
  unit that is no character, then look at the length. The code stops at the first character that
  does not fit.
\<close>

section \<open>Decoding without a bound\<close>

function characters_of :: "string list \<Rightarrow> nat list \<times> json_string_decode_error option" where
  "characters_of chars =
     (case units_next chars of
        None \<Rightarrow> ([], None)
      | Some (Ok (Character c), chars') \<Rightarrow> (case characters_of chars' of (cs, fault) \<Rightarrow> (c # cs, fault))
      | Some (Ok (UnpairedSurrogate u), chars') \<Rightarrow> ([], Some UnpairedSurrogateError)
      | Some (Err InvalidEscapeFault, chars') \<Rightarrow> ([], Some InvalidEscape)
      | Some (Err ControlCharacterFault, chars') \<Rightarrow> ([], Some ControlCharacter))"
  by pat_completeness auto

termination characters_of
  by (relation "measure length") (auto dest: units_next_shrinks)

declare characters_of.simps [simp del]

definition decoded_within ::
  "nat \<Rightarrow> string \<Rightarrow> json_string_decode_error option \<Rightarrow> (string, json_string_decode_error) result" where
  "decoded_within maximum decoded fault =
     (if length decoded > maximum then Err (AboveInspectionBound (u64_of_len_or_max maximum))
      else case fault of None \<Rightarrow> Ok decoded | Some e \<Rightarrow> Err e)"

definition decode_text :: "nat \<Rightarrow> string \<Rightarrow> (string, json_string_decode_error) result" where
  "decode_text maximum text =
     (case characters_of (utf8_chars text) of (cs, fault) \<Rightarrow>
        decoded_within maximum (concat (map encode_utf8 cs)) fault)"

lemma fits_exactly:
  assumes "maximum < usize_limit - 1" and "length decoded \<le> maximum"
  shows "usize_saturating_add (length decoded) (length t) > maximum \<longleftrightarrow> length (decoded @ t) > maximum"
  using assms by (auto simp: usize_saturating_add_def min_def)

lemma decode_units_spec:
  assumes "maximum < usize_limit - 1" and "length decoded \<le> maximum"
  shows "decode_units maximum decoded chars =
    (case characters_of chars of (cs, fault) \<Rightarrow>
       decoded_within maximum (decoded @ concat (map encode_utf8 cs)) fault)"
  using assms
proof (induction maximum decoded chars rule: decode_units.induct)
  case (1 maximum decoded chars)
  note unfold = decode_units.simps [of maximum decoded chars] characters_of.simps [of chars]
  consider (none) "units_next chars = None"
    | (char) c chars' where "units_next chars = Some (Ok (Character c), chars')"
    | (lone) u chars' where "units_next chars = Some (Ok (UnpairedSurrogate u), chars')"
    | (fault) f chars' where "units_next chars = Some (Err f, chars')"
    by (metis option.exhaust prod.exhaust result.exhaust string_unit.exhaust)
  then show ?case
  proof cases
    case none
    then show ?thesis using 1(3) by (simp add: unfold decoded_within_def)
  next
    case char
    obtain cs fault where rest: "characters_of chars' = (cs, fault)" by (cases "characters_of chars'")
    note fits = fits_exactly [OF 1(2,3), of "encode_utf8 c"]
    show ?thesis
    proof (cases "length (decoded @ encode_utf8 c) > maximum")
      case True
      then show ?thesis using char fits rest by (simp add: unfold decoded_within_def)
    next
      case False
      then have "decode_units maximum (decoded @ encode_utf8 c) chars' =
          decoded_within maximum ((decoded @ encode_utf8 c) @ concat (map encode_utf8 cs)) fault"
        using 1(1) [OF char refl refl] fits 1(2) rest by simp
      then show ?thesis using char fits False rest by (simp add: unfold)
    qed
  next
    case lone
    then show ?thesis using 1(3) by (simp add: unfold decoded_within_def)
  next
    case fault
    then show ?thesis using 1(3) by (cases f) (simp_all add: unfold decoded_within_def)
  qed
qed

text \<open>
  C19. \<open>decode_json_string\<close> decodes the whole string between the quotes, or refuses it: above the
  bound as soon as the decoded characters do not fit, otherwise with the first escape, control
  character or lone surrogate that decodes to no character. It never truncates.
\<close>

theorem decode_json_string_is_decode_text:
  fixes limits
  assumes "cl_max_string_bytes_inspected limits < usize_limit - 1"
  shows "decode_json_string request sp limits =
    (case quoted_text request sp of
       None \<Rightarrow> Err NotAJsonString
     | Some text \<Rightarrow> decode_text (cl_max_string_bytes_inspected limits) text)"
  using decode_units_spec [OF assms, of "[]"]
  by (simp add: decode_json_string_def decode_text_def split: option.split)

theorem decode_json_string_is_decode_text_witness:
  "let limits = \<lparr>cl_max_analyzed_bytes = 1, cl_max_blocks = 1, cl_max_json_depth = limit_from_non_zero 1,
      cl_max_string_bytes_inspected = 0, cl_max_analysis_work_units = limit_from_non_zero 1,
      cl_max_analysis_wall_time_ms = limit_from_non_zero 1, cl_max_batches = 1\<rparr>
   in decode_json_string [CHR 0x22, CHR ''a'', CHR 0x22] \<lparr>rs_start = 0, rs_end = 3\<rparr> limits =
      Err (AboveInspectionBound 0)"
proof -
  have quoted: "quoted_text [CHR 0x22, CHR ''a'', CHR 0x22] \<lparr>rs_start = 0, rs_end = 3\<rparr> = Some ''a''"
    by (simp add: quoted_text_def raw_span_slice_def get_range_def byte_def)
  have chars: "utf8_chars ''a'' = [''a'']" using utf8_chars_ascii [of "''a''"] by (simp add: byte_def)
  have steps: "units_next [''a''] = Some (Ok (Character 97), [])" "units_next [] = None"
    by (simp_all add: units_next_def char_code_def byte_def)
  have "characters_of [''a''] = ([97], None)"
    by (simp add: characters_of.simps [of "[''a'']"] characters_of.simps [of "[]"] steps)
  then show ?thesis
    by (simp add: decode_json_string_is_decode_text usize_limit_def quoted decode_text_def decoded_within_def chars
        encode_utf8_def u64_of_len_or_max_def)
qed

end
