(* ===== verification/Stateful.thy ===== *)
theory Stateful
  imports Prelude
begin

text \<open>
  Computations that update a state and may stop with an error, which keeps the state reached:
  \<open>fn(&mut self) -> Result<A, E>\<close>, with \<open>?\<close> as \<open>m_then\<close>. \<open>outcome m Q E s\<close> is the weakest
  precondition of \<open>m\<close>: from \<open>s\<close> it ends in \<open>Q\<close> when it succeeds and in \<open>E\<close> when it stops.
\<close>

type_synonym ('a, 'e, 's) stateful = "'s \<Rightarrow> ('a, 'e) result \<times> 's"

definition ret :: "'a \<Rightarrow> ('a, 'e, 's) stateful" where
  "ret a s = (Ok a, s)"

definition halt :: "'e \<Rightarrow> ('a, 'e, 's) stateful" where
  "halt e s = (Err e, s)"

definition m_then ::
  "('a, 'e, 's) stateful \<Rightarrow> ('a \<Rightarrow> ('b, 'e, 's) stateful) \<Rightarrow> ('b, 'e, 's) stateful" where
  "m_then m f s = (case m s of (Ok a, t) \<Rightarrow> f a t | (Err e, t) \<Rightarrow> (Err e, t))"

definition changing :: "('s \<Rightarrow> 's) \<Rightarrow> (unit, 'e, 's) stateful" where
  "changing g s = (Ok (), g s)"

definition m_when :: "bool \<Rightarrow> (unit, 'e, 's) stateful \<Rightarrow> (unit, 'e, 's) stateful" where
  "m_when b m = (if b then m else ret ())"

lemma m_then_cong [fundef_cong]:
  assumes "s = s'" and "m s' = m' s'" and "\<And>a t. m' s' = (Ok a, t) \<Longrightarrow> f a t = f' a t"
  shows "m_then m f s = m_then m' f' s'"
  using assms by (auto simp: m_then_def split: prod.split result.split)

section \<open>Outcomes\<close>

definition outcome ::
  "('a, 'e, 's) stateful \<Rightarrow> ('a \<Rightarrow> 's \<Rightarrow> bool) \<Rightarrow> ('e \<Rightarrow> 's \<Rightarrow> bool) \<Rightarrow> 's \<Rightarrow> bool" where
  "outcome m Q E s = (case m s of (Ok a, t) \<Rightarrow> Q a t | (Err e, t) \<Rightarrow> E e t)"

lemma outcome_ret [simp]: "outcome (ret a) Q E = Q a"
  by (rule ext) (simp add: outcome_def ret_def)

lemma outcome_halt [simp]: "outcome (halt e) Q E = E e"
  by (rule ext) (simp add: outcome_def halt_def)

lemma outcome_changing [simp]: "outcome (changing g) Q E = (\<lambda>s. Q () (g s))"
  by (rule ext) (simp add: outcome_def changing_def)

lemma outcome_m_then [simp]:
  "outcome (m_then m f) Q E = outcome m (\<lambda>a. outcome (f a) Q E) E"
  by (rule ext) (auto simp: outcome_def m_then_def split: prod.split result.split)

lemmas outcome_simps = outcome_ret outcome_halt outcome_changing outcome_m_then

lemma outcome_weaken:
  assumes "outcome m Q E s" and "\<And>a t. Q a t \<Longrightarrow> Q' a t" and "\<And>e t. E e t \<Longrightarrow> E' e t"
  shows "outcome m Q' E' s"
  using assms by (auto simp: outcome_def split: prod.splits result.splits)

lemma outcome_m_when [simp]: "outcome (m_when b m) Q E = (if b then outcome m Q E else Q ())"
  by (simp add: m_when_def)

lemma outcome_Ok: "outcome m Q E s \<Longrightarrow> m s = (Ok a, t) \<Longrightarrow> Q a t"
  by (simp add: outcome_def)

lemma outcome_Err: "outcome m Q E s \<Longrightarrow> m s = (Err e, t) \<Longrightarrow> E e t"
  by (simp add: outcome_def)

lemma outcome_conj:
  "outcome m Q E s \<Longrightarrow> outcome m Q' E' s \<Longrightarrow>
   outcome m (\<lambda>a t. Q a t \<and> Q' a t) (\<lambda>e t. E e t \<and> E' e t) s"
  by (auto simp: outcome_def split: prod.splits result.splits)

lemma outcome_unfold: "m s = n s \<Longrightarrow> outcome n Q E s \<Longrightarrow> outcome m Q E s"
  by (simp add: outcome_def)

lemma outcome_resultI:
  "(\<And>a t. m s = (Ok a, t) \<Longrightarrow> Q a t) \<Longrightarrow> (\<And>e t. m s = (Err e, t) \<Longrightarrow> E e t) \<Longrightarrow> outcome m Q E s"
  by (auto simp: outcome_def split: prod.split result.split)

end
