(* ===== verification/Span_Scanner.thy ===== *)
theory Span_Scanner
  imports Stateful Json_Units Context_Estimator Context_Delta
begin

text \<open>
  \<open>crates/tracepress-context/src/span.rs\<close>: the bounded, non-recursive JSON scan. The scanner is a
  record with the fields of the source; its clock is the sequence of the readings it will give and
  \<open>sc_samples\<close> counts the readings taken. A \<open>SpanNodeId\<close> is its 32-bit ordinal. The SHA-256 state
  of a path is the bytes it was fed, \<open>digest\<close> what it makes of them.

  A slice is never longer than \<open>isize::MAX\<close> bytes, so the saturating additions to the cursor are
  plain additions.
\<close>

section \<open>Data\<close>

datatype json_value_kind =
  JsonObject | JsonArray | JsonString | JsonNumber | JsonBoolean | JsonNull

definition is_container :: "json_value_kind \<Rightarrow> bool" where
  "is_container kind \<longleftrightarrow> kind = JsonObject \<or> kind = JsonArray"

type_synonym span_node_id = u32

record block_locator =
  bl_semantic_path :: bounded_metadata_text
  bl_raw_value_start :: u64
  bl_raw_value_end :: u64
  bl_occurrence :: u32

record span_node =
  sn_id :: span_node_id
  sn_parent :: "span_node_id option"
  sn_first_child :: "span_node_id option"
  sn_last_child :: "span_node_id option"
  sn_next_sibling :: "span_node_id option"
  sn_locator :: block_locator
  sn_kind :: json_value_kind
  sn_depth :: u32
  sn_name :: "raw_span option"
  sn_array_index :: "u32 option"
  sn_child_count :: u32
  sn_complete :: bool
  sn_duplicate_key_detected :: bool

datatype malformed_reason = UnexpectedEnd | Syntax

datatype stop = StopMalformed malformed_reason | StopLimit context_analysis_limit_field

datatype descent = Entered | Completed

datatype container = ObjectContainer | ArrayContainer

record frame =
  fr_node :: span_node_id
  fr_kind :: container
  fr_children :: u32
  fr_depth :: u32
  fr_path_base :: nat

record value_context =
  vc_parent :: "span_node_id option"
  vc_name :: "raw_span option"
  vc_occurrence :: u32
  vc_array_index :: "u32 option"
  vc_depth :: u32
  vc_path_base :: nat
  vc_start :: nat

record literal =
  lit_word :: string
  lit_kind :: json_value_kind

definition literal_TRUE :: literal where "literal_TRUE = \<lparr>lit_word = ''true'', lit_kind = JsonBoolean\<rparr>"
definition literal_FALSE :: literal where "literal_FALSE = \<lparr>lit_word = ''false'', lit_kind = JsonBoolean\<rparr>"
definition literal_NULL :: literal where "literal_NULL = \<lparr>lit_word = ''null'', lit_kind = JsonNull\<rparr>"

record name_entry =
  ne_content :: raw_span
  ne_occurrences :: u32

section \<open>Incremental UTF-8\<close>

record utf8_validator =
  uv_remaining :: nat
  uv_next_min :: nat
  uv_next_max :: nat

definition utf8_validator_default :: utf8_validator where
  "utf8_validator_default = \<lparr>uv_remaining = 0, uv_next_min = 0, uv_next_max = 0\<rparr>"

definition utf8_expect :: "nat \<Rightarrow> nat \<Rightarrow> nat \<Rightarrow> utf8_validator" where
  "utf8_expect remaining low high = \<lparr>uv_remaining = remaining, uv_next_min = low, uv_next_max = high\<rparr>"

definition utf8_consume ::
  "char \<Rightarrow> utf8_validator \<Rightarrow> (unit, malformed_reason) result \<times> utf8_validator" where
  "utf8_consume c v =
     (let b = byte c in
      if b = 0 then (Err Syntax, v)
      else if uv_remaining v > 0
      then if \<not> (uv_next_min v \<le> b \<and> b \<le> uv_next_max v) then (Err Syntax, v)
           else (Ok (), utf8_expect (uv_remaining v - 1) 0x80 0xbf)
      else if b \<le> 0x7f then (Ok (), v)
      else if 0xc2 \<le> b \<and> b \<le> 0xdf then (Ok (), utf8_expect 1 0x80 0xbf)
      else if b = 0xe0 then (Ok (), utf8_expect 2 0xa0 0xbf)
      else if 0xe1 \<le> b \<and> b \<le> 0xec \<or> 0xee \<le> b \<and> b \<le> 0xef then (Ok (), utf8_expect 2 0x80 0xbf)
      else if b = 0xed then (Ok (), utf8_expect 2 0x80 0x9f)
      else if b = 0xf0 then (Ok (), utf8_expect 3 0x90 0xbf)
      else if 0xf1 \<le> b \<and> b \<le> 0xf3 then (Ok (), utf8_expect 3 0x80 0xbf)
      else if b = 0xf4 then (Ok (), utf8_expect 3 0x80 0x8f)
      else (Err Syntax, v))"

text \<open>The loop of \<open>advance\<close>: on an error, the position after the byte that was refused.\<close>

fun consume_bytes ::
  "string \<Rightarrow> nat \<Rightarrow> utf8_validator \<Rightarrow> (unit, nat \<times> malformed_reason) result \<times> utf8_validator" where
  "consume_bytes [] cursor v = (Ok (), v)"
| "consume_bytes (b # bytes) cursor v =
     (case utf8_consume b v of
        (Ok _, v) \<Rightarrow> consume_bytes bytes (cursor + 1) v
      | (Err reason, v) \<Rightarrow> (Err (cursor + 1, reason), v))"

section \<open>Paths\<close>

record path_state =
  ps_retained :: string
  ps_original_bytes :: u64
  ps_hashed :: string

definition path_new :: path_state where
  "path_new = \<lparr>ps_retained = [], ps_original_bytes = 0, ps_hashed = []\<rparr>"

definition path_append :: "string \<Rightarrow> path_state \<Rightarrow> path_state" where
  "path_append text path =
     (let path = path\<lparr>ps_original_bytes :=
            saturating_add (ps_original_bytes path) (u64_of_len_or_max (length text)),
            ps_hashed := ps_hashed path @ text\<rparr>
      in if length (ps_retained path) \<ge> SEMANTIC_PATH_MAX_BYTES then path
         else path\<lparr>ps_retained := retain_chars SEMANTIC_PATH_MAX_BYTES (ps_retained path) (utf8_chars text)\<rparr>)"

definition semantic_path_from_incremental :: "string \<Rightarrow> u64 \<Rightarrow> context_digest \<Rightarrow> bounded_metadata_text" where
  "semantic_path_from_incremental retained original hash =
     \<lparr>mt_value = retained, mt_original_bytes = original, mt_full_value_hash = Some hash\<rparr>"

definition path_metadata :: "(string \<Rightarrow> context_digest) \<Rightarrow> path_state \<Rightarrow> bounded_metadata_text" where
  "path_metadata digest path =
     (if ps_original_bytes path \<le> u64_of_len_or_max SEMANTIC_PATH_MAX_BYTES
      then semantic_path digest (ps_retained path)
      else semantic_path_from_incremental (ps_retained path) (ps_original_bytes path)
        (digest (ps_hashed path)))"

section \<open>The scanner\<close>

record scanner =
  sc_window :: string
  sc_clock :: "nat \<Rightarrow> u64"
  sc_samples :: nat
  sc_cursor :: nat
  sc_max_blocks :: nat
  sc_max_depth :: u32
  sc_budget :: processing_budget
  sc_charged_ms :: u64
  sc_reserved_work_units :: u64
  sc_auxiliary_bytes :: u64
  sc_comparison_work_units :: u64
  sc_observed_bytes :: u64
  sc_observed_values :: u64
  sc_utf8 :: utf8_validator
  sc_nodes :: "span_node list"
  sc_frames :: "frame list"
  sc_names :: "span_node_id \<times> u64 \<rightharpoonup> name_entry list"
  sc_path :: path_state
  sc_path_checkpoints :: "path_state list"
  sc_duplicate_key_detected :: bool

type_synonym 'a scan = "('a, stop, scanner) stateful"

definition u32_of_limit_or_max :: "limit \<Rightarrow> u32" where
  "u32_of_limit_or_max bound =
     (case u32_of_u64 (limit_get bound) of Some n \<Rightarrow> n | None \<Rightarrow> - 1)"

definition scanner_new ::
  "string \<Rightarrow> context_analysis_limits \<Rightarrow> (nat \<Rightarrow> u64) \<Rightarrow> nat \<Rightarrow> scanner" where
  "scanner_new window limits clock block_capacity =
     \<lparr>sc_window = window, sc_clock = clock, sc_samples = 0, sc_cursor = 0,
      sc_max_blocks = block_capacity, sc_max_depth = u32_of_limit_or_max (cl_max_json_depth limits),
      sc_budget = analysis_processing_budget limits, sc_charged_ms = 0, sc_reserved_work_units = 0,
      sc_auxiliary_bytes = 0, sc_comparison_work_units = 0, sc_observed_bytes = 0,
      sc_observed_values = 0, sc_utf8 = utf8_validator_default, sc_nodes = [], sc_frames = [],
      sc_names = Map.empty, sc_path = path_new, sc_path_checkpoints = [],
      sc_duplicate_key_detected = False\<rparr>"

section \<open>The work budget\<close>

definition BYTES_PER_WORK_UNIT :: u64 where "BYTES_PER_WORK_UNIT = 4096"
definition VALUES_PER_WORK_UNIT :: u64 where "VALUES_PER_WORK_UNIT = 64"
definition NAME_COMPARISON_WORK_UNITS :: u64 where "NAME_COMPARISON_WORK_UNITS = 1"
definition MAX_JSON_STRING_UNIT_BYTES :: nat where "MAX_JSON_STRING_UNIT_BYTES = 12"

definition units_of_work :: "u64 \<Rightarrow> u64 \<Rightarrow> u64" where
  "units_of_work v per_unit =
     (if v = 0 then 0
      else case checked_div (saturating_add v (saturating_sub per_unit 1)) per_unit of
          Some n \<Rightarrow> n | None \<Rightarrow> - 1)"

definition primary_work_units :: "u64 \<Rightarrow> u64 \<Rightarrow> u64" where
  "primary_work_units bytes values =
     max (units_of_work bytes BYTES_PER_WORK_UNIT) (units_of_work values VALUES_PER_WORK_UNIT)"

definition auxiliary_work_units :: "scanner \<Rightarrow> u64" where
  "auxiliary_work_units s = units_of_work (sc_auxiliary_bytes s) BYTES_PER_WORK_UNIT"

definition charge_limit :: "processing_budget_axis \<Rightarrow> context_analysis_limit_field" where
  "charge_limit axis = (case axis of Time \<Rightarrow> AnalysisWallTimeMs | CpuWork \<Rightarrow> AnalysisWorkUnits)"

definition scan_charge :: "u64 \<Rightarrow> unit scan" where
  "scan_charge work s =
     (let observed_ms = sc_clock s (sc_samples s);
          s = s\<lparr>sc_samples := sc_samples s + 1\<rparr>;
          elapsed = saturating_sub observed_ms (sc_charged_ms s)
      in case processing_charge_budget (sc_budget s)
             \<lparr>charge_elapsed_ms = elapsed, charge_work_units = work\<rparr> of
           (budget, ProcessingContinue _ _) \<Rightarrow>
             (Ok (), s\<lparr>sc_budget := budget, sc_charged_ms := observed_ms\<rparr>)
         | (budget, ProcessingExhausted axis _ _ _) \<Rightarrow>
             (Err (StopLimit (charge_limit axis)), s\<lparr>sc_budget := budget\<rparr>))"

definition poll_clock :: "unit scan" where
  "poll_clock = scan_charge 0"

definition reserve_units :: "u64 \<Rightarrow> unit scan" where
  "reserve_units required s =
     (let additional = saturating_sub required (sc_reserved_work_units s)
      in if additional = 0 then (Ok (), s)
         else m_then (scan_charge additional)
           (\<lambda>_. changing (\<lambda>s. s\<lparr>sc_reserved_work_units := required\<rparr>)) s)"

definition reserve_work :: "u64 \<Rightarrow> u64 \<Rightarrow> unit scan" where
  "reserve_work bytes values s =
     reserve_units (saturating_add (max (primary_work_units bytes values) (auxiliary_work_units s))
       (sc_comparison_work_units s)) s"

definition reserve_auxiliary_bytes :: "u64 \<Rightarrow> unit scan" where
  "reserve_auxiliary_bytes additional s =
     (let next_bytes = saturating_add (sc_auxiliary_bytes s) additional;
          required = saturating_add
            (max (primary_work_units (sc_observed_bytes s) (sc_observed_values s))
              (units_of_work next_bytes BYTES_PER_WORK_UNIT))
            (sc_comparison_work_units s)
      in m_then (reserve_units required)
        (\<lambda>_. changing (\<lambda>s. s\<lparr>sc_auxiliary_bytes := next_bytes\<rparr>)) s)"

definition charge_name_comparison :: "unit scan" where
  "charge_name_comparison s =
     (let next_units = saturating_add (sc_comparison_work_units s) NAME_COMPARISON_WORK_UNITS;
          required = saturating_add
            (max (primary_work_units (sc_observed_bytes s) (sc_observed_values s)) (auxiliary_work_units s))
            next_units
      in m_then (reserve_units required)
        (\<lambda>_. changing (\<lambda>s. s\<lparr>sc_comparison_work_units := next_units\<rparr>)) s)"

section \<open>Moving\<close>

definition peek :: "scanner \<Rightarrow> char option" where
  "peek s = (if sc_cursor s < length (sc_window s) then Some (sc_window s ! sc_cursor s) else None)"

definition take_bytes :: "nat \<Rightarrow> u64 \<Rightarrow> unit scan" where
  "take_bytes next_cursor next_bytes s =
     (case consume_bytes (take (next_cursor - sc_cursor s) (drop (sc_cursor s) (sc_window s)))
         (sc_cursor s) (sc_utf8 s) of
        (Err (cursor, reason), v) \<Rightarrow>
          (Err (StopMalformed reason), s\<lparr>sc_utf8 := v, sc_cursor := cursor,
             sc_observed_bytes := u64_of_len_or_max cursor\<rparr>)
      | (Ok _, v) \<Rightarrow>
          (Ok (), s\<lparr>sc_utf8 := v, sc_cursor := next_cursor, sc_observed_bytes := next_bytes\<rparr>))"

definition advance :: "nat \<Rightarrow> unit scan" where
  "advance bytes s =
     (let next_cursor = min (sc_cursor s + bytes) (length (sc_window s));
          consumed = u64_of_len_or_max (next_cursor - sc_cursor s);
          next_bytes = saturating_add (sc_observed_bytes s) consumed
      in m_then (reserve_work next_bytes (sc_observed_values s))
           (\<lambda>_. take_bytes next_cursor next_bytes) s)"

definition unexpected :: "scanner \<Rightarrow> stop" where
  "unexpected s = (if peek s \<noteq> None then StopMalformed Syntax else StopMalformed UnexpectedEnd)"

text \<open>What \<open>peek\<close> finds: a \<open>match\<close> on it with both failures of the source.\<close>

definition expect :: "(char \<Rightarrow> bool) \<Rightarrow> unit scan" where
  "expect p s =
     (case peek s of
        None \<Rightarrow> halt (StopMalformed UnexpectedEnd) s
      | Some b \<Rightarrow> if p b then advance 1 s else halt (StopMalformed Syntax) s)"

section \<open>What the bookkeeping leaves alone\<close>

text \<open>\<open>t\<close> differs from \<open>s\<close> in the accounting of the budget only.\<close>

definition steady :: "scanner \<Rightarrow> scanner \<Rightarrow> bool" where
  "steady s t \<longleftrightarrow>
     sc_window t = sc_window s \<and> sc_clock t = sc_clock s \<and> sc_cursor t = sc_cursor s \<and>
     sc_max_blocks t = sc_max_blocks s \<and> sc_max_depth t = sc_max_depth s \<and>
     sc_observed_bytes t = sc_observed_bytes s \<and> sc_observed_values t = sc_observed_values s \<and>
     sc_utf8 t = sc_utf8 s \<and> sc_nodes t = sc_nodes s \<and> sc_frames t = sc_frames s \<and>
     sc_names t = sc_names s \<and> sc_path t = sc_path s \<and>
     sc_path_checkpoints t = sc_path_checkpoints s \<and>
     sc_duplicate_key_detected t = sc_duplicate_key_detected s"

lemma steady_refl [simp]: "steady s s"
  by (simp add: steady_def)

lemma steady_trans [trans]: "steady s t \<Longrightarrow> steady t u \<Longrightarrow> steady s u"
  by (simp add: steady_def)

lemma steady_peek: "steady s t \<Longrightarrow> peek t = peek s"
  by (simp add: steady_def peek_def)

text \<open>
  The work reserved covers the demand of everything counted so far and never passes the budget.
\<close>

definition demand :: "scanner \<Rightarrow> u64" where
  "demand s = saturating_add
     (max (primary_work_units (sc_observed_bytes s) (sc_observed_values s)) (auxiliary_work_units s))
     (sc_comparison_work_units s)"

definition solvent :: "scanner \<Rightarrow> bool" where
  "solvent s \<longleftrightarrow> demand s \<le> sc_reserved_work_units s
     \<and> sc_reserved_work_units s = work_units (sc_budget s)
     \<and> work_units (sc_budget s) \<le> limit_get (maximum_work (sc_budget s))"

definition paid :: "scanner \<Rightarrow> scanner \<Rightarrow> bool" where
  "paid s t \<longleftrightarrow> steady s t \<and> maximum_work (sc_budget t) = maximum_work (sc_budget s)
     \<and> (solvent s \<longrightarrow> solvent t)"

lemma paid_refl [simp]: "paid s s"
  by (simp add: paid_def)

lemma paid_trans [trans]: "paid s t \<Longrightarrow> paid t u \<Longrightarrow> paid s u"
  by (auto simp: paid_def steady_def)

lemma paid_steady: "paid s t \<Longrightarrow> steady s t"
  by (simp add: paid_def)

lemma processing_continue:
  assumes "processing_charge_budget b c = (b', ProcessingContinue x y)"
  shows "maximum_work b' = maximum_work b" "unat (work_units b') = unat (work_units b) + unat (charge_work_units c)"
    "work_units b' \<le> limit_get (maximum_work b)"
  using assms
  by (auto simp: processing_charge_budget_def exhausted_time_def exhausted_work_def not_less checked_simps
      split: option.splits if_splits)

lemma processing_exhausted:
  "processing_charge_budget b c = (b', ProcessingExhausted axis x y z) \<Longrightarrow> b' = b"
  by (auto simp: processing_charge_budget_def split: option.splits if_splits)

text \<open>Everything but the budget, the reservation and the clock.\<close>

definition counters :: "scanner \<Rightarrow> u64 \<times> u64" where
  "counters s = (sc_auxiliary_bytes s, sc_comparison_work_units s)"

lemma demand_cong: "steady s t \<Longrightarrow> counters t = counters s \<Longrightarrow> demand t = demand s"
  by (simp add: demand_def steady_def counters_def auxiliary_work_units_def)

lemma scan_charge_charges:
  "outcome (scan_charge n)
     (\<lambda>_ t. steady s t \<and> counters t = counters s \<and> sc_reserved_work_units t = sc_reserved_work_units s \<and>
        maximum_work (sc_budget t) = maximum_work (sc_budget s) \<and>
        unat (work_units (sc_budget t)) = unat (work_units (sc_budget s)) + unat n \<and>
        work_units (sc_budget t) \<le> limit_get (maximum_work (sc_budget s)))
     (\<lambda>_ t. paid s t \<and> counters t = counters s) s"
  by (auto simp: outcome_def scan_charge_def Let_def paid_def steady_def counters_def solvent_def
      demand_def auxiliary_work_units_def
      split: prod.split result.split processing_budget_decision.split
      dest!: processing_exhausted dest: processing_continue)

lemma reserve_units_reserves:
  "outcome (reserve_units n)
     (\<lambda>_ t. paid s t \<and> counters t = counters s \<and> n \<le> sc_reserved_work_units t)
     (\<lambda>_ t. paid s t \<and> counters t = counters s) s"
proof (cases "n \<le> sc_reserved_work_units s")
  case True
  then show ?thesis by (simp add: outcome_def reserve_units_def saturating_sub_def)
next
  case False
  let ?k = "n - sc_reserved_work_units s"
  have k: "unat ?k = unat n - unat (sc_reserved_work_units s)" "?k \<noteq> 0"
    using False by (auto simp: unat_sub word_le_nat_alt)
  have "solvent s \<Longrightarrow> solvent (t\<lparr>sc_reserved_work_units := n\<rparr>)"
    if t: "steady s t" "counters t = counters s" "maximum_work (sc_budget t) = maximum_work (sc_budget s)"
      "unat (work_units (sc_budget t)) = unat (work_units (sc_budget s)) + unat ?k"
      "work_units (sc_budget t) \<le> limit_get (maximum_work (sc_budget s))" for t
  proof -
    assume s: "solvent s"
    have "demand (t\<lparr>sc_reserved_work_units := n\<rparr>) = demand s"
      using demand_cong [OF t(1,2)] by (simp add: demand_def auxiliary_work_units_def)
    then show ?thesis
      using s t False k by (auto simp: solvent_def word_le_nat_alt word_unat_eq_iff)
  qed
  then have "outcome (m_then (scan_charge ?k) (\<lambda>_. changing (\<lambda>s. s\<lparr>sc_reserved_work_units := n\<rparr>)))
     (\<lambda>_ t. paid s t \<and> counters t = counters s \<and> n \<le> sc_reserved_work_units t)
     (\<lambda>_ t. paid s t \<and> counters t = counters s) s"
    unfolding outcome_simps
    by (intro outcome_weaken [OF scan_charge_charges [of ?k s]])
      (auto simp: paid_def steady_def counters_def)
  then show ?thesis
    by (rule outcome_unfold [rotated]) (use False k in \<open>auto simp: reserve_units_def saturating_sub_def\<close>)
qed

lemma demand_counted:
  "demand s = saturating_add (max (primary_work_units (sc_observed_bytes s) (sc_observed_values s))
     (units_of_work (fst (counters s)) BYTES_PER_WORK_UNIT)) (snd (counters s))"
  by (simp add: demand_def counters_def auxiliary_work_units_def)

lemma poll_clock_paid: "outcome poll_clock (\<lambda>_ t. paid s t) (\<lambda>_. paid s) s"
proof -
  have "solvent s \<Longrightarrow> solvent t" if "steady s t" "counters t = counters s"
    "sc_reserved_work_units t = sc_reserved_work_units s" "maximum_work (sc_budget t) = maximum_work (sc_budget s)"
    "unat (work_units (sc_budget t)) = unat (work_units (sc_budget s)) + unat (0 :: u64)"
    for t
    using that demand_cong [of s t] by (auto simp: solvent_def word_unat_eq_iff word_le_nat_alt)
  then show ?thesis
    unfolding poll_clock_def
    by (intro outcome_weaken [OF scan_charge_charges [of 0 s]]) (auto simp: paid_def)
qed

lemma reserve_work_reserves:
  "outcome (reserve_work b v)
     (\<lambda>_ t. paid s t \<and> counters t = counters s \<and>
        demand (t\<lparr>sc_observed_bytes := b, sc_observed_values := v\<rparr>) \<le> sc_reserved_work_units t)
     (\<lambda>_. paid s) s"
  by (rule outcome_unfold [OF reserve_work_def], rule outcome_weaken [OF reserve_units_reserves])
    (auto simp: demand_def counters_def auxiliary_work_units_def)

lemma reserve_auxiliary_bytes_paid: "outcome (reserve_auxiliary_bytes n) (\<lambda>_. paid s) (\<lambda>_. paid s) s"
  by (rule outcome_unfold, simp only: reserve_auxiliary_bytes_def Let_def, unfold outcome_simps,
      rule outcome_weaken [OF reserve_units_reserves])
    (auto simp: paid_def steady_def counters_def solvent_def demand_def auxiliary_work_units_def)

lemma charge_name_comparison_paid: "outcome charge_name_comparison (\<lambda>_. paid s) (\<lambda>_. paid s) s"
  by (rule outcome_unfold, simp only: charge_name_comparison_def Let_def, unfold outcome_simps,
      rule outcome_weaken [OF reserve_units_reserves])
    (auto simp: paid_def steady_def counters_def solvent_def demand_def auxiliary_work_units_def)

end
