(* ===== verification/Span_Paths.thy ===== *)
theory Span_Paths
  imports Span_Scanner
begin

text \<open>
  The semantic path of a value is built piece by piece: the retained text, the number of bytes and
  the hashed bytes grow with every token. Here it is compared with the bounding of the whole path.
\<close>

section \<open>Retaining ASCII text\<close>

lemma retain_chars_ascii:
  assumes "maximum < usize_limit - 1" and "length retained \<le> maximum"
  shows "retain_chars maximum retained (map (\<lambda>c. [c]) s) = retained @ take (maximum - length retained) s"
  using assms(2)
proof (induction s arbitrary: retained)
  case (Cons c s)
  then show ?case
    using assms(1) by (cases "length retained = maximum")
      (auto simp: usize_saturating_add_def take_Cons' Suc_le_eq)
qed simp

definition ascii_text :: "string \<Rightarrow> bool" where
  "ascii_text s \<longleftrightarrow> list_all (\<lambda>c. byte c < 0x80) s"

lemma ascii_text_append [simp]: "ascii_text (s @ t) \<longleftrightarrow> ascii_text s \<and> ascii_text t"
  by (simp add: ascii_text_def)

section \<open>Paths\<close>

definition path_of :: "string list \<Rightarrow> path_state" where
  "path_of texts = fold path_append texts path_new"

definition retained_prefix :: "string \<Rightarrow> path_state \<Rightarrow> bool" where
  "retained_prefix s path \<longleftrightarrow> ps_retained path = take SEMANTIC_PATH_MAX_BYTES s \<and>
     ps_original_bytes path = u64_of_len_or_max (length s) \<and> ps_hashed path = s"

lemma path_append_prefix:
  assumes "retained_prefix s path" and "ascii_text t" and "length (s @ t) < 2 ^ 64"
  shows "retained_prefix (s @ t) (path_append t path)"
proof -
  have "saturating_add (u64_of_len_or_max (length s)) (u64_of_len_or_max (length t)) =
      u64_of_len_or_max (length (s @ t))"
    using assms(3) by (simp add: word_unat_eq_iff unat_saturating_add unat_u64_of_len_or_max)
  moreover have "retain_chars SEMANTIC_PATH_MAX_BYTES (take SEMANTIC_PATH_MAX_BYTES s) (utf8_chars t) =
      take SEMANTIC_PATH_MAX_BYTES (s @ t)"
    using assms(2)
    by (simp add: utf8_chars_ascii ascii_text_def retain_chars_ascii SEMANTIC_PATH_MAX_BYTES_def usize_limit_def
        min_def)
  ultimately show ?thesis
    using assms(1) by (auto simp: retained_prefix_def path_append_def Let_def)
qed

lemma path_of_prefix:
  "ascii_text (concat texts) \<Longrightarrow> length (concat texts) < 2 ^ 64 \<Longrightarrow>
   retained_prefix (concat texts) (path_of texts)"
proof (induction texts rule: rev_induct)
  case Nil
  show ?case by (simp add: path_of_def retained_prefix_def path_new_def u64_of_len_or_max_def)
next
  case (snoc t texts)
  then show ?case
    using path_append_prefix [of "concat texts" "path_of texts" t] by (simp add: path_of_def)
qed

text \<open>
  For ASCII paths, the path built token by token is the bounded form of the whole path: the same
  retained prefix, the same length, and a hash exactly when it was cut.
\<close>

theorem incremental_path_is_bounded_path:
  assumes "ascii_text (concat texts)" and "length (concat texts) < 2 ^ 64"
  shows "path_metadata digest (path_of texts) = semantic_path digest (concat texts)"
proof -
  have p: "retained_prefix (concat texts) (path_of texts)" using assms by (rule path_of_prefix)
  have chars: "retain_chars SEMANTIC_PATH_MAX_BYTES [] (utf8_chars (concat texts)) =
      take SEMANTIC_PATH_MAX_BYTES (concat texts)"
    using assms(1) retain_chars_ascii [of SEMANTIC_PATH_MAX_BYTES "[]"]
    by (simp add: utf8_chars_ascii ascii_text_def SEMANTIC_PATH_MAX_BYTES_def usize_limit_def)
  have "u64_of_len_or_max (length (concat texts)) \<le> u64_of_len_or_max SEMANTIC_PATH_MAX_BYTES \<longleftrightarrow>
      length (concat texts) \<le> SEMANTIC_PATH_MAX_BYTES"
    using assms(2) by (simp add: word_le_nat_alt unat_u64_of_len_or_max SEMANTIC_PATH_MAX_BYTES_def)
  then show ?thesis
    using p chars
    by (auto simp: path_metadata_def semantic_path_def metadata_bounded_def retained_prefix_def
        semantic_path_from_incremental_def Let_def)
qed

theorem incremental_path_is_bounded_path_witness:
  "path_metadata (\<lambda>_. ContextDigest (Digest32 (replicate 32 0))) (path_of [''/a'', ''/0'']) =
     semantic_path (\<lambda>_. ContextDigest (Digest32 (replicate 32 0))) ''/a/0''"
  using incremental_path_is_bounded_path [of "[''/a'', ''/0'']"]
  by (simp add: ascii_text_def byte_def)

text \<open>
  With longer characters it is not: after a character that did not fit, a shorter one that
  follows is retained, so the retained text is no prefix of the path.
\<close>

theorem retained_path_skips_characters:
  "let path = path_of [replicate 255 (CHR ''a''), [CHR 0xC3, CHR 0xA9], ''/'']
   in ps_hashed path = replicate 255 (CHR ''a'') @ [CHR 0xC3, CHR 0xA9] @ ''/'' \<and>
     ps_retained path = replicate 255 (CHR ''a'') @ ''/'' \<and>
     \<not> prefix (ps_retained path) (ps_hashed path)"
proof -
  let ?a = "replicate 255 (CHR ''a'')" and ?e = "[CHR 0xC3, CHR 0xA9]"
  let ?p1 = "path_append ?a path_new" and ?max = "SEMANTIC_PATH_MAX_BYTES"
  have max: "?max = 256" by (simp add: SEMANTIC_PATH_MAX_BYTES_def)
  have ascii: "ascii_text ?a" by (simp add: ascii_text_def list_all_iff byte_def)
  have "retained_prefix ([] @ ?a) ?p1"
    by (rule path_append_prefix [OF _ ascii])
      (simp_all add: retained_prefix_def path_new_def u64_of_len_or_max_def)
  then have p1: "ps_retained ?p1 = ?a" "ps_hashed ?p1 = ?a"
    by (simp_all add: retained_prefix_def max)
  have e: "utf8_chars ?e = [?e]"
    by (simp add: utf8_chars.simps [of ?e] utf8_next_def utf8_width_def second_byte_ok_def
        continuation_def byte_def)
  have keep: "retain_chars ?max ?a [?e] = ?a" by (simp add: max usize_saturating_add_def usize_limit_def)
  have p2: "ps_retained (path_append ?e ?p1) = ?a" "ps_hashed (path_append ?e ?p1) = ?a @ ?e"
    unfolding path_append_def [of ?e] Let_def using p1 e keep by (simp_all add: max)
  have slash: "utf8_chars ''/'' = [''/'']" using utf8_chars_ascii [of "''/''"] by (simp add: byte_def)
  have add: "retain_chars ?max ?a [''/''] = ?a @ ''/''"
    by (simp add: max usize_saturating_add_def usize_limit_def)
  have p3: "ps_retained (path_of [?a, ?e, ''/'']) = ?a @ ''/''"
    "ps_hashed (path_of [?a, ?e, ''/'']) = ?a @ ?e @ ''/''"
    unfolding path_of_def fold_simps path_append_def [of "''/''"] Let_def comp_def
    using p2 slash add by (simp_all add: max)
  moreover have "\<not> prefix (?a @ ''/'') (?a @ ?e @ ''/'')" by (simp only: same_prefix_prefix) simp
  ultimately show ?thesis by (simp only: Let_def simp_thms)
qed

end
