(* ===== verification/Span_Scan.thy ===== *)
theory Span_Scan
  imports Span_Scanner
begin

text \<open>
  \<open>crates/tracepress-context/src/span.rs\<close>: the operations of the scan: positions, nodes, paths,
  member names, strings, numbers and literals, the explicit stack of open containers, and the index
  a finished scan leaves. The loops over the frames may not end a priori; \<open>None\<close> is not returning.
\<close>

section \<open>Loops over bytes\<close>

lemma scan_charge_cursor:
  "scan_charge n s = (Ok u, t) \<Longrightarrow> steady s t"
  using outcome_Ok [OF scan_charge_charges] by blast

lemma advance_cursor:
  assumes "advance n s = (Ok u, t)"
  shows "sc_window t = sc_window s \<and> sc_cursor t = min (sc_cursor s + n) (length (sc_window s))"
proof -
  have "outcome (advance n) (\<lambda>_ t. sc_window t = sc_window s \<and>
      sc_cursor t = min (sc_cursor s + n) (length (sc_window s))) (\<lambda>_ _. True) s"
    by (rule outcome_unfold, simp only: advance_def Let_def, unfold outcome_simps,
        rule outcome_weaken [OF reserve_work_reserves])
      (auto simp: outcome_def take_bytes_def paid_def steady_def split: prod.split result.split)
  from outcome_Ok [OF this assms] show ?thesis .
qed

lemma advance_progress:
  assumes "advance 1 s = (Ok u, t)" and "peek s = Some b"
  shows "sc_window t = sc_window s \<and> sc_cursor s < sc_cursor t \<and> sc_cursor t \<le> length (sc_window s)"
  using advance_cursor [OF assms(1)] assms(2) by (auto simp: peek_def split: if_splits)

function skip_while :: "(char \<Rightarrow> bool) \<Rightarrow> unit scan" where
  "skip_while p s =
     (case peek s of
        Some b \<Rightarrow> if p b then m_then (advance 1) (\<lambda>_ t. skip_while p t) s else (Ok (), s)
      | None \<Rightarrow> (Ok (), s))"
  by pat_completeness auto

termination skip_while
  by (relation "measure (\<lambda>(p, s). length (sc_window s) - sc_cursor s)") (auto simp del: One_nat_def dest: advance_progress)

declare skip_while.simps [simp del]

definition json_whitespace :: "char \<Rightarrow> bool" where
  "json_whitespace b \<longleftrightarrow> b = CHR 0x20 \<or> b = CHR 0x09 \<or> b = CHR 0x0A \<or> b = CHR 0x0D"

definition skip_whitespace :: "unit scan" where
  "skip_whitespace = skip_while json_whitespace"

definition skip_digits :: "unit scan" where
  "skip_digits = skip_while is_ascii_digit"

definition require_digit :: "unit scan" where
  "require_digit = expect is_ascii_digit"

text \<open>\<open>if self.peek() == Some(...) { m }\<close>.\<close>

definition when_next :: "(char \<Rightarrow> bool) \<Rightarrow> unit scan \<Rightarrow> unit scan" where
  "when_next p m s = (case peek s of None \<Rightarrow> ret () s | Some b \<Rightarrow> (if p b then m else ret ()) s)"

text \<open>The four parts of \<open>scan_number\<close>, in order.\<close>

definition scan_sign :: "unit scan" where
  "scan_sign = when_next (\<lambda>b. b = CHR ''-'') (advance 1)"

definition scan_integer :: "unit scan" where
  "scan_integer s =
     (case peek s of
        None \<Rightarrow> halt (StopMalformed UnexpectedEnd) s
      | Some b \<Rightarrow>
          (if b = CHR ''0'' then advance 1
           else if is_ascii_digit b then m_then (advance 1) (\<lambda>_. skip_digits)
           else halt (StopMalformed Syntax)) s)"

definition scan_fraction :: "unit scan" where
  "scan_fraction = when_next (\<lambda>b. b = CHR ''.'')
     (m_then (advance 1) (\<lambda>_. m_then require_digit (\<lambda>_. skip_digits)))"

definition scan_exponent :: "unit scan" where
  "scan_exponent = when_next (\<lambda>b. b = CHR ''e'' \<or> b = CHR ''E'')
     (m_then (advance 1) (\<lambda>_.
      m_then (when_next (\<lambda>b. b = CHR ''+'' \<or> b = CHR ''-'') (advance 1)) (\<lambda>_.
      m_then require_digit (\<lambda>_. skip_digits))))"

definition scan_number :: "unit scan" where
  "scan_number = m_then scan_sign (\<lambda>_. m_then scan_integer (\<lambda>_. m_then scan_fraction (\<lambda>_. scan_exponent)))"

section \<open>Nodes\<close>

text \<open>\<open>node_mut\<close>: nothing happens to an identity that is out of range.\<close>

definition with_node :: "span_node_id \<Rightarrow> (span_node \<Rightarrow> span_node) \<Rightarrow> scanner \<Rightarrow> scanner" where
  "with_node ident g s = s\<lparr>sc_nodes := (sc_nodes s)[unat ident := g (sc_nodes s ! unat ident)]\<rparr>"

definition set_raw_end :: "u64 \<Rightarrow> span_node \<Rightarrow> span_node" where
  "set_raw_end end node = node\<lparr>sn_locator := (sn_locator node)\<lparr>bl_raw_value_end := end\<rparr>\<rparr>"

definition link_child :: "span_node_id \<Rightarrow> span_node_id \<Rightarrow> scanner \<Rightarrow> scanner" where
  "link_child parent child s =
     (if unat parent < length (sc_nodes s) then
        let previous = sn_last_child (sc_nodes s ! unat parent);
            s = with_node parent (\<lambda>node. node\<lparr>
                  sn_first_child := if previous = None then Some child else sn_first_child node,
                  sn_last_child := Some child,
                  sn_child_count := saturating_add (sn_child_count node) 1\<rparr>) s
        in case previous of
             Some sibling \<Rightarrow> with_node sibling (\<lambda>node. node\<lparr>sn_next_sibling := Some child\<rparr>) s
           | None \<Rightarrow> s
      else s)"

definition u32_of_len :: "nat \<Rightarrow> u32 option" where
  "u32_of_len n = (if n < 2 ^ 32 then Some (of_nat n) else None)"

definition new_node ::
  "(string \<Rightarrow> context_digest) \<Rightarrow> value_context \<Rightarrow> json_value_kind \<Rightarrow> span_node_id \<Rightarrow> path_state \<Rightarrow> span_node"
  where
  "new_node digest context kind ident path =
     (let start_byte = u64_of_len_or_max (vc_start context)
      in \<lparr>sn_id = ident, sn_parent = vc_parent context, sn_first_child = None, sn_last_child = None,
          sn_next_sibling = None,
          sn_locator = \<lparr>bl_semantic_path = path_metadata digest path,
            bl_raw_value_start = start_byte, bl_raw_value_end = start_byte,
            bl_occurrence = vc_occurrence context\<rparr>,
          sn_kind = kind, sn_depth = vc_depth context, sn_name = vc_name context,
          sn_array_index = vc_array_index context, sn_child_count = 0,
          sn_complete = False, sn_duplicate_key_detected = False\<rparr>)"

definition place_node ::
  "(string \<Rightarrow> context_digest) \<Rightarrow> value_context \<Rightarrow> json_value_kind \<Rightarrow> span_node_id scan" where
  "place_node digest context kind s =
     (case u32_of_len (length (sc_nodes s)) of
        None \<Rightarrow> halt (StopLimit Blocks) s
      | Some ident \<Rightarrow>
          let s = s\<lparr>sc_nodes := sc_nodes s @ [new_node digest context kind ident (sc_path s)],
                    sc_observed_values := saturating_add (sc_observed_values s) 1\<rparr>
          in (Ok ident, case vc_parent context of
                Some parent \<Rightarrow> link_child parent ident s
              | None \<Rightarrow> s))"

definition push_node ::
  "(string \<Rightarrow> context_digest) \<Rightarrow> value_context \<Rightarrow> json_value_kind \<Rightarrow> span_node_id scan" where
  "push_node digest context kind s =
     (if length (sc_nodes s) \<ge> sc_max_blocks s then halt (StopLimit Blocks) s
      else m_then poll_clock (\<lambda>_.
        m_then (\<lambda>s. reserve_work (sc_observed_bytes s) (saturating_add (sc_observed_values s) 1) s) (\<lambda>_.
        place_node digest context kind)) s)"

definition finish_node :: "span_node_id \<Rightarrow> u64 \<Rightarrow> scanner \<Rightarrow> scanner" where
  "finish_node ident end = with_node ident (\<lambda>node. (set_raw_end end node)\<lparr>sn_complete := True\<rparr>)"

definition count_child :: "nat \<Rightarrow> scanner \<Rightarrow> scanner" where
  "count_child index s = s\<lparr>sc_frames := (sc_frames s)[index :=
     (sc_frames s ! index)\<lparr>fr_children := saturating_add (fr_children (sc_frames s ! index)) 1\<rparr>]\<rparr>"

section \<open>Paths\<close>

definition path_checkpoint :: "nat scan" where
  "path_checkpoint s =
     (Ok (length (sc_path_checkpoints s)), s\<lparr>sc_path_checkpoints := sc_path_checkpoints s @ [sc_path s]\<rparr>)"

definition rewind_path :: "nat \<Rightarrow> scanner \<Rightarrow> scanner" where
  "rewind_path base s =
     (if base < length (sc_path_checkpoints s)
      then s\<lparr>sc_path := sc_path_checkpoints s ! base,
             sc_path_checkpoints := take base (sc_path_checkpoints s)\<rparr>
      else s)"

definition append_path_text :: "string \<Rightarrow> unit scan" where
  "append_path_text text =
     m_then (reserve_auxiliary_bytes (u64_of_len_or_max (length text)))
       (\<lambda>_. changing (\<lambda>s. s\<lparr>sc_path := path_append text (sc_path s)\<rparr>))"

definition push_array_token :: "u32 \<Rightarrow> unit scan" where
  "push_array_token index = m_then (append_path_text ''/'') (\<lambda>_. append_path_text (decimal_bytes index))"

definition span_bounds :: "scanner \<Rightarrow> raw_span \<Rightarrow> (nat \<times> nat) option" where
  "span_bounds s sp =
     (if unat (rs_start sp) \<le> unat (rs_end sp) \<and> unat (rs_end sp) \<le> length (sc_window s)
      then Some (unat (rs_start sp), unat (rs_end sp)) else None)"

text \<open>The text between two positions of the window, when it is UTF-8.\<close>

definition window_text :: "scanner \<Rightarrow> nat \<Rightarrow> nat \<Rightarrow> string option" where
  "window_text s start end =
     (case get_range (sc_window s) start end of
        Some bytes \<Rightarrow> if utf8_ok bytes then Some bytes else None
      | None \<Rightarrow> None)"

text \<open>
  The step the loops over a name share: the clock every 256 units, the bytes inspected, one unit.
\<close>

definition poll_position :: "nat \<Rightarrow> unit scan" where
  "poll_position position = m_when (position mod 256 = 0) poll_clock"

definition inspect_unit :: "nat \<Rightarrow> string list \<Rightarrow> (string_unit \<times> string list) scan" where
  "inspect_unit position units =
     m_then (poll_position position) (\<lambda>_.
     m_then (reserve_auxiliary_bytes
         (u64_of_len_or_max (min (remaining_bytes units) MAX_JSON_STRING_UNIT_BYTES))) (\<lambda>_.
     (case units_next units of
        Some (Ok unit, units') \<Rightarrow> ret (unit, units')
      | _ \<Rightarrow> halt (StopMalformed Syntax))))"

definition REPLACEMENT_CHARACTER :: nat where "REPLACEMENT_CHARACTER = 0xFFFD"

definition token_text :: "string_unit \<Rightarrow> string" where
  "token_text unit =
     (let c = (case unit of Character c \<Rightarrow> c | UnpairedSurrogate _ \<Rightarrow> REPLACEMENT_CHARACTER)
      in if c = byte CHR ''~'' then ''~0'' else if c = byte CHR ''/'' then ''~1'' else encode_utf8 c)"

lemma inspect_unit_shrinks:
  "inspect_unit position units s = (Ok (unit, units'), t) \<Longrightarrow> length units' < length units"
  using units_next_shrinks
  by (auto simp: inspect_unit_def m_then_def ret_def halt_def
      split: prod.splits result.splits option.splits)

function push_units :: "nat \<Rightarrow> string list \<Rightarrow> unit scan" where
  "push_units position units s =
     (if remaining_bytes units > 0
      then m_then (inspect_unit position units) (\<lambda>(unit, units').
        m_then (append_path_text (token_text unit)) (\<lambda>_ t. push_units (position + 1) units' t)) s
      else (Ok (), s))"
  by pat_completeness auto

termination push_units
  by (relation "measure (\<lambda>(position, units, s). length units)") (auto dest: inspect_unit_shrinks)

declare push_units.simps [simp del]

definition push_name_token :: "raw_span \<Rightarrow> unit scan" where
  "push_name_token name =
     m_then (append_path_text ''/'') (\<lambda>_ s.
       case inner_span name of
         None \<Rightarrow> (Ok (), s)
       | Some content \<Rightarrow>
           (case span_bounds s content of
              None \<Rightarrow> (Ok (), s)
            | Some (start, end) \<Rightarrow>
                m_then (reserve_auxiliary_bytes (u64_of_len_or_max (end - start))) (\<lambda>_ s.
                  case window_text s start end of
                    None \<Rightarrow> (Ok (), s)
                  | Some text \<Rightarrow> push_units 0 (utf8_chars text) s) s))"

section \<open>Member names\<close>

function hash_units :: "nat \<Rightarrow> u64 \<Rightarrow> string list \<Rightarrow> u64 scan" where
  "hash_units position hash units s =
     (if remaining_bytes units > 0
      then m_then (inspect_unit position units) (\<lambda>(unit, units') t.
        hash_units (position + 1) (mix hash (tagged_code unit)) units' t) s
      else (Ok hash, s))"
  by pat_completeness auto

termination hash_units
  by (relation "measure (\<lambda>(position, hash, units, s). length units)") (auto dest: inspect_unit_shrinks)

declare hash_units.simps [simp del]

definition hash_name :: "raw_span \<Rightarrow> u64 scan" where
  "hash_name content s =
     (case span_bounds s content of
        None \<Rightarrow> (Ok NAME_HASH_OFFSET, s)
      | Some (start, end) \<Rightarrow>
          m_then (reserve_auxiliary_bytes (u64_of_len_or_max (end - start))) (\<lambda>_ s.
            case window_text s start end of
              None \<Rightarrow> (Ok NAME_HASH_OFFSET, s)
            | Some text \<Rightarrow> hash_units 0 NAME_HASH_OFFSET (utf8_chars text) s) s)"

definition inspected :: "string list \<Rightarrow> u64" where
  "inspected units = u64_of_len_or_max (min (remaining_bytes units) MAX_JSON_STRING_UNIT_BYTES)"

function equal_units :: "nat \<Rightarrow> string list \<Rightarrow> string list \<Rightarrow> bool scan" where
  "equal_units position left right s =
     m_then charge_name_comparison (\<lambda>_.
     m_then (poll_position position) (\<lambda>_.
     m_then (reserve_auxiliary_bytes (inspected left)) (\<lambda>_.
     m_then (reserve_auxiliary_bytes (inspected right)) (\<lambda>_ t.
       case (units_next left, units_next right) of
         (None, None) \<Rightarrow> (Ok True, t)
       | (Some (Ok left_unit, left'), Some (Ok right_unit, right')) \<Rightarrow>
           if left_unit = right_unit then equal_units (position + 1) left' right' t else (Ok False, t)
       | _ \<Rightarrow> (Ok False, t))))) s"
  by pat_completeness auto

termination equal_units
  by (relation "measure (\<lambda>(position, left, right, s). length left)")
    (auto dest: units_next_shrinks [OF sym])

declare equal_units.simps [simp del]

definition names_equal :: "raw_span \<Rightarrow> raw_span \<Rightarrow> bool scan" where
  "names_equal left right s =
     (if left = right then (Ok True, s)
      else case span_bounds s left of
        None \<Rightarrow> (Ok False, s)
      | Some (left_start, left_end) \<Rightarrow>
          (case span_bounds s right of
             None \<Rightarrow> (Ok False, s)
           | Some (right_start, right_end) \<Rightarrow>
               m_then (reserve_auxiliary_bytes
                   (u64_of_len_or_max ((left_end - left_start) + (right_end - right_start)))) (\<lambda>_ s.
                 case (window_text s left_start left_end, window_text s right_start right_end) of
                   (Some left_text, Some right_text) \<Rightarrow>
                     equal_units 0 (utf8_chars left_text) (utf8_chars right_text) s
                 | _ \<Rightarrow> (Ok False, s)) s))"

fun find_name :: "nat \<Rightarrow> raw_span \<Rightarrow> name_entry list \<Rightarrow> (nat \<times> u32) option scan" where
  "find_name position content [] s = (Ok None, s)"
| "find_name position content (entry # entries) s =
     m_then (names_equal (ne_content entry) content) (\<lambda>same t.
       if same then (Ok (Some (position, ne_occurrences entry)), t)
       else find_name (position + 1) content entries t) s"

definition mark_duplicate :: "span_node_id \<Rightarrow> scanner \<Rightarrow> scanner" where
  "mark_duplicate object s =
     with_node object (\<lambda>node. node\<lparr>sn_duplicate_key_detected := True\<rparr>)
       (s\<lparr>sc_duplicate_key_detected := True\<rparr>)"

text \<open>The bucket of a name is taken out of the table while it is compared with the others.\<close>

definition take_bucket :: "span_node_id \<times> u64 \<Rightarrow> name_entry list scan" where
  "take_bucket key s =
     (Ok (case sc_names s key of Some entries \<Rightarrow> entries | None \<Rightarrow> []),
      s\<lparr>sc_names := (sc_names s)(key := None)\<rparr>)"

definition put_bucket :: "span_node_id \<times> u64 \<Rightarrow> name_entry list \<Rightarrow> scanner \<Rightarrow> scanner" where
  "put_bucket key entries s =
     s\<lparr>sc_names := (sc_names s)(key \<mapsto>
        (case sc_names s key of Some prior \<Rightarrow> entries @ prior | None \<Rightarrow> entries))\<rparr>"

definition store_name ::
  "span_node_id \<times> u64 \<Rightarrow> raw_span \<Rightarrow> name_entry list \<Rightarrow> (nat \<times> u32) option \<Rightarrow> u32 scan" where
  "store_name key content entries matched s =
     (case matched of
        Some (position, seen) \<Rightarrow>
          (Ok seen, put_bucket key (entries[position :=
               (entries ! position)\<lparr>ne_occurrences := saturating_add seen 1\<rparr>])
             (mark_duplicate (fst key) s))
      | None \<Rightarrow>
          (Ok 0, put_bucket key (entries @ [\<lparr>ne_content = content, ne_occurrences = 1\<rparr>]) s))"

definition record_name :: "span_node_id \<Rightarrow> raw_span \<Rightarrow> u32 scan" where
  "record_name object name =
     (case inner_span name of
        None \<Rightarrow> ret 0
      | Some content \<Rightarrow>
          m_then (hash_name content) (\<lambda>hash.
          m_then (take_bucket (object, hash)) (\<lambda>entries.
          m_then (find_name 0 content entries) (store_name (object, hash) content entries))))"

section \<open>Strings\<close>

definition advance_string :: "span_node_id option \<Rightarrow> unit scan" where
  "advance_string node =
     m_then (advance 1) (\<lambda>_. changing (\<lambda>s.
       case node of
         Some ident \<Rightarrow> with_node ident (set_raw_end (u64_of_len_or_max (sc_cursor s))) s
       | None \<Rightarrow> s))"

definition is_ascii_hexdigit :: "char \<Rightarrow> bool" where
  "is_ascii_hexdigit c \<longleftrightarrow> hex_digit_value [c] \<noteq> None"

fun hex_digits :: "nat \<Rightarrow> span_node_id option \<Rightarrow> unit scan" where
  "hex_digits 0 node s = (Ok (), s)"
| "hex_digits (Suc n) node s =
     (case peek s of
        None \<Rightarrow> halt (StopMalformed UnexpectedEnd) s
      | Some digit \<Rightarrow>
          if \<not> is_ascii_hexdigit digit then halt (StopMalformed Syntax) s
          else m_then (advance_string node) (\<lambda>_ t. hex_digits n node t) s)"

definition one_byte_escapes :: string where
  "one_byte_escapes = [CHR 0x22, CHR 0x5C] @ ''/bfnrt''"

definition scan_escape :: "span_node_id option \<Rightarrow> unit scan" where
  "scan_escape node s =
     (case peek s of
        None \<Rightarrow> halt (StopMalformed UnexpectedEnd) s
      | Some escape \<Rightarrow>
          m_then (advance_string node) (\<lambda>_.
            if escape \<in> set one_byte_escapes then ret ()
            else if escape = CHR ''u'' then hex_digits 4 node
            else halt (StopMalformed Syntax)) s)"

text \<open>One turn of the loop of \<open>scan_string\<close>: whether the closing quote was read.\<close>

definition string_turn :: "span_node_id option \<Rightarrow> bool scan" where
  "string_turn node s =
     (case peek s of
        None \<Rightarrow> halt (StopMalformed UnexpectedEnd) s
      | Some b \<Rightarrow>
          m_then (advance_string node) (\<lambda>_.
            if b = CHR 0x22 then ret True
            else if b = CHR 0x5C then m_then (scan_escape node) (\<lambda>_. ret False)
            else if byte b \<le> 0x1f then halt (StopMalformed Syntax)
            else ret False) s)"

lemma advance_string_cursor:
  "outcome (advance_string node) (\<lambda>_ t. sc_window t = sc_window s \<and>
     sc_cursor t = min (sc_cursor s + 1) (length (sc_window s))) (\<lambda>_ _. True) s"
  unfolding advance_string_def outcome_simps
  by (rule outcome_resultI) (use advance_cursor in \<open>auto simp: with_node_def split: option.split\<close>)

definition onward :: "scanner \<Rightarrow> scanner \<Rightarrow> bool" where
  "onward s t \<longleftrightarrow> sc_window t = sc_window s \<and>
     min (sc_cursor s) (length (sc_window s)) \<le> sc_cursor t \<and>
     (sc_cursor s \<le> length (sc_window s) \<longrightarrow> sc_cursor t \<le> length (sc_window s))"

lemma onward_refl [simp]: "onward s s"
  by (simp add: onward_def)

lemma onward_trans: "onward s t \<Longrightarrow> onward t u \<Longrightarrow> onward s u"
  by (auto simp: onward_def)

lemma outcome_onward_trans:
  "onward s t \<Longrightarrow> outcome m (\<lambda>_. onward t) (\<lambda>_ _. True) t \<Longrightarrow> outcome m (\<lambda>_. onward s) (\<lambda>_ _. True) t"
  by (erule outcome_weaken) (auto intro: onward_trans)

lemma advance_string_onward: "outcome (advance_string node) (\<lambda>_. onward s) (\<lambda>_ _. True) s"
  by (rule outcome_weaken [OF advance_string_cursor]) (auto simp: onward_def)

lemma hex_digits_onward: "outcome (hex_digits n node) (\<lambda>_. onward s) (\<lambda>_ _. True) s"
proof (induction n arbitrary: s)
  case (Suc n)
  have turn: "outcome (m_then (advance_string node) (\<lambda>_. hex_digits n node)) (\<lambda>_. onward s) (\<lambda>_ _. True) s"
    unfolding outcome_simps
    by (rule outcome_weaken [OF advance_string_onward]) (auto intro: outcome_onward_trans Suc)
  show ?case
  proof (cases "\<exists>b. peek s = Some b \<and> is_ascii_hexdigit b")
    case True
    then show ?thesis by (intro outcome_unfold [OF _ turn]) auto
  qed (auto simp: outcome_def halt_def split: option.split)
qed (simp add: outcome_def)

lemma scan_escape_onward: "outcome (scan_escape node) (\<lambda>_. onward s) (\<lambda>_ _. True) s"
proof (cases "peek s")
  case (Some b)
  let ?rest = "\<lambda>_ :: unit. if b \<in> set one_byte_escapes then ret ()
    else if b = CHR ''u'' then hex_digits 4 node else halt (StopMalformed Syntax)"
  have "outcome (m_then (advance_string node) ?rest) (\<lambda>_. onward s) (\<lambda>_ _. True) s"
    unfolding outcome_simps
    by (rule outcome_weaken [OF advance_string_onward]) (auto intro: outcome_onward_trans hex_digits_onward)
  then show ?thesis by (rule outcome_unfold [rotated]) (simp add: scan_escape_def Some)
qed (simp add: outcome_def scan_escape_def halt_def)

definition beyond :: "scanner \<Rightarrow> scanner \<Rightarrow> bool" where
  "beyond s t \<longleftrightarrow> sc_window t = sc_window s \<and> sc_cursor s < sc_cursor t \<and>
     sc_cursor t \<le> length (sc_window s)"

lemma string_turn_beyond: "outcome (string_turn node) (\<lambda>_. beyond s) (\<lambda>_ _. True) s"
proof (cases "peek s")
  case None
  then show ?thesis by (simp add: outcome_def string_turn_def halt_def)
next
  case (Some b)
  then have here: "sc_cursor s < length (sc_window s)" by (simp add: peek_def split: if_splits)
  let ?rest = "\<lambda>_ :: unit. if b = CHR 0x22 then ret True
    else if b = CHR 0x5C then m_then (scan_escape node) (\<lambda>_. ret False)
    else if byte b \<le> 0x1f then halt (StopMalformed Syntax) else ret False"
  have "outcome (m_then (advance_string node) ?rest) (\<lambda>_. beyond s) (\<lambda>_ _. True) s"
    unfolding outcome_m_then
  proof (rule outcome_weaken [OF advance_string_cursor])
    fix t :: scanner
    assume t: "sc_window t = sc_window s \<and> sc_cursor t = min (sc_cursor s + 1) (length (sc_window s))"
    have "outcome (scan_escape node) (\<lambda>_. beyond s) (\<lambda>_ _. True) t"
      by (rule outcome_weaken [OF scan_escape_onward]) (use here t in \<open>auto simp: onward_def beyond_def\<close>)
    moreover have "beyond s t" using here t by (simp add: beyond_def)
    ultimately show "outcome (?rest ()) (\<lambda>_. beyond s) (\<lambda>_ _. True) t" by auto
  qed simp
  then show ?thesis by (rule outcome_unfold [rotated]) (simp add: string_turn_def Some)
qed

lemma string_turn_progress: "string_turn node s = (Ok d, t) \<Longrightarrow> beyond s t"
  by (rule outcome_Ok [OF string_turn_beyond])

function string_turns :: "span_node_id option \<Rightarrow> unit scan" where
  "string_turns node s =
     m_then (string_turn node) (\<lambda>finished t. if finished then (Ok (), t) else string_turns node t) s"
  by pat_completeness auto

termination string_turns
  by (relation "measure (\<lambda>(node, s). length (sc_window s) - sc_cursor s)")
    (auto simp: beyond_def dest!: string_turn_progress)

declare string_turns.simps [simp del]

definition scan_string :: "span_node_id option \<Rightarrow> raw_span scan" where
  "scan_string node s =
     (let start = sc_cursor s
      in m_then (advance_string node) (\<lambda>_.
         m_then (string_turns node) (\<lambda>_ s.
           case raw_span_new (u64_of_len_or_max start) (u64_of_len_or_max (sc_cursor s)) of
             Some sp \<Rightarrow> (Ok sp, s)
           | None \<Rightarrow> (Err (StopMalformed Syntax), s))) s)"

section \<open>Values\<close>

definition read_literal ::
  "(string \<Rightarrow> context_digest) \<Rightarrow> value_context \<Rightarrow> literal \<Rightarrow> descent scan" where
  "read_literal digest context literal s =
     (let end = sc_cursor s + length (lit_word literal)
      in case get_range (sc_window s) (sc_cursor s) end of
           None \<Rightarrow> halt (StopMalformed UnexpectedEnd) s
         | Some found \<Rightarrow>
             if found \<noteq> lit_word literal then halt (StopMalformed Syntax) s
             else m_then (advance (length (lit_word literal))) (\<lambda>_.
               m_then (push_node digest context (lit_kind literal)) (\<lambda>node.
               m_then (changing (finish_node node (u64_of_len_or_max end))) (\<lambda>_. ret Completed))) s)"

definition enter_container ::
  "(string \<Rightarrow> context_digest) \<Rightarrow> value_context \<Rightarrow> json_value_kind \<Rightarrow> container \<Rightarrow> descent scan" where
  "enter_container digest context kind container =
     m_then (advance 1) (\<lambda>_.
     m_then (push_node digest context kind) (\<lambda>node.
     m_then (changing (\<lambda>s. s\<lparr>sc_frames := sc_frames s @
        [\<lparr>fr_node = node, fr_kind = container, fr_children = 0, fr_depth = vc_depth context,
          fr_path_base = vc_path_base context\<rparr>]\<rparr>)) (\<lambda>_. ret Entered)))"

definition read_value :: "(string \<Rightarrow> context_digest) \<Rightarrow> value_context \<Rightarrow> descent scan" where
  "read_value digest context s =
     (if vc_depth context > sc_max_depth s then halt (StopLimit JsonDepth) s
      else case peek s of
        None \<Rightarrow> halt (StopMalformed UnexpectedEnd) s
      | Some b \<Rightarrow>
          (if b = CHR ''{'' then enter_container digest context JsonObject ObjectContainer
           else if b = CHR ''['' then enter_container digest context JsonArray ArrayContainer
           else if b = CHR 0x22 then
             m_then (push_node digest context JsonString) (\<lambda>node.
             m_then (scan_string (Some node)) (\<lambda>sp.
             m_then (changing (finish_node node (rs_end sp))) (\<lambda>_. ret Completed)))
           else if b = CHR ''t'' then read_literal digest context literal_TRUE
           else if b = CHR ''f'' then read_literal digest context literal_FALSE
           else if b = CHR ''n'' then read_literal digest context literal_NULL
           else if b = CHR ''-'' \<or> is_ascii_digit b then
             m_then scan_number (\<lambda>_.
             m_then (push_node digest context JsonNumber) (\<lambda>node.
             m_then (changing (\<lambda>s. finish_node node (u64_of_len_or_max (sc_cursor s)) s)) (\<lambda>_.
             ret Completed)))
           else halt (StopMalformed Syntax)) s)"

section \<open>The stack of open containers\<close>

definition close_frame :: "scanner \<Rightarrow> scanner" where
  "close_frame s =
     (if sc_frames s = [] then s
      else let frame = last (sc_frames s);
               s = s\<lparr>sc_frames := butlast (sc_frames s)\<rparr>
           in rewind_path (fr_path_base frame)
                (finish_node (fr_node frame) (u64_of_len_or_max (sc_cursor s)) s))"

text \<open>
  What the two kinds of container share: the closing delimiter, or a separator after the first
  child. The result tells whether a child follows.
\<close>

definition next_child :: "char \<Rightarrow> frame \<Rightarrow> bool scan" where
  "next_child closing frame =
     m_then skip_whitespace (\<lambda>_ s.
       case peek s of
         None \<Rightarrow> halt (StopMalformed UnexpectedEnd) s
       | Some b \<Rightarrow>
           if b = closing
           then m_then (advance 1) (\<lambda>_. m_then (changing close_frame) (\<lambda>_.
                m_then poll_clock (\<lambda>_. ret False))) s
           else if b = CHR '','' \<and> fr_children frame > 0
           then m_then (advance 1) (\<lambda>_. m_then skip_whitespace (\<lambda>_. ret True)) s
           else if fr_children frame = 0 then ret True s
           else halt (StopMalformed Syntax) s)"

definition read_child ::
  "(string \<Rightarrow> context_digest) \<Rightarrow> nat \<Rightarrow> value_context \<Rightarrow> unit scan" where
  "read_child digest index context =
     m_then (read_value digest context) (\<lambda>descent.
     m_then (changing (\<lambda>s. if descent = Completed then rewind_path (vc_path_base context) s else s)) (\<lambda>_.
     m_then (changing (count_child index)) (\<lambda>_. poll_clock)))"

definition step_object :: "(string \<Rightarrow> context_digest) \<Rightarrow> nat \<Rightarrow> frame \<Rightarrow> unit scan" where
  "step_object digest index frame =
     m_then (next_child CHR ''}'' frame) (\<lambda>follows.
     if \<not> follows then ret ()
     else (\<lambda>s. if peek s \<noteq> Some CHR 0x22 then halt (unexpected s) s
       else m_then (scan_string None) (\<lambda>name.
            m_then skip_whitespace (\<lambda>_.
            m_then (expect (\<lambda>b. b = CHR '':'')) (\<lambda>_.
            m_then skip_whitespace (\<lambda>_.
            m_then (record_name (fr_node frame) name) (\<lambda>occurrence.
            m_then path_checkpoint (\<lambda>path_base.
            m_then (push_name_token name) (\<lambda>_ s.
              read_child digest index
                \<lparr>vc_parent = Some (fr_node frame), vc_name = Some name, vc_occurrence = occurrence,
                 vc_array_index = None, vc_depth = saturating_add (fr_depth frame) 1,
                 vc_path_base = path_base, vc_start = sc_cursor s\<rparr> s))))))) s))"

definition step_array :: "(string \<Rightarrow> context_digest) \<Rightarrow> nat \<Rightarrow> frame \<Rightarrow> unit scan" where
  "step_array digest index frame =
     m_then (next_child CHR '']'' frame) (\<lambda>follows.
     if \<not> follows then ret ()
     else m_then path_checkpoint (\<lambda>path_base.
          m_then (push_array_token (fr_children frame)) (\<lambda>_ s.
            read_child digest index
              \<lparr>vc_parent = Some (fr_node frame), vc_name = None, vc_occurrence = 0,
               vc_array_index = Some (fr_children frame), vc_depth = saturating_add (fr_depth frame) 1,
               vc_path_base = path_base, vc_start = sc_cursor s\<rparr> s)))"

definition scan_step :: "(string \<Rightarrow> context_digest) \<Rightarrow> unit scan" where
  "scan_step digest s =
     (if sc_frames s = [] then (Ok (), s)
      else let index = length (sc_frames s) - 1; frame = last (sc_frames s)
           in case fr_kind frame of
                ObjectContainer \<Rightarrow> step_object digest index frame s
              | ArrayContainer \<Rightarrow> step_array digest index frame s)"

partial_function (option) scan_frames ::
  "(string \<Rightarrow> context_digest) \<Rightarrow> scanner \<Rightarrow> ((unit, stop) result \<times> scanner) option" where
  "scan_frames digest s =
     (if sc_frames s = [] then Some (Ok (), s)
      else case scan_step digest s of
          (Ok _, t) \<Rightarrow> scan_frames digest t
        | (Err stop, t) \<Rightarrow> Some (Err stop, t))"

definition root_context :: "nat \<Rightarrow> value_context" where
  "root_context start =
     \<lparr>vc_parent = None, vc_name = None, vc_occurrence = 0, vc_array_index = None, vc_depth = 1,
      vc_path_base = 0, vc_start = start\<rparr>"

definition scan_root :: "(string \<Rightarrow> context_digest) \<Rightarrow> descent scan" where
  "scan_root digest =
     m_then skip_whitespace (\<lambda>_ s. read_value digest (root_context (sc_cursor s)) s)"

definition scan_end :: "unit scan" where
  "scan_end =
     m_then skip_whitespace (\<lambda>_ s.
       if sc_cursor s < length (sc_window s) then halt (StopMalformed Syntax) s else ret () s)"

definition scan_run ::
  "(string \<Rightarrow> context_digest) \<Rightarrow> scanner \<Rightarrow> ((unit, stop) result \<times> scanner) option" where
  "scan_run digest s =
     (case scan_root digest s of
        (Err stop, t) \<Rightarrow> Some (Err stop, t)
      | (Ok _, t) \<Rightarrow>
          (case scan_frames digest t of
             Some (Ok _, u) \<Rightarrow> Some (scan_end u)
           | stopped \<Rightarrow> stopped))"

end
