(* ===== verification/Json_Grammar.thy ===== *)
theory Json_Grammar
  imports Span_Scan
begin

text \<open>
  The JSON grammar the scanner recognises, stated from left to right: \<open>opened c b t\<close> is the text of
  a container from its opening delimiter to the end of a child (\<open>b\<close>: there is one), \<open>awaiting c t\<close>
  the text up to the place of the next child. And what the loops over bytes read.
\<close>

section \<open>Grammar\<close>

definition all_whitespace :: "string \<Rightarrow> bool" where
  "all_whitespace t \<longleftrightarrow> list_all json_whitespace t"

definition all_digits :: "string \<Rightarrow> bool" where
  "all_digits t \<longleftrightarrow> list_all is_ascii_digit t"

inductive string_body :: "string \<Rightarrow> bool" where
  body_empty: "string_body []"
| body_plain: "string_body t \<Longrightarrow> b \<noteq> CHR 0x22 \<Longrightarrow> b \<noteq> CHR 0x5C \<Longrightarrow> 0x1f < byte b \<Longrightarrow>
    string_body (t @ [b])"
| body_escape: "string_body t \<Longrightarrow> e \<in> set one_byte_escapes \<Longrightarrow> string_body (t @ [CHR 0x5C, e])"
| body_unicode: "string_body t \<Longrightarrow> length hex = 4 \<Longrightarrow> list_all is_ascii_hexdigit hex \<Longrightarrow>
    string_body (t @ [CHR 0x5C, CHR ''u''] @ hex)"

definition json_string :: "string \<Rightarrow> bool" where
  "json_string t \<longleftrightarrow> (\<exists>body. string_body body \<and> t = CHR 0x22 # body @ [CHR 0x22])"

definition json_integer :: "string \<Rightarrow> bool" where
  "json_integer t \<longleftrightarrow> t = ''0'' \<or>
     (\<exists>d ds. t = d # ds \<and> is_ascii_digit d \<and> d \<noteq> CHR ''0'' \<and> all_digits ds)"

definition some_digits :: "string \<Rightarrow> bool" where
  "some_digits t \<longleftrightarrow> t \<noteq> [] \<and> all_digits t"

definition json_fraction :: "string \<Rightarrow> bool" where
  "json_fraction t \<longleftrightarrow> t = [] \<or> (\<exists>ds. t = CHR ''.'' # ds \<and> some_digits ds)"

definition json_exponent :: "string \<Rightarrow> bool" where
  "json_exponent t \<longleftrightarrow> t = [] \<or>
     (\<exists>e sign ds. t = e # sign @ ds \<and> (e = CHR ''e'' \<or> e = CHR ''E'') \<and>
        (sign = [] \<or> sign = ''+'' \<or> sign = ''-'') \<and> some_digits ds)"

definition json_number :: "string \<Rightarrow> bool" where
  "json_number t \<longleftrightarrow> (\<exists>sign i f e. t = sign @ i @ f @ e \<and> (sign = [] \<or> sign = ''-'') \<and>
     json_integer i \<and> json_fraction f \<and> json_exponent e)"

definition json_separator :: "bool \<Rightarrow> string \<Rightarrow> bool" where
  "json_separator b t \<longleftrightarrow> (if b then \<exists>w. all_whitespace w \<and> t = CHR '','' # w else t = [])"

fun container_kind :: "container \<Rightarrow> json_value_kind" where
  "container_kind ObjectContainer = JsonObject"
| "container_kind ArrayContainer = JsonArray"

fun open_delimiter :: "container \<Rightarrow> char" where
  "open_delimiter ObjectContainer = CHR ''{''"
| "open_delimiter ArrayContainer = CHR ''[''"

fun close_delimiter :: "container \<Rightarrow> char" where
  "close_delimiter ObjectContainer = CHR ''}''"
| "close_delimiter ArrayContainer = CHR '']''"

definition json_label :: "container \<Rightarrow> string \<Rightarrow> bool" where
  "json_label c t \<longleftrightarrow> (case c of
     ArrayContainer \<Rightarrow> t = []
   | ObjectContainer \<Rightarrow> \<exists>name v w. json_string name \<and> all_whitespace v \<and> all_whitespace w \<and>
       t = name @ v @ [CHR '':''] @ w)"

inductive json_value :: "json_value_kind \<Rightarrow> string \<Rightarrow> bool"
  and opened :: "container \<Rightarrow> bool \<Rightarrow> string \<Rightarrow> bool"
  and awaiting :: "container \<Rightarrow> string \<Rightarrow> bool" where
  value_string: "json_string t \<Longrightarrow> json_value JsonString t"
| value_number: "json_number t \<Longrightarrow> json_value JsonNumber t"
| value_true: "json_value JsonBoolean ''true''"
| value_false: "json_value JsonBoolean ''false''"
| value_null: "json_value JsonNull ''null''"
| value_container: "opened c b t \<Longrightarrow> all_whitespace w \<Longrightarrow>
    json_value (container_kind c) (t @ w @ [close_delimiter c])"
| opened_empty: "opened c False [open_delimiter c]"
| opened_child: "awaiting c t \<Longrightarrow> json_value kind v \<Longrightarrow> opened c True (t @ v)"
| awaiting_child: "opened c b t \<Longrightarrow> all_whitespace w \<Longrightarrow> json_separator b sep \<Longrightarrow> json_label c l \<Longrightarrow>
    awaiting c (t @ w @ sep @ l)"

definition json_document :: "string \<Rightarrow> bool" where
  "json_document t \<longleftrightarrow> (\<exists>v w kind body. all_whitespace v \<and> all_whitespace w \<and>
     json_value kind body \<and> t = v @ body @ w)"

section \<open>Parts of the window\<close>

definition between :: "string \<Rightarrow> nat \<Rightarrow> nat \<Rightarrow> string" where
  "between w i j = take (j - i) (drop i w)"

lemma between_same [simp]: "between w i i = []"
  by (simp add: between_def)

lemma between_append:
  "i \<le> j \<Longrightarrow> j \<le> k \<Longrightarrow> between w i j @ between w j k = between w i k"
proof -
  assume "i \<le> j" and "j \<le> k"
  then have "k - i = (j - i) + (k - j)" and "drop j w = drop (j - i) (drop i w)" by simp_all
  then show ?thesis by (simp only: between_def take_add)
qed

lemma between_one: "i < length w \<Longrightarrow> between w i (Suc i) = [w ! i]"
  by (simp add: between_def take_Suc_conv_app_nth hd_drop_conv_nth)

lemma between_whole: "between w 0 (length w) = w"
  by (simp add: between_def)

lemma length_between: "j \<le> length w \<Longrightarrow> length (between w i j) = j - i"
  by (simp add: between_def)

lemma between_cons: "i < j \<Longrightarrow> j \<le> length w \<Longrightarrow> between w i j = w ! i # between w (Suc i) j"
  using between_append [of i "Suc i" j w] between_one [of i w] by simp

end
