(* ===== verification/Span_Lexing.thy ===== *)
theory Span_Lexing
  imports Json_Grammar
begin

text \<open>
  What the loops of the scanner over bytes read, and what they leave alone. \<open>reads node s t\<close>: the
  scanner moved from \<open>s\<close> to \<open>t\<close> and changed nothing but the end of \<open>node\<close>, which is the cursor;
  \<open>breaks node s t\<close> is the same when it stopped, where that end may lag behind.
\<close>

section \<open>Counting\<close>

lemma unat_word_max: "unat (max x y) = max (unat x) (unat y)" for x y :: "'a::len word"
  by (simp add: max_def word_le_nat_alt)

lemma units_of_work_mono:
  assumes "v \<le> v'" shows "units_of_work v n \<le> units_of_work v' n"
proof (cases "v = 0 \<or> n = 0")
  case True
  then show ?thesis
    using assms by (auto simp: units_of_work_def checked_div_def word_order.extremum_unique)
next
  case False
  then have "v' \<noteq> 0" using assms by auto
  moreover have "saturating_add v k \<le> saturating_add v' k" for k :: u64
    using assms by (simp add: word_le_nat_alt unat_saturating_add)
  ultimately show ?thesis
    using False by (simp add: units_of_work_def checked_div_def word_le_nat_alt unat_div_distrib div_le_mono)
qed

lemma demand_mono:
  assumes "b \<le> b'"
  shows "demand (t\<lparr>sc_observed_bytes := b\<rparr>) \<le> demand (t\<lparr>sc_observed_bytes := b'\<rparr>)"
proof -
  have "units_of_work b BYTES_PER_WORK_UNIT \<le> units_of_work b' BYTES_PER_WORK_UNIT"
    using assms by (rule units_of_work_mono)
  then show ?thesis
    by (simp add: demand_def auxiliary_work_units_def primary_work_units_def word_le_nat_alt
        unat_saturating_add unat_word_max)
qed

definition sound :: "scanner \<Rightarrow> bool" where
  "sound s \<longleftrightarrow> sc_cursor s \<le> length (sc_window s) \<and> length (sc_window s) < 2 ^ 64 \<and>
     sc_observed_bytes s = of_nat (sc_cursor s) \<and> solvent s"

text \<open>The validator has accepted every byte before the cursor.\<close>

definition decoded :: "scanner \<Rightarrow> bool" where
  "decoded s \<longleftrightarrow> consume_bytes (take (sc_cursor s) (sc_window s)) 0 utf8_validator_default = (Ok (), sc_utf8 s)"

definition same_rest :: "scanner \<Rightarrow> scanner \<Rightarrow> bool" where
  "same_rest s t \<longleftrightarrow>
     sc_window t = sc_window s \<and> sc_max_blocks t = sc_max_blocks s \<and> sc_max_depth t = sc_max_depth s \<and>
     sc_observed_values t = sc_observed_values s \<and> sc_frames t = sc_frames s \<and>
     sc_names t = sc_names s \<and> sc_path t = sc_path s \<and> sc_path_checkpoints t = sc_path_checkpoints s \<and>
     sc_duplicate_key_detected t = sc_duplicate_key_detected s \<and>
     maximum_work (sc_budget t) = maximum_work (sc_budget s)"

lemma same_rest_refl [simp]: "same_rest s s"
  by (simp add: same_rest_def)

lemma same_rest_trans: "same_rest s t \<Longrightarrow> same_rest t u \<Longrightarrow> same_rest s u"
  by (simp add: same_rest_def)

definition node_end :: "span_node_id option \<Rightarrow> nat \<Rightarrow> span_node list \<Rightarrow> span_node list" where
  "node_end node e nodes =
     (case node of
        None \<Rightarrow> nodes
      | Some ident \<Rightarrow> nodes[unat ident := set_raw_end (u64_of_len_or_max e) (nodes ! unat ident)])"

lemma node_end_None [simp]: "node_end None e nodes = nodes"
  by (simp add: node_end_def)

lemma set_raw_end_twice [simp]: "set_raw_end e (set_raw_end e' n) = set_raw_end e n"
  by (simp add: set_raw_end_def)

lemma node_end_twice [simp]: "node_end node e (node_end node e' nodes) = node_end node e nodes"
  by (cases "unat (the node) < length nodes") (auto simp: node_end_def list_update_beyond split: option.split)

definition ended :: "span_node_id option \<Rightarrow> scanner \<Rightarrow> bool" where
  "ended node s \<longleftrightarrow> node_end node (sc_cursor s) (sc_nodes s) = sc_nodes s"

lemma ended_None [simp]: "ended None s"
  by (simp add: ended_def)

definition reads :: "span_node_id option \<Rightarrow> scanner \<Rightarrow> scanner \<Rightarrow> bool" where
  "reads node s t \<longleftrightarrow> same_rest s t \<and> sound t \<and> (decoded s \<longrightarrow> decoded t) \<and>
     sc_cursor s \<le> sc_cursor t \<and> sc_nodes t = node_end node (sc_cursor t) (sc_nodes s)"

definition breaks :: "span_node_id option \<Rightarrow> scanner \<Rightarrow> scanner \<Rightarrow> bool" where
  "breaks node s t \<longleftrightarrow> same_rest s t \<and> sound t \<and>
     (\<exists>e. sc_cursor s \<le> e \<and> e \<le> sc_cursor t \<and> sc_nodes t = node_end node e (sc_nodes s))"

lemma reads_refl: "sound s \<Longrightarrow> ended node s \<Longrightarrow> reads node s s"
  by (simp add: reads_def ended_def)

lemma reads_trans: "reads node s t \<Longrightarrow> reads node t u \<Longrightarrow> reads node s u"
  by (auto simp: reads_def intro: same_rest_trans)

lemma breaks_refl: "sound s \<Longrightarrow> ended node s \<Longrightarrow> breaks node s s"
  by (auto simp: breaks_def ended_def)

lemma reads_breaks:
  assumes "reads node s t" and "breaks node t u"
  shows "breaks node s u"
proof -
  obtain e where "sc_cursor t \<le> e" "e \<le> sc_cursor u" "sc_nodes u = node_end node e (sc_nodes t)"
    using assms(2) by (auto simp: breaks_def)
  with assms show ?thesis
    by (auto simp: reads_def breaks_def intro: same_rest_trans exI [of _ e])
qed

lemma readsD:
  "reads node s t \<Longrightarrow> sound t"
  "reads node s t \<Longrightarrow> ended node t"
  "reads node s t \<Longrightarrow> sc_window t = sc_window s"
  "reads node s t \<Longrightarrow> sc_cursor s \<le> sc_cursor t"
  "reads node s t \<Longrightarrow> sc_cursor t \<le> length (sc_window s)"
  by (auto simp: reads_def same_rest_def ended_def sound_def)

text \<open>Two reads in a row.\<close>

lemma reads_then:
  assumes "outcome m (\<lambda>a t. reads node s t \<and> P a t) (\<lambda>_. breaks node s) s"
    and "\<And>a t. reads node s t \<Longrightarrow> P a t \<Longrightarrow>
      outcome (f a) (\<lambda>b u. reads node t u \<and> R a t u b) (\<lambda>_. breaks node t) t"
    and "\<And>a b t u. reads node s t \<Longrightarrow> P a t \<Longrightarrow> reads node t u \<Longrightarrow> R a t u b \<Longrightarrow> Q b u"
  shows "outcome (m_then m f) (\<lambda>b u. reads node s u \<and> Q b u) (\<lambda>_. breaks node s) s"
  unfolding outcome_simps
proof (rule outcome_weaken [OF assms(1)])
  fix a t assume t: "reads node s t \<and> P a t"
  then have "outcome (f a) (\<lambda>b u. reads node t u \<and> R a t u b) (\<lambda>_. breaks node t) t"
    using assms(2) by blast
  then show "outcome (f a) (\<lambda>b u. reads node s u \<and> Q b u) (\<lambda>_. breaks node s) t"
    by (rule outcome_weaken) (use t assms(3) reads_trans reads_breaks in blast)+
qed simp

section \<open>Moving the cursor\<close>

lemma consume_bytes_append:
  "consume_bytes (xs @ ys) c v =
     (case consume_bytes xs c v of
        (Ok _, v) \<Rightarrow> consume_bytes ys (c + length xs) v
      | (Err e, v) \<Rightarrow> (Err e, v))"
  by (induction xs arbitrary: c v) (auto split: prod.split result.split)

lemma consume_bytes_start:
  "consume_bytes xs c v = (Ok (), v') \<Longrightarrow> consume_bytes xs d v = (Ok (), v')"
  by (induction xs arbitrary: c d v) (auto split: prod.splits result.splits)

lemma consume_bytes_Err:
  "consume_bytes xs c v = (Err (c', r), v') \<Longrightarrow> c < c' \<and> c' \<le> c + length xs"
  by (induction xs arbitrary: c v) (fastforce split: prod.splits result.splits)+

lemma next_bytes:
  assumes "sound s" and "sc_cursor s \<le> c" and "c \<le> length (sc_window s)"
  shows "saturating_add (sc_observed_bytes s) (u64_of_len_or_max (c - sc_cursor s)) = of_nat c"
    (is "?b = _")
proof -
  have "unat ?b = c"
    using assms by (auto simp: sound_def unat_saturating_add unat_u64_of_len_or_max unat_of_nat
        take_bit_nat_eq_self min_def)
  moreover have "?b = of_nat (unat ?b)" by simp
  ultimately show ?thesis by simp
qed

lemma take_bytes_solvent:
  assumes "solvent t" and "demand (t\<lparr>sc_observed_bytes := of_nat c\<rparr>) \<le> sc_reserved_work_units t"
    and "k \<le> c" and "c < 2 ^ 64"
  shows "solvent (t\<lparr>sc_utf8 := v, sc_cursor := k, sc_observed_bytes := of_nat k\<rparr>)"
proof -
  have "(of_nat k :: u64) \<le> of_nat c"
    using assms(3,4) by (simp add: word_le_nat_alt unat_of_nat take_bit_nat_eq_self)
  from order_trans [OF demand_mono [OF this] assms(2)] show ?thesis
    using assms(1) by (simp add: solvent_def demand_def auxiliary_work_units_def)
qed

lemma decoded_take:
  assumes "decoded s" and "sc_cursor s \<le> c"
    and "consume_bytes (take (c - sc_cursor s) (drop (sc_cursor s) (sc_window s))) (sc_cursor s) (sc_utf8 s)
      = (Ok (), v)"
  shows "consume_bytes (take c (sc_window s)) 0 utf8_validator_default = (Ok (), v)"
proof -
  let ?bytes = "take (c - sc_cursor s) (drop (sc_cursor s) (sc_window s))"
  have "take c (sc_window s) = take (sc_cursor s + (c - sc_cursor s)) (sc_window s)"
    using assms(2) by simp
  also have "\<dots> = take (sc_cursor s) (sc_window s) @ ?bytes" by (rule take_add)
  finally show ?thesis
    using assms(1) consume_bytes_start [OF assms(3)] by (simp add: consume_bytes_append decoded_def)
qed

lemma take_bytes_moves:
  assumes s: "sound s" and t: "steady s t" "maximum_work (sc_budget t) = maximum_work (sc_budget s)" "solvent t"
    and c: "sc_cursor s \<le> c" "c \<le> length (sc_window s)"
    and demand: "demand (t\<lparr>sc_observed_bytes := of_nat c\<rparr>) \<le> sc_reserved_work_units t"
  shows "outcome (take_bytes c (of_nat c)) (\<lambda>_ t. reads None s t \<and> sc_cursor t = c) (\<lambda>_. breaks None s) t"
proof -
  have long: "length (sc_window s) < 2 ^ 64" using s by (simp add: sound_def)
  let ?bytes = "take (c - sc_cursor s) (drop (sc_cursor s) (sc_window s))"
  have same: "sc_cursor t = sc_cursor s" "sc_window t = sc_window s" "sc_utf8 t = sc_utf8 s"
    using t by (simp_all add: steady_def)
  obtain r v where run: "consume_bytes ?bytes (sc_cursor s) (sc_utf8 s) = (r, v)" by force
  show ?thesis
  proof (cases r)
    case (Ok u)
    then have "take_bytes c (of_nat c) t = (Ok (), t\<lparr>sc_utf8 := v, sc_cursor := c, sc_observed_bytes := of_nat c\<rparr>)"
      using run same by (simp add: take_bytes_def)
    moreover have "reads None s (t\<lparr>sc_utf8 := v, sc_cursor := c, sc_observed_bytes := of_nat c\<rparr>)"
      using take_bytes_solvent [OF t(3) demand order_refl, of v] decoded_take [of s c v] run Ok t c long
      by (simp add: reads_def same_rest_def sound_def steady_def decoded_def)
    ultimately show ?thesis by (simp add: outcome_def)
  next
    case (Err e)
    obtain k reason where e: "e = (k, reason)" by (cases e)
    have k: "sc_cursor s < k" "k \<le> c"
      using consume_bytes_Err [of ?bytes "sc_cursor s" "sc_utf8 s" k reason v] run Err e c by auto
    then have "take_bytes c (of_nat c) t = (Err (StopMalformed reason),
        t\<lparr>sc_utf8 := v, sc_cursor := k, sc_observed_bytes := of_nat k\<rparr>)"
      using run same Err e c long by (simp add: take_bytes_def u64_of_len_or_max_def)
    moreover have "breaks None s (t\<lparr>sc_utf8 := v, sc_cursor := k, sc_observed_bytes := of_nat k\<rparr>)"
      using take_bytes_solvent [OF t(3) demand k(2), of v] t c long k
      by (auto simp: breaks_def same_rest_def sound_def steady_def)
    ultimately show ?thesis by (simp add: outcome_def)
  qed
qed

lemma paid_breaks: "sound s \<Longrightarrow> paid s t \<Longrightarrow> breaks None s t"
  by (auto simp: breaks_def paid_def steady_def same_rest_def sound_def)

lemma advance_moves:
  assumes s: "sound s"
  shows "outcome (advance n)
      (\<lambda>_ t. reads None s t \<and> sc_cursor t = min (sc_cursor s + n) (length (sc_window s)))
      (\<lambda>_. breaks None s) s"
proof -
  define c where "c = min (sc_cursor s + n) (length (sc_window s))"
  have c: "sc_cursor s \<le> c" "c \<le> length (sc_window s)" using s by (auto simp: c_def sound_def)
  have "outcome (take_bytes c (of_nat c)) (\<lambda>_ t. reads None s t \<and> sc_cursor t = c) (\<lambda>_. breaks None s) t"
    if t: "paid s t" and
      due: "demand (t\<lparr>sc_observed_bytes := of_nat c, sc_observed_values := sc_observed_values s\<rparr>)
        \<le> sc_reserved_work_units t" for t
  proof (rule take_bytes_moves [OF s _ _ _ c])
    show "steady s t" "maximum_work (sc_budget t) = maximum_work (sc_budget s)" "solvent t"
      using t s by (auto simp: paid_def sound_def)
    then show "demand (t\<lparr>sc_observed_bytes := of_nat c\<rparr>) \<le> sc_reserved_work_units t"
      using due by (simp add: steady_def demand_def auxiliary_work_units_def)
  qed
  then have "outcome (m_then (reserve_work (of_nat c) (sc_observed_values s)) (\<lambda>_. take_bytes c (of_nat c)))
      (\<lambda>_ t. reads None s t \<and> sc_cursor t = c) (\<lambda>_. breaks None s) s"
    unfolding outcome_simps
    by (intro outcome_weaken [OF reserve_work_reserves]) (blast intro: paid_breaks [OF s])+
  then show ?thesis
    unfolding c_def
    by (rule outcome_unfold [rotated])
      (use next_bytes [OF s c] in \<open>simp add: advance_def Let_def flip: c_def\<close>)
qed

section \<open>Runs of bytes\<close>

definition part :: "scanner \<Rightarrow> scanner \<Rightarrow> string" where
  "part s t = between (sc_window s) (sc_cursor s) (sc_cursor t)"

lemma part_refl [simp]: "part s s = []"
  by (simp add: part_def)

lemma part_append: "reads node s t \<Longrightarrow> reads node t u \<Longrightarrow> part s u = part s t @ part t u"
  using readsD [of node s t] readsD [of node t u]
  by (simp add: part_def between_append)

lemma peek_Some: "peek s = Some b \<longleftrightarrow> sc_cursor s < length (sc_window s) \<and> b = sc_window s ! sc_cursor s"
  by (auto simp: peek_def)

lemma advance_one:
  assumes "sound s" and "peek s = Some b"
  shows "outcome (advance 1) (\<lambda>_ t. reads None s t \<and> part s t = [b] \<and> sc_cursor t = sc_cursor s + 1)
    (\<lambda>_. breaks None s) s"
  by (rule outcome_weaken [OF advance_moves [OF assms(1)]])
    (use assms in \<open>auto simp: part_def peek_Some between_one\<close>)

lemma skip_while_reads:
  "sound s \<Longrightarrow> outcome (skip_while p) (\<lambda>_ t. reads None s t \<and> list_all p (part s t)) (\<lambda>_. breaks None s) s"
proof (induction p s rule: skip_while.induct)
  case (1 p s)
  show ?case
  proof (cases "\<exists>b. peek s = Some b \<and> p b")
    case True
    then obtain b where b: "peek s = Some b" "p b" by blast
    have "outcome (m_then (advance 1) (\<lambda>_. skip_while p))
        (\<lambda>_ t. reads None s t \<and> list_all p (part s t)) (\<lambda>_. breaks None s) s"
    proof (rule reads_then)
      show "outcome (advance 1) (\<lambda>a t. reads None s t \<and> (advance 1 s = (Ok a, t) \<and> part s t = [b]))
          (\<lambda>_. breaks None s) s"
        using advance_one [OF "1.prems" b(1)] by (auto simp: outcome_def split: prod.splits result.splits)
      show "outcome (skip_while p) (\<lambda>_ u. reads None t u \<and> list_all p (part t u)) (\<lambda>_. breaks None t) t"
        if "reads None s t" "advance 1 s = (Ok a, t) \<and> part s t = [b]" for a t
        using "1.IH" [OF b, of a t] that readsD(1) by auto
    qed (use b in \<open>auto simp: part_append\<close>)
    then show ?thesis
      by (rule outcome_unfold [rotated]) (use b in \<open>simp add: skip_while.simps [of p s]\<close>)
  next
    case False
    then have "skip_while p s = (Ok (), s)" by (auto simp: skip_while.simps [of p s] split: option.split)
    with "1.prems" show ?thesis by (simp add: outcome_def reads_refl)
  qed
qed

lemma skip_whitespace_reads:
  "sound s \<Longrightarrow> outcome skip_whitespace (\<lambda>_ t. reads None s t \<and> all_whitespace (part s t)) (\<lambda>_. breaks None s) s"
  unfolding skip_whitespace_def all_whitespace_def by (rule skip_while_reads)

lemma skip_digits_reads:
  "sound s \<Longrightarrow> outcome skip_digits (\<lambda>_ t. reads None s t \<and> all_digits (part s t)) (\<lambda>_. breaks None s) s"
  unfolding skip_digits_def all_digits_def by (rule skip_while_reads)

lemma halt_breaks: "sound s \<Longrightarrow> ended node s \<Longrightarrow> outcome (halt e) Q (\<lambda>_. breaks node s) s"
  by (simp add: breaks_refl)

text \<open>A computation that looks at the next byte first.\<close>

lemma outcome_peek:
  assumes "peek s = None \<Longrightarrow> outcome m Q E s" and "\<And>b. peek s = Some b \<Longrightarrow> outcome (f b) Q E s"
  shows "outcome (\<lambda>s. case peek s of None \<Rightarrow> m s | Some b \<Rightarrow> f b s) Q E s"
  using assms by (cases "peek s") (simp_all add: outcome_def)

lemma expect_peek:
  "expect p = (\<lambda>s. case peek s of
     None \<Rightarrow> halt (StopMalformed UnexpectedEnd) s
   | Some b \<Rightarrow> (if p b then advance 1 else halt (StopMalformed Syntax)) s)"
  by (rule ext) (simp add: expect_def split: option.split)

lemma expect_reads:
  assumes "sound s"
  shows "outcome (expect p) (\<lambda>_ t. reads None s t \<and> (\<exists>b. part s t = [b] \<and> p b)) (\<lambda>_. breaks None s) s"
  unfolding expect_peek
proof (rule outcome_peek)
  fix b assume b: "peek s = Some b"
  show "outcome (if p b then advance 1 else halt (StopMalformed Syntax))
      (\<lambda>_ t. reads None s t \<and> (\<exists>b. part s t = [b] \<and> p b)) (\<lambda>_. breaks None s) s"
  proof (cases "p b")
    case True
    then show ?thesis by (simp only: if_True) (rule outcome_weaken [OF advance_one [OF assms b]], auto)
  qed (simp add: breaks_refl assms)
qed (simp add: breaks_refl assms)

lemma require_digit_reads:
  "sound s \<Longrightarrow> outcome require_digit
     (\<lambda>_ t. reads None s t \<and> (\<exists>b. part s t = [b] \<and> is_ascii_digit b)) (\<lambda>_. breaks None s) s"
  unfolding require_digit_def by (rule expect_reads)

lemma some_digits_read:
  assumes "sound s"
  shows "outcome (m_then require_digit (\<lambda>_. skip_digits)) (\<lambda>_ t. reads None s t \<and> some_digits (part s t))
    (\<lambda>_. breaks None s) s"
proof (rule reads_then [OF require_digit_reads [OF assms]])
  show "outcome skip_digits (\<lambda>_ u. reads None t u \<and> all_digits (part t u)) (\<lambda>_. breaks None t) t"
    if "reads None s t" for t
    by (rule skip_digits_reads [OF readsD(1) [OF that]])
qed (auto simp: part_append some_digits_def all_digits_def)

text \<open>An optional part: skipped without reading when its first byte is not there.\<close>

lemma when_next_reads:
  assumes "sound s"
    and "\<And>b. peek s = Some b \<Longrightarrow> p b \<Longrightarrow>
      outcome m (\<lambda>_ t. reads None s t \<and> P (part s t)) (\<lambda>_. breaks None s) s"
    and "P []"
  shows "outcome (when_next p m) (\<lambda>_ t. reads None s t \<and> P (part s t)) (\<lambda>_. breaks None s) s"
proof -
  have eq: "when_next p m = (\<lambda>s. case peek s of
     None \<Rightarrow> ret () s | Some b \<Rightarrow> (if p b then m else ret ()) s)"
    by (rule ext) (simp add: when_next_def)
  show ?thesis
    unfolding eq by (rule outcome_peek) (use assms in \<open>auto simp: reads_refl\<close>)
qed

lemma scan_sign_reads:
  assumes "sound s"
  shows "outcome scan_sign (\<lambda>_ t. reads None s t \<and> (part s t = [] \<or> part s t = ''-'')) (\<lambda>_. breaks None s) s"
  unfolding scan_sign_def
proof (rule when_next_reads [OF assms])
  fix b assume b: "peek s = Some b" "b = CHR ''-''"
  show "outcome (advance 1) (\<lambda>_ t. reads None s t \<and> (part s t = [] \<or> part s t = ''-''))
      (\<lambda>_. breaks None s) s"
    by (rule outcome_weaken [OF advance_one [OF assms b(1)]]) (use b in auto)
qed simp

lemma scan_integer_reads:
  assumes "sound s"
  shows "outcome scan_integer (\<lambda>_ t. reads None s t \<and> json_integer (part s t)) (\<lambda>_. breaks None s) s"
proof -
  have eq: "scan_integer = (\<lambda>s. case peek s of
      None \<Rightarrow> halt (StopMalformed UnexpectedEnd) s
    | Some b \<Rightarrow>
        (if b = CHR ''0'' then advance 1
         else if is_ascii_digit b then m_then (advance 1) (\<lambda>_. skip_digits)
         else halt (StopMalformed Syntax)) s)"
    by (rule ext) (simp add: scan_integer_def)
  let ?Q = "\<lambda>_ t. reads None s t \<and> json_integer (part s t)"
  show ?thesis
    unfolding eq
  proof (rule outcome_peek)
    fix b assume b: "peek s = Some b"
    have zero: "outcome (advance 1) ?Q (\<lambda>_. breaks None s) s" if "b = CHR ''0''"
      by (rule outcome_weaken [OF advance_one [OF assms b]]) (use that in \<open>auto simp: json_integer_def\<close>)
    have digits: "outcome (m_then (advance 1) (\<lambda>_. skip_digits)) ?Q (\<lambda>_. breaks None s) s"
      if "b \<noteq> CHR ''0''" "is_ascii_digit b"
    proof (rule reads_then [OF advance_one [OF assms b]])
      show "outcome skip_digits (\<lambda>_ u. reads None t u \<and> all_digits (part t u)) (\<lambda>_. breaks None t) t"
        if "reads None s t" for t
        by (rule skip_digits_reads [OF readsD(1) [OF that]])
    qed (use that in \<open>auto simp: part_append json_integer_def\<close>)
    show "outcome (if b = CHR ''0'' then advance 1
         else if is_ascii_digit b then m_then (advance 1) (\<lambda>_. skip_digits)
         else halt (StopMalformed Syntax)) ?Q (\<lambda>_. breaks None s) s"
      using zero digits assms by (simp add: breaks_refl del: outcome_m_then One_nat_def)
  qed (simp add: breaks_refl assms)
qed

lemma scan_fraction_reads:
  assumes "sound s"
  shows "outcome scan_fraction (\<lambda>_ t. reads None s t \<and> json_fraction (part s t)) (\<lambda>_. breaks None s) s"
  unfolding scan_fraction_def
proof (rule when_next_reads [OF assms])
  fix b assume b: "peek s = Some b" "b = CHR ''.''"
  show "outcome (m_then (advance 1) (\<lambda>_. m_then require_digit (\<lambda>_. skip_digits)))
      (\<lambda>_ t. reads None s t \<and> json_fraction (part s t)) (\<lambda>_. breaks None s) s"
  proof (rule reads_then [OF advance_one [OF assms b(1)]])
    show "outcome (m_then require_digit (\<lambda>_. skip_digits))
        (\<lambda>_ u. reads None t u \<and> some_digits (part t u)) (\<lambda>_. breaks None t) t" if "reads None s t" for t
      by (rule some_digits_read [OF readsD(1) [OF that]])
  qed (use b in \<open>auto simp: part_append json_fraction_def\<close>)
qed (simp add: json_fraction_def)

lemma scan_exponent_reads:
  assumes "sound s"
  shows "outcome scan_exponent (\<lambda>_ t. reads None s t \<and> json_exponent (part s t)) (\<lambda>_. breaks None s) s"
  unfolding scan_exponent_def
proof (rule when_next_reads [OF assms])
  fix b assume b: "peek s = Some b" "b = CHR ''e'' \<or> b = CHR ''E''"
  let ?sign = "when_next (\<lambda>b. b = CHR ''+'' \<or> b = CHR ''-'') (advance 1)"
  define signed where "signed x \<longleftrightarrow> x = [] \<or> x = ''+'' \<or> x = ''-''" for x :: string
  have sign: "outcome ?sign (\<lambda>_ u. reads None t u \<and> signed (part t u)) (\<lambda>_. breaks None t) t"
    if "sound t" for t
  proof (rule when_next_reads [OF that])
    fix b assume b: "peek t = Some b" "b = CHR ''+'' \<or> b = CHR ''-''"
    show "outcome (advance 1) (\<lambda>_ u. reads None t u \<and> signed (part t u)) (\<lambda>_. breaks None t) t"
      by (rule outcome_weaken [OF advance_one [OF that b(1)]]) (use b in \<open>auto simp: signed_def\<close>)
  qed (simp add: signed_def)
  have tail: "outcome (m_then ?sign (\<lambda>_. m_then require_digit (\<lambda>_. skip_digits)))
      (\<lambda>_ u. reads None t u \<and> (\<exists>x ds. part t u = x @ ds \<and> signed x \<and> some_digits ds)) (\<lambda>_. breaks None t) t"
    if t: "sound t" for t
  proof (rule reads_then [OF sign [OF t]])
    show "outcome (m_then require_digit (\<lambda>_. skip_digits))
        (\<lambda>_ v. reads None u v \<and> some_digits (part u v)) (\<lambda>_. breaks None u) u" if "reads None t u" for u
      by (rule some_digits_read [OF readsD(1) [OF that]])
  qed (auto simp: part_append)
  show "outcome (m_then (advance 1) (\<lambda>_. m_then ?sign (\<lambda>_. m_then require_digit (\<lambda>_. skip_digits))))
      (\<lambda>_ t. reads None s t \<and> json_exponent (part s t)) (\<lambda>_. breaks None s) s"
  proof (rule reads_then [OF advance_one [OF assms b(1)]])
    show "outcome (m_then ?sign (\<lambda>_. m_then require_digit (\<lambda>_. skip_digits)))
      (\<lambda>_ u. reads None t u \<and> (\<exists>x ds. part t u = x @ ds \<and> signed x \<and> some_digits ds)) (\<lambda>_. breaks None t) t"
      if "reads None s t" for t
      by (rule tail [OF readsD(1) [OF that]])
  qed (use b in \<open>auto simp: part_append json_exponent_def signed_def\<close>)
qed (simp add: json_exponent_def)

lemma scan_number_reads:
  assumes "sound s"
  shows "outcome scan_number (\<lambda>_ t. reads None s t \<and> json_number (part s t)) (\<lambda>_. breaks None s) s"
proof -
  have tail: "outcome (m_then scan_fraction (\<lambda>_. scan_exponent))
      (\<lambda>_ u. reads None t u \<and> (\<exists>f e. part t u = f @ e \<and> json_fraction f \<and> json_exponent e))
      (\<lambda>_. breaks None t) t" if t: "sound t" for t
  proof (rule reads_then [OF scan_fraction_reads [OF t]])
    show "outcome scan_exponent (\<lambda>_ v. reads None u v \<and> json_exponent (part u v)) (\<lambda>_. breaks None u) u"
      if "reads None t u" for u
      by (rule scan_exponent_reads [OF readsD(1) [OF that]])
  qed (auto simp: part_append)
  have unsigned: "outcome (m_then scan_integer (\<lambda>_. m_then scan_fraction (\<lambda>_. scan_exponent)))
      (\<lambda>_ u. reads None t u \<and> (\<exists>i f e. part t u = i @ f @ e \<and> json_integer i \<and> json_fraction f
        \<and> json_exponent e)) (\<lambda>_. breaks None t) t" if t: "sound t" for t
  proof (rule reads_then [OF scan_integer_reads [OF t]])
    show "outcome (m_then scan_fraction (\<lambda>_. scan_exponent))
        (\<lambda>_ v. reads None u v \<and> (\<exists>f e. part u v = f @ e \<and> json_fraction f \<and> json_exponent e))
        (\<lambda>_. breaks None u) u" if "reads None t u" for u
      by (rule tail [OF readsD(1) [OF that]])
  qed (simp add: part_append, blast)
  show ?thesis
    unfolding scan_number_def
  proof (rule reads_then [OF scan_sign_reads [OF assms]])
    show "outcome (m_then scan_integer (\<lambda>_. m_then scan_fraction (\<lambda>_. scan_exponent)))
      (\<lambda>_ u. reads None t u \<and> (\<exists>i f e. part t u = i @ f @ e \<and> json_integer i \<and> json_fraction f
        \<and> json_exponent e)) (\<lambda>_. breaks None t) t" if "reads None s t" for t
      by (rule unsigned [OF readsD(1) [OF that]])
  qed (simp add: part_append json_number_def, blast)
qed

section \<open>Strings\<close>

definition raw_end_of :: "span_node_id option \<Rightarrow> scanner \<Rightarrow> scanner" where
  "raw_end_of node s =
     (case node of
        Some ident \<Rightarrow> with_node ident (set_raw_end (u64_of_len_or_max (sc_cursor s))) s
      | None \<Rightarrow> s)"

lemma raw_end_of_nodes: "raw_end_of node s = s\<lparr>sc_nodes := node_end node (sc_cursor s) (sc_nodes s)\<rparr>"
  by (simp add: raw_end_of_def with_node_def node_end_def split: option.split)

lemma sound_nodes [simp]: "sound (s\<lparr>sc_nodes := nodes\<rparr>) = sound s"
  by (simp add: sound_def solvent_def demand_def auxiliary_work_units_def)

lemma decoded_nodes [simp]: "decoded (s\<lparr>sc_nodes := nodes\<rparr>) = decoded s"
  by (simp add: decoded_def)

lemma same_rest_nodes [simp]: "same_rest s (t\<lparr>sc_nodes := nodes\<rparr>) = same_rest s t"
  by (simp add: same_rest_def)

lemma part_nodes [simp]: "part s (t\<lparr>sc_nodes := nodes\<rparr>) = part s t"
  by (simp add: part_def)

lemma breaks_node: "breaks None s t \<Longrightarrow> ended node s \<Longrightarrow> breaks node s t"
  by (auto simp: breaks_def ended_def intro!: exI [of _ "sc_cursor s"])

lemma advance_string_reads:
  assumes "sound s" and "ended node s" and "peek s = Some b"
  shows "outcome (advance_string node) (\<lambda>_ t. reads node s t \<and> part s t = [b]) (\<lambda>_. breaks node s) s"
proof -
  have "outcome (m_then (advance 1) (\<lambda>_. changing (raw_end_of node)))
      (\<lambda>_ t. reads node s t \<and> part s t = [b]) (\<lambda>_. breaks node s) s"
    unfolding outcome_simps
    by (rule outcome_weaken [OF advance_one [OF assms(1,3)]])
      (use assms(2) in \<open>auto simp: raw_end_of_nodes reads_def breaks_node\<close>)
  then show ?thesis by (simp add: advance_string_def raw_end_of_def cong: option.case_cong)
qed

lemma hex_digits_peek:
  "hex_digits (Suc n) node = (\<lambda>s. case peek s of
     None \<Rightarrow> halt (StopMalformed UnexpectedEnd) s
   | Some digit \<Rightarrow> (if \<not> is_ascii_hexdigit digit then halt (StopMalformed Syntax)
       else m_then (advance_string node) (\<lambda>_. hex_digits n node)) s)"
  by (rule ext) (simp split: option.split)

lemma hex_digits_read:
  "sound s \<Longrightarrow> ended node s \<Longrightarrow>
   outcome (hex_digits n node)
     (\<lambda>_ t. reads node s t \<and> (length (part s t) = n \<and> list_all is_ascii_hexdigit (part s t)))
     (\<lambda>_. breaks node s) s"
proof (induction n arbitrary: s)
  case 0
  then show ?case by (simp add: outcome_def reads_refl)
next
  case (Suc n)
  let ?Q = "\<lambda>_ t. reads node s t \<and> (length (part s t) = Suc n \<and> list_all is_ascii_hexdigit (part s t))"
  show ?case
    unfolding hex_digits_peek
  proof (rule outcome_peek)
    fix b assume b: "peek s = Some b"
    have "outcome (m_then (advance_string node) (\<lambda>_. hex_digits n node)) ?Q (\<lambda>_. breaks node s) s"
      if "is_ascii_hexdigit b"
    proof (rule reads_then [OF advance_string_reads [OF Suc.prems b]])
      show "outcome (hex_digits n node)
          (\<lambda>_ u. reads node t u \<and> (length (part t u) = n \<and> list_all is_ascii_hexdigit (part t u)))
          (\<lambda>_. breaks node t) t" if "reads node s t" for t
        by (rule Suc.IH) (use readsD that in blast)+
    qed (use that in \<open>auto simp: part_append\<close>)
    then show "outcome (if \<not> is_ascii_hexdigit b then halt (StopMalformed Syntax)
        else m_then (advance_string node) (\<lambda>_. hex_digits n node)) ?Q (\<lambda>_. breaks node s) s"
      using Suc.prems by (simp add: breaks_refl del: outcome_m_then)
  qed (simp add: breaks_refl Suc.prems)
qed

definition escape_text :: "string \<Rightarrow> bool" where
  "escape_text t \<longleftrightarrow> (\<exists>e. t = [e] \<and> e \<in> set one_byte_escapes) \<or>
     (\<exists>hex. t = CHR ''u'' # hex \<and> length hex = 4 \<and> list_all is_ascii_hexdigit hex)"

lemma scan_escape_peek:
  "scan_escape node = (\<lambda>s. case peek s of
     None \<Rightarrow> halt (StopMalformed UnexpectedEnd) s
   | Some b \<Rightarrow> m_then (advance_string node) (\<lambda>_.
       if b \<in> set one_byte_escapes then ret ()
       else if b = CHR ''u'' then hex_digits 4 node
       else halt (StopMalformed Syntax)) s)"
  by (rule ext) (simp add: scan_escape_def)

lemma scan_escape_reads:
  assumes "sound s" and "ended node s"
  shows "outcome (scan_escape node) (\<lambda>_ t. reads node s t \<and> escape_text (part s t)) (\<lambda>_. breaks node s) s"
  unfolding scan_escape_peek
proof (rule outcome_peek)
  fix b assume b: "peek s = Some b"
  show "outcome (m_then (advance_string node) (\<lambda>_.
      if b \<in> set one_byte_escapes then ret () else if b = CHR ''u'' then hex_digits 4 node
      else halt (StopMalformed Syntax)))
    (\<lambda>_ t. reads node s t \<and> escape_text (part s t)) (\<lambda>_. breaks node s) s"
  proof (rule reads_then [OF advance_string_reads [OF assms b]])
    fix t assume "reads node s t"
    then have t: "sound t" "ended node t" by (auto dest: readsD)
    show "outcome (if b \<in> set one_byte_escapes then ret () else if b = CHR ''u'' then hex_digits 4 node
        else halt (StopMalformed Syntax))
      (\<lambda>_ u. reads node t u \<and> escape_text (b # part t u)) (\<lambda>_. breaks node t) t"
    proof (cases "b \<notin> set one_byte_escapes \<and> b = CHR ''u''")
      case True
      have "outcome (hex_digits 4 node) (\<lambda>_ u. reads node t u \<and> escape_text (CHR ''u'' # part t u))
          (\<lambda>_. breaks node t) t"
        by (rule outcome_weaken [OF hex_digits_read [OF t]]) (auto simp: escape_text_def)
      with True show ?thesis by auto
    qed (use t in \<open>auto simp: reads_refl breaks_refl escape_text_def\<close>)
  qed (auto simp: part_append)
qed (simp add: breaks_refl assms)

text \<open>What may follow the opening quote of a string.\<close>

definition body_more :: "string \<Rightarrow> bool" where
  "body_more t \<longleftrightarrow> (\<forall>body. string_body body \<longrightarrow> string_body (body @ t))"

lemma body_more_append: "body_more t \<Longrightarrow> body_more u \<Longrightarrow> body_more (t @ u)"
  unfolding body_more_def by (metis append_assoc)

lemma body_more_escape: "escape_text t \<Longrightarrow> body_more (CHR 0x5C # t)"
  using body_escape body_unicode by (fastforce simp: escape_text_def body_more_def)

lemma body_more_plain: "b \<noteq> CHR 0x22 \<Longrightarrow> b \<noteq> CHR 0x5C \<Longrightarrow> 0x1f < byte b \<Longrightarrow> body_more [b]"
  using body_plain by (auto simp: body_more_def)

definition turn_text :: "bool \<Rightarrow> string \<Rightarrow> bool" where
  "turn_text finished t \<longleftrightarrow> (if finished then t = [CHR 0x22] else body_more t)"

lemma string_turn_peek:
  "string_turn node = (\<lambda>s. case peek s of
     None \<Rightarrow> halt (StopMalformed UnexpectedEnd) s
   | Some b \<Rightarrow> m_then (advance_string node) (\<lambda>_.
       if b = CHR 0x22 then ret True
       else if b = CHR 0x5C then m_then (scan_escape node) (\<lambda>_. ret False)
       else if byte b \<le> 0x1f then halt (StopMalformed Syntax)
       else ret False) s)"
  by (rule ext) (simp add: string_turn_def)

lemma string_turn_reads:
  assumes "sound s" and "ended node s"
  shows "outcome (string_turn node) (\<lambda>finished t. reads node s t \<and> turn_text finished (part s t))
    (\<lambda>_. breaks node s) s"
  unfolding string_turn_peek
proof (rule outcome_peek)
  fix b assume b: "peek s = Some b"
  let ?rest = "if b = CHR 0x22 then ret True
       else if b = CHR 0x5C then m_then (scan_escape node) (\<lambda>_. ret False)
       else if byte b \<le> 0x1f then halt (StopMalformed Syntax) else ret False"
  show "outcome (m_then (advance_string node) (\<lambda>_. ?rest))
      (\<lambda>finished t. reads node s t \<and> turn_text finished (part s t)) (\<lambda>_. breaks node s) s"
  proof (rule reads_then [OF advance_string_reads [OF assms b]])
    fix t assume "reads node s t"
    then have t: "sound t" "ended node t" by (auto dest: readsD)
    have "outcome (scan_escape node)
        (\<lambda>_ u. reads node t u \<and> turn_text False (CHR 0x5C # part t u)) (\<lambda>_. breaks node t) t"
      by (rule outcome_weaken [OF scan_escape_reads [OF t]]) (auto simp: turn_text_def body_more_escape)
    then show "outcome ?rest (\<lambda>finished u. reads node t u \<and> turn_text finished (b # part t u)) (\<lambda>_. breaks node t) t"
      using t body_more_plain [of b] by (auto simp: reads_refl breaks_refl turn_text_def)
  qed (auto simp: part_append)
qed (simp add: breaks_refl assms)

lemma string_turns_read:
  "sound s \<Longrightarrow> ended node s \<Longrightarrow>
   outcome (string_turns node)
     (\<lambda>_ t. reads node s t \<and> (\<exists>body. body_more body \<and> part s t = body @ [CHR 0x22]))
     (\<lambda>_. breaks node s) s"
proof (induction node s rule: string_turns.induct)
  case (1 node s)
  let ?Q = "\<lambda>s t. \<exists>body. body_more body \<and> part s t = body @ [CHR 0x22]"
  have "outcome (m_then (string_turn node) (\<lambda>finished t. if finished then (Ok (), t) else string_turns node t))
      (\<lambda>_ t. reads node s t \<and> ?Q s t) (\<lambda>_. breaks node s) s"
  proof (rule reads_then)
    show "outcome (string_turn node) (\<lambda>finished t. reads node s t \<and>
        (turn_text finished (part s t) \<and> string_turn node s = (Ok finished, t))) (\<lambda>_. breaks node s) s"
      using string_turn_reads [OF "1.prems"] by (auto simp: outcome_def split: prod.splits result.splits)
    fix finished t
    assume t: "reads node s t" "turn_text finished (part s t) \<and> string_turn node s = (Ok finished, t)"
    then have "sound t" "ended node t" by (auto dest: readsD)
    then show "outcome (\<lambda>t. if finished then (Ok (), t) else string_turns node t)
        (\<lambda>_ u. reads node t u \<and> (if finished then part t u = [] else ?Q t u)) (\<lambda>_. breaks node t) t"
      using "1.IH" [of finished t] t by (cases finished) (simp_all add: outcome_def reads_refl)
  next
    fix finished t u v
    assume r: "reads node s t" "turn_text finished (part s t) \<and> string_turn node s = (Ok finished, t)"
      "reads node t u" "if finished then part t u = [] else ?Q t u"
    then show "?Q s u"
    proof (cases finished)
      case True
      then show ?thesis
        using r by (intro exI [of _ "[]"]) (auto simp: part_append turn_text_def body_more_def)
    next
      case False
      then show ?thesis
        using r body_more_append by (fastforce simp: part_append turn_text_def)
    qed
  qed
  then show ?case by (rule outcome_unfold [rotated]) (rule string_turns.simps)
qed

lemma scan_string_reads:
  assumes "sound s" and "ended node s" and "peek s = Some (CHR 0x22)"
  shows "outcome (scan_string node)
    (\<lambda>sp t. reads node s t \<and> (json_string (part s t) \<and> sc_cursor s < sc_cursor t \<and>
        rs_start sp = of_nat (sc_cursor s) \<and> rs_end sp = of_nat (sc_cursor t)))
    (\<lambda>_. breaks node s) s"
proof -
  have long: "sc_cursor s < 2 ^ 64" using assms(1) by (simp add: sound_def)
  let ?Q = "\<lambda>sp t. json_string (part s t) \<and> sc_cursor s < sc_cursor t \<and>
        rs_start sp = of_nat (sc_cursor s) \<and> rs_end sp = of_nat (sc_cursor t)"
  define spanning :: "unit \<Rightarrow> raw_span scan" where "spanning = (\<lambda>_ t.
     case raw_span_new (u64_of_len_or_max (sc_cursor s)) (u64_of_len_or_max (sc_cursor t)) of
       Some sp \<Rightarrow> (Ok sp, t) | None \<Rightarrow> (Err (StopMalformed Syntax), t))"
  have whole: "outcome (m_then (string_turns node) spanning)
      (\<lambda>sp u. reads node t u \<and> ((\<exists>body. body_more body \<and> part t u = body @ [CHR 0x22]) \<and>
        rs_start sp = of_nat (sc_cursor s) \<and> rs_end sp = of_nat (sc_cursor u)))
      (\<lambda>_. breaks node t) t" if t: "reads node s t" for t
    unfolding outcome_simps
  proof (rule outcome_weaken [OF string_turns_read])
    show "sound t" "ended node t" using t by (auto dest: readsD)
    fix u v
    assume u: "reads node t u \<and> (\<exists>body. body_more body \<and> part t u = body @ [CHR 0x22])"
    then have "sc_cursor s \<le> sc_cursor u" "sc_cursor u < 2 ^ 64"
      using readsD [OF t] readsD [of node t u] by (auto simp: sound_def)
    with long have "raw_span_new (u64_of_len_or_max (sc_cursor s)) (u64_of_len_or_max (sc_cursor u))
        = Some \<lparr>rs_start = of_nat (sc_cursor s), rs_end = of_nat (sc_cursor u)\<rparr>"
      by (simp add: raw_span_new_def u64_of_len_or_max_def word_less_nat_alt unat_of_nat take_bit_nat_eq_self)
    with u show "outcome (spanning v) (\<lambda>sp u. reads node t u \<and>
        ((\<exists>body. body_more body \<and> part t u = body @ [CHR 0x22]) \<and>
        rs_start sp = of_nat (sc_cursor s) \<and> rs_end sp = of_nat (sc_cursor u))) (\<lambda>_. breaks node t) u"
      by (simp add: outcome_def spanning_def)
  qed simp
  have "outcome (m_then (advance_string node) (\<lambda>_. m_then (string_turns node) spanning))
      (\<lambda>sp t. reads node s t \<and> ?Q sp t) (\<lambda>_. breaks node s) s"
  proof (rule reads_then [OF advance_string_reads [OF assms] whole])
    fix a :: unit and sp t u
    assume st: "reads node s t" "part s t = [CHR 0x22]" and tu: "reads node t u"
      and r: "(\<exists>body. body_more body \<and> part t u = body @ [CHR 0x22]) \<and>
        rs_start sp = of_nat (sc_cursor s) \<and> rs_end sp = of_nat (sc_cursor u)"
    then have "json_string (part s u)"
      using body_empty by (auto simp: part_append json_string_def body_more_def)
    moreover from this have "part s u \<noteq> []" by (auto simp: json_string_def)
    then have "sc_cursor s < sc_cursor u" by (auto simp: part_def between_def)
    ultimately show "?Q sp u" using r by simp
  qed
  then show ?thesis
    by (rule outcome_unfold [rotated]) (simp add: scan_string_def spanning_def)
qed

end
