(* ===== verification/Span_Calm.thy ===== *)
theory Span_Calm
  imports Span_Lexing
begin

text \<open>
  The operations of the scanner that only keep books: clock and budget, paths, member names. They
  neither move the cursor nor change the tree, apart from the mark of a duplicate key.
\<close>

named_theorems calm_ops "operations that only keep books"

definition trunk :: "span_node \<Rightarrow> span_node" where
  "trunk node = node\<lparr>sn_duplicate_key_detected := False\<rparr>"

definition calm :: "scanner \<Rightarrow> scanner \<Rightarrow> bool" where
  "calm s t \<longleftrightarrow>
     sc_window t = sc_window s \<and> sc_max_blocks t = sc_max_blocks s \<and> sc_max_depth t = sc_max_depth s \<and>
     sc_cursor t = sc_cursor s \<and> sc_utf8 t = sc_utf8 s \<and> sc_frames t = sc_frames s \<and>
     sc_observed_values t = sc_observed_values s \<and>
     map trunk (sc_nodes t) = map trunk (sc_nodes s) \<and>
     maximum_work (sc_budget t) = maximum_work (sc_budget s) \<and> (sound s \<longrightarrow> sound t)"

lemma calm_refl [simp]: "calm s s"
  by (simp add: calm_def)

lemma calm_trans: "calm s t \<Longrightarrow> calm t u \<Longrightarrow> calm s u"
  by (simp add: calm_def)

lemma calm_then:
  assumes "outcome m (\<lambda>_. calm s) (\<lambda>_. calm s) s"
    and "\<And>a t. m s = (Ok a, t) \<Longrightarrow> outcome (f a) (\<lambda>_. calm t) (\<lambda>_. calm t) t"
  shows "outcome (m_then m f) (\<lambda>_. calm s) (\<lambda>_. calm s) s"
  unfolding outcome_simps
proof (rule outcome_resultI)
  fix a t assume m: "m s = (Ok a, t)"
  from outcome_Ok [OF assms(1) m] have t: "calm s t" .
  show "outcome (f a) (\<lambda>_. calm s) (\<lambda>_. calm s) t"
    by (rule outcome_weaken [OF assms(2) [OF m]]) (use t in \<open>auto intro: calm_trans\<close>)
qed (rule outcome_Err [OF assms(1)])

lemma paid_calm: "paid s t \<Longrightarrow> calm s t"
  by (auto simp: paid_def steady_def calm_def sound_def)

lemma paid_calmly:
  "outcome m (\<lambda>_. paid s) (\<lambda>_. paid s) s \<Longrightarrow> outcome m (\<lambda>_. calm s) (\<lambda>_. calm s) s"
  by (erule outcome_weaken) (auto intro: paid_calm)

lemmas poll_clock_calm [calm_ops] = paid_calmly [OF poll_clock_paid]
lemmas reserve_auxiliary_bytes_calm [calm_ops] = paid_calmly [OF reserve_auxiliary_bytes_paid]
lemmas charge_name_comparison_calm [calm_ops] = paid_calmly [OF charge_name_comparison_paid]

lemma changing_calm: "calm s (g s) \<Longrightarrow> outcome (changing g) (\<lambda>_. calm s) (\<lambda>_. calm s) s"
  by simp

lemma done_calm: "calm s t \<Longrightarrow> m s = (Ok a, t) \<Longrightarrow> outcome m (\<lambda>_. calm s) (\<lambda>_. calm s) s"
  by (simp add: outcome_def)

lemma ret_calm [calm_ops]: "outcome (ret a) (\<lambda>_. calm s) (\<lambda>_. calm s) s"
  by simp

lemma halt_calm [calm_ops]: "outcome (halt e) (\<lambda>_. calm s) (\<lambda>_. calm s) s"
  by simp

lemma sound_books [simp]:
  "sound (s\<lparr>sc_path := p\<rparr>) = sound s" "sound (s\<lparr>sc_path_checkpoints := ps\<rparr>) = sound s"
  "sound (s\<lparr>sc_names := names\<rparr>) = sound s" "sound (s\<lparr>sc_frames := fs\<rparr>) = sound s"
  "sound (s\<lparr>sc_duplicate_key_detected := d\<rparr>) = sound s"
  by (simp_all add: sound_def solvent_def demand_def auxiliary_work_units_def)

lemma calm_books [simp]:
  "calm s (s\<lparr>sc_path := p\<rparr>)" "calm s (s\<lparr>sc_path_checkpoints := ps\<rparr>)" "calm s (s\<lparr>sc_names := names\<rparr>)"
  "calm s (s\<lparr>sc_path := p, sc_path_checkpoints := ps\<rparr>)"
  by (simp_all add: calm_def)

section \<open>Paths\<close>

lemma append_path_text_calm [calm_ops]: "outcome (append_path_text text) (\<lambda>_. calm s) (\<lambda>_. calm s) s"
  unfolding append_path_text_def by (rule calm_then [OF reserve_auxiliary_bytes_calm]) simp

lemma push_array_token_calm [calm_ops]: "outcome (push_array_token i) (\<lambda>_. calm s) (\<lambda>_. calm s) s"
  unfolding push_array_token_def by (rule calm_then [OF append_path_text_calm]) (rule append_path_text_calm)

lemma path_checkpoint_calm [calm_ops]: "outcome path_checkpoint (\<lambda>_. calm s) (\<lambda>_. calm s) s"
  by (simp add: outcome_def path_checkpoint_def)

lemma rewind_path_calm: "calm s (rewind_path base s)"
  by (simp add: rewind_path_def)

lemma poll_position_calm [calm_ops]: "outcome (poll_position i) (\<lambda>_. calm s) (\<lambda>_. calm s) s"
  by (auto simp: poll_position_def poll_clock_calm)

lemma inspect_unit_calm [calm_ops]: "outcome (inspect_unit i units) (\<lambda>_. calm s) (\<lambda>_. calm s) s"
  unfolding inspect_unit_def
  by (intro calm_then poll_position_calm reserve_auxiliary_bytes_calm)
    (auto simp: outcome_def ret_def halt_def split: option.split result.split)

lemma push_units_calm [calm_ops]: "outcome (push_units i units) (\<lambda>_. calm s) (\<lambda>_. calm s) s"
proof (induction units arbitrary: i s rule: measure_induct_rule [of length])
  case (less units)
  show ?case
  proof (cases "remaining_bytes units > 0")
    case True
    have "outcome (m_then (inspect_unit i units) (\<lambda>(unit, units').
        m_then (append_path_text (token_text unit)) (\<lambda>_ t. push_units (i + 1) units' t)))
      (\<lambda>_. calm s) (\<lambda>_. calm s) s"
    proof (rule calm_then [OF inspect_unit_calm])
      fix a t assume a: "inspect_unit i units s = (Ok a, t)"
      obtain unit units' where pair: "a = (unit, units')" by (cases a)
      have short: "length units' < length units" using inspect_unit_shrinks a pair by blast
      show "outcome (case a of (unit, units') \<Rightarrow>
          m_then (append_path_text (token_text unit)) (\<lambda>_ t. push_units (i + 1) units' t))
        (\<lambda>_. calm t) (\<lambda>_. calm t) t"
        unfolding pair prod.case
        by (rule calm_then [OF append_path_text_calm]) (rule less.IH [OF short])
    qed
    then show ?thesis
      by (rule outcome_unfold [rotated]) (use True in \<open>simp add: push_units.simps [of i units s]\<close>)
  qed (simp add: outcome_def push_units.simps)
qed

text \<open>A computation whose next part depends on the state it meets.\<close>

lemma calm_here:
  "outcome (f s) (\<lambda>_. calm s) (\<lambda>_. calm s) s \<Longrightarrow> outcome (\<lambda>s. f s s) (\<lambda>_. calm s) (\<lambda>_. calm s) s"
  by (simp add: outcome_def)

lemma push_name_token_calm [calm_ops]: "outcome (push_name_token name) (\<lambda>_. calm s) (\<lambda>_. calm s) s"
proof -
  have text_calm: "outcome (\<lambda>s. case window_text s start end of None \<Rightarrow> (Ok (), s)
      | Some text \<Rightarrow> push_units 0 (utf8_chars text) s) (\<lambda>_. calm t) (\<lambda>_. calm t) t" for start "end" t
    using push_units_calm [of 0 _ t] by (cases "window_text t start end") (simp_all add: outcome_def)
  show ?thesis
    unfolding push_name_token_def
  proof (rule calm_then [OF append_path_text_calm])
    fix a t
    let ?rest = "\<lambda>s. case inner_span name of None \<Rightarrow> (Ok (), s) | Some content \<Rightarrow>
        (case span_bounds s content of None \<Rightarrow> (Ok (), s) | Some (start, end) \<Rightarrow>
           m_then (reserve_auxiliary_bytes (u64_of_len_or_max (end - start))) (\<lambda>_ s.
             case window_text s start end of None \<Rightarrow> (Ok (), s)
             | Some text \<Rightarrow> push_units 0 (utf8_chars text) s) s)"
    show "outcome ?rest (\<lambda>_. calm t) (\<lambda>_. calm t) t"
    proof (cases "\<exists>content start end. inner_span name = Some content \<and> span_bounds t content = Some (start, end)")
      case True
      then obtain content start "end" where "inner_span name = Some content"
        "span_bounds t content = Some (start, end)" by blast
      then show ?thesis
        by (intro outcome_unfold [OF _ calm_then [OF reserve_auxiliary_bytes_calm text_calm]]) simp
    qed (auto simp: outcome_def split: option.split)
  qed
qed

section \<open>Member names\<close>

lemma hash_units_calm [calm_ops]: "outcome (hash_units i h units) (\<lambda>_. calm s) (\<lambda>_. calm s) s"
proof (induction units arbitrary: i h s rule: measure_induct_rule [of length])
  case (less units)
  show ?case
  proof (cases "remaining_bytes units > 0")
    case True
    have "outcome (m_then (inspect_unit i units) (\<lambda>(unit, units') t.
        hash_units (i + 1) (mix h (tagged_code unit)) units' t)) (\<lambda>_. calm s) (\<lambda>_. calm s) s"
    proof (rule calm_then [OF inspect_unit_calm])
      fix a t assume a: "inspect_unit i units s = (Ok a, t)"
      obtain unit units' where pair: "a = (unit, units')" by (cases a)
      have short: "length units' < length units" using inspect_unit_shrinks a pair by blast
      show "outcome (case a of (unit, units') \<Rightarrow> (\<lambda>t. hash_units (i + 1) (mix h (tagged_code unit)) units' t))
        (\<lambda>_. calm t) (\<lambda>_. calm t) t"
        unfolding pair prod.case by (rule less.IH [OF short])
    qed
    then show ?thesis
      by (rule outcome_unfold [rotated]) (use True in \<open>simp add: hash_units.simps [of i h units s]\<close>)
  qed (simp add: outcome_def hash_units.simps)
qed

lemma hash_name_calm [calm_ops]: "outcome (hash_name content) (\<lambda>_. calm s) (\<lambda>_. calm s) s"
proof -
  have text_calm: "outcome (\<lambda>s. case window_text s start end of None \<Rightarrow> (Ok NAME_HASH_OFFSET, s)
      | Some text \<Rightarrow> hash_units 0 NAME_HASH_OFFSET (utf8_chars text) s) (\<lambda>_. calm t) (\<lambda>_. calm t) t"
    for start "end" t
    using hash_units_calm [of 0 _ _ t] by (cases "window_text t start end") (simp_all add: outcome_def)
  show ?thesis
  proof (cases "span_bounds s content")
    case (Some p)
    then show ?thesis
      by (cases p, intro outcome_unfold [OF _ calm_then [OF reserve_auxiliary_bytes_calm text_calm]])
        (simp add: hash_name_def)
  qed (simp add: outcome_def hash_name_def)
qed

lemma equal_units_calm [calm_ops]: "outcome (equal_units i left right) (\<lambda>_. calm s) (\<lambda>_. calm s) s"
proof (induction left arbitrary: i right s rule: measure_induct_rule [of length])
  case (less left)
  have last: "outcome (\<lambda>t. case (units_next left, units_next right) of
         (None, None) \<Rightarrow> (Ok True, t)
       | (Some (Ok left_unit, left'), Some (Ok right_unit, right')) \<Rightarrow>
           if left_unit = right_unit then equal_units (i + 1) left' right' t else (Ok False, t)
       | _ \<Rightarrow> (Ok False, t)) (\<lambda>_. calm t) (\<lambda>_. calm t) t" for t
  proof -
    have ih: "calm t u" if "equal_units (i + 1) left' right' t = (r, u)" "length left' < length left"
      for left' right' r u
      using outcome_Ok [OF less.IH [OF that(2)]] outcome_Err [OF less.IH [OF that(2)]] that(1)
      by (cases r) auto
    then show ?thesis
      by (auto simp: outcome_def simp del: One_nat_def add_Suc_right split: option.split prod.split result.split
          dest!: units_next_shrinks [of left])
  qed
  show ?case
    by (rule outcome_unfold, rule equal_units.simps)
      (intro calm_then charge_name_comparison_calm poll_position_calm reserve_auxiliary_bytes_calm last)
qed

lemma names_equal_calm [calm_ops]: "outcome (names_equal left right) (\<lambda>_. calm s) (\<lambda>_. calm s) s"
proof -
  have text_calm: "outcome (\<lambda>s. case (window_text s a b, window_text s c d) of
        (Some left_text, Some right_text) \<Rightarrow> equal_units 0 (utf8_chars left_text) (utf8_chars right_text) s
      | _ \<Rightarrow> (Ok False, s)) (\<lambda>_. calm t) (\<lambda>_. calm t) t" for a b c d t
    using equal_units_calm [of 0 _ _ t]
    by (cases "window_text t a b"; cases "window_text t c d") (simp_all add: outcome_def)
  show ?thesis
  proof (cases "left \<noteq> right \<and> span_bounds s left \<noteq> None \<and> span_bounds s right \<noteq> None")
    case True
    then obtain a b c d where "span_bounds s left = Some (a, b)" "span_bounds s right = Some (c, d)" by auto
    with True show ?thesis
      by (intro outcome_unfold [OF _ calm_then [OF reserve_auxiliary_bytes_calm text_calm]])
        (simp add: names_equal_def)
  qed (auto simp: outcome_def names_equal_def split: option.split prod.split)
qed

lemma find_name_calm [calm_ops]: "outcome (find_name i content entries) (\<lambda>_. calm s) (\<lambda>_. calm s) s"
proof (induction entries arbitrary: i s)
  case (Cons entry entries)
  have "outcome (m_then (names_equal (ne_content entry) content) (\<lambda>same t.
       if same then (Ok (Some (i, ne_occurrences entry)), t)
       else find_name (i + 1) content entries t)) (\<lambda>_. calm s) (\<lambda>_. calm s) s"
    by (rule calm_then [OF names_equal_calm]) (use Cons.IH in \<open>auto simp: outcome_def\<close>)
  then show ?case by (rule outcome_unfold [rotated]) simp
qed (simp add: outcome_def)

lemma mark_duplicate_calm [simp]: "calm s (mark_duplicate object s)"
proof -
  have "(map trunk ns)[i := trunk (ns ! i)] = map trunk ns" for ns :: "span_node list" and i
    by (cases "i < length ns") (simp_all add: list_update_same_conv list_update_beyond)
  moreover have "trunk (n\<lparr>sn_duplicate_key_detected := d\<rparr>) = trunk n" for n d by (simp add: trunk_def)
  ultimately show ?thesis by (simp add: calm_def mark_duplicate_def with_node_def map_update)
qed

lemma calm_names: "calm s t \<Longrightarrow> calm s (t\<lparr>sc_names := names\<rparr>)"
  by (auto intro: calm_trans)

lemma store_name_calm [calm_ops]: "outcome (store_name key content entries matched) (\<lambda>_. calm s) (\<lambda>_. calm s) s"
  by (auto simp: outcome_def store_name_def put_bucket_def intro!: calm_names split: option.split)

lemma take_bucket_calm [calm_ops]: "outcome (take_bucket key) (\<lambda>_. calm s) (\<lambda>_. calm s) s"
  by (simp add: outcome_def take_bucket_def)

lemma record_name_calm [calm_ops]: "outcome (record_name object name) (\<lambda>_. calm s) (\<lambda>_. calm s) s"
  by (cases "inner_span name")
    (auto simp: record_name_def simp del: outcome_m_then
      intro!: calm_then hash_name_calm take_bucket_calm find_name_calm store_name_calm)

end
