(* ===== verification/Span_Tree.thy ===== *)
theory Span_Tree
  imports Json_Grammar
begin

text \<open>
  What the nodes and the open containers of a scan say about the text, without the words and the
  links: the core of a node, the invariants of a list of cores, and the moves of the scan on them.
  The stack of open containers has the innermost one first; an entry is the position of its node,
  its kind, and whether a child was counted.
\<close>

record core =
  co_id :: nat
  co_parent :: "nat option"
  co_start :: nat
  co_end :: nat
  co_kind :: json_value_kind
  co_depth :: nat
  co_complete :: bool

type_synonym entry = "nat \<times> container \<times> bool"

section \<open>The text of the open containers\<close>

text \<open>\<open>awaits\<close>: a value may start at \<open>c\<close>. \<open>holds\<close>: one did, and it was counted.\<close>

fun holds :: "string \<Rightarrow> core list \<Rightarrow> entry list \<Rightarrow> nat \<Rightarrow> bool" where
  "holds w cs [] c = all_whitespace (between w 0 c)"
| "holds w cs ((i, k, b) # outer) c \<longleftrightarrow>
     b \<and> co_start (cs ! i) \<le> c \<and> awaiting k (between w (co_start (cs ! i)) c) \<and>
     holds w cs outer (co_start (cs ! i))"

fun awaits :: "string \<Rightarrow> core list \<Rightarrow> entry list \<Rightarrow> nat \<Rightarrow> bool" where
  "awaits w cs [] c = all_whitespace (between w 0 c)"
| "awaits w cs ((i, k, b) # outer) c \<longleftrightarrow>
     co_start (cs ! i) \<le> c \<and> awaiting k (between w (co_start (cs ! i)) c) \<and>
     holds w cs outer (co_start (cs ! i))"

fun chain :: "string \<Rightarrow> core list \<Rightarrow> entry list \<Rightarrow> nat \<Rightarrow> bool" where
  "chain w cs [] c \<longleftrightarrow>
     (\<exists>v kind body. all_whitespace v \<and> json_value kind body \<and> between w 0 c = v @ body)"
| "chain w cs ((i, k, b) # outer) c \<longleftrightarrow>
     co_start (cs ! i) \<le> c \<and> opened k b (between w (co_start (cs ! i)) c) \<and>
     holds w cs outer (co_start (cs ! i))"

fun counted :: "entry list \<Rightarrow> entry list" where
  "counted [] = []"
| "counted ((i, k, b) # outer) = (i, k, True) # outer"

definition same_starts :: "core list \<Rightarrow> core list \<Rightarrow> bool" where
  "same_starts cs ds \<longleftrightarrow> length cs \<le> length ds \<and> (\<forall>i < length cs. co_start (ds ! i) = co_start (cs ! i))"

lemma holds_cong:
  "same_starts cs ds \<Longrightarrow> \<forall>(i, _) \<in> set stack. i < length cs \<Longrightarrow> holds w ds stack c = holds w cs stack c"
  by (induction w cs stack c rule: holds.induct) (auto simp: same_starts_def)

lemma awaits_cong:
  "same_starts cs ds \<Longrightarrow> \<forall>(i, _) \<in> set stack. i < length cs \<Longrightarrow> awaits w ds stack c = awaits w cs stack c"
  by (cases "(w, cs, stack, c)" rule: awaits.cases) (auto simp: holds_cong same_starts_def)

lemma chain_cong:
  "same_starts cs ds \<Longrightarrow> \<forall>(i, _) \<in> set stack. i < length cs \<Longrightarrow> chain w ds stack c = chain w cs stack c"
  by (cases "(w, cs, stack, c)" rule: chain.cases) (auto simp: holds_cong same_starts_def)

lemma set_counted: "fst ` set (counted stack) = fst ` set stack"
  by (cases stack rule: counted.cases) auto

lemma map_fst_counted [simp]: "map fst (counted stack) = map fst stack"
  by (cases stack rule: counted.cases) auto

lemma awaits_holds: "awaits w cs stack c \<Longrightarrow> holds w cs (counted stack) c"
  by (cases stack rule: counted.cases) auto

lemma chain_leaf:
  assumes "awaits w cs stack c0" and "json_value kind (between w c0 c)" and "c0 \<le> c"
  shows "chain w cs (counted stack) c"
proof (cases stack rule: counted.cases)
  case 1
  with assms show ?thesis by (auto simp flip: between_append [of 0 c0 c])
next
  case (2 i k b outer)
  with assms show ?thesis
    by (auto simp flip: between_append [of "co_start (cs ! i)" c0 c] intro: opened_child)
qed

lemma chain_enter:
  assumes "awaits w cs stack (co_start (cs ! i))"
    and "between w (co_start (cs ! i)) c = [open_delimiter k]" and "co_start (cs ! i) \<le> c"
  shows "chain w cs ((i, k, False) # counted stack) c"
  using assms by (simp add: opened_empty awaits_holds)

lemma chain_awaits:
  assumes "chain w cs ((i, k, b) # outer) c0" and "c0 \<le> c" and "between w c0 c = v @ sep @ label"
    and "all_whitespace v" "json_separator b sep" "json_label k label"
  shows "awaits w cs ((i, k, b) # outer) c"
  using assms by (auto intro: awaiting_child simp flip: between_append [of "co_start (cs ! i)" c0 c])

lemma chain_close_value:
  assumes "chain w cs ((i, k, b) # outer) c0" and "c0 \<le> c"
    and "between w c0 c = v @ [close_delimiter k]" and "all_whitespace v"
  shows "json_value (container_kind k) (between w (co_start (cs ! i)) c)"
  using assms by (auto intro: value_container simp flip: between_append [of "co_start (cs ! i)" c0 c])

lemma holds_counted: "holds w cs stack c \<Longrightarrow> awaits w cs stack c \<and> counted stack = stack"
  by (cases stack rule: counted.cases) auto

lemma chain_close:
  assumes "chain w cs ((i, k, b) # outer) c0" and "c0 \<le> c"
    and "between w c0 c = v @ [close_delimiter k]" and "all_whitespace v"
  shows "chain w cs outer c"
proof -
  have "holds w cs outer (co_start (cs ! i))" "co_start (cs ! i) \<le> c" using assms(1,2) by auto
  then show ?thesis
    using chain_leaf [OF _ chain_close_value [OF assms]] holds_counted by metis
qed

section \<open>The nodes\<close>

definition cores_ok :: "string \<Rightarrow> nat \<Rightarrow> core list \<Rightarrow> bool" where
  "cores_ok w c cs \<longleftrightarrow> (\<forall>i < length cs. co_id (cs ! i) = i \<and>
     co_start (cs ! i) \<le> co_end (cs ! i) \<and> co_end (cs ! i) \<le> c \<and>
     (co_complete (cs ! i) \<longrightarrow> json_value (co_kind (cs ! i)) (between w (co_start (cs ! i)) (co_end (cs ! i)))))"

text \<open>A complete node ends before a later one starts, or covers it.\<close>

definition laminar :: "core list \<Rightarrow> bool" where
  "laminar cs \<longleftrightarrow> (\<forall>j < length cs. \<forall>i < j. co_start (cs ! i) < co_start (cs ! j) \<and>
     (co_complete (cs ! i) \<longrightarrow> co_end (cs ! i) \<le> co_start (cs ! j) \<or>
        co_complete (cs ! j) \<and> co_end (cs ! j) \<le> co_end (cs ! i)))"

definition rooted :: "core list \<Rightarrow> bool" where
  "rooted cs \<longleftrightarrow> (\<forall>j < length cs. \<forall>p. co_parent (cs ! j) = Some p \<longrightarrow> p < j \<and>
     is_container (co_kind (cs ! p)) \<and>
     (co_complete (cs ! p) \<longrightarrow> co_complete (cs ! j) \<and> co_end (cs ! j) \<le> co_end (cs ! p)))"

text \<open>The open containers are the incomplete ones.\<close>

definition open_nodes :: "entry list \<Rightarrow> core list \<Rightarrow> bool" where
  "open_nodes stack cs \<longleftrightarrow>
     (\<forall>(i, k, b) \<in> set stack. i < length cs \<and> \<not> co_complete (cs ! i) \<and> co_kind (cs ! i) = container_kind k) \<and>
     (\<forall>i < length cs. \<not> co_complete (cs ! i) \<and> is_container (co_kind (cs ! i)) \<longrightarrow> i \<in> fst ` set stack)"

definition forest :: "string \<Rightarrow> nat \<Rightarrow> entry list \<Rightarrow> core list \<Rightarrow> bool" where
  "forest w c stack cs \<longleftrightarrow> cores_ok w c cs \<and> laminar cs \<and> rooted cs \<and> open_nodes stack cs"

text \<open>Between two values, every incomplete node is an open container and the text is as expected.\<close>

definition settled_nodes :: "nat \<Rightarrow> entry list \<Rightarrow> core list \<Rightarrow> bool" where
  "settled_nodes c stack cs \<longleftrightarrow>
     (\<forall>i < length cs. co_start (cs ! i) < c \<and> (co_complete (cs ! i) \<or> i \<in> fst ` set stack)) \<and>
     sorted_wrt (>) (map fst stack)"

definition tree :: "string \<Rightarrow> nat \<Rightarrow> entry list \<Rightarrow> core list \<Rightarrow> bool" where
  "tree w c stack cs \<longleftrightarrow> forest w c stack cs \<and> settled_nodes c stack cs"

text \<open>A value other than a container that never ended is the last one.\<close>

definition unfinished_last :: "core list \<Rightarrow> bool" where
  "unfinished_last cs \<longleftrightarrow>
     (\<forall>i < length cs. \<not> co_complete (cs ! i) \<and> \<not> is_container (co_kind (cs ! i)) \<longrightarrow> Suc i = length cs)"

lemma forest_later: "forest w c stack cs \<Longrightarrow> c \<le> c' \<Longrightarrow> forest w c' stack cs"
  by (auto simp: forest_def cores_ok_def)

lemma tree_later: "tree w c stack cs \<Longrightarrow> c \<le> c' \<Longrightarrow> tree w c' stack cs"
  by (auto simp: tree_def settled_nodes_def intro: forest_later less_le_trans)

lemma forest_counted [simp]: "forest w c (counted stack) cs = forest w c stack cs"
proof (cases stack rule: counted.cases)
  case (2 i k b outer)
  then show ?thesis by (auto simp: forest_def open_nodes_def)
qed simp

lemma tree_counted [simp]: "tree w c (counted stack) cs = tree w c stack cs"
  by (simp add: tree_def settled_nodes_def set_counted)

lemma tree_stack_positions: "tree w c stack cs \<Longrightarrow> \<forall>(i, _) \<in> set stack. i < length cs"
  by (auto simp: tree_def forest_def open_nodes_def)

section \<open>Moves\<close>

text \<open>The place of the next node: below the innermost open container.\<close>

definition below :: "entry list \<Rightarrow> nat option \<Rightarrow> bool" where
  "below stack parent \<longleftrightarrow> (case parent of None \<Rightarrow> True | Some p \<Rightarrow> stack \<noteq> [] \<and> p = fst (hd stack))"

definition fresh :: "nat \<Rightarrow> core list \<Rightarrow> core \<Rightarrow> bool" where
  "fresh c cs new \<longleftrightarrow> co_id new = length cs \<and> co_start new = c \<and> co_end new = c \<and> \<not> co_complete new"

definition finished :: "nat \<Rightarrow> core \<Rightarrow> core" where
  "finished e n = n\<lparr>co_end := e, co_complete := True\<rparr>"

lemma same_starts_snoc: "same_starts cs (cs @ [new])"
  by (auto simp: same_starts_def nth_append)

lemma same_starts_update: "co_start n = co_start (cs ! i) \<Longrightarrow> same_starts cs (cs[i := n])"
  by (cases "i < length cs") (auto simp: same_starts_def nth_list_update)

lemma cores_ok_snoc:
  assumes "cores_ok w c cs" and "co_id new = length cs" and "co_start new \<le> co_end new" and "co_end new \<le> c"
    and "co_complete new \<Longrightarrow> json_value (co_kind new) (between w (co_start new) (co_end new))"
  shows "cores_ok w c (cs @ [new])"
  using assms by (auto simp: cores_ok_def nth_append less_Suc_eq)

lemma laminar_snoc:
  assumes "laminar cs" and "\<forall>i < length cs. co_start (cs ! i) < co_start new \<and>
    (co_complete (cs ! i) \<longrightarrow> co_end (cs ! i) \<le> co_start new)"
  shows "laminar (cs @ [new])"
  using assms by (auto simp: laminar_def nth_append less_Suc_eq)

lemma rooted_snoc:
  assumes "rooted cs" and "\<And>p. co_parent new = Some p \<Longrightarrow>
    p < length cs \<and> is_container (co_kind (cs ! p)) \<and> \<not> co_complete (cs ! p)"
  shows "rooted (cs @ [new])"
  using assms by (auto simp: rooted_def nth_append less_Suc_eq)

lemma container_kind_is_container [simp]: "is_container (container_kind k)"
  by (cases k) (simp_all add: is_container_def)

lemma tree_unfinished:
  assumes "tree w c stack cs"
  shows "unfinished_last cs" and "unfinished_last (cs @ [new])"
proof -
  have "co_complete (cs ! i) \<or> is_container (co_kind (cs ! i))" if "i < length cs" for i
    using assms that by (fastforce simp: tree_def settled_nodes_def forest_def open_nodes_def)
  then show "unfinished_last cs" "unfinished_last (cs @ [new])"
    by (auto simp: unfinished_last_def nth_append)
qed

lemma tree_below:
  assumes "tree w c stack cs" and "below stack parent" and "parent = Some p"
  shows "p < length cs \<and> is_container (co_kind (cs ! p)) \<and> \<not> co_complete (cs ! p)"
  using assms
  by (cases stack) (auto simp: tree_def forest_def open_nodes_def below_def)

text \<open>A new node at the cursor, when the text before it was read.\<close>

lemma tree_push_parts:
  assumes t: "tree w c0 stack cs" and new: "co_start new = c0" "below stack (co_parent new)"
  shows "laminar (cs @ [new]) \<and> rooted (cs @ [new])"
proof
  have "co_start (cs ! i) < c0 \<and> co_end (cs ! i) \<le> c0" if "i < length cs" for i
    using t that by (auto simp: tree_def forest_def cores_ok_def settled_nodes_def)
  then show "laminar (cs @ [new])"
    using t new by (intro laminar_snoc) (auto simp: tree_def forest_def)
  show "rooted (cs @ [new])"
    using t tree_below [OF t new(2)] by (intro rooted_snoc) (auto simp: tree_def forest_def)
qed

lemma tree_enter:
  assumes t: "tree w c0 stack cs" and c: "c0 < c"
    and new: "fresh c0 cs new" "below stack (co_parent new)" "co_kind new = container_kind k"
  shows "tree w c ((length cs, k, False) # stack) (cs @ [new])"
proof -
  have "cores_ok w c (cs @ [new])"
    using t c new(1) forest_later [of w c0 stack cs c]
    by (intro cores_ok_snoc) (auto simp: fresh_def tree_def forest_def)
  moreover have "open_nodes ((length cs, k, False) # stack) (cs @ [new])"
    using t new by (auto simp: tree_def forest_def open_nodes_def nth_append fresh_def less_Suc_eq)
  moreover have "settled_nodes c ((length cs, k, False) # stack) (cs @ [new])"
    using t c new tree_stack_positions [OF t]
    by (auto simp: tree_def settled_nodes_def nth_append fresh_def less_Suc_eq)
  ultimately show ?thesis
    using tree_push_parts [OF t _ new(2)] new(1) by (simp add: tree_def forest_def fresh_def)
qed

lemma tree_string:
  assumes t: "tree w c0 stack cs" and c: "c0 \<le> e" "e \<le> c"
    and new: "fresh c0 cs new" "below stack (co_parent new)" "\<not> is_container (co_kind new)"
  shows "forest w c stack (cs @ [new\<lparr>co_end := e\<rparr>])"
proof -
  have "cores_ok w c (cs @ [new\<lparr>co_end := e\<rparr>])"
    using t c new(1) forest_later [of w c0 stack cs c]
    by (intro cores_ok_snoc) (auto simp: fresh_def tree_def forest_def)
  moreover have "open_nodes stack (cs @ [new\<lparr>co_end := e\<rparr>])"
    using t new by (auto simp: tree_def forest_def open_nodes_def nth_append fresh_def less_Suc_eq)
  ultimately show ?thesis
    using tree_push_parts [OF t, of "new\<lparr>co_end := e\<rparr>"] new by (simp add: forest_def fresh_def)
qed

lemma tree_leaf:
  assumes t: "tree w c0 stack cs" and c: "c0 < c"
    and new: "fresh c0 cs new" "below stack (co_parent new)" "\<not> is_container (co_kind new)"
    and v: "json_value (co_kind new) (between w c0 c)"
  shows "tree w c stack (cs @ [finished c new])"
proof -
  have "cores_ok w c (cs @ [finished c new])"
    using t c new(1) v forest_later [of w c0 stack cs c]
    by (intro cores_ok_snoc) (auto simp: fresh_def tree_def forest_def finished_def)
  moreover have "open_nodes stack (cs @ [finished c new])"
    using t new by (auto simp: tree_def forest_def open_nodes_def nth_append finished_def less_Suc_eq)
  moreover have "settled_nodes c stack (cs @ [finished c new])"
    using t c new by (auto simp: tree_def settled_nodes_def nth_append fresh_def finished_def less_Suc_eq)
  ultimately show ?thesis
    using tree_push_parts [OF t, of "finished c new"] new
    by (simp add: tree_def forest_def fresh_def finished_def)
qed

text \<open>The innermost container closes.\<close>

lemma tree_close:
  assumes t: "tree w c ((i, k, b) # outer) cs"
    and v: "json_value (container_kind k) (between w (co_start (cs ! i)) c)"
  shows "tree w c outer (cs[i := finished c (cs ! i)])"
proof -
  let ?ds = "cs[i := finished c (cs ! i)]"
  have i: "i < length cs" "\<not> co_complete (cs ! i)" "co_kind (cs ! i) = container_kind k"
    and outer: "\<forall>(j, _) \<in> set outer. j < i"
    using t by (auto simp: tree_def forest_def open_nodes_def settled_nodes_def)
  have later: "co_complete (cs ! j) \<and> co_end (cs ! j) \<le> c" if "i < j" "j < length cs" for j
    using t that outer by (fastforce simp: tree_def settled_nodes_def forest_def cores_ok_def)
  have starts: "co_start (cs ! j) < c" if "j < length cs" for j
    using t that by (auto simp: tree_def settled_nodes_def)
  have old: "cores_ok w c cs" "laminar cs" "rooted cs" "open_nodes ((i, k, b) # outer) cs"
    "settled_nodes c ((i, k, b) # outer) cs"
    using t by (simp_all add: tree_def forest_def)
  have ds: "length ?ds = length cs" "?ds ! i = finished c (cs ! i)" "\<And>j. j \<noteq> i \<Longrightarrow> ?ds ! j = cs ! j"
    using i(1) by simp_all
  have "cores_ok w c ?ds"
    unfolding cores_ok_def
  proof (intro allI impI)
    fix j assume "j < length ?ds"
    then show "co_id (?ds ! j) = j \<and> co_start (?ds ! j) \<le> co_end (?ds ! j) \<and> co_end (?ds ! j) \<le> c \<and>
      (co_complete (?ds ! j) \<longrightarrow>
        json_value (co_kind (?ds ! j)) (between w (co_start (?ds ! j)) (co_end (?ds ! j))))"
      using old(1) v i starts [OF i(1)] by (cases "j = i") (auto simp: cores_ok_def finished_def)
  qed
  moreover have "laminar ?ds"
    unfolding laminar_def
  proof (intro allI impI)
    fix j a assume j: "j < length ?ds" "a < j"
    then have "co_start (cs ! a) < co_start (cs ! j) \<and> (co_complete (cs ! a) \<longrightarrow>
      co_end (cs ! a) \<le> co_start (cs ! j) \<or> co_complete (cs ! j) \<and> co_end (cs ! j) \<le> co_end (cs ! a))"
      using old(2) by (simp add: laminar_def)
    then show "co_start (?ds ! a) < co_start (?ds ! j) \<and> (co_complete (?ds ! a) \<longrightarrow>
      co_end (?ds ! a) \<le> co_start (?ds ! j) \<or> co_complete (?ds ! j) \<and> co_end (?ds ! j) \<le> co_end (?ds ! a))"
      using i later j by (cases "a = i"; cases "j = i") (auto simp: finished_def)
  qed
  moreover have "rooted ?ds"
    unfolding rooted_def
  proof (intro allI impI)
    fix j p assume j: "j < length ?ds" "co_parent (?ds ! j) = Some p"
    then have "co_parent (cs ! j) = Some p" by (cases "j = i") (simp_all add: i finished_def)
    then have "p < j \<and> is_container (co_kind (cs ! p)) \<and>
      (co_complete (cs ! p) \<longrightarrow> co_complete (cs ! j) \<and> co_end (cs ! j) \<le> co_end (cs ! p))"
      using old(3) j by (simp add: rooted_def)
    then show "p < j \<and> is_container (co_kind (?ds ! p)) \<and>
      (co_complete (?ds ! p) \<longrightarrow> co_complete (?ds ! j) \<and> co_end (?ds ! j) \<le> co_end (?ds ! p))"
      using i later j by (cases "p = i"; cases "j = i") (auto simp: finished_def)
  qed
  moreover have "open_nodes outer ?ds"
    unfolding open_nodes_def
  proof (intro conjI ballI allI impI)
    fix e assume e: "e \<in> set outer"
    obtain j l a where "e = (j, l, a)" by (cases e)
    then show "case e of (j, l, a) \<Rightarrow> j < length ?ds \<and> \<not> co_complete (?ds ! j) \<and>
        co_kind (?ds ! j) = container_kind l"
      using e old(4) outer by (cases "j = i") (auto simp: open_nodes_def)
  next
    fix j assume "j < length ?ds" "\<not> co_complete (?ds ! j) \<and> is_container (co_kind (?ds ! j))"
    then show "j \<in> fst ` set outer"
      using old(4) i(1) by (cases "j = i") (auto simp: open_nodes_def finished_def)
  qed
  moreover have "settled_nodes c outer ?ds"
    unfolding settled_nodes_def
  proof (intro conjI allI impI)
    fix j assume "j < length ?ds"
    then show "co_start (?ds ! j) < c" "co_complete (?ds ! j) \<or> j \<in> fst ` set outer"
      using old(5) i(1) by (cases "j = i"; auto simp: settled_nodes_def finished_def)+
  qed (use old(5) in \<open>simp add: settled_nodes_def\<close>)
  ultimately show ?thesis by (simp add: tree_def forest_def)
qed

end
