(* ===== verification/Span_Walk.thy ===== *)
theory Span_Walk
  imports Span_Calm Span_Tree
begin

text \<open>
  The invariant of the scanner. \<open>at_rest\<close> holds between two steps: the nodes form a tree and the
  text read so far is a prefix of a JSON document with the open containers open. \<open>halted\<close> is what
  is left of it when the scan stops.
\<close>

section \<open>The tree of a scanner\<close>

definition core_of :: "span_node \<Rightarrow> core" where
  "core_of n =
     \<lparr>co_id = unat (sn_id n), co_parent = map_option unat (sn_parent n),
      co_start = unat (bl_raw_value_start (sn_locator n)), co_end = unat (bl_raw_value_end (sn_locator n)),
      co_kind = sn_kind n, co_depth = unat (sn_depth n), co_complete = sn_complete n\<rparr>"

definition entry_of :: "frame \<Rightarrow> entry" where
  "entry_of f = (unat (fr_node f), fr_kind f, fr_children f > 0)"

definition cores :: "scanner \<Rightarrow> core list" where
  "cores s = map core_of (sc_nodes s)"

definition stack :: "scanner \<Rightarrow> entry list" where
  "stack s = rev (map entry_of (sc_frames s))"

lemma length_cores [simp]: "length (cores s) = length (sc_nodes s)"
  by (simp add: cores_def)

lemma core_of_trunk: "core_of (trunk n) = core_of n"
  by (simp add: core_of_def trunk_def)

lemma cores_calm: "calm s t \<Longrightarrow> cores t = cores s"
proof -
  assume "calm s t"
  then have "map core_of (map trunk (sc_nodes t)) = map core_of (map trunk (sc_nodes s))"
    by (simp add: calm_def)
  then show ?thesis by (simp add: cores_def comp_def core_of_trunk)
qed

lemma stack_calm: "calm s t \<Longrightarrow> stack t = stack s"
  by (simp add: calm_def stack_def)

text \<open>The bounds on the nodes.\<close>

definition bounded :: "scanner \<Rightarrow> bool" where
  "bounded s \<longleftrightarrow> length (sc_nodes s) \<le> sc_max_blocks s \<and> length (sc_nodes s) \<le> 2 ^ 32 \<and>
     length (sc_nodes s) \<le> unat (sc_observed_values s) \<and>
     (\<forall>n \<in> set (cores s). 1 \<le> co_depth n \<and> co_depth n \<le> unat (sc_max_depth s))"

definition halted :: "scanner \<Rightarrow> bool" where
  "halted s \<longleftrightarrow> sound s \<and> bounded s \<and> forest (sc_window s) (sc_cursor s) (stack s) (cores s) \<and>
     unfinished_last (cores s)"

definition grown :: "scanner \<Rightarrow> bool" where
  "grown s \<longleftrightarrow> sound s \<and> bounded s \<and> decoded s \<and> tree (sc_window s) (sc_cursor s) (stack s) (cores s) \<and>
     (\<forall>f \<in> set (sc_frames s). co_depth (cores s ! unat (fr_node f)) = unat (fr_depth f))"

definition at_rest :: "scanner \<Rightarrow> bool" where
  "at_rest s \<longleftrightarrow> grown s \<and> chain (sc_window s) (cores s) (stack s) (sc_cursor s)"

definition ready :: "scanner \<Rightarrow> bool" where
  "ready s \<longleftrightarrow> grown s \<and> awaits (sc_window s) (cores s) (stack s) (sc_cursor s)"

lemma grown_halted: "grown s \<Longrightarrow> halted s"
  using tree_unfinished(1) by (auto simp: grown_def halted_def tree_def)

lemma decoded_calm: "calm s t \<Longrightarrow> decoded t = decoded s"
  by (simp add: calm_def decoded_def)

lemma bounded_calm: "calm s t \<Longrightarrow> bounded t = bounded s"
  using cores_calm [of s t] map_eq_imp_length_eq [of trunk "sc_nodes t" trunk "sc_nodes s"]
  by (simp add: bounded_def calm_def)

lemma calm_keeps:
  assumes "calm s t"
  shows "grown s \<Longrightarrow> grown t" "halted s \<Longrightarrow> halted t" "at_rest s \<Longrightarrow> at_rest t" "ready s \<Longrightarrow> ready t"
  using assms cores_calm [OF assms] stack_calm [OF assms] decoded_calm [OF assms] bounded_calm [OF assms]
  by (auto simp: grown_def halted_def at_rest_def ready_def calm_def)

lemma reads_tree:
  assumes "reads None s t"
  shows "cores t = cores s" "stack t = stack s" "sc_window t = sc_window s" "bounded t = bounded s"
    "sc_frames t = sc_frames s" "sc_cursor s \<le> sc_cursor t"
  using assms by (simp_all add: reads_def same_rest_def cores_def stack_def bounded_def)

lemma reads_grown: "reads None s t \<Longrightarrow> grown s \<Longrightarrow> grown t"
  using reads_tree [of s t] tree_later [of "sc_window s" "sc_cursor s"]
  by (auto simp: grown_def reads_def)

lemma breaks_halted:
  assumes "breaks None s t" and "halted s"
  shows "halted t"
proof -
  have "cores t = cores s" "stack t = stack s" "sc_window t = sc_window s" "sc_cursor s \<le> sc_cursor t"
    "sound t" "bounded t = bounded s"
    using assms(1) by (auto simp: breaks_def same_rest_def cores_def stack_def bounded_def)
  then show ?thesis using assms(2) by (auto simp: halted_def intro: forest_later)
qed

section \<open>Pushing and finishing nodes\<close>

lemma core_of_links [simp]:
  "core_of (n\<lparr>sn_next_sibling := x\<rparr>) = core_of n"
  "core_of (n\<lparr>sn_first_child := a, sn_last_child := b, sn_child_count := c\<rparr>) = core_of n"
  "core_of (n\<lparr>sn_last_child := b, sn_child_count := c\<rparr>) = core_of n"
  by (simp_all add: core_of_def)

lemma map_update_same: "f y = f (xs ! i) \<Longrightarrow> map f (xs[i := y]) = map f xs"
  by (cases "i < length xs") (simp_all add: map_update list_update_same_conv list_update_beyond)

lemma cores_with_node:
  "core_of (g (sc_nodes s ! unat ident)) = core_of (sc_nodes s ! unat ident) \<Longrightarrow>
   cores (with_node ident g s) = cores s"
  by (simp add: cores_def with_node_def map_update_same)

lemma cores_link_child [simp]: "cores (link_child p c s) = cores s"
  by (auto simp: link_child_def Let_def cores_with_node core_of_def split: option.split)

definition set_finished :: "nat \<Rightarrow> nat \<Rightarrow> core list \<Rightarrow> core list" where
  "set_finished i e cs = cs[i := finished e (cs ! i)]"

lemma cores_finish_node:
  assumes "unat ident < length (sc_nodes s)"
  shows "cores (finish_node ident e s) = set_finished (unat ident) (unat e) (cores s)"
  using assms
  by (simp add: cores_def finish_node_def with_node_def set_finished_def map_update core_of_def
      finished_def set_raw_end_def)

text \<open>The parts that linking and finishing leave alone.\<close>

definition beside_nodes :: "scanner \<Rightarrow> scanner \<Rightarrow> bool" where
  "beside_nodes s t \<longleftrightarrow> t = s\<lparr>sc_nodes := sc_nodes t\<rparr> \<and> length (sc_nodes t) = length (sc_nodes s)"

lemma beside_refl [simp]: "beside_nodes s s"
  by (simp add: beside_nodes_def)

lemma beside_with_node: "beside_nodes s (with_node i g s)"
  by (simp add: beside_nodes_def with_node_def)

lemma beside_trans: "beside_nodes s t \<Longrightarrow> beside_nodes t u \<Longrightarrow> beside_nodes s u"
  unfolding beside_nodes_def by (metis scanner.surjective scanner.update_convs(15))

lemma beside_link_child: "beside_nodes s (link_child p c s)"
  by (auto simp: link_child_def Let_def beside_with_node split: option.split
      intro: beside_trans [OF beside_with_node beside_with_node])

definition new_core :: "value_context \<Rightarrow> json_value_kind \<Rightarrow> scanner \<Rightarrow> core" where
  "new_core context kind s =
     \<lparr>co_id = length (sc_nodes s), co_parent = map_option unat (vc_parent context),
      co_start = vc_start context, co_end = vc_start context, co_kind = kind,
      co_depth = unat (vc_depth context), co_complete = False\<rparr>"

definition same_place :: "scanner \<Rightarrow> scanner \<Rightarrow> bool" where
  "same_place s t \<longleftrightarrow>
     sc_window t = sc_window s \<and> sc_max_blocks t = sc_max_blocks s \<and> sc_max_depth t = sc_max_depth s \<and>
     sc_cursor t = sc_cursor s \<and> sc_utf8 t = sc_utf8 s \<and> sc_frames t = sc_frames s \<and>
     maximum_work (sc_budget t) = maximum_work (sc_budget s)"

definition pushed :: "value_context \<Rightarrow> json_value_kind \<Rightarrow> scanner \<Rightarrow> span_node_id \<Rightarrow> scanner \<Rightarrow> bool" where
  "pushed context kind s ident t \<longleftrightarrow> same_place s t \<and> sound t \<and> bounded t \<and>
     unat ident = length (sc_nodes s) \<and> cores t = cores s @ [new_core context kind s]"

lemma sound_values:
  assumes "sound s" and "demand (s\<lparr>sc_observed_values := v\<rparr>) \<le> sc_reserved_work_units s"
  shows "sound (s\<lparr>sc_observed_values := v\<rparr>)"
  using assms by (simp add: sound_def solvent_def)

lemma beside_facts:
  assumes "beside_nodes s t"
  shows "same_place s t" "sound t = sound s" "sc_observed_values t = sc_observed_values s"
    "length (sc_nodes t) = length (sc_nodes s)"
proof -
  have t: "t = s\<lparr>sc_nodes := sc_nodes t\<rparr>" using assms by (simp add: beside_nodes_def)
  show "same_place s t" by (subst t) (simp add: same_place_def)
  show "sound t = sound s" by (subst t) (simp only: sound_nodes)
  show "sc_observed_values t = sc_observed_values s" by (subst t) simp
  show "length (sc_nodes t) = length (sc_nodes s)" using assms by (simp add: beside_nodes_def)
qed

lemma place_node_pushes:
  assumes s: "sound s" "bounded s" "vc_start context < 2 ^ 64"
    and depth: "1 \<le> vc_depth context" "vc_depth context \<le> sc_max_depth s"
    and room: "length (sc_nodes s) < sc_max_blocks s"
    and u: "calm s u" and due: "demand (u\<lparr>sc_observed_values := saturating_add (sc_observed_values u) 1\<rparr>)
      \<le> sc_reserved_work_units u"
  shows "outcome (place_node digest context kind) (pushed context kind s) (\<lambda>_. calm s) u"
proof (cases "length (sc_nodes u) < 2 ^ 32")
  case small: True
  let ?id = "of_nat (length (sc_nodes u)) :: u32"
  let ?node = "new_node digest context kind ?id (sc_path u)"
  define v where "v = u\<lparr>sc_nodes := sc_nodes u @ [?node],
    sc_observed_values := saturating_add (sc_observed_values u) 1\<rparr>"
  define t where "t = (case vc_parent context of Some parent \<Rightarrow> link_child parent ?id v | None \<Rightarrow> v)"
  have run: "place_node digest context kind u = (Ok ?id, t)"
    using small by (simp add: place_node_def u32_of_len_def t_def v_def Let_def split: option.split)
  have vt: "beside_nodes v t" "cores t = cores v"
    by (auto simp: t_def beside_link_child split: option.split)
  have len: "length (sc_nodes u) = length (sc_nodes s)"
    using u map_eq_imp_length_eq [of trunk "sc_nodes u" trunk "sc_nodes s"] by (simp add: calm_def)
  have "core_of ?node = new_core context kind s"
    using small s(3)
    by (simp add: core_of_def new_node_def new_core_def len unat_of_nat take_bit_nat_eq_self
        unat_u64_of_len_or_max min_def Let_def)
  then have cores: "cores v = cores s @ [new_core context kind s]"
    using cores_calm [OF u] by (simp add: v_def cores_def)
  have "sound u" using u s(1) by (simp add: calm_def)
  moreover have "v = (u\<lparr>sc_observed_values := saturating_add (sc_observed_values u) 1\<rparr>)
      \<lparr>sc_nodes := sc_nodes u @ [?node]\<rparr>" by (simp add: v_def)
  ultimately have "sound v" using sound_values [OF _ due] by (simp only: sound_nodes)
  moreover have place: "same_place s v"
    using u by (simp add: calm_def same_place_def v_def)
  moreover have "bounded t"
  proof -
    have "length (sc_nodes s) \<le> unat (sc_observed_values u)"
      using s(2) u by (simp add: bounded_def calm_def)
    then have "length (sc_nodes s) + 1 \<le> unat (saturating_add (sc_observed_values u) 1)"
      using small len by (simp add: unat_saturating_add)
    then show ?thesis
      using s(2) room small len depth vt beside_facts [OF vt(1)] cores place
      by (auto simp: bounded_def same_place_def v_def new_core_def word_le_nat_alt)
  qed
  ultimately have "pushed context kind s ?id t"
    using vt beside_facts [OF vt(1)] cores small len
    by (simp add: pushed_def same_place_def unat_of_nat take_bit_nat_eq_self)
  then show ?thesis by (simp add: outcome_def run)
next
  case False
  then show ?thesis using u by (simp add: outcome_def place_node_def u32_of_len_def halt_def)
qed

lemma reserve_value:
  "outcome (\<lambda>u. reserve_work (sc_observed_bytes u) (saturating_add (sc_observed_values u) 1) u)
    (\<lambda>_ v. calm u v \<and> demand (v\<lparr>sc_observed_values := saturating_add (sc_observed_values v) 1\<rparr>)
      \<le> sc_reserved_work_units v) (\<lambda>_. calm u) u"
proof -
  have "outcome (reserve_work (sc_observed_bytes u) (saturating_add (sc_observed_values u) 1))
    (\<lambda>_ v. calm u v \<and> demand (v\<lparr>sc_observed_values := saturating_add (sc_observed_values v) 1\<rparr>)
      \<le> sc_reserved_work_units v) (\<lambda>_. calm u) u"
    by (rule outcome_weaken [OF reserve_work_reserves])
      (auto simp: paid_calm paid_def steady_def demand_def auxiliary_work_units_def)
  then show ?thesis by (simp add: outcome_def)
qed

lemma push_node_pushes:
  assumes s: "sound s" "bounded s" "vc_start context < 2 ^ 64"
    and depth: "1 \<le> vc_depth context" "vc_depth context \<le> sc_max_depth s"
  shows "outcome (push_node digest context kind) (pushed context kind s) (\<lambda>_. calm s) s"
proof (cases "length (sc_nodes s) \<ge> sc_max_blocks s")
  case True
  then show ?thesis by (simp add: outcome_def push_node_def halt_def)
next
  case room: False
  have "outcome (m_then poll_clock (\<lambda>_.
      m_then (\<lambda>u. reserve_work (sc_observed_bytes u) (saturating_add (sc_observed_values u) 1) u) (\<lambda>_.
      place_node digest context kind)))
    (pushed context kind s) (\<lambda>_. calm s) s"
    unfolding outcome_m_then
  proof (rule outcome_weaken [OF poll_clock_calm])
    fix a u assume u: "calm s u"
    show "outcome (\<lambda>u. reserve_work (sc_observed_bytes u) (saturating_add (sc_observed_values u) 1) u)
       (\<lambda>a. outcome (place_node digest context kind) (pushed context kind s) (\<lambda>_. calm s)) (\<lambda>_. calm s) u"
    proof (rule outcome_weaken [OF reserve_value])
      fix b v assume v: "calm u v \<and> demand (v\<lparr>sc_observed_values := saturating_add (sc_observed_values v) 1\<rparr>)
        \<le> sc_reserved_work_units v"
      then show "outcome (place_node digest context kind) (pushed context kind s) (\<lambda>_. calm s) v"
        using place_node_pushes [OF s depth] room u by (auto intro: calm_trans)
    qed (use u in \<open>auto intro: calm_trans\<close>)
  qed simp
  then show ?thesis
    by (rule outcome_unfold [rotated]) (use room in \<open>simp add: push_node_def\<close>)
qed

section \<open>Reading a value\<close>

definition same_limits :: "scanner \<Rightarrow> scanner \<Rightarrow> bool" where
  "same_limits s t \<longleftrightarrow>
     sc_window t = sc_window s \<and> sc_max_blocks t = sc_max_blocks s \<and> sc_max_depth t = sc_max_depth s \<and>
     maximum_work (sc_budget t) = maximum_work (sc_budget s)"

lemma same_limits_refl [simp]: "same_limits s s"
  by (simp add: same_limits_def)

lemma same_limits_trans: "same_limits s t \<Longrightarrow> same_limits t u \<Longrightarrow> same_limits s u"
  by (simp add: same_limits_def)

lemma reads_limits: "reads node s t \<Longrightarrow> same_limits s t"
  by (simp add: reads_def same_rest_def same_limits_def)

lemma breaks_limits: "breaks node s t \<Longrightarrow> same_limits s t"
  by (simp add: breaks_def same_rest_def same_limits_def)

lemma calm_limits: "calm s t \<Longrightarrow> same_limits s t"
  by (simp add: calm_def same_limits_def)

lemma place_limits: "same_place s t \<Longrightarrow> same_limits s t"
  by (simp add: same_place_def same_limits_def)

text \<open>A scan that stops has kept the limits and what \<open>halted\<close> says.\<close>

definition stops :: "scanner \<Rightarrow> scanner \<Rightarrow> bool" where
  "stops s t \<longleftrightarrow> same_limits s t \<and> halted t"

lemma stops_breaks: "breaks None s t \<Longrightarrow> halted s \<Longrightarrow> stops s t"
  by (simp add: stops_def breaks_limits breaks_halted)

lemma stops_calm: "calm s t \<Longrightarrow> halted s \<Longrightarrow> stops s t"
  by (simp add: stops_def calm_limits calm_keeps)

lemma stops_later: "same_limits s t \<Longrightarrow> stops t u \<Longrightarrow> stops s u"
  by (auto simp: stops_def intro: same_limits_trans)

definition fits :: "value_context \<Rightarrow> scanner \<Rightarrow> bool" where
  "fits context s \<longleftrightarrow> vc_start context = sc_cursor s \<and> 1 \<le> vc_depth context \<and>
     below (stack s) (map_option unat (vc_parent context))"

definition value_read :: "scanner \<Rightarrow> descent \<Rightarrow> scanner \<Rightarrow> bool" where
  "value_read s descent t \<longleftrightarrow> same_limits s t \<and> grown t \<and> sc_cursor s < sc_cursor t \<and>
     (\<exists>inner. sc_frames t = sc_frames s @ inner \<and> (inner = [] \<longleftrightarrow> descent = Completed) \<and>
       chain (sc_window s) (cores t) (rev (map entry_of inner) @ counted (stack s)) (sc_cursor t))"

lemma decoded_place: "same_place s t \<Longrightarrow> decoded t = decoded s"
  by (simp add: same_place_def decoded_def)

lemma fresh_new_core: "fresh (vc_start context) (cores s) (new_core context kind s)"
  by (simp add: fresh_def new_core_def)

lemma new_core_simps [simp]:
  "co_parent (new_core context kind s) = map_option unat (vc_parent context)"
  "co_kind (new_core context kind s) = kind" "co_start (new_core context kind s) = vc_start context"
  "co_depth (new_core context kind s) = unat (vc_depth context)"
  "co_id (new_core context kind s) = length (sc_nodes s)"
  "co_end (new_core context kind s) = vc_start context"
  by (simp_all add: new_core_def)

lemma set_finished_last: "set_finished (length cs) e (cs @ [n]) = cs @ [finished e n]"
  by (simp add: set_finished_def)

lemma finish_node_beside: "beside_nodes s (finish_node i e s)"
  by (simp add: finish_node_def beside_with_node)

lemma bounded_same:
  assumes "bounded s" "length (sc_nodes t) = length (sc_nodes s)" "sc_max_blocks t = sc_max_blocks s"
    "sc_max_depth t = sc_max_depth s" "sc_observed_values t = sc_observed_values s"
    "co_depth ` set (cores t) \<subseteq> co_depth ` set (cores s)"
  shows "bounded t"
  using assms by (fastforce simp: bounded_def)

text \<open>The last node is finished with its value.\<close>

lemma leaf_grown:
  assumes s: "ready s" "fits context s" and kind: "\<not> is_container kind"
    and u: "sound u" "decoded u" "bounded u" "same_limits s u" "sc_frames u = sc_frames s"
      "sc_cursor s < sc_cursor u" "cores u = cores s @ [n]" "unat ident = length (sc_nodes s)"
      "finished (sc_cursor u) n = finished (sc_cursor u) (new_core context kind s)"
    and v: "json_value kind (between (sc_window s) (sc_cursor s) (sc_cursor u))"
    and e: "unat e = sc_cursor u"
  shows "value_read s Completed (finish_node ident e u)"
proof -
  let ?v = "finish_node ident e u"
  have v_u: "beside_nodes u ?v" by (rule finish_node_beside)
  have "length (sc_nodes u) = Suc (length (sc_nodes s))"
    using arg_cong [OF u(7), of length] by simp
  then have cores: "cores ?v = cores s @ [finished (sc_cursor u) (new_core context kind s)]"
    using u e by (simp add: cores_finish_node set_finished_last [of "cores s", simplified])
  have tree: "tree (sc_window s) (sc_cursor s) (stack s) (cores s)"
    using s by (simp add: ready_def grown_def)
  have start: "vc_start context = sc_cursor s" using s(2) by (simp add: fits_def)
  have "tree (sc_window s) (sc_cursor u) (stack s) (cores ?v)"
    unfolding cores
    using s u(6) kind v fresh_new_core [of "context" s kind] start
    by (intro tree_leaf [OF tree]) (auto simp: fits_def)
  moreover have "stack ?v = stack s" "sc_window ?v = sc_window s" "sc_cursor ?v = sc_cursor u"
    "sc_frames ?v = sc_frames s"
    using beside_facts [OF v_u] u by (simp_all add: same_place_def same_limits_def stack_def)
  moreover have "bounded ?v"
  proof (rule bounded_same [OF u(3)])
    have "co_depth n = co_depth (new_core context kind s)"
      using arg_cong [OF u(9), of co_depth] by (simp add: finished_def)
    then show "co_depth ` set (cores ?v) \<subseteq> co_depth ` set (cores u)"
      by (auto simp: cores u(7) finished_def)
  qed (use beside_facts [OF v_u] in \<open>simp_all add: same_place_def\<close>)
  moreover have "co_depth (cores ?v ! unat (fr_node f)) = unat (fr_depth f)" if "f \<in> set (sc_frames s)" for f
  proof -
    have "unat (fr_node f) < length (cores s)"
      using tree that by (auto simp: tree_def forest_def open_nodes_def stack_def entry_of_def)
    then show ?thesis using s(1) that by (simp add: cores nth_append ready_def grown_def)
  qed
  ultimately have "grown ?v"
    using beside_facts [OF v_u] u by (simp add: grown_def decoded_place)
  moreover have "chain (sc_window s) (cores ?v) (counted (stack s)) (sc_cursor u)"
  proof (rule chain_leaf)
    show "awaits (sc_window s) (cores ?v) (stack s) (sc_cursor s)"
      using s(1) awaits_cong [OF same_starts_snoc tree_stack_positions [OF tree]]
      by (simp add: cores ready_def)
  qed (use v u in auto)
  ultimately show ?thesis
    using u beside_facts [OF v_u] \<open>sc_frames ?v = sc_frames s\<close> \<open>sc_cursor ?v = sc_cursor u\<close>
    by (auto simp: value_read_def same_limits_def same_place_def)
qed

lemma finish_leaf:
  assumes s: "ready s" "fits context s" "vc_depth context \<le> sc_max_depth s" and kind: "\<not> is_container kind"
    and t: "reads None s t" "sc_cursor s < sc_cursor t" and v: "json_value kind (part s t)"
    and g: "\<And>node u. sc_cursor u = sc_cursor t \<Longrightarrow> \<exists>e. g node u = finish_node node e u \<and> unat e = sc_cursor t"
  shows "outcome (m_then (push_node digest context kind) (\<lambda>node. m_then (changing (g node)) (\<lambda>_. ret Completed)))
    (value_read s) (\<lambda>_. stops s) t"
proof -
  have grown: "grown t" using reads_grown [OF t(1)] s(1) by (simp add: ready_def)
  have start: "vc_start context = sc_cursor s" using s(2) by (simp add: fits_def)
  have "sc_cursor s < 2 ^ 64" using s(1) by (simp add: ready_def grown_def sound_def)
  then have "outcome (push_node digest context kind) (pushed context kind t) (\<lambda>_. calm t) t"
    using grown s reads_limits [OF t(1)] start
    by (intro push_node_pushes) (simp_all add: grown_def fits_def same_limits_def)
  moreover have "value_read s Completed (g ident u)" if u: "pushed context kind t ident u" for ident u
  proof -
    have place: "same_place t u" using u by (simp add: pushed_def)
    obtain e where e: "g ident u = finish_node ident e u" "unat e = sc_cursor t"
      using g [of u ident] place by (auto simp: same_place_def)
    have "new_core context kind t = new_core context kind s"
      using reads_tree(1) [OF t(1)] by (metis new_core_def length_cores)
    moreover have "length (sc_nodes t) = length (sc_nodes s)"
      using reads_tree(1) [OF t(1)] by (metis length_cores)
    ultimately show ?thesis
      unfolding e(1)
      using u place grown t v e reads_tree [OF t(1)] decoded_place [OF place]
        same_limits_trans [OF reads_limits [OF t(1)] place_limits [OF place]]
      by (intro leaf_grown [OF s(1,2) kind, where n = "new_core context kind t"])
        (simp_all add: pushed_def same_place_def grown_def part_def)
  qed
  moreover have "stops s u" if "calm t u" for u
    using stops_later [OF reads_limits [OF t(1)] stops_calm [OF that grown_halted [OF grown]]] .
  ultimately show ?thesis
    by (simp, elim outcome_weaken) auto
qed

lemma between_nonempty: "between w i j \<noteq> [] \<Longrightarrow> i < j"
  by (rule ccontr) (simp add: between_def)

lemma between_get: "get_range w i (i + length v) = Some v \<Longrightarrow> between w i (i + length v) = v \<and> i + length v \<le> length w"
  by (auto simp: get_range_def between_def split: if_splits)

lemma read_literal_reads:
  assumes s: "ready s" "fits context s" "vc_depth context \<le> sc_max_depth s"
    and v: "json_value (lit_kind literal) (lit_word literal)" "lit_word literal \<noteq> []"
      "\<not> is_container (lit_kind literal)"
  shows "outcome (read_literal digest context literal) (value_read s) (\<lambda>_. stops s) s"
proof (cases "get_range (sc_window s) (sc_cursor s) (sc_cursor s + length (lit_word literal)) = Some (lit_word literal)")
  case True
  note word = between_get [OF True]
  have sound: "sound s" and halted: "halted s" using s(1) grown_halted by (auto simp: ready_def grown_def)
  let ?stop = "u64_of_len_or_max (sc_cursor s + length (lit_word literal))"
  have "outcome (m_then (advance (length (lit_word literal))) (\<lambda>_.
      m_then (push_node digest context (lit_kind literal)) (\<lambda>node.
      m_then (changing (finish_node node ?stop)) (\<lambda>_. ret Completed)))) (value_read s) (\<lambda>_. stops s) s"
    unfolding outcome_m_then [of "advance _"]
  proof (rule outcome_weaken [OF advance_moves [OF sound]])
    fix a t assume t: "reads None s t \<and> sc_cursor t = min (sc_cursor s + length (lit_word literal)) (length (sc_window s))"
    then have c: "sc_cursor t = sc_cursor s + length (lit_word literal)" using word by simp
    have "sc_cursor t < 2 ^ 64" using t readsD(1) [of None s t] by (auto simp: sound_def)
    then show "outcome (m_then (push_node digest context (lit_kind literal)) (\<lambda>node.
      m_then (changing (finish_node node ?stop)) (\<lambda>_. ret Completed))) (value_read s) (\<lambda>_. stops s) t"
      using s t v word c
      by (intro finish_leaf) (auto simp: part_def unat_u64_of_len_or_max intro!: exI [of _ ?stop])
  qed (auto intro: stops_breaks halted)
  then show ?thesis
    by (rule outcome_unfold [rotated]) (simp add: read_literal_def Let_def True)
next
  case False
  then show ?thesis
    using s(1) grown_halted
    by (auto simp: outcome_def read_literal_def Let_def halt_def stops_def ready_def split: option.split)
qed

lemma read_number_reads:
  assumes s: "ready s" "fits context s" "vc_depth context \<le> sc_max_depth s"
  shows "outcome (m_then scan_number (\<lambda>_. m_then (push_node digest context JsonNumber) (\<lambda>node.
      m_then (changing (\<lambda>s. finish_node node (u64_of_len_or_max (sc_cursor s)) s)) (\<lambda>_. ret Completed))))
    (value_read s) (\<lambda>_. stops s) s"
  unfolding outcome_m_then [of scan_number]
proof (rule outcome_weaken [OF scan_number_reads])
  show sound: "sound s" using s(1) by (simp add: ready_def grown_def)
  have halted: "halted s" using s(1) grown_halted by (simp add: ready_def)
  fix a t assume t: "reads None s t \<and> json_number (part s t)"
  then have "part s t \<noteq> []" by (auto simp: json_number_def json_integer_def)
  then have "sc_cursor s < sc_cursor t" by (auto simp: part_def between_def)
  moreover have "sc_cursor t < 2 ^ 64" using t readsD(1) [of None s t] by (auto simp: sound_def)
  ultimately show "outcome (m_then (push_node digest context JsonNumber) (\<lambda>node.
      m_then (changing (\<lambda>s. finish_node node (u64_of_len_or_max (sc_cursor s)) s)) (\<lambda>_. ret Completed)))
    (value_read s) (\<lambda>_. stops s) t"
    using s t value_number
    by (intro finish_leaf)
      (auto simp: is_container_def unat_u64_of_len_or_max intro!: exI [of _ "u64_of_len_or_max (sc_cursor t)"])
next
  fix e t assume "breaks None s t"
  then show "stops s t" using s(1) grown_halted by (intro stops_breaks) (simp_all add: ready_def)
qed

lemma cores_node_end:
  assumes "unat ident = length cs" and "cores s = cs @ [n]" and "e < 2 ^ 64"
    and "sc_nodes t = node_end (Some ident) e (sc_nodes s)"
  shows "cores t = cs @ [n\<lparr>co_end := e\<rparr>]"
proof -
  have len: "length (sc_nodes s) = Suc (length cs)" using arg_cong [OF assms(2), of length] by simp
  have "core_of (sc_nodes s ! length cs) = (cs @ [n]) ! length cs"
    using assms(2) len by (metis cores_def lessI nth_map)
  then have n: "core_of (sc_nodes s ! length cs) = n" by simp
  have "core_of (set_raw_end (u64_of_len_or_max e) m) = (core_of m)\<lparr>co_end := e\<rparr>" for m
    using assms(3) by (simp add: core_of_def set_raw_end_def unat_u64_of_len_or_max min_def)
  then have "cores t = (cs @ [n])[length cs := n\<lparr>co_end := e\<rparr>]"
    using assms n by (simp add: cores_def [of t] node_end_def map_update flip: cores_def [of s])
  then show ?thesis by simp
qed

lemma pushed_length:
  assumes "pushed context kind s ident u"
  shows "length (sc_nodes u) = Suc (length (sc_nodes s))"
proof -
  have "length (cores u) = Suc (length (cores s))"
    using assms by (simp add: pushed_def del: length_cores)
  then show ?thesis by simp
qed

lemma pushed_ended:
  assumes "pushed context kind s ident u" and "vc_start context = sc_cursor u"
  shows "ended (Some ident) u"
proof -
  let ?n = "sc_nodes u ! unat ident"
  have "unat ident < length (sc_nodes u)"
    using assms(1) pushed_length [OF assms(1)] by (simp add: pushed_def)
  then have "core_of ?n = cores u ! unat ident" by (simp add: cores_def)
  also have "\<dots> = new_core context kind s"
    using assms(1) by (simp add: pushed_def nth_append)
  finally have "unat (bl_raw_value_end (sn_locator ?n)) = sc_cursor u"
    using assms(2) by (simp add: core_of_def new_core_def)
  moreover have "sc_cursor u < 2 ^ 64" using assms(1) by (auto simp: pushed_def sound_def)
  ultimately have "bl_raw_value_end (sn_locator ?n) = u64_of_len_or_max (sc_cursor u)"
    by (simp add: word_unat_eq_iff unat_u64_of_len_or_max)
  then have "set_raw_end (u64_of_len_or_max (sc_cursor u)) ?n = ?n"
    by (simp add: set_raw_end_def)
  then show ?thesis by (simp add: ended_def node_end_def)
qed

lemma read_string_reads:
  assumes s: "ready s" "fits context s" "vc_depth context \<le> sc_max_depth s"
    and quote: "peek s = Some (CHR 0x22)"
  shows "outcome (m_then (push_node digest context JsonString) (\<lambda>node.
      m_then (scan_string (Some node)) (\<lambda>sp.
      m_then (changing (finish_node node (rs_end sp))) (\<lambda>_. ret Completed)))) (value_read s) (\<lambda>_. stops s) s"
  unfolding outcome_m_then [of "push_node _ _ _"]
proof (rule outcome_weaken [OF push_node_pushes])
  have start: "vc_start context = sc_cursor s" using s(2) by (simp add: fits_def)
  have grown: "grown s" using s(1) by (simp add: ready_def)
  then show "sound s" "bounded s" by (simp_all add: grown_def)
  then show "vc_start context < 2 ^ 64" by (simp add: start sound_def)
  show "1 \<le> vc_depth context" "vc_depth context \<le> sc_max_depth s" using s by (simp_all add: fits_def)
  show "stops s t" if "calm s t" for t using stops_calm [OF that grown_halted [OF grown]] .
  fix ident u assume u: "pushed context JsonString s ident u"
  then have place: "same_place s u" and "sound u" by (simp_all add: pushed_def)
  have c: "sc_cursor u = sc_cursor s" "sc_window u = sc_window s" "peek u = peek s" "stack u = stack s"
    using place by (simp_all add: same_place_def peek_def stack_def)
  have ended: "ended (Some ident) u" by (rule pushed_ended [OF u]) (simp add: start c)
  let ?new = "new_core context JsonString s"
  have cores_u: "cores u = cores s @ [?new]" "unat ident = length (cores s)" using u by (simp_all add: pushed_def)
  have tree: "tree (sc_window s) (sc_cursor s) (stack s) (cores s)"
    using grown by (simp add: grown_def)
  have bounded: "bounded t" if t: "same_rest u t" "cores t = cores s @ [?new\<lparr>co_end := e\<rparr>]" for t e
  proof (rule bounded_same)
    show "bounded u" using u by (simp add: pushed_def)
    have "length (cores t) = length (cores u)" using t(2) cores_u(1) by (simp del: length_cores)
    then show "length (sc_nodes t) = length (sc_nodes u)" by simp
  qed (use t cores_u in \<open>auto simp: same_rest_def\<close>)
  show "outcome (m_then (scan_string (Some ident)) (\<lambda>sp.
      m_then (changing (finish_node ident (rs_end sp))) (\<lambda>_. ret Completed))) (value_read s) (\<lambda>_. stops s) u"
    unfolding outcome_m_then [of "scan_string _"]
  proof (rule outcome_weaken [OF scan_string_reads [OF \<open>sound u\<close> ended]])
    show "peek u = Some (CHR 0x22)" using quote c by simp
    fix sp t
    assume t: "reads (Some ident) u t \<and> (json_string (part u t) \<and> sc_cursor u < sc_cursor t \<and>
        rs_start sp = of_nat (sc_cursor u) \<and> rs_end sp = of_nat (sc_cursor t))"
    have sound_t: "sound t" using t by (auto dest: readsD)
    then have long: "sc_cursor t < 2 ^ 64" by (simp add: sound_def)
    have cores_t: "cores t = cores s @ [?new\<lparr>co_end := sc_cursor t\<rparr>]"
      using t by (intro cores_node_end [OF cores_u(2,1) long]) (simp add: reads_def)
    have "value_read s Completed (finish_node ident (rs_end sp) t)"
    proof (rule leaf_grown [OF s(1,2), where n = "?new\<lparr>co_end := sc_cursor t\<rparr>"])
      show "sound t" by (rule sound_t)
      show "decoded t" using t grown decoded_place [OF place] by (simp add: reads_def grown_def)
      show "bounded t" using t cores_t bounded by (simp add: reads_def)
      show "same_limits s t"
        using t reads_limits same_limits_trans [OF place_limits [OF place]] by blast
      show "sc_frames t = sc_frames s" using t place by (simp add: reads_def same_rest_def same_place_def)
      show "sc_cursor s < sc_cursor t" using t c by simp
      show "json_value JsonString (between (sc_window s) (sc_cursor s) (sc_cursor t))"
        using t c value_string by (simp add: part_def)
      show "unat (rs_end sp) = sc_cursor t" using t long by (simp add: unat_of_nat take_bit_nat_eq_self)
      show "cores t = cores s @ [?new\<lparr>co_end := sc_cursor t\<rparr>]" by (rule cores_t)
      show "unat ident = length (sc_nodes s)" using cores_u by simp
    qed (simp_all add: finished_def is_container_def)
    then show "outcome (m_then (changing (finish_node ident (rs_end sp))) (\<lambda>_. ret Completed))
        (value_read s) (\<lambda>_. stops s) t" by simp
  next
    fix stop t assume t: "breaks (Some ident) u t"
    then obtain e where e: "sc_cursor u \<le> e" "e \<le> sc_cursor t" "sc_nodes t = node_end (Some ident) e (sc_nodes u)"
      by (auto simp: breaks_def)
    have sound_t: "sound t" and same: "same_rest u t" using t by (simp_all add: breaks_def)
    have long: "e < 2 ^ 64" using sound_t e(2) by (simp add: sound_def)
    have cores_t: "cores t = cores s @ [?new\<lparr>co_end := e\<rparr>]"
      by (rule cores_node_end [OF cores_u(2,1) long e(3)])
    have "forest (sc_window s) (sc_cursor t) (stack s) (cores t)"
      unfolding cores_t
      using s(2) e c fresh_new_core [of "context" s JsonString]
      by (intro tree_string [OF tree]) (simp_all add: start fits_def is_container_def)
    moreover have "stack t = stack s" using same c by (simp add: same_rest_def stack_def)
    ultimately have "halted t"
      using same c sound_t bounded [OF same cores_t] tree_unfinished(2) [OF tree]
      by (simp add: halted_def same_rest_def cores_t)
    then show "stops s t"
      using breaks_limits [OF t] same_limits_trans [OF place_limits [OF place]] by (simp add: stops_def)
  qed
qed

text \<open>Entering a container.\<close>

lemma frames_beside [simp]:
  "cores (u\<lparr>sc_frames := fs\<rparr>) = cores u" "bounded (u\<lparr>sc_frames := fs\<rparr>) = bounded u"
  "decoded (u\<lparr>sc_frames := fs\<rparr>) = decoded u"
  by (simp_all add: cores_def bounded_def decoded_def)

lemma entered:
  assumes s: "ready s" "fits context s"
    and t: "reads None s t" "part s t = [open_delimiter k]"
    and u: "pushed context (container_kind k) t ident u"
  shows "value_read s Entered (u\<lparr>sc_frames := sc_frames u @ [\<lparr>fr_node = ident, fr_kind = k,
    fr_children = 0, fr_depth = vc_depth context, fr_path_base = base\<rparr>]\<rparr>)" (is "value_read s Entered ?v")
proof -
  let ?f = "\<lparr>fr_node = ident, fr_kind = k, fr_children = 0, fr_depth = vc_depth context, fr_path_base = base\<rparr>"
  let ?new = "new_core context (container_kind k) s"
  have start: "vc_start context = sc_cursor s" using s(2) by (simp add: fits_def)
  have place: "same_place t u" using u by (simp add: pushed_def)
  have grown: "grown s" "grown t" using s(1) reads_grown [OF t(1)] by (simp_all add: ready_def)
  then have tree: "tree (sc_window s) (sc_cursor s) (stack s) (cores s)" by (simp add: grown_def)
  have c: "cores t = cores s" "length (sc_nodes t) = length (sc_nodes s)" "sc_frames t = sc_frames s"
    "sc_window t = sc_window s" "sc_cursor s \<le> sc_cursor t"
    using reads_tree [OF t(1)] length_cores [of t] length_cores [of s] by simp_all
  have cores: "cores u = cores s @ [?new]"
    using u c by (simp add: pushed_def new_core_def)
  have ident: "unat ident = length (cores s)" using u c by (simp add: pushed_def)
  have stack: "stack ?v = (length (cores s), k, False) # stack s"
    using place c ident by (simp add: stack_def same_place_def entry_of_def)
  have cursor: "sc_cursor ?v = sc_cursor t" "sc_window ?v = sc_window s" "sc_frames ?v = sc_frames s @ [?f]"
    using place c by (simp_all add: same_place_def)
  have "part s t \<noteq> []" using t(2) by simp
  then have less: "sc_cursor s < sc_cursor t" by (auto simp: part_def between_def)
  have "tree (sc_window s) (sc_cursor t) (stack ?v) (cores ?v)"
    unfolding frames_beside cores stack using s(2) less fresh_new_core [of "context" s]
    by (intro tree_enter [OF tree]) (simp_all add: fits_def start)
  moreover have "co_depth (cores ?v ! unat (fr_node f)) = unat (fr_depth f)" if "f \<in> set (sc_frames ?v)" for f
  proof (cases "f = ?f")
    case True
    then show ?thesis by (simp add: cores ident nth_append del: length_cores)
  next
    case False
    with that have f: "f \<in> set (sc_frames s)" by (simp add: cursor)
    then have "unat (fr_node f) < length (cores s)"
      using tree by (auto simp: tree_def forest_def open_nodes_def stack_def entry_of_def)
    then show ?thesis using grown(1) f by (simp add: cores nth_append grown_def)
  qed
  moreover have "sound ?v" "bounded ?v" "decoded ?v"
    using u grown(2) decoded_place [OF place] by (simp_all add: pushed_def grown_def)
  ultimately have "grown ?v" unfolding grown_def cursor by blast
  moreover have "chain (sc_window s) (cores ?v) ((length (cores s), k, False) # counted (stack s)) (sc_cursor t)"
  proof (rule chain_enter)
    show "awaits (sc_window s) (cores ?v) (stack s) (co_start (cores ?v ! length (cores s)))"
      using s(1) awaits_cong [OF same_starts_snoc tree_stack_positions [OF tree]]
      by (simp add: cores ready_def start nth_append del: length_cores)
  qed (use t less in \<open>simp_all add: cores start part_def nth_append del: length_cores\<close>)
  ultimately show ?thesis
    using less place c same_limits_trans [OF reads_limits [OF t(1)] place_limits [OF place]] ident
    by (auto simp: value_read_def cursor entry_of_def same_limits_def same_place_def
        intro!: exI [of _ "[?f]"])
qed

lemma enter_container_reads:
  assumes s: "ready s" "fits context s" "vc_depth context \<le> sc_max_depth s"
    and b: "peek s = Some (open_delimiter k)"
  shows "outcome (enter_container digest context (container_kind k) k) (value_read s) (\<lambda>_. stops s) s"
  unfolding enter_container_def outcome_m_then [of "advance _"]
proof (rule outcome_weaken [OF advance_one])
  have grown: "grown s" using s(1) by (simp add: ready_def)
  then show "sound s" by (simp add: grown_def)
  show "peek s = Some (open_delimiter k)" by (rule b)
  show "stops s t" if "breaks None s t" for t using stops_breaks [OF that grown_halted [OF grown]] .
  fix a t assume t: "reads None s t \<and> part s t = [open_delimiter k] \<and> sc_cursor t = sc_cursor s + 1"
  then have grown_t: "grown t" using reads_grown grown by blast
  have "outcome (push_node digest context (container_kind k)) (pushed context (container_kind k) t) (\<lambda>_. calm t) t"
  proof (rule push_node_pushes)
    show "sound t" "bounded t" using grown_t by (simp_all add: grown_def)
    show "vc_start context < 2 ^ 64" using s(2) grown by (simp add: fits_def grown_def sound_def)
    show "1 \<le> vc_depth context" using s(2) by (simp add: fits_def)
    show "vc_depth context \<le> sc_max_depth t" using s(3) t reads_limits [of None s t] by (simp add: same_limits_def)
  qed
  moreover have "stops s u" if "calm t u" for u
    using t stops_later [OF reads_limits stops_calm [OF that grown_halted [OF grown_t]]] by blast
  ultimately show "outcome (m_then (push_node digest context (container_kind k)) (\<lambda>node.
      m_then (changing (\<lambda>s. s\<lparr>sc_frames := sc_frames s @ [\<lparr>fr_node = node, fr_kind = k, fr_children = 0,
        fr_depth = vc_depth context, fr_path_base = vc_path_base context\<rparr>]\<rparr>)) (\<lambda>_. ret Entered)))
      (value_read s) (\<lambda>_. stops s) t"
    using entered [OF s(1,2)] t by (simp, elim outcome_weaken) auto
qed

lemma read_value_reads:
  assumes s: "ready s" "fits context s"
  shows "outcome (read_value digest context) (value_read s) (\<lambda>_. stops s) s"
proof (cases "vc_depth context > sc_max_depth s")
  case True
  then show ?thesis
    using s(1) grown_halted by (auto simp: outcome_def read_value_def halt_def stops_def ready_def)
next
  case False
  then have depth: "vc_depth context \<le> sc_max_depth s" by simp
  let ?read = "\<lambda>b. if b = CHR ''{'' then enter_container digest context JsonObject ObjectContainer
     else if b = CHR ''['' then enter_container digest context JsonArray ArrayContainer
     else if b = CHR 0x22 then
       m_then (push_node digest context JsonString) (\<lambda>node.
       m_then (scan_string (Some node)) (\<lambda>sp.
       m_then (changing (finish_node node (rs_end sp))) (\<lambda>_. ret Completed)))
     else if b = CHR ''t'' then read_literal digest context literal_TRUE
     else if b = CHR ''f'' then read_literal digest context literal_FALSE
     else if b = CHR ''n'' then read_literal digest context literal_NULL
     else if b = CHR ''-'' \<or> is_ascii_digit b then
       m_then scan_number (\<lambda>_.
       m_then (push_node digest context JsonNumber) (\<lambda>node.
       m_then (changing (\<lambda>s. finish_node node (u64_of_len_or_max (sc_cursor s)) s)) (\<lambda>_.
       ret Completed)))
     else halt (StopMalformed Syntax)"
  have stop: "stops s s" using s(1) grown_halted by (simp add: stops_def ready_def)
  have enter: "outcome (enter_container digest context (container_kind k) k) (value_read s) (\<lambda>_. stops s) s"
    if "peek s = Some (open_delimiter k)" for k
    by (rule enter_container_reads [OF s depth that])
  have literal: "outcome (read_literal digest context l) (value_read s) (\<lambda>_. stops s) s"
    if "l \<in> {literal_TRUE, literal_FALSE, literal_NULL}" for l
    using that value_true value_false value_null
    by (intro read_literal_reads [OF s depth])
      (auto simp: literal_TRUE_def literal_FALSE_def literal_NULL_def is_container_def)
  have "outcome (\<lambda>s. case peek s of None \<Rightarrow> halt (StopMalformed UnexpectedEnd) s | Some b \<Rightarrow> ?read b s)
      (value_read s) (\<lambda>_. stops s) s"
  proof (rule outcome_peek)
    fix b assume b: "peek s = Some b"
    show "outcome (?read b) (value_read s) (\<lambda>_. stops s) s"
      using b enter [of ObjectContainer] enter [of ArrayContainer] read_string_reads [OF s depth]
        read_number_reads [OF s depth] literal stop
      by (simp del: outcome_m_then)
  qed (simp add: stop)
  then show ?thesis
    by (rule outcome_unfold [rotated]) (use False in \<open>simp add: read_value_def\<close>)
qed

section \<open>A step\<close>

definition same_entries :: "entry list \<Rightarrow> entry list \<Rightarrow> bool" where
  "same_entries st st' \<longleftrightarrow> map (\<lambda>(i, k, _). (i, k)) st = map (\<lambda>(i, k, _). (i, k)) st'"

lemma tree_entries:
  assumes "same_entries st st'" and "tree w c st cs"
  shows "tree w c st' cs"
proof -
  let ?g = "\<lambda>(i, k, _ :: bool). (i :: nat, k :: container)"
  have eq: "?g ` set st = ?g ` set st'"
    using assms(1) by (simp add: same_entries_def flip: set_map)
  have fst: "map fst st = map fst st'"
    using arg_cong [OF assms(1) [unfolded same_entries_def], of "map fst"]
    by (simp add: comp_def case_prod_beta)
  then have fsts: "fst ` set st = fst ` set st'" by (simp flip: set_map)
  have old: "open_nodes st cs" using assms(2) by (simp add: tree_def forest_def)
  have "i < length cs \<and> \<not> co_complete (cs ! i) \<and> co_kind (cs ! i) = container_kind k"
    if "(i, k, b) \<in> set st'" for i k b
  proof -
    have "(i, k) \<in> ?g ` set st" unfolding eq using that by force
    then obtain b' where "(i, k, b') \<in> set st" by auto
    then show ?thesis using old by (auto simp: open_nodes_def)
  qed
  then have "open_nodes st' cs" using old fsts by (auto simp: open_nodes_def)
  then show ?thesis
    using assms(2) fst fsts by (simp add: tree_def forest_def settled_nodes_def)
qed

definition step_done :: "scanner \<Rightarrow> scanner \<Rightarrow> bool" where
  "step_done s t \<longleftrightarrow> same_limits s t \<and> at_rest t \<and> sc_cursor s < sc_cursor t"

lemma rewind_keeps [simp]: "sc_frames (rewind_path base s) = sc_frames s" "sc_cursor (rewind_path base s) = sc_cursor s"
  by (simp_all add: rewind_path_def)

lemma entry_counted:
  assumes "i < length fs"
  shows "map entry_of (fs[i := (fs ! i)\<lparr>fr_children := saturating_add (fr_children (fs ! i)) 1\<rparr>]) =
    (map entry_of fs)[i := (fst (entry_of (fs ! i)), fst (snd (entry_of (fs ! i))), True)]"
proof -
  have "saturating_add x 1 > 0" for x :: u32
    using unat_saturating_add [of x 1] by (simp add: word_gt_0 unat_eq_0 [symmetric])
  then show ?thesis by (simp add: map_update entry_of_def)
qed

lemma count_child_stack:
  assumes "sc_frames s \<noteq> []" and "sc_frames t = sc_frames s @ inner"
  shows "stack (count_child (length (sc_frames s) - 1) t) = rev (map entry_of inner) @ counted (stack s)"
proof -
  obtain fs f where s: "sc_frames s = fs @ [f]" using assms(1) by (cases "sc_frames s" rule: rev_cases) auto
  have "(sc_frames t) ! (length (sc_frames s) - 1) = f" using assms(2) s by (simp add: nth_append)
  moreover have "(sc_frames t)[length fs := g] = fs @ g # inner" for g using assms(2) s by simp
  moreover have "saturating_add x 1 > 0" for x :: u32
    using unat_saturating_add [of x 1] by (simp add: word_gt_0 unat_eq_0 [symmetric])
  ultimately show ?thesis
    by (simp add: stack_def count_child_def s entry_of_def)
qed

lemma counted_at_rest:
  assumes s: "sc_frames s \<noteq> []" and t: "value_read s descent t"
  shows "at_rest (count_child (length (sc_frames s) - 1) t)" (is "at_rest ?u")
proof -
  obtain inner where inner: "sc_frames t = sc_frames s @ inner"
    and chain: "chain (sc_window s) (cores t) (rev (map entry_of inner) @ counted (stack s)) (sc_cursor t)"
    using t by (auto simp: value_read_def)
  have stack: "stack ?u = rev (map entry_of inner) @ counted (stack s)"
    by (rule count_child_stack [OF s inner])
  have "stack t = rev (map entry_of inner) @ stack s" by (simp add: stack_def inner)
  moreover have "same_entries (stack s) (counted (stack s))"
    by (cases "stack s" rule: counted.cases) (simp_all add: same_entries_def)
  ultimately have "same_entries (stack t) (stack ?u)"
    unfolding stack by (simp add: same_entries_def)
  moreover have "tree (sc_window t) (sc_cursor t) (stack t) (cores t)"
    using t by (simp add: value_read_def grown_def)
  ultimately have "tree (sc_window t) (sc_cursor t) (stack ?u) (cores t)" by (rule tree_entries)
  moreover have "\<forall>f \<in> set (sc_frames ?u). co_depth (cores t ! unat (fr_node f)) = unat (fr_depth f)"
  proof -
    obtain fs g where g: "sc_frames s = fs @ [g]" using s by (cases "sc_frames s" rule: rev_cases) auto
    then obtain h where "sc_frames ?u = fs @ h # inner" "fr_node h = fr_node g" "fr_depth h = fr_depth g"
      by (simp add: count_child_def inner nth_append)
    then show ?thesis using t by (auto simp: value_read_def grown_def inner g)
  qed
  moreover have "cores ?u = cores t" "bounded ?u = bounded t" "decoded ?u = decoded t" "sound ?u = sound t"
    "sc_window ?u = sc_window t" "sc_cursor ?u = sc_cursor t" "sc_window t = sc_window s"
    using t by (simp_all add: count_child_def value_read_def same_limits_def)
  ultimately show ?thesis
    using t chain stack by (simp add: at_rest_def grown_def value_read_def)
qed

lemma read_child_steps:
  assumes s: "ready s" "fits context s" "sc_frames s \<noteq> []" and index: "index = length (sc_frames s) - 1"
  shows "outcome (read_child digest index context) (\<lambda>_. step_done s) (\<lambda>_. stops s) s"
  unfolding read_child_def outcome_m_then [of "read_value _ _"]
proof (rule outcome_weaken [OF read_value_reads [OF s(1,2)]])
  fix descent t assume t: "value_read s descent t"
  define u where "u = (if descent = Completed then rewind_path (vc_path_base context) t else t)"
  have tu: "calm t u" by (simp add: u_def rewind_path_calm)
  have u: "value_read s descent u"
    using t tu calm_keeps(1) [OF tu] cores_calm [OF tu] same_limits_trans [OF _ calm_limits [OF tu]]
    by (auto simp: value_read_def calm_def)
  have rest: "at_rest (count_child index u)" unfolding index by (rule counted_at_rest [OF s(3) u])
  have beyond: "same_limits s (count_child index u)" "sc_cursor s < sc_cursor (count_child index u)"
    using u by (auto simp: value_read_def count_child_def same_limits_def)
  have "outcome poll_clock (\<lambda>_. step_done s) (\<lambda>_. stops s) (count_child index u)"
  proof (rule outcome_weaken [OF poll_clock_calm])
    fix a v assume v: "calm (count_child index u) v"
    then show "step_done s v"
      using calm_keeps(3) [OF v rest] beyond same_limits_trans [OF beyond(1) calm_limits [OF v]]
      by (simp add: step_done_def calm_def)
  next
    fix e v assume v: "calm (count_child index u) v"
    show "stops s v"
      using stops_later [OF beyond(1) stops_calm [OF v]] rest grown_halted by (simp add: at_rest_def)
  qed
  then show "outcome (m_then (changing (\<lambda>s. if descent = Completed then rewind_path (vc_path_base context) s else s))
      (\<lambda>_. m_then (changing (count_child index)) (\<lambda>_. poll_clock))) (\<lambda>_. step_done s) (\<lambda>_. stops s) t"
    by (simp add: u_def)
qed

text \<open>The closing delimiter.\<close>

lemma close_at_rest:
  assumes s: "at_rest s" "sc_frames s \<noteq> []" and t: "reads None s t"
    and part: "part s t = v @ [close_delimiter (fr_kind (last (sc_frames s)))]" "all_whitespace v"
  shows "step_done s (close_frame t)"
proof -
  obtain fs f where f: "sc_frames s = fs @ [f]" using s(2) by (cases "sc_frames s" rule: rev_cases) auto
  let ?i = "unat (fr_node f)" and ?k = "fr_kind f"
  define u where "u = finish_node (fr_node f) (u64_of_len_or_max (sc_cursor t)) (t\<lparr>sc_frames := fs\<rparr>)"
  have grown: "grown s" "grown t" using s(1) reads_grown [OF t] by (simp_all add: at_rest_def)
  have t_eq: "sc_frames t = fs @ [f]" "cores t = cores s" "sc_window t = sc_window s" "stack t = stack s"
    "sc_cursor s \<le> sc_cursor t"
    using reads_tree [OF t] f by simp_all
  have stack: "stack s = (?i, ?k, fr_children f > 0) # rev (map entry_of fs)"
    by (simp add: stack_def f entry_of_def)
  have tree: "tree (sc_window s) (sc_cursor t) (stack s) (cores s)"
    using grown(2) t_eq by (simp add: grown_def)
  have chain: "chain (sc_window s) (cores s) (stack s) (sc_cursor s)"
    using s(1) by (simp add: at_rest_def)
  have body: "between (sc_window s) (sc_cursor s) (sc_cursor t) = v @ [close_delimiter ?k]"
    using part(1) by (simp add: part_def f)
  have node: "?i < length (cores s)" using tree_stack_positions [OF tree] by (simp add: stack)
  have long: "sc_cursor t < 2 ^ 64" using grown(2) by (simp add: grown_def sound_def)
  have less: "sc_cursor s < sc_cursor t" using body by (intro between_nonempty [of "sc_window s"]) auto
  have beside: "beside_nodes (t\<lparr>sc_frames := fs\<rparr>) u" unfolding u_def by (rule finish_node_beside)
  have u_eq: "same_place (t\<lparr>sc_frames := fs\<rparr>) u" "sound u" "sc_frames u = fs" "sc_window u = sc_window s"
    "sc_cursor u = sc_cursor t"
    using beside_facts [OF beside] grown(2) t_eq by (simp_all add: grown_def same_place_def)
  have cores: "cores u = (cores s)[?i := finished (sc_cursor t) (cores s ! ?i)]"
  proof -
    have len: "unat (fr_node f) < length (sc_nodes (t\<lparr>sc_frames := fs\<rparr>))"
      using node t_eq(2) length_cores [of t] by simp
    show ?thesis
      unfolding u_def cores_finish_node [OF len]
      using long t_eq(2) by (simp add: set_finished_def unat_u64_of_len_or_max min_def)
  qed
  have val: "json_value (container_kind ?k) (between (sc_window s) (co_start (cores s ! ?i)) (sc_cursor t))"
    using chain_close_value [OF _ t_eq(5) body part(2)] chain by (simp add: stack)
  have "tree (sc_window s) (sc_cursor t) (rev (map entry_of fs)) (cores u)"
    unfolding cores using tree_close [of "sc_window s" "sc_cursor t" ?i ?k _ "rev (map entry_of fs)" "cores s"]
      tree val by (simp add: stack)
  moreover have "chain (sc_window s) (cores u) (rev (map entry_of fs)) (sc_cursor t)"
  proof -
    have "chain (sc_window s) (cores s) (rev (map entry_of fs)) (sc_cursor t)"
      using chain_close [OF _ t_eq(5) body part(2)] chain by (simp add: stack)
    moreover have "same_starts (cores s) (cores u)"
      unfolding cores by (rule same_starts_update) (simp add: finished_def)
    ultimately show ?thesis
      using chain_cong [of "cores s" "cores u" "rev (map entry_of fs)"] tree_stack_positions [OF tree]
      by (simp add: stack)
  qed
  moreover have "stack u = rev (map entry_of fs)" by (simp add: stack_def u_eq)
  moreover have "bounded u"
  proof (rule bounded_same [of t])
    show "co_depth ` set (cores u) \<subseteq> co_depth ` set (cores t)"
      unfolding cores t_eq using node by (auto simp: finished_def dest!: set_update_subset_insert [THEN subsetD])
  qed (use beside_facts [OF beside] grown in \<open>simp_all add: grown_def same_place_def\<close>)
  moreover have "decoded u" using decoded_place [OF u_eq(1)] grown(2) by (simp add: grown_def)
  moreover have "co_depth (cores u ! unat (fr_node g)) = unat (fr_depth g)" if "g \<in> set fs" for g
    using grown(1) that node by (cases "unat (fr_node g) = ?i") (auto simp: cores grown_def f finished_def)
  ultimately have "at_rest u"
    using u_eq by (simp add: at_rest_def grown_def)
  moreover have "close_frame t = rewind_path (fr_path_base f) u"
    by (simp add: close_frame_def t_eq u_def Let_def)
  moreover have "same_limits s u"
    using u_eq(1) reads_limits [OF t] by (simp add: same_place_def same_limits_def)
  ultimately show ?thesis
    using calm_keeps(3) [OF rewind_path_calm] same_limits_trans [OF _ calm_limits [OF rewind_path_calm]]
      u_eq less by (simp add: step_done_def)
qed

text \<open>The text before a child: white space and a separator after the first one.\<close>

definition separated :: "frame \<Rightarrow> scanner \<Rightarrow> scanner \<Rightarrow> bool" where
  "separated frame s t \<longleftrightarrow> reads None s t \<and> (\<exists>v sep. part s t = v @ sep \<and> all_whitespace v \<and>
     json_separator (fr_children frame > 0) sep)"

definition next_outcome :: "frame \<Rightarrow> scanner \<Rightarrow> bool \<Rightarrow> scanner \<Rightarrow> bool" where
  "next_outcome frame s follows t \<longleftrightarrow> (if follows then separated frame s t else step_done s t)"

lemma next_child_reads:
  assumes s: "at_rest s" "sc_frames s \<noteq> []" and frame: "frame = last (sc_frames s)"
  shows "outcome (next_child (close_delimiter (fr_kind frame)) frame) (next_outcome frame s) (\<lambda>_. stops s) s"
  unfolding next_child_def outcome_m_then [of skip_whitespace]
proof (rule outcome_weaken [OF skip_whitespace_reads])
  have grown: "grown s" using s(1) by (simp add: at_rest_def)
  then show "sound s" by (simp add: grown_def)
  have stop: "stops s u" if "reads None s t" "breaks None t u" for t u
    using stops_breaks [OF reads_breaks [OF that] grown_halted [OF grown]] .
  show "stops s u" if "breaks None s u" for u using stops_breaks [OF that grown_halted [OF grown]] .
  fix a t assume t': "reads None s t \<and> all_whitespace (part s t)"
  then have t: "reads None s t" "all_whitespace (part s t)" by auto
  have sound_t: "sound t" using t by (auto dest: readsD)
  have halt: "stops s t" using stop [OF t(1) breaks_refl [OF sound_t ended_None]] .
  let ?c = "close_delimiter (fr_kind frame)"
  have close_case: "outcome (m_then (advance 1) (\<lambda>_. m_then (changing close_frame) (\<lambda>_.
      m_then poll_clock (\<lambda>_. ret False)))) (next_outcome frame s) (\<lambda>_. stops s) t"
    if b: "peek t = Some ?c"
    unfolding outcome_m_then [of "advance _"]
  proof (rule outcome_weaken [OF advance_one [OF sound_t b]])
    fix a u assume u: "reads None t u \<and> part t u = [?c] \<and> sc_cursor u = sc_cursor t + 1"
    then have su: "reads None s u" "part s u = part s t @ [?c]"
      using reads_trans [OF t(1)] part_append [OF t(1)] by auto
    have step: "step_done s (close_frame u)"
      using close_at_rest [OF s su(1)] su(2) t(2) frame by simp
    have "outcome poll_clock (\<lambda>_. step_done s) (\<lambda>_. stops s) (close_frame u)"
    proof (rule outcome_weaken [OF poll_clock_calm])
      fix a v assume v: "calm (close_frame u) v"
      then show "step_done s v"
        using step calm_keeps(3) [OF v] same_limits_trans [OF _ calm_limits [OF v]]
        by (auto simp: step_done_def calm_def)
    next
      fix e v assume v: "calm (close_frame u) v"
      show "stops s v"
        using step stops_later [OF _ stops_calm [OF v]] grown_halted
        by (simp add: step_done_def at_rest_def)
    qed
    then show "outcome (m_then (changing close_frame) (\<lambda>_. m_then poll_clock (\<lambda>_. ret False)))
        (next_outcome frame s) (\<lambda>_. stops s) u"
      by (simp add: next_outcome_def)
  qed (rule stop [OF t(1)])
  have comma_case: "outcome (m_then (advance 1) (\<lambda>_. m_then skip_whitespace (\<lambda>_. ret True)))
      (next_outcome frame s) (\<lambda>_. stops s) t"
    if b: "peek t = Some (CHR '','')" "fr_children frame > 0"
    unfolding outcome_m_then [of "advance _"]
  proof (rule outcome_weaken [OF advance_one [OF sound_t b(1)]])
    fix a u assume u: "reads None t u \<and> part t u = [CHR '',''] \<and> sc_cursor u = sc_cursor t + 1"
    then have su: "reads None s u" "part s u = part s t @ [CHR '','']"
      using reads_trans [OF t(1)] part_append [OF t(1)] by auto
    have "outcome skip_whitespace (\<lambda>_ v. separated frame s v) (\<lambda>_. stops s) u"
    proof (rule outcome_weaken [OF skip_whitespace_reads])
      show "sound u" using su by (auto dest: readsD)
      fix a v assume "reads None u v \<and> all_whitespace (part u v)"
      then show "separated frame s v"
        unfolding separated_def
        using su reads_trans [OF su(1)] part_append [OF su(1)] t(2) b(2)
        by (intro conjI exI [of _ "part s t"] exI [of _ "CHR '','' # part u v"])
          (auto simp: json_separator_def)
    qed (rule stop [OF su(1)])
    then show "outcome (m_then skip_whitespace (\<lambda>_. ret True)) (next_outcome frame s) (\<lambda>_. stops s) u"
      by (simp add: next_outcome_def)
  qed (rule stop [OF t(1)])
  have first: "next_outcome frame s True t" if "fr_children frame = 0"
    using t that by (auto simp: next_outcome_def separated_def json_separator_def)
  show "outcome (\<lambda>s. case peek s of
       None \<Rightarrow> halt (StopMalformed UnexpectedEnd) s
     | Some b \<Rightarrow>
         if b = ?c
         then m_then (advance 1) (\<lambda>_. m_then (changing close_frame) (\<lambda>_.
              m_then poll_clock (\<lambda>_. ret False))) s
         else if b = CHR '','' \<and> fr_children frame > 0
         then m_then (advance 1) (\<lambda>_. m_then skip_whitespace (\<lambda>_. ret True)) s
         else if fr_children frame = 0 then ret True s
         else halt (StopMalformed Syntax) s) (next_outcome frame s) (\<lambda>_. stops s) t"
  proof (rule outcome_peek)
    fix b assume b: "peek t = Some b"
    consider "b = ?c" | "b \<noteq> ?c" "b = CHR '',''" "fr_children frame > 0" | "b \<noteq> ?c" "fr_children frame = 0"
      | "b \<noteq> ?c" "\<not> (b = CHR '','' \<and> fr_children frame > 0)" "fr_children frame \<noteq> 0" by blast
    then show "outcome (\<lambda>s. if b = ?c
         then m_then (advance 1) (\<lambda>_. m_then (changing close_frame) (\<lambda>_.
              m_then poll_clock (\<lambda>_. ret False))) s
         else if b = CHR '','' \<and> fr_children frame > 0
         then m_then (advance 1) (\<lambda>_. m_then skip_whitespace (\<lambda>_. ret True)) s
         else if fr_children frame = 0 then ret True s
         else halt (StopMalformed Syntax) s) (next_outcome frame s) (\<lambda>_. stops s) t"
    proof cases
      case 1
      then show ?thesis using close_case b by (simp only: if_True simp_thms)
    next
      case 2
      then show ?thesis using comma_case b by (simp only: if_True if_False simp_thms)
    next
      case 3
      then show ?thesis using first by (simp only: if_False if_True simp_thms less_irrefl outcome_ret)
    next
      case 4
      then show ?thesis using halt by (simp only: if_False simp_thms outcome_halt)
    qed
  qed (simp add: halt)
qed

text \<open>The text of a child is awaited after its label.\<close>

lemma separated_ready:
  assumes s: "at_rest s" "sc_frames s \<noteq> []" and frame: "frame = last (sc_frames s)"
    and t: "separated frame s t" and u: "reads None t u" and label: "json_label (fr_kind frame) (part t u)"
  shows "ready u"
proof -
  obtain fs where f: "sc_frames s = fs @ [frame]"
    using s(2) frame by (cases "sc_frames s" rule: rev_cases) auto
  obtain v sep where part: "part s t = v @ sep" "all_whitespace v" "json_separator (fr_children frame > 0) sep"
    and st: "reads None s t"
    using t by (auto simp: separated_def)
  have su: "reads None s u" by (rule reads_trans [OF st u])
  have grown: "grown u" using reads_grown [OF su] s(1) by (simp add: at_rest_def)
  have "between (sc_window s) (sc_cursor s) (sc_cursor u) = v @ sep @ part t u"
    using part_append [OF st u] part(1) by (simp add: part_def)
  moreover have stack: "stack s = (unat (fr_node frame), fr_kind frame, fr_children frame > 0) # rev (map entry_of fs)"
    by (simp add: stack_def f entry_of_def)
  moreover have "chain (sc_window s) (cores s) (stack s) (sc_cursor s)" using s(1) by (simp add: at_rest_def)
  ultimately have "awaits (sc_window s) (cores s) (stack s) (sc_cursor u)"
    unfolding stack by (intro chain_awaits [OF _ readsD(4) [OF su] _ part(2,3) label])
  then show ?thesis
    using grown reads_tree [OF su] by (simp add: ready_def)
qed

lemma ready_child_fits:
  assumes "sc_frames s \<noteq> []" and "frame = last (sc_frames s)"
  shows "fits \<lparr>vc_parent = Some (fr_node frame), vc_name = name, vc_occurrence = occurrence,
    vc_array_index = index, vc_depth = saturating_add (fr_depth frame) 1,
    vc_path_base = base, vc_start = sc_cursor s\<rparr> s"
proof -
  have "1 \<le> saturating_add (fr_depth frame) 1"
    by (simp add: word_le_nat_alt unat_saturating_add)
  then show ?thesis
    using assms by (cases "sc_frames s" rule: rev_cases)
      (simp_all add: fits_def below_def stack_def entry_of_def)
qed

text \<open>A child is read once its label was read and its path and name were recorded.\<close>

lemma child_after_books:
  assumes s: "ready s" "sc_frames s \<noteq> []" "frame = last (sc_frames s)" and t: "calm s t"
  shows "outcome (\<lambda>s. read_child digest (length (sc_frames t) - 1)
      \<lparr>vc_parent = Some (fr_node frame), vc_name = name, vc_occurrence = occurrence,
       vc_array_index = index, vc_depth = saturating_add (fr_depth frame) 1,
       vc_path_base = base, vc_start = sc_cursor s\<rparr> s) (\<lambda>_. step_done s) (\<lambda>_. stops s) t"
proof -
  have frames: "sc_frames t = sc_frames s" using t by (simp add: calm_def)
  let ?place = "\<lparr>vc_parent = Some (fr_node frame), vc_name = name, vc_occurrence = occurrence,
       vc_array_index = index, vc_depth = saturating_add (fr_depth frame) 1,
       vc_path_base = base, vc_start = sc_cursor t\<rparr>"
  have "outcome (read_child digest (length (sc_frames t) - 1) ?place) (\<lambda>_. step_done t) (\<lambda>_. stops t) t"
    using calm_keeps(4) [OF t s(1)] s(2,3) frames
    by (intro read_child_steps ready_child_fits) simp_all
  then have "outcome (read_child digest (length (sc_frames t) - 1) ?place) (\<lambda>_. step_done s) (\<lambda>_. stops s) t"
  proof (rule outcome_weaken)
    fix u assume "step_done t u"
    then show "step_done s u"
      using t same_limits_trans [OF calm_limits [OF t]] by (auto simp: step_done_def calm_def)
  qed (use stops_later [OF calm_limits [OF t]] in blast)
  then show ?thesis by (simp add: outcome_def)
qed

lemma books_then_child:
  assumes s: "ready s" "sc_frames s \<noteq> []" "frame = last (sc_frames s)" "halted s"
    and m: "outcome m (\<lambda>_. calm s) (\<lambda>_. calm s) t"
    and f: "\<And>a u. calm s u \<Longrightarrow> outcome (f a) (\<lambda>_. step_done s) (\<lambda>_. stops s) u"
  shows "outcome (m_then m f) (\<lambda>_. step_done s) (\<lambda>_. stops s) t"
  unfolding outcome_m_then
  by (rule outcome_weaken [OF m]) (use f stops_calm [OF _ s(4)] in auto)

lemma calm_outcome:
  assumes "calm s t" and "outcome m (\<lambda>_. calm t) (\<lambda>_. calm t) t"
  shows "outcome m (\<lambda>_. calm s) (\<lambda>_. calm s) t"
  by (rule outcome_weaken [OF assms(2)]) (use assms(1) in \<open>auto intro: calm_trans\<close>)

lemma step_done_reads: "reads None s t \<Longrightarrow> step_done t u \<Longrightarrow> step_done s u"
  using readsD(4) [of None s t] same_limits_trans [OF reads_limits [of None s t]]
  by (auto simp: step_done_def)

lemma stops_reads: "reads None s t \<Longrightarrow> stops t u \<Longrightarrow> stops s u"
  by (rule stops_later [OF reads_limits])

end
