(* ===== verification/Span_Steps.thy ===== *)
theory Span_Steps
  imports Span_Walk
begin

text \<open>
  Every step of the scanner keeps the invariant and moves the cursor, so the scan of a request
  always returns; what it leaves is a tree of spans.
\<close>

section \<open>Steps\<close>

lemma step_array_steps:
  assumes s: "at_rest s" "sc_frames s \<noteq> []" "frame = last (sc_frames s)" "fr_kind frame = ArrayContainer"
  shows "outcome (step_array digest (length (sc_frames s) - 1) frame) (\<lambda>_. step_done s) (\<lambda>_. stops s) s"
  unfolding step_array_def outcome_m_then [of "next_child _ _"]
proof (rule outcome_weaken)
  show "outcome (next_child CHR '']'' frame) (next_outcome frame s) (\<lambda>_. stops s) s"
    using next_child_reads [OF s(1-3)] by (simp add: s(4))
  fix follows t assume t: "next_outcome frame s follows t"
  show "outcome (if \<not> follows then ret ()
     else m_then path_checkpoint (\<lambda>path_base.
          m_then (push_array_token (fr_children frame)) (\<lambda>_ s'.
            read_child digest (length (sc_frames s) - 1)
              \<lparr>vc_parent = Some (fr_node frame), vc_name = None, vc_occurrence = 0,
               vc_array_index = Some (fr_children frame), vc_depth = saturating_add (fr_depth frame) 1,
               vc_path_base = path_base, vc_start = sc_cursor s'\<rparr> s'))) (\<lambda>_. step_done s) (\<lambda>_. stops s) t"
  proof (cases follows)
    case True
    then have sep: "separated frame s t" using t by (simp add: next_outcome_def)
    then have st: "reads None s t" by (simp add: separated_def)
    then have frames: "sc_frames t = sc_frames s" by (rule reads_tree(5))
    have ready: "ready t"
      using separated_ready [OF s(1-3) sep reads_refl [OF readsD(1) [OF st] ended_None]]
      by (simp add: s(4) json_label_def)
    then have halted: "halted t" using grown_halted by (simp add: ready_def)
    have frame: "sc_frames t \<noteq> []" "frame = last (sc_frames t)" using s frames by simp_all
    have "outcome (m_then path_checkpoint (\<lambda>path_base.
          m_then (push_array_token (fr_children frame)) (\<lambda>_ s'.
            read_child digest (length (sc_frames s) - 1)
              \<lparr>vc_parent = Some (fr_node frame), vc_name = None, vc_occurrence = 0,
               vc_array_index = Some (fr_children frame), vc_depth = saturating_add (fr_depth frame) 1,
               vc_path_base = path_base, vc_start = sc_cursor s'\<rparr> s'))) (\<lambda>_. step_done t) (\<lambda>_. stops t) t"
    proof (rule books_then_child [OF ready frame halted path_checkpoint_calm])
      fix base u assume u: "calm t u"
      show "outcome (m_then (push_array_token (fr_children frame)) (\<lambda>_ s'.
            read_child digest (length (sc_frames s) - 1)
              \<lparr>vc_parent = Some (fr_node frame), vc_name = None, vc_occurrence = 0,
               vc_array_index = Some (fr_children frame), vc_depth = saturating_add (fr_depth frame) 1,
               vc_path_base = base, vc_start = sc_cursor s'\<rparr> s')) (\<lambda>_. step_done t) (\<lambda>_. stops t) u"
      proof (rule books_then_child [OF ready frame halted calm_outcome [OF u push_array_token_calm]])
        fix a v assume v: "calm t v"
        then have "sc_frames v = sc_frames s" using frames by (simp add: calm_def)
        then show "outcome (\<lambda>s'. read_child digest (length (sc_frames s) - 1)
              \<lparr>vc_parent = Some (fr_node frame), vc_name = None, vc_occurrence = 0,
               vc_array_index = Some (fr_children frame), vc_depth = saturating_add (fr_depth frame) 1,
               vc_path_base = base, vc_start = sc_cursor s'\<rparr> s') (\<lambda>_. step_done t) (\<lambda>_. stops t) v"
          using child_after_books [OF ready frame v] by simp
      qed
    qed
    then have "outcome (m_then path_checkpoint (\<lambda>path_base.
          m_then (push_array_token (fr_children frame)) (\<lambda>_ s'.
            read_child digest (length (sc_frames s) - 1)
              \<lparr>vc_parent = Some (fr_node frame), vc_name = None, vc_occurrence = 0,
               vc_array_index = Some (fr_children frame), vc_depth = saturating_add (fr_depth frame) 1,
               vc_path_base = path_base, vc_start = sc_cursor s'\<rparr> s'))) (\<lambda>_. step_done s) (\<lambda>_. stops s) t"
      by (rule outcome_weaken) (use st step_done_reads stops_reads in blast)+
    with True show ?thesis by (simp only: if_False simp_thms)
  next
    case False
    then show ?thesis using t by (simp add: next_outcome_def)
  qed
qed

text \<open>The label of a member: its name, a colon, and white space around it.\<close>

lemma label_then:
  assumes t: "sound t" "peek t = Some (CHR 0x22)"
    and f: "\<And>name u. reads None t u \<Longrightarrow> json_label ObjectContainer (part t u) \<Longrightarrow> outcome (f name) Q E u"
    and E: "\<And>e u. breaks None t u \<Longrightarrow> E e u"
  shows "outcome (m_then (scan_string None) (\<lambda>name. m_then skip_whitespace (\<lambda>_.
      m_then (expect (\<lambda>b. b = CHR '':'')) (\<lambda>_. m_then skip_whitespace (\<lambda>_. f name))))) Q E t"
  unfolding outcome_m_then
proof (rule outcome_weaken [OF scan_string_reads [OF t(1) ended_None t(2)]])
  fix name :: raw_span and u
  assume u': "reads None t u \<and> (json_string (part t u) \<and> sc_cursor t < sc_cursor u \<and>
    rs_start name = of_nat (sc_cursor t) \<and> rs_end name = of_nat (sc_cursor u))"
  then have u: "reads None t u" "json_string (part t u)" "sound u" by (auto dest: readsD)
  show "outcome skip_whitespace (\<lambda>_. outcome (expect (\<lambda>b. b = CHR '':''))
      (\<lambda>_. outcome skip_whitespace (\<lambda>_. outcome (f name) Q E) E) E) E u"
  proof (rule outcome_weaken [OF skip_whitespace_reads [OF u(3)]])
    fix a v assume v': "reads None u v \<and> all_whitespace (part u v)"
    then have v: "reads None u v" "all_whitespace (part u v)" "sound v" "reads None t v"
      using reads_trans [OF u(1)] by (auto dest: readsD)
    show "outcome (expect (\<lambda>b. b = CHR '':''))
      (\<lambda>_. outcome skip_whitespace (\<lambda>_. outcome (f name) Q E) E) E v"
    proof (rule outcome_weaken [OF expect_reads [OF v(3)]])
      fix a w assume w': "reads None v w \<and> (\<exists>b. part v w = [b] \<and> b = CHR '':'')"
      then have w: "reads None v w" "part v w = [CHR '':'']" "sound w" "reads None t w"
        using reads_trans [OF v(4)] by (auto dest: readsD)
      show "outcome skip_whitespace (\<lambda>_. outcome (f name) Q E) E w"
      proof (rule outcome_weaken [OF skip_whitespace_reads [OF w(3)]])
        fix a x assume x': "reads None w x \<and> all_whitespace (part w x)"
        then have x: "reads None t x" using reads_trans [OF w(4)] by blast
        have "part t x = part t u @ part u v @ [CHR '':''] @ part w x"
          using part_append [OF u(1) v(1)] part_append [OF v(4) w(1)] part_append [OF w(4)] x' w(2) by simp
        then have "json_label ObjectContainer (part t x)"
          using u(2) v(2) x' by (auto simp: json_label_def)
        then show "outcome (f name) Q E x" using f x by blast
      qed (use E reads_breaks [OF w(4)] in blast)
    qed (use E reads_breaks [OF v(4)] in blast)
  qed (use E reads_breaks [OF u(1)] in blast)
qed (use E in blast)

lemma member_after_label:
  assumes s: "at_rest s" "sc_frames s \<noteq> []" "frame = last (sc_frames s)" "fr_kind frame = ObjectContainer"
    and t: "separated frame s t" and u: "reads None t u" and label: "json_label ObjectContainer (part t u)"
  shows "outcome (m_then (record_name (fr_node frame) name) (\<lambda>occurrence.
      m_then path_checkpoint (\<lambda>path_base.
      m_then (push_name_token name) (\<lambda>_ s'.
        read_child digest (length (sc_frames s) - 1)
          \<lparr>vc_parent = Some (fr_node frame), vc_name = Some name, vc_occurrence = occurrence,
           vc_array_index = None, vc_depth = saturating_add (fr_depth frame) 1,
           vc_path_base = path_base, vc_start = sc_cursor s'\<rparr> s')))) (\<lambda>_. step_done s) (\<lambda>_. stops s) u"
proof -
  have su: "reads None s u" using t reads_trans [OF _ u] by (auto simp: separated_def)
  have frames: "sc_frames u = sc_frames s" using reads_tree(5) [OF su] .
  have ready: "ready u" using separated_ready [OF s(1-3) t u] label by (simp add: s(4))
  then have halted: "halted u" using grown_halted by (simp add: ready_def)
  have frame: "sc_frames u \<noteq> []" "frame = last (sc_frames u)" using s frames by simp_all
  let ?child = "\<lambda>occurrence base s'. read_child digest (length (sc_frames s) - 1)
          \<lparr>vc_parent = Some (fr_node frame), vc_name = Some name, vc_occurrence = occurrence,
           vc_array_index = None, vc_depth = saturating_add (fr_depth frame) 1,
           vc_path_base = base, vc_start = sc_cursor s'\<rparr> s'"
  have child: "outcome (?child occurrence base) (\<lambda>_. step_done u) (\<lambda>_. stops u) v"
    if v: "calm u v" for occurrence base v
  proof -
    have "sc_frames v = sc_frames s" using v frames by (simp add: calm_def)
    then show ?thesis using child_after_books [OF ready frame v] by simp
  qed
  have "outcome (m_then (record_name (fr_node frame) name) (\<lambda>occurrence.
      m_then path_checkpoint (\<lambda>base. m_then (push_name_token name) (\<lambda>_. ?child occurrence base))))
      (\<lambda>_. step_done u) (\<lambda>_. stops u) u"
  proof (rule books_then_child [OF ready frame halted record_name_calm])
    fix occurrence v assume v: "calm u v"
    show "outcome (m_then path_checkpoint (\<lambda>base. m_then (push_name_token name) (\<lambda>_. ?child occurrence base)))
      (\<lambda>_. step_done u) (\<lambda>_. stops u) v"
    proof (rule books_then_child [OF ready frame halted calm_outcome [OF v path_checkpoint_calm]])
      fix base w assume w: "calm u w"
      show "outcome (m_then (push_name_token name) (\<lambda>_. ?child occurrence base))
        (\<lambda>_. step_done u) (\<lambda>_. stops u) w"
        by (rule books_then_child [OF ready frame halted calm_outcome [OF w push_name_token_calm]])
          (rule child)
    qed
  qed
  then show ?thesis
    by (rule outcome_weaken) (use su step_done_reads stops_reads in blast)+
qed

lemma step_object_steps:
  assumes s: "at_rest s" "sc_frames s \<noteq> []" "frame = last (sc_frames s)" "fr_kind frame = ObjectContainer"
  shows "outcome (step_object digest (length (sc_frames s) - 1) frame) (\<lambda>_. step_done s) (\<lambda>_. stops s) s"
proof -
  have halted: "halted s" using s(1) grown_halted by (simp add: at_rest_def)
  have inner: "outcome (m_then (scan_string None) (\<lambda>name. m_then skip_whitespace (\<lambda>_.
      m_then (expect (\<lambda>b. b = CHR '':'')) (\<lambda>_. m_then skip_whitespace (\<lambda>_.
      m_then (record_name (fr_node frame) name) (\<lambda>occurrence.
      m_then path_checkpoint (\<lambda>path_base.
      m_then (push_name_token name) (\<lambda>_ s'.
        read_child digest (length (sc_frames s) - 1)
          \<lparr>vc_parent = Some (fr_node frame), vc_name = Some name, vc_occurrence = occurrence,
           vc_array_index = None, vc_depth = saturating_add (fr_depth frame) 1,
           vc_path_base = path_base, vc_start = sc_cursor s'\<rparr> s')))))))) (\<lambda>_. step_done s) (\<lambda>_. stops s) t"
    if t: "separated frame s t" and b: "peek t = Some (CHR 0x22)" for t
  proof -
    have st: "reads None s t" using t by (simp add: separated_def)
    show ?thesis
    proof (rule label_then [OF readsD(1) [OF st] b])
      show "stops s u" if "breaks None t u" for u
        using stops_breaks [OF reads_breaks [OF st that] halted] .
    qed (rule member_after_label [OF s t])
  qed
  show ?thesis
    unfolding step_object_def outcome_m_then [of "next_child _ _"]
  proof (rule outcome_weaken)
    show "outcome (next_child CHR ''}'' frame) (next_outcome frame s) (\<lambda>_. stops s) s"
      using next_child_reads [OF s(1-3)] by (simp add: s(4))
    fix follows t assume t: "next_outcome frame s follows t"
    let ?member = "\<lambda>s'. if peek s' \<noteq> Some CHR 0x22 then halt (unexpected s') s'
      else m_then (scan_string None) (\<lambda>name. m_then skip_whitespace (\<lambda>_.
        m_then (expect (\<lambda>b. b = CHR '':'')) (\<lambda>_. m_then skip_whitespace (\<lambda>_.
        m_then (record_name (fr_node frame) name) (\<lambda>occurrence.
        m_then path_checkpoint (\<lambda>path_base.
        m_then (push_name_token name) (\<lambda>_ s'.
          read_child digest (length (sc_frames s) - 1)
            \<lparr>vc_parent = Some (fr_node frame), vc_name = Some name, vc_occurrence = occurrence,
             vc_array_index = None, vc_depth = saturating_add (fr_depth frame) 1,
             vc_path_base = path_base, vc_start = sc_cursor s'\<rparr> s'))))))) s'"
    show "outcome (if \<not> follows then ret () else ?member) (\<lambda>_. step_done s) (\<lambda>_. stops s) t"
    proof (cases follows)
      case True
      then have sep: "separated frame s t" using t by (simp add: next_outcome_def)
      then have st: "reads None s t" by (simp add: separated_def)
      have "outcome ?member (\<lambda>_. step_done s) (\<lambda>_. stops s) t"
      proof (cases "peek t = Some (CHR 0x22)")
        case quote: True
        show ?thesis by (rule outcome_unfold [OF _ inner [OF sep quote]]) (simp add: quote)
      next
        case False
        moreover have "stops s t"
          using stops_breaks [OF reads_breaks [OF st breaks_refl [OF readsD(1) [OF st] ended_None]] halted] .
        ultimately show ?thesis by (simp add: outcome_def halt_def)
      qed
      with True show ?thesis by (simp only: if_False simp_thms)
    next
      case False
      then show ?thesis using t by (simp add: next_outcome_def)
    qed
  qed
qed

lemma scan_step_steps:
  assumes s: "at_rest s" "sc_frames s \<noteq> []"
  shows "outcome (scan_step digest) (\<lambda>_. step_done s) (\<lambda>_. stops s) s"
proof (cases "fr_kind (last (sc_frames s))")
  case ObjectContainer
  show ?thesis
    by (rule outcome_unfold [OF _ step_object_steps [OF s refl ObjectContainer]])
      (simp add: scan_step_def s(2) ObjectContainer Let_def)
next
  case ArrayContainer
  show ?thesis
    by (rule outcome_unfold [OF _ step_array_steps [OF s refl ArrayContainer]])
      (simp add: scan_step_def s(2) ArrayContainer Let_def)
qed

section \<open>The scan\<close>

text \<open>A finished scan: at rest after a whole document, or stopped.\<close>

definition scanned :: "scanner \<Rightarrow> (unit, stop) result \<times> scanner \<Rightarrow> bool" where
  "scanned s r \<longleftrightarrow> (case r of
     (Ok _, t) \<Rightarrow> same_limits s t \<and> at_rest t \<and> sc_frames t = []
   | (Err _, t) \<Rightarrow> stops s t)"

lemma scan_frames_returns:
  "at_rest s \<Longrightarrow> \<exists>r. scan_frames digest s = Some r \<and> scanned s r"
proof (induction s rule: measure_induct_rule [of "\<lambda>s. length (sc_window s) - sc_cursor s"])
  case (less s)
  show ?case
  proof (cases "sc_frames s = []")
    case True
    then show ?thesis using less.prems by (simp add: scan_frames.simps scanned_def)
  next
    case False
    note step = scan_step_steps [OF less.prems False, of digest]
    show ?thesis
    proof (cases "scan_step digest s")
      case (Pair r t)
      show ?thesis
      proof (cases r)
        case (Ok a)
        have t: "step_done s t" using outcome_Ok [OF step] Pair Ok by simp
        then have "sc_cursor t \<le> length (sc_window s)" "sc_window t = sc_window s"
          by (auto simp: step_done_def at_rest_def grown_def sound_def same_limits_def)
        then have "length (sc_window t) - sc_cursor t < length (sc_window s) - sc_cursor s"
          using t by (auto simp: step_done_def)
        then obtain u where "scan_frames digest t = Some u" "scanned t u"
          using less.IH [of t] t by (auto simp: step_done_def)
        moreover have "scanned s u" if "scanned t u"
          using that t stops_later [of s t] same_limits_trans [of s t]
          by (auto simp: scanned_def step_done_def split: prod.splits result.splits)
        ultimately show ?thesis
          using False Pair Ok by (simp add: scan_frames.simps [of digest s])
      next
        case (Err e)
        then have "stops s t" using outcome_Err [OF step] Pair by simp
        then show ?thesis
          using False Pair Err by (simp add: scan_frames.simps [of digest s] scanned_def)
      qed
    qed
  qed
qed

text \<open>The scanner as it was built.\<close>

definition starts :: "scanner \<Rightarrow> bool" where
  "starts s \<longleftrightarrow> sound s \<and> decoded s \<and> sc_cursor s = 0 \<and> sc_nodes s = [] \<and> sc_frames s = []"

lemma starts_halted: "starts s \<Longrightarrow> halted s"
  by (simp add: starts_def halted_def bounded_def cores_def stack_def forest_def cores_ok_def laminar_def
      rooted_def open_nodes_def unfinished_last_def)

lemma starts_ready:
  assumes s: "starts s" and t: "reads None s t" "all_whitespace (part s t)"
  shows "ready t" and "fits (root_context (sc_cursor t)) t" and "stack t = []"
proof -
  have empty: "sc_nodes t = []" "sc_frames t = []" "sc_cursor s = 0" "decoded t"
    using s t(1) by (simp_all add: starts_def reads_def same_rest_def)
  then show stack: "stack t = []" by (simp add: stack_def)
  show "fits (root_context (sc_cursor t)) t"
    by (simp add: fits_def root_context_def below_def)
  have "halted t" using breaks_halted [OF reads_breaks [OF t(1)] starts_halted [OF s]] readsD(1) [OF t(1)]
    by (simp add: breaks_refl)
  moreover have "settled_nodes (sc_cursor t) (stack t) (cores t)"
    using empty stack by (simp add: settled_nodes_def cores_def)
  ultimately show "ready t"
    using t empty stack
    by (simp add: ready_def grown_def halted_def tree_def part_def reads_def same_rest_def)
qed

lemma scan_root_reads:
  assumes s: "starts s"
  shows "outcome (scan_root digest) (\<lambda>_ t. same_limits s t \<and> at_rest t) (\<lambda>_. stops s) s"
  unfolding scan_root_def outcome_m_then
proof (rule outcome_weaken [OF skip_whitespace_reads])
  show "sound s" using s by (simp add: starts_def)
  show "stops s t" if "breaks None s t" for t using stops_breaks [OF that starts_halted [OF s]] .
  fix a t assume t: "reads None s t \<and> all_whitespace (part s t)"
  note ready = starts_ready [OF s conjunct1 [OF t] conjunct2 [OF t]]
  have limits: "same_limits s t" using t reads_limits by blast
  have "outcome (read_value digest (root_context (sc_cursor t))) (\<lambda>_ u. same_limits s u \<and> at_rest u)
      (\<lambda>_. stops s) t"
  proof (rule outcome_weaken [OF read_value_reads [OF ready(1,2)]])
    fix descent u assume u: "value_read t descent u"
    then obtain inner where inner: "sc_frames u = sc_frames t @ inner"
      "chain (sc_window t) (cores u) (rev (map entry_of inner) @ counted (stack t)) (sc_cursor u)"
      by (auto simp: value_read_def)
    have "stack u = rev (map entry_of inner)" using inner(1) ready(3) by (simp add: stack_def)
    then show "same_limits s u \<and> at_rest u"
      using u inner(2) ready(3) same_limits_trans [OF limits]
      by (auto simp: value_read_def at_rest_def same_limits_def)
  qed (use stops_later [OF limits] in blast)
  then show "outcome (\<lambda>s. read_value digest (root_context (sc_cursor s)) s)
      (\<lambda>_ u. same_limits s u \<and> at_rest u) (\<lambda>_. stops s) t"
    by (simp add: outcome_def)
qed

text \<open>What a whole scan leaves: a document read to its end, with every value complete, or a stop.\<close>

definition all_read :: "scanner \<Rightarrow> bool" where
  "all_read t \<longleftrightarrow> decoded t \<and> sc_cursor t = length (sc_window t) \<and> sc_frames t = [] \<and>
     json_document (sc_window t) \<and> (\<forall>c \<in> set (cores t). co_complete c)"

lemma scan_end_reads:
  assumes s: "at_rest s" "sc_frames s = []"
  shows "outcome scan_end (\<lambda>_ t. stops s t \<and> all_read t) (\<lambda>_. stops s) s"
  unfolding scan_end_def outcome_m_then
proof (rule outcome_weaken [OF skip_whitespace_reads])
  have grown: "grown s" using s(1) by (simp add: at_rest_def)
  note halted = grown_halted [OF grown]
  show "sound s" using grown by (simp add: grown_def)
  show "stops s t" if "breaks None s t" for t using stops_breaks [OF that halted] .
  fix a t assume t: "reads None s t \<and> all_whitespace (part s t)"
  have stop: "stops s t"
    using t stops_breaks [OF reads_breaks [OF _ breaks_refl] halted] readsD(1) by auto
  have stack: "stack s = []" using s(2) by (simp add: stack_def)
  have all_read: "all_read t" if c: "\<not> sc_cursor t < length (sc_window t)"
  proof -
    have grown_t: "grown t" using reads_grown t grown by blast
    have c_eq: "sc_cursor t = length (sc_window t)"
      using c grown_t by (simp add: grown_def sound_def)
    obtain v kind body where v: "all_whitespace v" "json_value kind body" "between (sc_window s) 0 (sc_cursor s) = v @ body"
      using s(1) stack by (auto simp: at_rest_def)
    have "sc_window t = between (sc_window s) 0 (sc_cursor s) @ part s t"
      using t c_eq reads_tree(3,6) [of s t] between_append [of 0 "sc_cursor s" "sc_cursor t" "sc_window s"]
      by (auto simp: part_def between_whole)
    then have "json_document (sc_window t)"
      unfolding json_document_def using v t
      by (intro exI [of _ v] exI [of _ "part s t"] exI [of _ kind] exI [of _ body]) simp
    moreover have "co_complete c" if "c \<in> set (cores t)" for c
    proof -
      have "c \<in> set (cores s)" using that t reads_tree(1) by auto
      then obtain i where "i < length (cores s)" "c = cores s ! i" by (auto simp: in_set_conv_nth)
      then show ?thesis using grown stack by (auto simp: grown_def tree_def settled_nodes_def)
    qed
    ultimately show ?thesis
      using grown_t c_eq s(2) t reads_tree(5) [of s t] by (auto simp: all_read_def grown_def)
  qed
  show "outcome (\<lambda>s. if sc_cursor s < length (sc_window s) then halt (StopMalformed Syntax) s else ret () s)
      (\<lambda>_ u. stops s u \<and> all_read u) (\<lambda>_. stops s) t"
    using stop all_read by (simp add: outcome_def halt_def ret_def)
qed

definition run_ended :: "scanner \<Rightarrow> (unit, stop) result \<times> scanner \<Rightarrow> bool" where
  "run_ended s r \<longleftrightarrow> stops s (snd r) \<and> (fst r = Ok () \<longrightarrow> all_read (snd r))"

lemma scan_run_ends:
  assumes s: "starts s"
  shows "\<exists>r. scan_run digest s = Some r \<and> run_ended s r"
proof (cases "scan_root digest s")
  case root: (Pair a t)
  show ?thesis
  proof (cases a)
    case (Err e)
    then show ?thesis
      using outcome_Err [OF scan_root_reads [OF s]] root by (simp add: scan_run_def run_ended_def)
  next
    case (Ok d)
    then have t: "same_limits s t" "at_rest t"
      using outcome_Ok [OF scan_root_reads [OF s]] root by auto
    obtain r where r: "scan_frames digest t = Some r" "scanned t r"
      using scan_frames_returns [OF t(2)] by blast
    obtain b u where bu: "r = (b, u)" by (cases r)
    show ?thesis
    proof (cases b)
      case (Err e)
      then show ?thesis
        using r bu root Ok stops_later [OF t(1)]
        by (simp add: scan_run_def run_ended_def scanned_def)
    next
      case ok: (Ok x)
      then have u: "same_limits s u" "at_rest u" "sc_frames u = []"
        using r(2) bu same_limits_trans [OF t(1)] by (simp_all add: scanned_def)
      obtain c v where cv: "scan_end u = (c, v)" by (cases "scan_end u")
      have "stops u v \<and> (c = Ok () \<longrightarrow> all_read v)"
        using scan_end_reads [OF u(2,3)] cv
        by (cases c) (auto dest: outcome_Ok outcome_Err)
      then have "run_ended s (c, v)"
        using stops_later [OF u(1)] by (simp add: run_ended_def)
      then show ?thesis
        using r bu root Ok ok cv by (simp add: scan_run_def)
    qed
  qed
qed

end
