(* ===== verification/Span_Text.thy ===== *)
theory Span_Text
  imports Json_Grammar
begin

text \<open>
  What the incremental validator of the scanner decides: UTF-8 without the zero byte, the same
  language as \<open>std::str::from_utf8\<close> reads. And the last byte of a JSON value, which is ASCII.
\<close>

section \<open>The validator and UTF-8\<close>

fun accepts :: "utf8_validator \<Rightarrow> string \<Rightarrow> bool" where
  "accepts v [] \<longleftrightarrow> uv_remaining v = 0"
| "accepts v (b # s) \<longleftrightarrow> (case utf8_consume b v of (Ok _, w) \<Rightarrow> accepts w s | _ \<Rightarrow> False)"

lemma accepts_consume:
  "accepts v s \<longleftrightarrow> (\<exists>w. consume_bytes s c v = (Ok (), w) \<and> uv_remaining w = 0)"
  by (induction s arbitrary: v c) (auto split: prod.split result.split)

lemma accepts_more [simp]:
  "0 < n \<Longrightarrow> accepts (utf8_expect n low high) s \<longleftrightarrow>
     (case s of [] \<Rightarrow> False | b # s' \<Rightarrow> byte b \<noteq> 0 \<and> low \<le> byte b \<and> byte b \<le> high \<and>
        accepts (utf8_expect (n - 1) 0x80 0xbf) s')"
  by (cases s) (auto simp: utf8_expect_def utf8_consume_def Let_def)

lemma accepts_idle: "uv_remaining v = 0 \<Longrightarrow> uv_remaining w = 0 \<Longrightarrow> accepts v s = accepts w s"
  by (induction s) (simp_all add: utf8_consume_def Let_def)

declare accepts.simps(2) [simp del]

lemma accepts_first:
  assumes "uv_remaining v = 0"
  shows "byte a < 0x80 \<Longrightarrow> accepts v (a # s) \<longleftrightarrow> byte a \<noteq> 0 \<and> accepts v s"
    and "0xC2 \<le> byte a \<Longrightarrow> byte a \<le> 0xDF \<Longrightarrow> accepts v (a # s) = accepts (utf8_expect 1 0x80 0xbf) s"
    and "0xE0 \<le> byte a \<Longrightarrow> byte a \<le> 0xEF \<Longrightarrow> accepts v (a # s) =
      accepts (utf8_expect 2 (if byte a = 0xE0 then 0xA0 else 0x80) (if byte a = 0xED then 0x9F else 0xBF)) s"
    and "0xF0 \<le> byte a \<Longrightarrow> byte a \<le> 0xF4 \<Longrightarrow> accepts v (a # s) =
      accepts (utf8_expect 3 (if byte a = 0xF0 then 0x90 else 0x80) (if byte a = 0xF4 then 0x8F else 0xBF)) s"
    and "0x80 \<le> byte a \<Longrightarrow> byte a < 0xC2 \<or> 0xF4 < byte a \<Longrightarrow> \<not> accepts v (a # s)"
  using assms by (auto simp: accepts.simps(2) utf8_consume_def Let_def)

lemma accepts_utf8: "uv_remaining v = 0 \<Longrightarrow> accepts v s \<longleftrightarrow> utf8_ok s \<and> (\<forall>b \<in> set s. byte b \<noteq> 0)"
proof (induction s arbitrary: v rule: length_induct)
  case (1 s)
  have idle: "uv_remaining (utf8_expect 0 0x80 0xbf) = 0" by (simp add: utf8_expect_def)
  have IH: "accepts (utf8_expect 0 0x80 0xbf) t \<longleftrightarrow> utf8_ok t \<and> (\<forall>b \<in> set t. byte b \<noteq> 0)"
    if "length t < length s" for t
    using "1.IH" that idle by blast
  show ?case
  proof (cases s)
    case (Cons a t)
    note first = accepts_first [OF \<open>uv_remaining v = 0\<close>, of a t]
    consider "byte a < 0x80" | "0xC2 \<le> byte a" "byte a \<le> 0xDF" | "0xE0 \<le> byte a" "byte a \<le> 0xEF"
      | "0xF0 \<le> byte a" "byte a \<le> 0xF4" | "0x80 \<le> byte a" "byte a < 0xC2 \<or> 0xF4 < byte a" by linarith
    then show ?thesis
    proof cases
      case 1
      then show ?thesis using first(1) Cons "1.IH" "1.prems" by auto
    next
      case 2
      show ?thesis
      proof (cases t)
        case t: (Cons b r)
        show ?thesis using first(2) 2 IH [of r] by (auto simp: Cons t continuation_def)
      qed (use first(2) 2 Cons in \<open>simp add: utf8_expect_def\<close>)
    next
      case 3
      show ?thesis
      proof (cases "\<exists>b c r. t = b # c # r")
        case True
        then obtain b c r where t: "t = b # c # r" by blast
        show ?thesis using first(3) 3 IH [of r] by (auto simp: Cons t continuation_def)
      next
        case False
        then show ?thesis using first(3) 3 by (auto simp: Cons split: list.splits)
      qed
    next
      case 4
      show ?thesis
      proof (cases "\<exists>b c d r. t = b # c # d # r")
        case True
        then obtain b c d r where t: "t = b # c # d # r" by blast
        show ?thesis using first(4) 4 IH [of r] by (auto simp: Cons t continuation_def)
      next
        case False
        then show ?thesis using first(4) 4 by (auto simp: Cons split: list.splits)
      qed
    next
      case 5
      then show ?thesis using first(5) Cons by auto
    qed
  qed (use 1 in simp)
qed

text \<open>
  C32. The validator that is fed byte by byte decides what \<open>std::str::from_utf8\<close> decides on the
  whole: it accepts every byte and ends between two characters exactly when the bytes are UTF-8
  without a zero byte.
\<close>

theorem validator_accepts_utf8:
  "(\<exists>v. consume_bytes s 0 utf8_validator_default = (Ok (), v) \<and> uv_remaining v = 0) \<longleftrightarrow>
   utf8_ok s \<and> CHR 0x00 \<notin> set s"
proof -
  have zero: "byte b = 0 \<longleftrightarrow> b = CHR 0x00" for b
    using of_char_eq_iff [of b "CHR 0x00", where 'a = nat] by (simp add: byte_def)
  have "accepts utf8_validator_default s \<longleftrightarrow> utf8_ok s \<and> (\<forall>b \<in> set s. byte b \<noteq> 0)"
    by (rule accepts_utf8) (simp add: utf8_validator_default_def)
  then show ?thesis
    by (auto simp: accepts_consume [of _ _ 0] zero)
qed

text \<open>Text that ends with an ASCII byte leaves the validator between two characters.\<close>

definition above_ascii :: "utf8_validator \<Rightarrow> bool" where
  "above_ascii v \<longleftrightarrow> uv_remaining v = 0 \<or> 0x80 \<le> uv_next_min v"

lemma consume_above: "utf8_consume b v = (Ok (), w) \<Longrightarrow> above_ascii v \<Longrightarrow> above_ascii w"
  by (auto simp: utf8_consume_def utf8_expect_def above_ascii_def Let_def split: if_splits)

lemma consume_ascii:
  "utf8_consume b v = (Ok (), w) \<Longrightarrow> byte b < 0x80 \<Longrightarrow> above_ascii v \<Longrightarrow> uv_remaining w = 0"
  by (auto simp: utf8_consume_def above_ascii_def Let_def split: if_splits)

lemma consume_snoc:
  "consume_bytes (s @ [b]) c v = (Ok (), w) \<Longrightarrow> above_ascii v \<Longrightarrow>
   \<exists>u. above_ascii u \<and> utf8_consume b u = (Ok (), w)"
  by (induction s arbitrary: v c) (auto split: prod.splits result.splits dest: consume_above)

lemma consumed_utf8:
  assumes "consume_bytes s c utf8_validator_default = (Ok (), w)" and "s = t @ [b]" and "byte b < 0x80"
  shows "utf8_ok s \<and> (\<forall>b \<in> set s. byte b \<noteq> 0)"
proof -
  have "above_ascii utf8_validator_default" by (simp add: above_ascii_def utf8_validator_default_def)
  then have "uv_remaining w = 0"
    using consume_snoc [of t b c] consume_ascii [OF _ assms(3)] assms(1,2) by blast
  then have "accepts utf8_validator_default s"
    using accepts_consume assms(1) by blast
  then show ?thesis by (simp add: accepts_utf8 utf8_validator_default_def)
qed

section \<open>The last byte\<close>

definition ends_ascii :: "string \<Rightarrow> bool" where
  "ends_ascii t \<longleftrightarrow> (\<exists>s b. t = s @ [b] \<and> byte b < 0x80)"

lemma ends_ascii_append: "ends_ascii t \<Longrightarrow> ends_ascii (s @ t)"
  by (auto simp: ends_ascii_def)

lemma ends_ascii_snoc [simp]: "ends_ascii (s @ [b]) \<longleftrightarrow> byte b < 0x80"
  by (auto simp: ends_ascii_def)

lemma ends_ascii_digits: "some_digits t \<Longrightarrow> ends_ascii t"
  by (cases t rule: rev_cases) (auto simp: some_digits_def all_digits_def is_ascii_digit_def byte_def)

lemma ends_ascii_number: "json_number t \<Longrightarrow> ends_ascii t"
proof -
  assume "json_number t"
  then obtain sign i f e where t: "t = sign @ i @ f @ e" "json_integer i" "json_fraction f" "json_exponent e"
    by (auto simp: json_number_def)
  have i: "ends_ascii i"
  proof -
    have "some_digits i" using t(2)
      by (auto simp: json_integer_def some_digits_def all_digits_def is_ascii_digit_def byte_def)
    then show ?thesis by (rule ends_ascii_digits)
  qed
  have f: "f = [] \<or> ends_ascii f"
    using t(3) ends_ascii_append [OF ends_ascii_digits, of _ "[_]"] by (auto simp: json_fraction_def)
  have e: "e = [] \<or> ends_ascii e"
    using t(4) ends_ascii_append [OF ends_ascii_digits, of _ "_ # _"] by (auto simp: json_exponent_def)
  have "ends_ascii (i @ f @ e)"
    using i f e ends_ascii_append [of f i] ends_ascii_append [of e "i @ f"] by auto
  then show ?thesis unfolding t(1) by (rule ends_ascii_append)
qed

lemma ends_ascii_whitespace: "all_whitespace t \<Longrightarrow> t = [] \<or> ends_ascii t"
  by (cases t rule: rev_cases) (auto simp: all_whitespace_def json_whitespace_def byte_def)

lemma ends_ascii_value:
  assumes "json_value kind t"
  shows "ends_ascii t"
  using assms
proof cases
  case value_string
  then obtain body where "t = (CHR 0x22 # body) @ [CHR 0x22]" by (force simp: json_string_def)
  then show ?thesis by (simp only: ends_ascii_snoc) (simp add: byte_def)
next
  case (value_container c b s w)
  then show ?thesis using ends_ascii_snoc [of "s @ w" "close_delimiter c"] by (cases c) (simp_all add: byte_def)
next
  case value_true
  then show ?thesis using ends_ascii_snoc [of "''tru''" "CHR ''e''"] by (simp add: byte_def)
next
  case value_false
  then show ?thesis using ends_ascii_snoc [of "''fals''" "CHR ''e''"] by (simp add: byte_def)
next
  case value_null
  then show ?thesis using ends_ascii_snoc [of "''nul''" "CHR ''l''"] by (simp add: byte_def)
qed (rule ends_ascii_number)

lemma ends_ascii_document: "json_document t \<Longrightarrow> ends_ascii t"
  using ends_ascii_value ends_ascii_whitespace
  by (fastforce simp: json_document_def intro: ends_ascii_append)

end
