(* ===== verification/Span_Index.thy ===== *)
theory Span_Index
  imports Span_Steps Span_Text
begin

text \<open>
  \<open>crates/tracepress-context/src/span.rs\<close>, \<open>RawSpanIndex\<close>: the index built from one scan of a
  request, its accessors, and what it promises. The window of a request is its prefix within the
  analysed-bytes limit.
\<close>

section \<open>The index\<close>

record scan_outcome =
  so_request_bytes :: u64
  so_window_truncated :: bool
  so_stop :: "stop option"

record raw_span_index =
  ri_nodes :: "span_node list"
  ri_status :: context_analysis_status
  ri_limit_reached :: "context_analysis_limit_field option"
  ri_analyzed_bytes :: u64
  ri_skipped_bytes :: u64
  ri_duplicate_key_detected :: bool

text \<open>The span of an open container ends where the scan stopped.\<close>

definition end_open_frames :: "u64 \<Rightarrow> frame list \<Rightarrow> span_node list \<Rightarrow> span_node list" where
  "end_open_frames analyzed frames nodes =
     fold (\<lambda>f nodes. nodes[unat (fr_node f) := set_raw_end analyzed (nodes ! unat (fr_node f))]) frames nodes"

text \<open>A number that reaches the end of a truncated window may go on after it.\<close>

definition doubt_last_number :: "u64 \<Rightarrow> span_node \<Rightarrow> span_node" where
  "doubt_last_number window_end node =
     (if bl_raw_value_end (sn_locator node) \<ge> window_end \<and> sn_kind node = JsonNumber
      then node\<lparr>sn_complete := False\<rparr> else node)"

definition outcome_limit :: "scan_outcome \<Rightarrow> context_analysis_limit_field option" where
  "outcome_limit result =
     (case so_stop result of
        Some (StopLimit field) \<Rightarrow> Some field
      | Some (StopMalformed UnexpectedEnd) \<Rightarrow> if so_window_truncated result then Some AnalyzedBytes else None
      | Some (StopMalformed Syntax) \<Rightarrow> None
      | None \<Rightarrow> if so_window_truncated result then Some AnalyzedBytes else None)"

definition outcome_status :: "scan_outcome \<Rightarrow> bool \<Rightarrow> context_analysis_status" where
  "outcome_status result duplicate =
     (case so_stop result of
        Some (StopMalformed reason) \<Rightarrow>
          if reason = UnexpectedEnd \<and> so_window_truncated result then AnalysisResourceLimit
          else AnalysisMalformed
      | _ \<Rightarrow>
          if outcome_limit result \<noteq> None then AnalysisResourceLimit
          else if duplicate then AnalysisPartial else AnalysisComplete)"

definition scan_finish :: "scanner \<Rightarrow> scan_outcome \<Rightarrow> raw_span_index" where
  "scan_finish s result =
     (let analyzed = u64_of_len_or_max (sc_cursor s);
          nodes = end_open_frames analyzed (sc_frames s) (sc_nodes s);
          nodes = (if so_window_truncated result
                   then map (doubt_last_number (u64_of_len_or_max (length (sc_window s)))) nodes
                   else nodes)
      in \<lparr>ri_nodes = nodes, ri_status = outcome_status result (sc_duplicate_key_detected s),
          ri_limit_reached = outcome_limit result, ri_analyzed_bytes = analyzed,
          ri_skipped_bytes = saturating_sub (so_request_bytes result) analyzed,
          ri_duplicate_key_detected = sc_duplicate_key_detected s\<rparr>)"

definition build_with_clock_and_block_capacity ::
  "(string \<Rightarrow> context_digest) \<Rightarrow> string \<Rightarrow> context_analysis_limits \<Rightarrow> (nat \<Rightarrow> u64) \<Rightarrow> nat \<Rightarrow>
   raw_span_index option" where
  "build_with_clock_and_block_capacity digest request limits clock block_capacity =
     (let bound = cl_max_analyzed_bytes limits;
          truncated = length request > bound;
          window = (if truncated then take bound request else request)
      in case scan_run digest (scanner_new window limits clock block_capacity) of
           Some (answer, s) \<Rightarrow>
             Some (scan_finish s \<lparr>so_request_bytes = u64_of_len_or_max (length request),
               so_window_truncated = truncated,
               so_stop = (case answer of Ok _ \<Rightarrow> None | Err stop \<Rightarrow> Some stop)\<rparr>)
         | None \<Rightarrow> None)"

definition build_with_clock ::
  "(string \<Rightarrow> context_digest) \<Rightarrow> string \<Rightarrow> context_analysis_limits \<Rightarrow> (nat \<Rightarrow> u64) \<Rightarrow>
   raw_span_index option" where
  "build_with_clock digest request limits clock =
     build_with_clock_and_block_capacity digest request limits clock (cl_max_blocks limits)"

definition build_for_context_analysis ::
  "(string \<Rightarrow> context_digest) \<Rightarrow> string \<Rightarrow> context_analysis_limits \<Rightarrow> (nat \<Rightarrow> u64) \<Rightarrow>
   raw_span_index option" where
  "build_for_context_analysis digest request limits clock =
     build_with_clock_and_block_capacity digest request limits clock
       (usize_saturating_add (cl_max_blocks limits) 2)"

section \<open>Accessors\<close>

definition node_span :: "span_node \<Rightarrow> raw_span" where
  "node_span node =
     \<lparr>rs_start = bl_raw_value_start (sn_locator node), rs_end = bl_raw_value_end (sn_locator node)\<rparr>"

definition node_raw_bytes :: "span_node \<Rightarrow> u64" where
  "node_raw_bytes node = raw_span_len_bytes (node_span node)"

definition node_content_span :: "span_node \<Rightarrow> raw_span option" where
  "node_content_span node =
     (if \<not> sn_complete node \<or> sn_kind node \<noteq> JsonString then None else inner_span (node_span node))"

definition node_name_equals :: "span_node \<Rightarrow> string \<Rightarrow> string \<Rightarrow> bool" where
  "node_name_equals node request name =
     (case Option.bind (sn_name node) (quoted_text request) of
        None \<Rightarrow> False
      | Some text \<Rightarrow> units_match (utf8_chars text) (utf8_chars name))"

definition index_root :: "raw_span_index \<Rightarrow> span_node option" where
  "index_root index = (case ri_nodes index of [] \<Rightarrow> None | node # _ \<Rightarrow> Some node)"

definition index_node :: "raw_span_index \<Rightarrow> span_node_id \<Rightarrow> span_node option" where
  "index_node index ident =
     (if unat ident < length (ri_nodes index) then Some (ri_nodes index ! unat ident) else None)"

text \<open>The iterator over the children: the rest of it from one sibling on.\<close>

partial_function (option) siblings_from :: "raw_span_index \<Rightarrow> span_node_id option \<Rightarrow> span_node list option" where
  "siblings_from index next =
     (case Option.bind next (index_node index) of
        None \<Rightarrow> Some []
      | Some node \<Rightarrow>
          Option.bind (siblings_from index (sn_next_sibling node)) (\<lambda>rest. Some (node # rest)))"

definition index_children :: "raw_span_index \<Rightarrow> span_node_id \<Rightarrow> span_node list option" where
  "index_children index ident =
     siblings_from index (Option.bind (index_node index ident) sn_first_child)"

definition index_member :: "raw_span_index \<Rightarrow> string \<Rightarrow> span_node_id \<Rightarrow> string \<Rightarrow> span_node option option" where
  "index_member index request object name =
     map_option (find (\<lambda>node. node_name_equals node request name)) (index_children index object)"

section \<open>Building returns\<close>

lemma scanner_new_starts:
  assumes "length window < 2 ^ 64"
  shows "starts (scanner_new window limits clock block_capacity)"
proof -
  have "units_of_work 0 n = 0" for n by (simp add: units_of_work_def)
  then show ?thesis
    using assms
    by (simp add: starts_def scanner_new_def sound_def decoded_def solvent_def demand_def
        primary_work_units_def auxiliary_work_units_def analysis_processing_budget_def
        processing_budget_new_def saturating_add_def)
qed

definition window_of :: "context_analysis_limits \<Rightarrow> string \<Rightarrow> string" where
  "window_of limits request = take (cl_max_analyzed_bytes limits) request"

lemma build_ends:
  fixes limits clock block_capacity
  assumes "length request < 2 ^ 64"
  defines "start \<equiv> scanner_new (window_of limits request) limits clock block_capacity"
  obtains answer t where "run_ended start (answer, t)" and "starts start"
    and "build_with_clock_and_block_capacity digest request limits clock block_capacity =
      Some (scan_finish t \<lparr>so_request_bytes = u64_of_len_or_max (length request),
        so_window_truncated = (length request > cl_max_analyzed_bytes limits),
        so_stop = (case answer of Ok _ \<Rightarrow> None | Err stop \<Rightarrow> Some stop)\<rparr>)"
proof -
  have window: "(if length request > cl_max_analyzed_bytes limits then take (cl_max_analyzed_bytes limits) request
    else request) = window_of limits request"
    by (simp add: window_of_def)
  have "starts start" unfolding start_def
    by (rule scanner_new_starts) (use assms(1) in \<open>simp add: window_of_def min_less_iff_disj\<close>)
  then obtain r where r: "scan_run digest start = Some r" "run_ended start r" using scan_run_ends by blast
  obtain answer t where "r = (answer, t)" by (cases r)
  then show thesis
    using that r \<open>starts start\<close>
    by (simp add: build_with_clock_and_block_capacity_def Let_def window start_def)
qed

section \<open>The nodes of an index\<close>

lemma length_end_open_frames [simp]: "length (end_open_frames e fs ns) = length ns"
  unfolding end_open_frames_def by (induction fs arbitrary: ns) simp_all

lemma nth_end_open_frames:
  "i < length ns \<Longrightarrow> end_open_frames e fs ns ! i =
     (if i \<in> (\<lambda>f. unat (fr_node f)) ` set fs then set_raw_end e (ns ! i) else ns ! i)"
proof (induction fs arbitrary: ns)
  case (Cons f fs)
  let ?ms = "ns[unat (fr_node f) := set_raw_end e (ns ! unat (fr_node f))]"
  have "end_open_frames e (f # fs) ns = end_open_frames e fs ?ms" by (simp add: end_open_frames_def)
  then show ?case using Cons.IH [of ?ms] Cons.prems
    by (cases "i = unat (fr_node f)") (auto simp: nth_list_update)
qed (simp add: end_open_frames_def)

lemma core_of_doubt [simp]:
  "co_id (core_of (doubt_last_number e n)) = co_id (core_of n)"
  "co_parent (core_of (doubt_last_number e n)) = co_parent (core_of n)"
  "co_start (core_of (doubt_last_number e n)) = co_start (core_of n)"
  "co_end (core_of (doubt_last_number e n)) = co_end (core_of n)"
  "co_kind (core_of (doubt_last_number e n)) = co_kind (core_of n)"
  "co_depth (core_of (doubt_last_number e n)) = co_depth (core_of n)"
  by (simp_all add: doubt_last_number_def core_of_def)

lemma doubt_complete: "co_complete (core_of (doubt_last_number e n)) \<Longrightarrow> co_complete (core_of n)"
  by (simp add: doubt_last_number_def core_of_def split: if_splits)

lemma core_of_set_raw_end [simp]:
  "core_of (set_raw_end e n) = (core_of n)\<lparr>co_end := unat e\<rparr>"
  by (simp add: core_of_def set_raw_end_def)

text \<open>
  \<open>closed_at c entries k d i\<close>: the core \<open>d\<close> of node \<open>i\<close> of the index, when the scan left it as \<open>k\<close>
  and stopped at \<open>c\<close> with the containers \<open>entries\<close> open.
\<close>

definition closed_at :: "nat \<Rightarrow> entry list \<Rightarrow> core \<Rightarrow> core \<Rightarrow> nat \<Rightarrow> bool" where
  "closed_at c entries k d i \<longleftrightarrow> co_id d = co_id k \<and> co_parent d = co_parent k \<and> co_start d = co_start k \<and>
     co_kind d = co_kind k \<and> co_depth d = co_depth k \<and> (co_complete d \<longrightarrow> co_complete k) \<and>
     co_end d = (if i \<in> fst ` set entries then c else co_end k)"

lemma scan_finish_nodes:
  assumes "halted t"
  shows "length (ri_nodes (scan_finish t result)) = length (sc_nodes t)"
    and "i < length (sc_nodes t) \<Longrightarrow>
      closed_at (sc_cursor t) (stack t) (cores t ! i) (core_of (ri_nodes (scan_finish t result) ! i)) i"
    and "\<not> so_window_truncated result \<Longrightarrow> map sn_complete (ri_nodes (scan_finish t result)) =
      map co_complete (cores t)"
proof -
  have long: "sc_cursor t < 2 ^ 64" using assms by (auto simp: halted_def sound_def)
  have frames: "fst ` set (stack t) = (\<lambda>f. unat (fr_node f)) ` set (sc_frames t)"
    by (simp add: stack_def entry_of_def image_image)
  show len: "length (ri_nodes (scan_finish t result)) = length (sc_nodes t)"
    by (simp add: scan_finish_def Let_def)
  have node: "ri_nodes (scan_finish t result) ! i =
      (if so_window_truncated result then doubt_last_number (u64_of_len_or_max (length (sc_window t))) else (\<lambda>n. n))
        (if i \<in> fst ` set (stack t) then set_raw_end (u64_of_len_or_max (sc_cursor t)) (sc_nodes t ! i)
         else sc_nodes t ! i)"
    if "i < length (sc_nodes t)" for i
    using that by (simp add: scan_finish_def Let_def nth_end_open_frames frames del: set_map)
  have cores: "cores t ! i = core_of (sc_nodes t ! i)" if "i < length (sc_nodes t)" for i
    using that by (simp add: cores_def)
  have c: "unat (u64_of_len_or_max (sc_cursor t)) = sc_cursor t"
    using long by (simp add: unat_u64_of_len_or_max)
  show "closed_at (sc_cursor t) (stack t) (cores t ! i) (core_of (ri_nodes (scan_finish t result) ! i)) i"
    if i: "i < length (sc_nodes t)"
    unfolding node [OF i] cores [OF i] closed_at_def by (auto simp: c dest: doubt_complete)
  show "map sn_complete (ri_nodes (scan_finish t result)) = map co_complete (cores t)"
    if "\<not> so_window_truncated result"
  proof (intro nth_equalityI)
    fix i assume "i < length (map sn_complete (ri_nodes (scan_finish t result)))"
    then have i: "i < length (sc_nodes t)" by (simp add: len)
    with len that show "map sn_complete (ri_nodes (scan_finish t result)) ! i = map co_complete (cores t) ! i"
      using node [OF i] cores [OF i] by (simp add: core_of_def set_raw_end_def)
  qed (simp add: len)
qed

text \<open>What a built index is: the scan that made it, and the text of its window.\<close>

lemma build_nodes:
  fixes limits
  assumes "length request < 2 ^ 64"
    and "build_with_clock_and_block_capacity digest request limits clock block_capacity = Some index"
  obtains t answer result where "index = scan_finish t result" and "halted t"
    and "sc_window t = window_of limits request" and "sc_max_blocks t = block_capacity"
    and "sc_max_depth t = u32_of_limit_or_max (cl_max_json_depth limits)"
    and "limit_get (maximum_work (sc_budget t)) = limit_get (cl_max_analysis_work_units limits)"
    and "result = \<lparr>so_request_bytes = u64_of_len_or_max (length request),
        so_window_truncated = (length request > cl_max_analyzed_bytes limits),
        so_stop = (case answer of Ok _ \<Rightarrow> None | Err stop \<Rightarrow> Some stop)\<rparr>"
    and "answer = Ok () \<longrightarrow> all_read t"
proof -
  obtain answer t where t: "run_ended (scanner_new (window_of limits request) limits clock block_capacity) (answer, t)"
    "build_with_clock_and_block_capacity digest request limits clock block_capacity =
      Some (scan_finish t \<lparr>so_request_bytes = u64_of_len_or_max (length request),
        so_window_truncated = (length request > cl_max_analyzed_bytes limits),
        so_stop = (case answer of Ok _ \<Rightarrow> None | Err stop \<Rightarrow> Some stop)\<rparr>)"
    using build_ends [OF assms(1), of limits clock block_capacity digest] by blast
  then show thesis
    using that [of t _ answer] assms(2)
    by (simp add: run_ended_def stops_def same_limits_def scanner_new_def analysis_processing_budget_def
        processing_budget_new_def)
qed

section \<open>What an index promises\<close>

text \<open>The text of a node, and the relations between the spans of an index.\<close>

definition node_text :: "string \<Rightarrow> span_node \<Rightarrow> string" where
  "node_text request node =
     between request (unat (rs_start (node_span node))) (unat (rs_end (node_span node)))"

definition spans_nest :: "span_node list \<Rightarrow> bool" where
  "spans_nest nodes \<longleftrightarrow> (\<forall>j < length nodes. \<forall>i < j.
     rs_start (node_span (nodes ! i)) < rs_start (node_span (nodes ! j)) \<and>
     (rs_end (node_span (nodes ! i)) \<le> rs_start (node_span (nodes ! j)) \<or>
      rs_end (node_span (nodes ! j)) \<le> rs_end (node_span (nodes ! i))))"

definition inside_parent :: "span_node list \<Rightarrow> span_node \<Rightarrow> bool" where
  "inside_parent nodes node \<longleftrightarrow> (case sn_parent node of
     None \<Rightarrow> True
   | Some p \<Rightarrow> p < sn_id node \<and> is_container (sn_kind (nodes ! unat p)) \<and>
       raw_span_covers (node_span (nodes ! unat p)) (node_span node))"

lemma core_of_words:
  "unat (rs_start (node_span n)) = co_start (core_of n)"
  "unat (rs_end (node_span n)) = co_end (core_of n)"
  "unat (sn_id n) = co_id (core_of n)" "sn_kind n = co_kind (core_of n)"
  "sn_complete n = co_complete (core_of n)" "unat (sn_depth n) = co_depth (core_of n)"
  by (simp_all add: core_of_def node_span_def)

lemma between_take: "j \<le> n \<Longrightarrow> between (take n w) i j = between w i j"
  by (simp add: between_def drop_take min_def)

text \<open>Two nodes of the index against what the scan left of them.\<close>

lemma closed_nested:
  assumes h: "forest w c entries cs" "unfinished_last cs" and ij: "i < j" "j < length cs"
    and d: "closed_at c entries (cs ! i) d i" "closed_at c entries (cs ! j) e j"
  shows "co_start d < co_start e" and "co_end d \<le> co_start e \<or> co_end e \<le> co_end d"
proof -
  have lam: "co_start (cs ! i) < co_start (cs ! j)" "co_complete (cs ! i) \<Longrightarrow>
      co_end (cs ! i) \<le> co_start (cs ! j) \<or> co_complete (cs ! j) \<and> co_end (cs ! j) \<le> co_end (cs ! i)"
    using h(1) ij by (auto simp: forest_def laminar_def)
  show "co_start d < co_start e" using lam(1) d by (simp add: closed_at_def)
  have ends: "co_end (cs ! j) \<le> c" using h(1) ij by (auto simp: forest_def cores_ok_def)
  have open_iff: "a \<in> fst ` set entries \<longleftrightarrow> \<not> co_complete (cs ! a) \<and> is_container (co_kind (cs ! a))"
    if "a < length cs" for a
    using h(1) that container_kind_is_container by (force simp: forest_def open_nodes_def)
  have "is_container (co_kind (cs ! i)) \<or> co_complete (cs ! i)"
    using h(2) [unfolded unfinished_last_def, rule_format, of i] ij by auto
  then show "co_end d \<le> co_start e \<or> co_end e \<le> co_end d"
    using lam(2) d ends open_iff [of i] open_iff [of j] ij by (auto simp: closed_at_def)
qed

lemma closed_rooted:
  assumes h: "forest w c entries cs" and j: "j < length cs" "co_parent (cs ! j) = Some p"
    and d: "closed_at c entries (cs ! p) d p" "closed_at c entries (cs ! j) e j"
  shows "p < j" and "is_container (co_kind d)" and "co_start d < co_start e" and "co_end e \<le> co_end d"
proof -
  have root: "p < j" "is_container (co_kind (cs ! p))"
    "co_complete (cs ! p) \<Longrightarrow> co_complete (cs ! j) \<and> co_end (cs ! j) \<le> co_end (cs ! p)"
    using h j by (auto simp: forest_def rooted_def)
  have ends: "co_end (cs ! j) \<le> c" using h j by (auto simp: forest_def cores_ok_def)
  have open_iff: "a \<in> fst ` set entries \<longleftrightarrow> \<not> co_complete (cs ! a) \<and> is_container (co_kind (cs ! a))"
    if "a < length cs" for a
    using h that container_kind_is_container by (force simp: forest_def open_nodes_def)
  show "p < j" by (rule root(1))
  show "is_container (co_kind d)" using root(2) d by (simp add: closed_at_def)
  show "co_start d < co_start e"
    using h j root(1) d by (auto simp: forest_def laminar_def closed_at_def)
  show "co_end e \<le> co_end d"
    using root(3) d ends open_iff [of p] open_iff [of j] root j by (auto simp: closed_at_def)
qed

text \<open>The work that was charged bounds the bytes and the values.\<close>

lemma units_of_work_bound:
  assumes "units_of_work v n \<le> w" and "0 < n" and "unat v + unat n \<le> 2 ^ 64"
  shows "unat v \<le> unat n * unat w"
proof (cases "v = 0")
  case False
  have n: "1 \<le> unat n" using assms(2) by (simp add: word_less_nat_alt)
  have "unat (saturating_sub n 1) = unat n - 1"
    using assms(2) n by (auto simp: saturating_sub_def unat_sub word_le_nat_alt)
  then have "unat (saturating_add v (saturating_sub n 1)) = unat v + (unat n - 1)"
    using assms(3) n by (simp add: unat_saturating_add)
  moreover define q where "q = (unat v + (unat n - 1)) div unat n"
  ultimately have "unat (units_of_work v n) = q"
    using False assms(2) by (simp add: units_of_work_def checked_div_def unat_div_distrib word_gt_0)
  then have le: "q \<le> unat w" using assms(1) by (simp add: word_le_nat_alt)
  have "unat v + (unat n - 1) < unat n + q * unat n"
    unfolding q_def using n by (intro dividend_less_div_times) simp
  also have "\<dots> \<le> unat n + unat w * unat n" using mult_le_mono1 [OF le] by simp
  finally show ?thesis using n by (simp add: mult.commute)
qed simp

lemma saturating_add_ge: "x \<le> saturating_add x y" for x :: u64
proof -
  have "unat x < 2 ^ LENGTH(64)" by (rule unsigned_less)
  then have "unat x \<le> min (unat x + unat y) (2 ^ LENGTH(64) - 1)" by linarith
  then show ?thesis by (simp only: word_le_nat_alt unat_saturating_add)
qed

lemma solvent_bytes:
  assumes "solvent s" and "unat (sc_observed_bytes s) < 2 ^ 63"
  shows "unat (sc_observed_bytes s) \<le> 4096 * unat (limit_get (maximum_work (sc_budget s)))"
proof -
  have "units_of_work (sc_observed_bytes s) BYTES_PER_WORK_UNIT \<le> demand s"
    unfolding demand_def primary_work_units_def
    by (rule order_trans [OF _ saturating_add_ge]) (simp add: le_max_iff_disj)
  also have "\<dots> \<le> limit_get (maximum_work (sc_budget s))" using assms(1) by (auto simp: solvent_def)
  finally show ?thesis
    using units_of_work_bound [of "sc_observed_bytes s" BYTES_PER_WORK_UNIT] assms(2)
    by (simp add: BYTES_PER_WORK_UNIT_def word_less_nat_alt)
qed


section \<open>Properties\<close>

text \<open>
  C8. Indexing always returns: the scan of a request ends for every request, limit, clock and node
  capacity, and the bytes it analysed and the bytes it skipped are the whole request.
\<close>

theorem index_build_returns:
  fixes limits
  assumes "length request < 2 ^ 63"
  shows "\<exists>index. build_with_clock_and_block_capacity digest request limits clock block_capacity = Some index \<and>
    unat (ri_analyzed_bytes index) + unat (ri_skipped_bytes index) = length request \<and>
    unat (ri_analyzed_bytes index) \<le> cl_max_analyzed_bytes limits"
proof -
  have short: "length request < 2 ^ 64" using assms by simp
  obtain answer t where t: "run_ended (scanner_new (window_of limits request) limits clock block_capacity) (answer, t)"
    "build_with_clock_and_block_capacity digest request limits clock block_capacity =
      Some (scan_finish t \<lparr>so_request_bytes = u64_of_len_or_max (length request),
        so_window_truncated = (length request > cl_max_analyzed_bytes limits),
        so_stop = (case answer of Ok _ \<Rightarrow> None | Err stop \<Rightarrow> Some stop)\<rparr>)"
    using build_ends [OF short, of limits clock block_capacity digest] by blast
  have "sc_cursor t \<le> length (window_of limits request)"
    using t(1) by (auto simp: run_ended_def stops_def same_limits_def halted_def sound_def scanner_new_def)
  then have c: "sc_cursor t \<le> length request" "sc_cursor t \<le> cl_max_analyzed_bytes limits"
    by (simp_all add: window_of_def)
  then show ?thesis
    using t(2) short
    by (simp add: scan_finish_def Let_def unat_u64_of_len_or_max saturating_sub_def word_le_nat_alt unat_sub)
qed

lemma build_some:
  fixes limits
  assumes "length request < 2 ^ 63"
  obtains index where
    "build_with_clock_and_block_capacity digest request limits clock block_capacity = Some index"
proof -
  have "length request < 2 ^ 64" using assms by simp
  then show thesis using build_ends [of request limits clock block_capacity digest] that by blast
qed

definition sample_digest :: "string \<Rightarrow> context_digest" where
  "sample_digest text = ContextDigest (Digest32 (replicate 32 0))"

definition sample_limits :: context_analysis_limits where
  "sample_limits =
     \<lparr>cl_max_analyzed_bytes = 100, cl_max_blocks = 10, cl_max_json_depth = limit_from_non_zero 8,
      cl_max_string_bytes_inspected = 100, cl_max_analysis_work_units = limit_from_non_zero 1000,
      cl_max_analysis_wall_time_ms = limit_from_non_zero 1000, cl_max_batches = 4\<rparr>"

theorem index_build_returns_witness:
  "\<exists>index. build_with_clock_and_block_capacity sample_digest ''[1, true]'' sample_limits of_nat 4 =
       Some index \<and>
     unat (ri_analyzed_bytes index) + unat (ri_skipped_bytes index) = 9"
  using index_build_returns [of "''[1, true]''" sample_digest sample_limits of_nat 4] by auto

text \<open>
  C6. Every value the index reports as complete has a span that is exactly one JSON value of its
  kind: a string with its quotes, a container with its delimiters, a scalar with its text.
\<close>

theorem complete_spans_are_values:
  fixes limits
  assumes "length request < 2 ^ 63"
    and "build_with_clock_and_block_capacity digest request limits clock block_capacity = Some index"
  shows "\<forall>node \<in> set (ri_nodes index). sn_complete node \<longrightarrow> json_value (sn_kind node) (node_text request node)"
proof (intro ballI impI)
  fix node assume node: "node \<in> set (ri_nodes index)" "sn_complete node"
  have short: "length request < 2 ^ 64" using assms(1) by simp
  obtain t result where t: "index = scan_finish t result" "halted t" "sc_window t = window_of limits request"
    by (rule build_nodes [OF short assms(2)])
  obtain i where i: "i < length (sc_nodes t)" "node = ri_nodes (scan_finish t result) ! i"
    using node(1) scan_finish_nodes(1) [OF t(2), of result] t(1) by (metis in_set_conv_nth)
  note d = scan_finish_nodes(2) [OF t(2) i(1), of result, folded i(2)]
  have forest: "forest (sc_window t) (sc_cursor t) (stack t) (cores t)" using t(2) by (simp add: halted_def)
  have complete: "co_complete (cores t ! i)" using node(2) d by (simp add: core_of_words closed_at_def)
  then have "i \<notin> fst ` set (stack t)" using forest by (auto simp: forest_def open_nodes_def)
  then have e: "co_end (core_of node) = co_end (cores t ! i)" using d by (simp add: closed_at_def)
  have "co_end (cores t ! i) \<le> length (window_of limits request)"
    using forest i(1) t(2,3) by (auto simp: forest_def cores_ok_def halted_def sound_def)
  then have "co_end (cores t ! i) \<le> cl_max_analyzed_bytes limits" by (simp add: window_of_def)
  then have "node_text request node =
      between (window_of limits request) (co_start (cores t ! i)) (co_end (cores t ! i))"
    using d e by (simp add: node_text_def core_of_words closed_at_def window_of_def between_take)
  then show "json_value (sn_kind node) (node_text request node)"
    using forest i(1) complete t(3) d by (auto simp: forest_def cores_ok_def core_of_words closed_at_def)
qed

theorem complete_spans_are_values_witness:
  "\<exists>index. build_with_clock_and_block_capacity sample_digest ''[1, true]'' sample_limits of_nat 4 =
       Some index \<and>
     (\<forall>node \<in> set (ri_nodes index). sn_complete node \<longrightarrow>
        json_value (sn_kind node) (node_text ''[1, true]'' node))"
proof -
  have short: "length ''[1, true]'' < 2 ^ 63" by simp
  obtain index where b: "build_with_clock_and_block_capacity sample_digest ''[1, true]'' sample_limits of_nat 4 =
      Some index" by (rule build_some [OF short])
  then show ?thesis using complete_spans_are_values [OF short b] by blast
qed

text \<open>
  C7. The spans of an index form a tree in document order: two spans are disjoint or one holds the
  other, every value lies inside the container that is its parent and comes after it, identities
  are positions, and no span passes the analysed bytes.
\<close>

theorem spans_form_a_tree:
  fixes limits
  assumes "length request < 2 ^ 63"
    and "build_with_clock_and_block_capacity digest request limits clock block_capacity = Some index"
  shows "spans_nest (ri_nodes index) \<and>
    (\<forall>node \<in> set (ri_nodes index). inside_parent (ri_nodes index) node \<and>
       rs_start (node_span node) \<le> rs_end (node_span node) \<and>
       rs_end (node_span node) \<le> ri_analyzed_bytes index) \<and>
    map (\<lambda>node. unat (sn_id node)) (ri_nodes index) = [0..<length (ri_nodes index)]"
proof -
  have short: "length request < 2 ^ 64" using assms(1) by simp
  obtain t result where t: "index = scan_finish t result" "halted t"
    by (rule build_nodes [OF short assms(2)])
  let ?ns = "ri_nodes index"
  have forest: "forest (sc_window t) (sc_cursor t) (stack t) (cores t)" "unfinished_last (cores t)"
    and sound: "sound t" using t(2) by (simp_all add: halted_def)
  have len: "length ?ns = length (cores t)" using scan_finish_nodes(1) [OF t(2)] t(1) by simp
  have d: "closed_at (sc_cursor t) (stack t) (cores t ! i) (core_of (?ns ! i)) i" if "i < length ?ns" for i
    using scan_finish_nodes(2) [OF t(2)] that len t(1) by simp
  have ids: "unat (sn_id (?ns ! i)) = i" if "i < length ?ns" for i
    using d [OF that] forest(1) that len by (auto simp: core_of_words closed_at_def forest_def cores_ok_def)
  have "spans_nest ?ns"
    using closed_nested [OF forest _ _ d d] len
    by (simp add: spans_nest_def word_less_nat_alt word_le_nat_alt core_of_words)
  moreover have "inside_parent ?ns node \<and> rs_start (node_span node) \<le> rs_end (node_span node) \<and>
      rs_end (node_span node) \<le> ri_analyzed_bytes index" if node: "node \<in> set ?ns" for node
  proof -
    obtain j where j: "j < length ?ns" "node = ?ns ! j" using node by (metis in_set_conv_nth)
    have "inside_parent ?ns node"
    proof (cases "sn_parent node")
      case (Some p)
      then have parent: "co_parent (cores t ! j) = Some (unat p)"
        using d [OF j(1)] j(2) by (simp add: closed_at_def core_of_def)
      then have "unat p < length ?ns" using forest(1) j(1) len by (fastforce simp: forest_def rooted_def)
      then show ?thesis
        using closed_rooted [OF forest(1) _ parent d d [OF j(1)]] j ids Some len
        by (simp add: inside_parent_def raw_span_covers_def word_less_nat_alt word_le_nat_alt core_of_words)
    qed (simp add: inside_parent_def)
    moreover have "co_start (core_of node) \<le> co_end (core_of node) \<and> co_end (core_of node) \<le> sc_cursor t"
      using d [OF j(1)] j forest(1) len
      by (auto simp: closed_at_def forest_def cores_ok_def intro: order_trans)
    ultimately show ?thesis
      using sound t(1)
      by (simp add: word_le_nat_alt core_of_words scan_finish_def Let_def unat_u64_of_len_or_max sound_def)
  qed
  moreover have "map (\<lambda>node. unat (sn_id node)) ?ns = [0..<length ?ns]"
    using ids by (intro nth_equalityI) simp_all
  ultimately show ?thesis by blast
qed

theorem spans_form_a_tree_witness:
  "\<exists>index. build_with_clock_and_block_capacity sample_digest ''[1, [2]]'' sample_limits of_nat 4 = Some index \<and>
     spans_nest (ri_nodes index)"
proof -
  have short: "length ''[1, [2]]'' < 2 ^ 63" by simp
  obtain index where b: "build_with_clock_and_block_capacity sample_digest ''[1, [2]]'' sample_limits of_nat 4 =
      Some index" by (rule build_some [OF short])
  then show ?thesis using spans_form_a_tree [OF short b] by blast
qed

lemma unat_u32_of_limit: "unat (u32_of_limit_or_max l) \<le> unat (limit_get l)"
proof (cases "unat (limit_get l) < 2 ^ 32")
  case True
  then obtain w where w: "u32_of_u64 (limit_get l) = Some w" by (simp add: u32_of_u64_def)
  then have "unat w = unat (limit_get l)" by (simp add: u32_of_u64_Some)
  with w show ?thesis by (simp add: u32_of_limit_or_max_def)
next
  case False
  moreover have "unat (- 1 :: u32) = 2 ^ 32 - 1"
    by (simp add: unsigned_minus_1_eq_mask mask_eq_exp_minus_1)
  ultimately show ?thesis by (simp add: u32_of_limit_or_max_def u32_of_u64_def)
qed





end
