(* ===== verification/Compression_Core.thy ===== *)
theory Compression_Core
  imports Core_Content Text
begin

text \<open>
  \<open>crates/tracepress-compression/src/lib.rs\<close>: the contract of a shadow compressor and the gates
  one evaluation applies to it - target, input bounds, determinism, output bounds, exact recovery,
  never worse. SHA-256, the caller's token estimator and the readings of the monotonic clock are
  parameters. Bytes are characters; the locale states what a lossless compressor promises.
\<close>

section \<open>Metadata and limits\<close>

datatype block_origin =
  ToolGenerated | HumanAuthored | AgentGenerated | ToolSchema | ProviderManaged | OtherOrigin

datatype block_kind = ToolResult | OtherKind

datatype detected_kind = DetectedJson | DetectedPlainText | DetectedUnknown | DetectedOther

record block_metadata =
  bm_origin :: block_origin
  bm_kind :: block_kind
  bm_detected_kind :: detected_kind
  bm_input_estimated_tokens :: "u64 option"
  bm_request_offset :: u64
  bm_request_analysis_bytes :: u64
  bm_persistence :: "u64 option"
  bm_exact_repetition :: "bool option"

definition is_tool_result_json :: "block_metadata \<Rightarrow> bool" where
  "is_tool_result_json metadata \<longleftrightarrow>
     bm_origin metadata = ToolGenerated \<and> bm_kind metadata = ToolResult \<and>
     bm_detected_kind metadata = DetectedJson"

definition is_tool_result_plain_text :: "block_metadata \<Rightarrow> bool" where
  "is_tool_result_plain_text metadata \<longleftrightarrow>
     bm_origin metadata = ToolGenerated \<and> bm_kind metadata = ToolResult \<and>
     bm_detected_kind metadata = DetectedPlainText"

record compression_limits =
  max_candidate_input_bytes :: u64
  max_candidate_output_bytes :: u64
  max_candidates_per_block :: u32
  max_shadow_work_units :: u64
  max_shadow_wall_time_ms :: u64
  max_shadow_memory_bytes :: u64

definition compression_limits_default :: compression_limits where
  "compression_limits_default =
     \<lparr>max_candidate_input_bytes = 1048576, max_candidate_output_bytes = 1048576,
      max_candidates_per_block = 16, max_shadow_work_units = 2000000,
      max_shadow_wall_time_ms = 100, max_shadow_memory_bytes = 4194304\<rparr>"

section \<open>Results of an evaluation\<close>

datatype candidate_status =
  CandidateApplicable | CandidateNotApplicable | CandidateNoImprovement | CandidateResourceLimit
| CandidateInvalidInput | CandidateRecoveryFailed | CandidateInternalError

datatype cache_risk = LowRisk | MediumRisk | HighRisk | UnknownRisk

text \<open>An \<open>i64\<close> is an integer in its range.\<close>

record candidate_metrics =
  cm_compressor_id :: string
  cm_compressor_version :: u32
  cm_status :: candidate_status
  cm_input_bytes :: u64
  cm_output_bytes :: "u64 option"
  cm_bytes_delta :: "int option"
  cm_input_estimated_tokens :: "u64 option"
  cm_output_estimated_tokens :: "u64 option"
  cm_estimated_token_delta :: "int option"
  cm_processing_us :: u64
  cm_reversible :: bool
  cm_recovery_verified :: bool
  cm_deterministic :: bool
  cm_original_fingerprint :: digest32
  cm_candidate_fingerprint :: "digest32 option"
  cm_first_modified_offset :: "u64 option"
  cm_preserved_prefix_bytes :: "u64 option"
  cm_preserved_prefix_ratio_basis_points :: "u16 option"
  cm_cache_risk :: cache_risk

record compression_candidate =
  cc_metrics :: candidate_metrics
  cc_candidate :: "string option"

section \<open>Compressors\<close>

record transformation =
  tr_candidate :: string
  tr_recovery :: string

datatype transform_error =
  TransformNotApplicable | TransformResourceLimit | TransformInvalidInput | TransformInternal

type_synonym transform_result = "(transformation, transform_error) result"
type_synonym recover_result = "(string, transform_error) result"

record shadow_compressor =
  sc_id :: string
  sc_version :: u32
  sc_supports :: "block_metadata \<Rightarrow> bool"
  sc_transform :: "string \<Rightarrow> compression_limits \<Rightarrow> transform_result"
  sc_recover :: "string \<Rightarrow> string \<Rightarrow> compression_limits \<Rightarrow> recover_result"

section \<open>Bounds\<close>

abbreviation bytes_of :: "string \<Rightarrow> u64" where
  "bytes_of bytes \<equiv> u64_of_len_or_max (length bytes)"

definition bounded_vec :: "string \<Rightarrow> compression_limits \<Rightarrow> (string, transform_error) result" where
  "bounded_vec bytes limits =
     (if bytes_of bytes > max_candidate_output_bytes limits \<or>
         bytes_of bytes > max_shadow_memory_bytes limits
      then Err TransformResourceLimit else Ok bytes)"

definition validate_recovery_inputs ::
  "string \<Rightarrow> string \<Rightarrow> compression_limits \<Rightarrow> (unit, transform_error) result" where
  "validate_recovery_inputs candidate recovery limits =
     (if bytes_of candidate > max_candidate_output_bytes limits \<or>
         saturating_add (bytes_of candidate) (bytes_of recovery) > max_shadow_memory_bytes limits
      then Err TransformResourceLimit else Ok ())"

section \<open>Measurements\<close>

fun status_for :: "transform_error \<Rightarrow> candidate_status" where
  "status_for TransformNotApplicable = CandidateNotApplicable"
| "status_for TransformResourceLimit = CandidateResourceLimit"
| "status_for TransformInvalidInput = CandidateInvalidInput"
| "status_for TransformInternal = CandidateInternalError"

definition prefix_ratio :: "block_metadata \<Rightarrow> u64 \<Rightarrow> u16 option" where
  "prefix_ratio metadata preserved =
     (if bm_request_analysis_bytes metadata = 0 then None
      else let basis = min
                 (saturating_mul (saturating_add (bm_request_offset metadata) preserved) 10000
                    div bm_request_analysis_bytes metadata) 10000
           in if unat basis < 2 ^ 16 then Some (ucast basis) else None)"

definition cache_risk_of :: "block_metadata \<Rightarrow> u16 option \<Rightarrow> cache_risk" where
  "cache_risk_of metadata basis =
     (case basis of
        None \<Rightarrow> UnknownRisk
      | Some basis \<Rightarrow>
          if basis \<ge> 9000 \<and> (case bm_persistence metadata of None \<Rightarrow> 0 | Some n \<Rightarrow> n) > 1
          then LowRisk
          else if basis \<ge> 5000 then MediumRisk
          else HighRisk)"

text \<open>A reading of the clock is a \<open>u128\<close>, here a natural number.\<close>

definition elapsed_reading :: "nat \<Rightarrow> u64" where
  "elapsed_reading reading = u64_of_len_or_max reading"

definition signed_delta :: "u64 \<Rightarrow> u64 \<Rightarrow> int option" where
  "signed_delta input output =
     (let delta = int (unat input) - int (unat output)
      in if - (2 ^ 63) \<le> delta \<and> delta < 2 ^ 63 then Some delta else None)"

fun common_prefix_length :: "string \<Rightarrow> string \<Rightarrow> nat" where
  "common_prefix_length (l # left) (r # right) = (if l = r then Suc (common_prefix_length left right) else 0)"
| "common_prefix_length _ _ = 0"

section \<open>Evaluation\<close>

definition base_metrics ::
  "(string \<Rightarrow> digest32) \<Rightarrow> nat \<Rightarrow> shadow_compressor \<Rightarrow> block_metadata \<Rightarrow> string \<Rightarrow> candidate_status
     \<Rightarrow> candidate_metrics" where
  "base_metrics sha256 us compressor metadata input status =
     \<lparr>cm_compressor_id = sc_id compressor, cm_compressor_version = sc_version compressor,
      cm_status = status, cm_input_bytes = bytes_of input, cm_output_bytes = None,
      cm_bytes_delta = None, cm_input_estimated_tokens = bm_input_estimated_tokens metadata,
      cm_output_estimated_tokens = None, cm_estimated_token_delta = None,
      cm_processing_us = elapsed_reading us, cm_reversible = True, cm_recovery_verified = False,
      cm_deterministic = False, cm_original_fingerprint = sha256 input,
      cm_candidate_fingerprint = None, cm_first_modified_offset = None,
      cm_preserved_prefix_bytes = None, cm_preserved_prefix_ratio_basis_points = None,
      cm_cache_risk = UnknownRisk\<rparr>"

definition zip_option :: "'a option \<Rightarrow> 'b option \<Rightarrow> ('a \<times> 'b) option" where
  "zip_option x y = (case (x, y) of (Some a, Some b) \<Rightarrow> Some (a, b) | _ \<Rightarrow> None)"

definition terminal_status :: "bool \<Rightarrow> bool \<Rightarrow> u64 \<Rightarrow> u64 \<Rightarrow> bool \<Rightarrow> candidate_status" where
  "terminal_status deterministic verified input_bytes output_bytes no_token_improvement =
     (if \<not> deterministic then CandidateInternalError
      else if \<not> verified then CandidateRecoveryFailed
      else if output_bytes \<ge> input_bytes \<or> no_token_improvement then CandidateNoImprovement
      else CandidateApplicable)"

text \<open>The measurements of a candidate within its bounds, from \<open>let recovery_verified\<close> on.\<close>

definition measure_candidate ::
  "(string \<Rightarrow> digest32) \<Rightarrow> nat \<Rightarrow> shadow_compressor \<Rightarrow> block_metadata \<Rightarrow> string
     \<Rightarrow> compression_limits \<Rightarrow> (string \<Rightarrow> u64 option) \<Rightarrow> bool \<Rightarrow> transformation
     \<Rightarrow> compression_candidate" where
  "measure_candidate sha256 us compressor metadata input limits estimate deterministic made =
     (let input_bytes = bytes_of input;
          output_bytes = bytes_of (tr_candidate made);
          verified =
            (case sc_recover compressor (tr_candidate made) (tr_recovery made) limits of
               Ok recovered \<Rightarrow> sha256 recovered = sha256 input
             | Err _ \<Rightarrow> False);
          shared = common_prefix_length input (tr_candidate made);
          shared_u64 = u64_of_len_or_max shared;
          ratio = prefix_ratio metadata shared_u64;
          tokens = bm_input_estimated_tokens metadata;
          output_tokens =
            (case tokens of None \<Rightarrow> None | Some _ \<Rightarrow> estimate (tr_candidate made));
          token_delta =
            (case zip_option tokens output_tokens of
               None \<Rightarrow> None | Some (before, after) \<Rightarrow> signed_delta before after);
          no_token_improvement =
            (case zip_option tokens output_tokens of
               None \<Rightarrow> False | Some (before, after) \<Rightarrow> after \<ge> before)
      in \<lparr>cc_metrics =
            \<lparr>cm_compressor_id = sc_id compressor, cm_compressor_version = sc_version compressor,
             cm_status =
               terminal_status deterministic verified input_bytes output_bytes no_token_improvement,
             cm_input_bytes = input_bytes, cm_output_bytes = Some output_bytes,
             cm_bytes_delta = signed_delta input_bytes output_bytes,
             cm_input_estimated_tokens = tokens, cm_output_estimated_tokens = output_tokens,
             cm_estimated_token_delta = token_delta, cm_processing_us = elapsed_reading us,
             cm_reversible = True, cm_recovery_verified = verified,
             cm_deterministic = deterministic, cm_original_fingerprint = sha256 input,
             cm_candidate_fingerprint = Some (sha256 (tr_candidate made)),
             cm_first_modified_offset =
               (if shared < length input \<or> shared < length (tr_candidate made)
                then Some shared_u64 else None),
             cm_preserved_prefix_bytes = Some shared_u64,
             cm_preserved_prefix_ratio_basis_points = ratio,
             cm_cache_risk = cache_risk_of metadata ratio\<rparr>,
          cc_candidate = Some (tr_candidate made)\<rparr>)"

definition evaluate_with_estimator ::
  "(string \<Rightarrow> digest32) \<Rightarrow> nat \<Rightarrow> nat \<Rightarrow> shadow_compressor \<Rightarrow> block_metadata \<Rightarrow> string
     \<Rightarrow> compression_limits \<Rightarrow> (string \<Rightarrow> u64 option) \<Rightarrow> compression_candidate" where
  "evaluate_with_estimator sha256 ms us compressor metadata input limits estimate =
     (let refused = (\<lambda>status.
            \<lparr>cc_metrics = base_metrics sha256 us compressor metadata input status,
             cc_candidate = None\<rparr>)
      in if \<not> sc_supports compressor metadata then refused CandidateNotApplicable
         else if bytes_of input > max_candidate_input_bytes limits \<or>
                 bytes_of input > max_shadow_memory_bytes limits
         then refused CandidateResourceLimit
         else case sc_transform compressor input limits of
             Err error \<Rightarrow> refused (status_for error)
           | Ok made \<Rightarrow>
               (case sc_transform compressor input limits of
                  Err error \<Rightarrow> refused (status_for error)
                | Ok again \<Rightarrow>
                    if bytes_of (tr_candidate made) > max_candidate_output_bytes limits \<or>
                       saturating_add (bytes_of (tr_candidate made)) (bytes_of (tr_recovery made))
                         > max_shadow_memory_bytes limits \<or>
                       elapsed_reading ms > max_shadow_wall_time_ms limits
                    then refused CandidateResourceLimit
                    else measure_candidate sha256 us compressor metadata input limits estimate
                           (tr_candidate made = tr_candidate again \<and>
                            tr_recovery made = tr_recovery again) made))"

definition evaluate ::
  "(string \<Rightarrow> digest32) \<Rightarrow> nat \<Rightarrow> nat \<Rightarrow> shadow_compressor \<Rightarrow> block_metadata \<Rightarrow> string
     \<Rightarrow> compression_limits \<Rightarrow> compression_candidate" where
  "evaluate sha256 ms us compressor metadata input limits =
     evaluate_with_estimator sha256 ms us compressor metadata input limits (\<lambda>_. None)"

section \<open>Bounds on lengths\<close>

text \<open>
  A limit of \<open>u64::MAX\<close> is also what an unrepresentable length saturates to; below it the
  comparisons of the code compare the lengths themselves.
\<close>

lemma limit_below_max: "limit \<noteq> (- 1 :: u64) \<Longrightarrow> unat limit < 2 ^ 64 - 1"
proof -
  assume "limit \<noteq> - 1"
  then have "unat limit \<noteq> unat (- 1 :: u64)" by (simp add: word_unat_eq_iff)
  then have "unat limit \<noteq> 2 ^ 64 - 1" by (simp add: unsigned_minus_1_eq_mask mask_eq_exp_minus_1)
  moreover have "unat limit < 2 ^ 64" by simp
  ultimately show ?thesis by linarith
qed

lemma le_unat_u64: "n \<le> unat (limit :: u64) \<Longrightarrow> n < 18446744073709551616"
  by (rule le_less_trans [OF _ unat_u64_bound])

lemma bytes_of_le: "bytes_of bytes \<le> limit \<Longrightarrow> limit \<noteq> - 1 \<Longrightarrow> length bytes \<le> unat limit"
proof -
  assume le: "bytes_of bytes \<le> limit" and below: "limit \<noteq> - 1"
  have "min (length bytes) (2 ^ 64 - 1) \<le> unat limit"
    using le by (simp add: word_le_nat_alt unat_u64_of_len_or_max)
  with limit_below_max [OF below] show ?thesis by linarith
qed

lemma bytes_of_leI: "length bytes \<le> unat limit \<Longrightarrow> bytes_of bytes \<le> limit"
  by (simp add: word_le_nat_alt unat_u64_of_len_or_max)

lemma unat_bytes_of: "length bytes < 2 ^ 64 \<Longrightarrow> unat (bytes_of bytes) = length bytes"
  by (simp add: unat_u64_of_len_or_max)

lemma bytes_of_sum_le:
  assumes "saturating_add (bytes_of a) (bytes_of b) \<le> limit" and "limit \<noteq> - 1"
  shows "length a + length b \<le> unat limit"
proof -
  have "min (min (length a) (2 ^ 64 - 1) + min (length b) (2 ^ 64 - 1)) (2 ^ 64 - 1) \<le> unat limit"
    using assms(1) by (simp add: word_le_nat_alt unat_u64_of_len_or_max unat_saturating_add)
  with limit_below_max [OF assms(2)] show ?thesis by linarith
qed

lemma bytes_of_sum_leI:
  "length a + length b \<le> unat limit \<Longrightarrow> saturating_add (bytes_of a) (bytes_of b) \<le> limit"
  by (simp add: word_le_nat_alt unat_u64_of_len_or_max unat_saturating_add)

lemma bounded_vec_Ok: "bounded_vec bytes limits = Ok kept \<Longrightarrow> kept = bytes"
  by (simp add: bounded_vec_def split: if_splits)

lemma bounded_vec_again: "bounded_vec bytes limits = Ok kept \<Longrightarrow> bounded_vec kept limits = Ok bytes"
  by (frule bounded_vec_Ok) simp

lemma bounded_vec_within:
  "length bytes \<le> unat (max_candidate_output_bytes limits) \<Longrightarrow>
   length bytes \<le> unat (max_shadow_memory_bytes limits) \<Longrightarrow> bounded_vec bytes limits = Ok bytes"
  by (simp add: bounded_vec_def not_less bytes_of_leI)

lemma validate_recovery_inputs_within:
  "length candidate \<le> unat (max_candidate_output_bytes limits) \<Longrightarrow>
   length candidate + length recovery \<le> unat (max_shadow_memory_bytes limits) \<Longrightarrow>
   validate_recovery_inputs candidate recovery limits = Ok ()"
  by (simp add: validate_recovery_inputs_def not_less bytes_of_leI bytes_of_sum_leI)

section \<open>How an evaluation ends\<close>

lemma status_for_not [simp]:
  "status_for e \<noteq> CandidateRecoveryFailed" "status_for e \<noteq> CandidateApplicable"
  "status_for e \<noteq> CandidateNoImprovement"
  by (cases e; simp)+

lemma evaluate_cases [consumes 1, case_names refused measured]:
  assumes "evaluate_with_estimator sha256 ms us compressor metadata input limits estimate = result"
  obtains status where "cc_metrics result = base_metrics sha256 us compressor metadata input status"
      and "cc_candidate result = None"
      and "status \<notin> {CandidateApplicable, CandidateNoImprovement, CandidateRecoveryFailed}"
    | made where "sc_supports compressor metadata"
      and "\<not> bytes_of input > max_candidate_input_bytes limits"
      and "\<not> bytes_of input > max_shadow_memory_bytes limits"
      and "sc_transform compressor input limits = Ok made"
      and "\<not> bytes_of (tr_candidate made) > max_candidate_output_bytes limits"
      and "\<not> saturating_add (bytes_of (tr_candidate made)) (bytes_of (tr_recovery made))
             > max_shadow_memory_bytes limits"
      and "result = measure_candidate sha256 us compressor metadata input limits estimate True made"
  using assms unfolding evaluate_with_estimator_def Let_def
  by (simp split: if_splits result.splits) auto

lemma measure_candidate_fields:
  fixes sha256 :: "string \<Rightarrow> digest32" and us compressor metadata input limits estimate det made
  defines "result \<equiv> measure_candidate sha256 us compressor metadata input limits estimate det made"
  shows "cc_candidate result = Some (tr_candidate made)"
    and "cm_deterministic (cc_metrics result) = det"
    and "cm_recovery_verified (cc_metrics result) \<longleftrightarrow>
      (\<exists>recovered. sc_recover compressor (tr_candidate made) (tr_recovery made) limits = Ok recovered \<and>
         sha256 recovered = sha256 input)"
    and "cm_status (cc_metrics result) =
      terminal_status det (cm_recovery_verified (cc_metrics result)) (bytes_of input)
        (bytes_of (tr_candidate made))
        (\<exists>before after. bm_input_estimated_tokens metadata = Some before \<and>
           estimate (tr_candidate made) = Some after \<and> after \<ge> before)"
  by (simp_all add: result_def measure_candidate_def Let_def zip_option_def split: result.split option.split)

section \<open>Lossless compressors\<close>

text \<open>
  The law behind the recovery gate: what a compressor makes within the bounds of an evaluation, it
  recovers. \<open>granted\<close> is what the compressor needs of its environment.
\<close>

locale lossless_compressor =
  fixes compressor :: shadow_compressor and granted :: bool
  assumes recovers:
    "granted \<Longrightarrow> sc_transform compressor input limits = Ok made \<Longrightarrow>
     length input \<le> unat (max_shadow_memory_bytes limits) \<Longrightarrow>
     length (tr_candidate made) \<le> unat (max_candidate_output_bytes limits) \<Longrightarrow>
     length (tr_candidate made) + length (tr_recovery made)
       \<le> unat (max_shadow_memory_bytes limits) \<Longrightarrow>
     sc_recover compressor (tr_candidate made) (tr_recovery made) limits = Ok input"
begin

lemma recovers_within_limits:
  assumes "granted" and made: "sc_transform compressor input limits = Ok made"
    and input: "\<not> bytes_of input > max_shadow_memory_bytes limits"
    and out: "\<not> bytes_of (tr_candidate made) > max_candidate_output_bytes limits"
    and total: "\<not> saturating_add (bytes_of (tr_candidate made)) (bytes_of (tr_recovery made))
      > max_shadow_memory_bytes limits"
    and memory: "max_shadow_memory_bytes limits \<noteq> - 1"
  shows "sc_recover compressor (tr_candidate made) (tr_recovery made) limits = Ok input"
proof (rule recovers [OF assms(1) made])
  show "length input \<le> unat (max_shadow_memory_bytes limits)"
    using input memory by (intro bytes_of_le) (simp_all add: not_less)
  show sum: "length (tr_candidate made) + length (tr_recovery made)
      \<le> unat (max_shadow_memory_bytes limits)"
    using total memory by (intro bytes_of_sum_le) (simp_all add: not_less)
  have "unat (max_shadow_memory_bytes limits) < 2 ^ 64" by simp
  with sum have "length (tr_candidate made) < 2 ^ 64" by linarith
  then show "length (tr_candidate made) \<le> unat (max_candidate_output_bytes limits)"
    using out by (simp add: not_less word_le_nat_alt unat_bytes_of)
qed

lemma evaluation_recovers:
  assumes "granted" and "max_shadow_memory_bytes limits \<noteq> - 1"
    and "evaluate_with_estimator sha256 ms us compressor metadata input limits estimate = result"
    and "cc_candidate result = Some bytes"
  shows "cm_recovery_verified (cc_metrics result) \<and> cm_deterministic (cc_metrics result) \<and>
    cm_status (cc_metrics result) \<in> {CandidateNoImprovement, CandidateApplicable} \<and>
    (\<exists>made. sc_transform compressor input limits = Ok made \<and> tr_candidate made = bytes \<and>
       sc_recover compressor bytes (tr_recovery made) limits = Ok input)"
  using assms(3)
proof (cases rule: evaluate_cases)
  case (refused status)
  then show ?thesis using assms(4) by simp
next
  case (measured made)
  from recovers_within_limits [OF assms(1) measured(4,3,5,6) assms(2)] assms(4)
  show ?thesis
    by (auto simp: measured(4,7) measure_candidate_fields terminal_status_def)
qed

lemma evaluation_never_fails_recovery:
  assumes "granted" and "max_shadow_memory_bytes limits \<noteq> - 1"
  shows "cm_status (cc_metrics
      (evaluate_with_estimator sha256 ms us compressor metadata input limits estimate))
    \<noteq> CandidateRecoveryFailed"
proof (cases rule: evaluate_cases [OF refl, of sha256 ms us compressor metadata input limits estimate])
  case (1 status)
  then show ?thesis by (auto simp: base_metrics_def)
next
  case (2 made)
  from recovers_within_limits [OF assms(1) 2(4,3,5,6) assms(2)] show ?thesis
    by (simp add: 2(7) measure_candidate_fields terminal_status_def)
qed

end

section \<open>What an applicable candidate is\<close>

lemma evaluate_applicable:
  assumes "evaluate_with_estimator sha256 ms us compressor metadata input limits estimate = result"
    and "cm_status (cc_metrics result) = CandidateApplicable"
  shows "\<exists>made. sc_supports compressor metadata \<and>
      sc_transform compressor input limits = Ok made \<and> cc_candidate result = Some (tr_candidate made) \<and>
      cm_recovery_verified (cc_metrics result) \<and> cm_deterministic (cc_metrics result) \<and>
      (\<exists>recovered. sc_recover compressor (tr_candidate made) (tr_recovery made) limits = Ok recovered \<and>
         sha256 recovered = sha256 input) \<and>
      bytes_of (tr_candidate made) < bytes_of input \<and>
      bytes_of input \<le> max_candidate_input_bytes limits \<and>
      bytes_of (tr_candidate made) \<le> max_candidate_output_bytes limits \<and>
      (\<forall>before after. bm_input_estimated_tokens metadata = Some before \<longrightarrow>
         estimate (tr_candidate made) = Some after \<longrightarrow> after < before)"
  using assms(1)
proof (cases rule: evaluate_cases)
  case (refused status)
  then show ?thesis using assms(2) by (auto simp: base_metrics_def)
next
  case (measured made)
  then show ?thesis using assms(2)
    by (auto simp: measure_candidate_fields terminal_status_def not_less not_le split: if_splits)
qed

end
