(* ===== verification/Compression_Varint.thy ===== *)
theory Compression_Varint
  imports Compression_Core
begin

unbundle bit_operations_syntax

text \<open>
  The variable-length integers of \<open>text.rs\<close> (and, letter for letter, of \<open>json.rs\<close>): seven bits a
  byte, the lowest first, the top bit set on every byte but the last. Reading moves a cursor over
  the input and refuses an encoding that is cut short or that does not fit a \<open>u64\<close>.
\<close>

section \<open>Bytes\<close>

definition u8_char :: "u8 \<Rightarrow> char" where
  "u8_char b = char_of (unat b)"

definition char_u8 :: "char \<Rightarrow> u8" where
  "char_u8 c = word_of_nat (byte c)"

lemma char_u8_u8_char [simp]: "char_u8 (u8_char b) = b"
proof -
  have "unat b < 256" using unsigned_less [of b, where 'a = nat] by simp
  then show ?thesis by (simp add: char_u8_def u8_char_def byte_def)
qed

section \<open>Writing and reading\<close>

lemma unat_drop_bit_7: "unat (drop_bit 7 v) = unat v div 128" for v :: u64
  by (simp add: unsigned_drop_bit_eq drop_bit_eq_div unat_div)

function write_varint :: "u64 \<Rightarrow> string" where
  "write_varint number =
     (let low = ucast (number AND 0x7F) :: u8; number = drop_bit 7 number
      in if number = 0 then [u8_char low]
         else u8_char (low OR 0x80) # write_varint number)"
  by pat_completeness auto
termination
proof (relation "measure unat")
  fix number :: u64 and low :: u8 and rest :: u64
  assume "rest = drop_bit 7 number" "rest \<noteq> 0"
  moreover have "number \<noteq> 0" using calculation by auto
  ultimately show "(rest, number) \<in> measure unat"
    by (simp add: unat_drop_bit_7 unat_gt_0)
qed simp

declare write_varint.simps [simp del]

fun read_varint_shifts ::
  "nat list \<Rightarrow> u64 \<Rightarrow> string \<Rightarrow> nat \<Rightarrow> (u64 \<times> nat, transform_error) result" where
  "read_varint_shifts [] number input cursor = Err TransformInvalidInput"
| "read_varint_shifts (shift # shifts) number input cursor =
     (if \<not> cursor < length input then Err TransformInvalidInput
      else let b = char_u8 (input ! cursor); cursor = cursor + 1
           in if shift = 63 \<and> b AND 0x7F > 1 then Err TransformInvalidInput
              else let number = number OR push_bit shift (ucast (b AND 0x7F))
                   in if b AND 0x80 = 0 then Ok (number, cursor)
                      else read_varint_shifts shifts number input cursor)"

definition read_varint :: "string \<Rightarrow> nat \<Rightarrow> (u64 \<times> nat, transform_error) result" where
  "read_varint input cursor = read_varint_shifts (map ((*) 7) [0..<10]) 0 input cursor"

text \<open>\<open>usize::try_from\<close> of a \<open>u64\<close> never fails on a 64-bit platform.\<close>

definition read_usize :: "string \<Rightarrow> nat \<Rightarrow> (nat \<times> nat, transform_error) result" where
  "read_usize input cursor =
     and_then (read_varint input cursor) (\<lambda>(number, cursor).
       if unat number < usize_limit then Ok (unat number, cursor) else Err TransformResourceLimit)"

section \<open>Round trip\<close>

lemma drop_Cons_at:
  assumes "drop n xs = y # ys"
  shows "n < length xs" and "xs ! n = y" and "drop (Suc n) xs = ys"
proof -
  show less: "n < length xs" using assms by (cases "n < length xs") simp_all
  show "xs ! n = y" "drop (Suc n) xs = ys"
    using Cons_nth_drop_Suc [OF less] assms by simp_all
qed

lemma write_varint_step:
  "write_varint v =
     (if drop_bit 7 v = 0 then [u8_char (ucast (take_bit 7 v))]
      else u8_char (ucast (take_bit 7 v) OR 0x80) # write_varint (drop_bit 7 v))"
proof -
  have "v AND 0x7F = take_bit 7 v" by (simp add: take_bit_eq_mask mask_eq_exp_minus_1)
  then show ?thesis by (subst write_varint.simps) (simp add: Let_def)
qed

lemma low_bits:
  fixes v :: u64
  defines "low \<equiv> ucast (take_bit 7 v) :: u8"
  shows "low AND 0x7F = low" and "(low OR 0x80) AND 0x7F = low"
    and "low AND 0x80 = 0" and "(low OR 0x80) AND 0x80 = 0x80"
    and "ucast low = take_bit 7 v"
proof -
  have bit_low: "bit low n \<longleftrightarrow> n < 7 \<and> bit v n" for n
    by (auto simp: low_def bit_unsigned_iff bit_take_bit_iff dest: bit_imp_le_length)
  have m7: "(0x7F :: u8) = mask 7" by (simp add: mask_eq_exp_minus_1)
  have e7: "bit (0x80 :: int) n \<longleftrightarrow> n = 7" for n
  proof -
    have "(0x80 :: int) = 2 ^ 7" by simp
    then show ?thesis by (simp only: bit_exp_iff) auto
  qed
  show "low AND 0x7F = low" "(low OR 0x80) AND 0x7F = low"
    "low AND 0x80 = 0" "(low OR 0x80) AND 0x80 = 0x80"
    unfolding m7
    by (auto intro!: bit_word_eqI simp: bit_low bit_and_iff bit_or_iff bit_mask_iff e7)
  show "ucast low = take_bit 7 v"
    by (rule bit_word_eqI) (auto simp: bit_unsigned_iff bit_low bit_take_bit_iff)
qed

lemma take_bit_extend: "take_bit s v OR push_bit s (take_bit 7 (drop_bit s v)) = take_bit (s + 7) v"
  for v :: u64
  by (rule bit_word_eqI)
    (auto simp: bit_or_iff bit_take_bit_iff bit_push_bit_iff bit_drop_bit_eq add.commute)

lemma read_varint_shifts_written:
  assumes "k < 10" and "drop cursor input = write_varint (drop_bit (7 * k) v) @ rest"
  shows "read_varint_shifts (map ((*) 7) [k..<10]) (take_bit (7 * k) v) input cursor =
    Ok (v, cursor + length (write_varint (drop_bit (7 * k) v)))"
  using assms
proof (induction "10 - k" arbitrary: k cursor)
  case 0
  then show ?case by simp
next
  case (Suc n)
  let ?r = "drop_bit (7 * k) v"
  let ?low = "ucast (take_bit 7 ?r) :: u8"
  have shifts: "map ((*) 7) [k..<10] = 7 * k # map ((*) 7) [Suc k..<10]"
    using Suc.prems(1) by (simp add: upt_conv_Cons)
  have next_bits: "drop_bit 7 ?r = drop_bit (7 * Suc k) v"
    by (simp add: drop_bit_drop_bit add.commute)
  have grown: "take_bit (7 * k) v OR push_bit (7 * k) (ucast ?low) = take_bit (7 * Suc k) v"
    by (simp add: low_bits take_bit_extend add.commute)
  have top: "\<not> (7 * k = 63 \<and> ?low > 1)"
  proof
    assume "7 * k = 63 \<and> ?low > 1"
    then have k: "7 * k = 63" and big: "?low > 1" by blast+
    have "unat v < 2 * 2 ^ 63" by simp
    then have "unat v div 2 ^ 63 < 2" by (rule less_mult_imp_div_less)
    then have "unat (drop_bit 63 v) < 2" by (simp add: drop_bit_eq_div unat_div)
    then have "unat (take_bit 7 ?r) < 2"
      unfolding k by (simp add: take_bit_eq_mod unat_mod)
    moreover have "unat ?low \<le> unat (take_bit 7 ?r)"
      by (simp add: unsigned_ucast_eq take_bit_nat_less_eq_self)
    ultimately have "unat ?low < 2" by linarith
    with big show False by (simp add: word_less_nat_alt)
  qed
  show ?case
  proof (cases "drop_bit (7 * Suc k) v = 0")
    case True
    have w: "write_varint ?r = [u8_char ?low]"
      using True by (subst write_varint_step) (simp add: next_bits)
    have whole: "take_bit (7 * Suc k) v = v"
    proof (rule bit_word_eqI)
      fix n
      have "bit v n \<Longrightarrow> n < 7 * Suc k"
      proof (rule ccontr)
        assume "bit v n" "\<not> n < 7 * Suc k"
        then have "bit (drop_bit (7 * Suc k) v) (n - 7 * Suc k)" by (simp add: bit_drop_bit_eq)
        with True show False by simp
      qed
      then show "bit (take_bit (7 * Suc k) v) n = bit v n" by (auto simp: bit_take_bit_iff)
    qed
    have "cursor < length input" and "input ! cursor = u8_char ?low"
      using drop_Cons_at [of cursor input "u8_char ?low" rest] Suc.prems(2) by (simp_all add: w)
    then show ?thesis
      using top unfolding shifts by (simp add: w Let_def low_bits(1,3) grown whole [unfolded mult_Suc_right])
  next
    case False
    have w: "write_varint ?r = u8_char (?low OR 0x80) # write_varint (drop_bit (7 * Suc k) v)"
      using False by (subst write_varint_step) (simp add: next_bits)
    have "Suc k < 10"
    proof (rule ccontr)
      assume "\<not> Suc k < 10"
      with Suc.prems(1) have seventy: "7 * Suc k = 70" by simp
      have "drop_bit 70 v = 0"
        by (rule bit_word_eqI) (auto simp: bit_drop_bit_eq dest: bit_imp_le_length)
      with False show False unfolding seventy by simp
    qed
    moreover have at: "cursor < length input" "input ! cursor = u8_char (?low OR 0x80)"
      and "drop (Suc cursor) input = write_varint (drop_bit (7 * Suc k) v) @ rest"
      using drop_Cons_at [of cursor input "u8_char (?low OR 0x80)"] Suc.prems(2) by (simp_all add: w)
    ultimately have "read_varint_shifts (map ((*) 7) [Suc k..<10]) (take_bit (7 * Suc k) v) input (Suc cursor) =
        Ok (v, Suc cursor + length (write_varint (drop_bit (7 * Suc k) v)))"
      using Suc.hyps(2) by (intro Suc.hyps(1)) simp_all
    then show ?thesis
      using top at unfolding shifts by (simp add: w Let_def low_bits(2,4) grown)
  qed
qed

lemma read_varint_written:
  "drop cursor input = write_varint v @ rest \<Longrightarrow>
   read_varint input cursor = Ok (v, cursor + length (write_varint v))"
  using read_varint_shifts_written [of 0 cursor input v rest] by (simp add: read_varint_def)

lemma read_usize_written:
  "drop cursor input = write_varint v @ rest \<Longrightarrow>
   read_usize input cursor = Ok (unat v, cursor + length (write_varint v))"
  by (simp add: read_usize_def read_varint_written usize_limit_def)

lemma read_usize_length:
  "drop cursor input = write_varint (u64_of_len_or_max n) @ rest \<Longrightarrow> n < 2 ^ 64 \<Longrightarrow>
   read_usize input cursor = Ok (n, cursor + length (write_varint (u64_of_len_or_max n)))"
  by (simp add: read_usize_written unat_u64_of_len_or_max)

lemma write_varint_nonempty [simp]: "write_varint v \<noteq> []"
  by (subst write_varint_step) simp

lemma write_varint_small: "v < 128 \<Longrightarrow> write_varint v = [char_of (unat v)]"
proof -
  assume "v < 128"
  then have v: "unat v < 128" by (simp add: word_less_nat_alt)
  then have "unat (drop_bit 7 v) = 0" by (simp add: unat_drop_bit_7)
  then have "drop_bit 7 v = 0" by (simp add: unsigned_eq_0_iff)
  moreover have "unat (ucast (take_bit 7 v) :: u8) = unat v"
    using v by (simp add: unsigned_ucast_eq unsigned_take_bit_eq take_bit_nat_eq_self)
  ultimately show ?thesis by (subst write_varint_step) (simp add: u8_char_def)
qed

lemma read_varint_shifts_cursor:
  "read_varint_shifts shifts number input cursor = Ok (v, after) \<Longrightarrow>
   cursor < after \<and> after \<le> length input"
  by (induction shifts number input cursor rule: read_varint_shifts.induct)
    (force simp: Let_def split: if_splits)+

lemma read_usize_cursor:
  "read_usize input cursor = Ok (n, after) \<Longrightarrow> cursor < after \<and> after \<le> length input \<and> n < usize_limit"
  by (auto simp: read_usize_def read_varint_def and_then_eq_Ok split: if_splits
      dest: read_varint_shifts_cursor)

end
