(* ===== verification/Compression_Records.thy ===== *)
theory Compression_Records
  imports Compression_Varint
begin

text \<open>
  The binary records of \<open>text.rs\<close>: a magic number, the number of records, and for each record how
  often its pattern repeats and the lines of the pattern, every count a variable-length integer.
  Decoding is bounded by the memory and the work of the evaluation, whatever the bytes say.
  \<open>reserves n\<close> tells whether the allocator grants \<open>try_reserve(n)\<close>.
\<close>

type_synonym line_record = "nat \<times> string list"

section \<open>Encoding\<close>

fun encode_pattern :: "u64 \<Rightarrow> string \<Rightarrow> string list \<Rightarrow> (string, transform_error) result" where
  "encode_pattern maximum output [] = Ok output"
| "encode_pattern maximum output (line # pattern) =
     (let output = output @ write_varint (bytes_of line) @ line
      in if bytes_of output > maximum then Err TransformResourceLimit
         else encode_pattern maximum output pattern)"

fun encode_all :: "u64 \<Rightarrow> string \<Rightarrow> line_record list \<Rightarrow> (string, transform_error) result" where
  "encode_all maximum output [] = Ok output"
| "encode_all maximum output ((repetitions, pattern) # records) =
     and_then
       (encode_pattern maximum
          (output @ write_varint (u64_of_len_or_max repetitions)
                  @ write_varint (u64_of_len_or_max (length pattern))) pattern)
       (\<lambda>output. encode_all maximum output records)"

definition encode_records ::
  "string \<Rightarrow> line_record list \<Rightarrow> compression_limits \<Rightarrow> transform_result" where
  "encode_records magic records limits =
     and_then
       (encode_all (max_candidate_output_bytes limits)
          (magic @ write_varint (u64_of_len_or_max (length records))) records)
       (\<lambda>output. Ok \<lparr>tr_candidate = output, tr_recovery = []\<rparr>)"

section \<open>Decoding\<close>

fun read_pattern :: "nat \<Rightarrow> string \<Rightarrow> nat \<Rightarrow> (string list \<times> nat, transform_error) result" where
  "read_pattern 0 input cursor = Ok ([], cursor)"
| "read_pattern (Suc n) input cursor =
     and_then (read_usize input cursor) (\<lambda>(line_length, cursor).
       case usize_checked_add cursor line_length of
         None \<Rightarrow> Err TransformResourceLimit
       | Some line_end \<Rightarrow>
           if line_end > length input then Err TransformInvalidInput
           else and_then (read_pattern n input line_end) (\<lambda>(pattern, cursor).
             Ok (take line_length (drop (line_end - line_length) input) # pattern, cursor)))"

fun push_lines ::
  "compression_limits \<Rightarrow> string list \<Rightarrow> string \<times> u64 \<Rightarrow> (string \<times> u64, transform_error) result"
  where
  "push_lines limits [] (output, work) = Ok (output, work)"
| "push_lines limits (line # pattern) (output, work) =
     (case usize_checked_add (length output) (length line) of
        None \<Rightarrow> Err TransformResourceLimit
      | Some projected \<Rightarrow>
          if u64_of_len_or_max projected > max_shadow_memory_bytes limits
          then Err TransformResourceLimit
          else let work = saturating_add work 1
               in if work > max_shadow_work_units limits then Err TransformResourceLimit
                  else push_lines limits pattern (output @ line, work))"

fun push_repeated ::
  "compression_limits \<Rightarrow> nat \<Rightarrow> string list \<Rightarrow> string \<times> u64 \<Rightarrow> (string \<times> u64, transform_error) result"
  where
  "push_repeated limits 0 pattern state = Ok state"
| "push_repeated limits (Suc n) pattern state =
     and_then (push_lines limits pattern state) (push_repeated limits n pattern)"

fun decode_all ::
  "(nat \<Rightarrow> bool) \<Rightarrow> compression_limits \<Rightarrow> nat \<Rightarrow> string \<Rightarrow> nat \<Rightarrow> string \<times> u64
     \<Rightarrow> (string \<times> nat, transform_error) result" where
  "decode_all reserves limits 0 input cursor (output, work) = Ok (output, cursor)"
| "decode_all reserves limits (Suc n) input cursor (output, work) =
     and_then (read_usize input cursor) (\<lambda>(repetitions, cursor).
     and_then (read_usize input cursor) (\<lambda>(pattern_length, cursor).
       if pattern_length > length input \<or>
          u64_of_len_or_max pattern_length > max_shadow_work_units limits
       then Err TransformResourceLimit
       else if \<not> reserves pattern_length then Err TransformResourceLimit
       else and_then (read_pattern pattern_length input cursor) (\<lambda>(pattern, cursor).
         and_then (push_repeated limits repetitions pattern (output, work)) (\<lambda>state.
           decode_all reserves limits n input cursor state))))"

definition decode_records ::
  "(nat \<Rightarrow> bool) \<Rightarrow> string \<Rightarrow> string \<Rightarrow> compression_limits \<Rightarrow> recover_result" where
  "decode_records reserves input magic limits =
     and_then (validate_recovery_inputs input [] limits) (\<lambda>_.
       if \<not> (length magic \<le> length input \<and> take (length magic) input = magic)
       then Err TransformInvalidInput
       else and_then (read_usize input (length magic)) (\<lambda>(records, cursor).
         and_then (decode_all reserves limits records input cursor ([], 0)) (\<lambda>(output, cursor).
           if cursor \<noteq> length input then Err TransformInvalidInput else Ok output)))"

section \<open>What an encoding says\<close>

definition emit_line :: "string \<Rightarrow> string" where
  "emit_line line = write_varint (bytes_of line) @ line"

definition emit_record :: "line_record \<Rightarrow> string" where
  "emit_record record =
     write_varint (u64_of_len_or_max (fst record))
     @ write_varint (u64_of_len_or_max (length (snd record))) @ concat (map emit_line (snd record))"

definition expand_record :: "line_record \<Rightarrow> string list" where
  "expand_record record = concat (replicate (fst record) (snd record))"

definition expand_records :: "line_record list \<Rightarrow> string list" where
  "expand_records records = concat (map expand_record records)"

lemma encode_pattern_Ok:
  "encode_pattern maximum output pattern = Ok result \<Longrightarrow>
   result = output @ concat (map emit_line pattern)"
  by (induction maximum "output" pattern rule: encode_pattern.induct)
    (simp_all add: emit_line_def Let_def split: if_splits)

lemma encode_all_Ok:
  "encode_all maximum output records = Ok result \<Longrightarrow>
   result = output @ concat (map emit_record records)"
proof (induction records arbitrary: "output")
  case (Cons entry records)
  obtain repetitions pattern where entry: "entry = (repetitions, pattern)" by (cases entry)
  from Cons.prems obtain middle where
    first: "encode_pattern maximum
      (output @ write_varint (u64_of_len_or_max repetitions)
              @ write_varint (u64_of_len_or_max (length pattern))) pattern = Ok middle"
    and rest: "encode_all maximum middle records = Ok result"
    by (auto simp: entry and_then_eq_Ok)
  from encode_pattern_Ok [OF first] Cons.IH [OF rest] show ?case
    by (simp add: entry emit_record_def)
qed simp

lemma encode_records_Ok:
  "encode_records magic records limits = Ok made \<longleftrightarrow>
   encode_all (max_candidate_output_bytes limits)
     (magic @ write_varint (u64_of_len_or_max (length records))) records = Ok (tr_candidate made) \<and>
   tr_recovery made = []"
  by (auto simp: encode_records_def and_then_eq_Ok)

section \<open>Decoding what was encoded\<close>

lemma drop_append_shift: "drop n xs = ys @ zs \<Longrightarrow> drop (n + length ys) xs = zs"
  by (metis add.commute append_eq_conv_conj drop_drop)

lemma read_pattern_emitted:
  assumes "drop cursor input = concat (map emit_line pattern) @ rest" and "cursor \<le> length input"
    and "length input < usize_limit"
  shows "read_pattern (length pattern) input cursor =
    Ok (pattern, cursor + length (concat (map emit_line pattern)))"
  using assms
proof (induction pattern arbitrary: cursor)
  case Nil
  then show ?case by simp
next
  case (Cons line pattern)
  let ?after = "cursor + length (write_varint (bytes_of line))"
  have at: "drop cursor input = write_varint (bytes_of line) @ line @ concat (map emit_line pattern) @ rest"
    using Cons.prems(1) by (simp add: emit_line_def [of line])
  have body: "drop ?after input = line @ concat (map emit_line pattern) @ rest"
    by (rule drop_append_shift [OF at])
  then have rest: "drop (?after + length line) input = concat (map emit_line pattern) @ rest"
    by (rule drop_append_shift)
  have "length (drop cursor input) = length input - cursor" by simp
  then have fits: "?after + length line \<le> length input"
    using Cons.prems(2) unfolding at by simp
  have "length line < 2 ^ 64" using fits Cons.prems(3) by (simp add: usize_limit_def)
  with at have "read_usize input cursor = Ok (length line, ?after)" by (rule read_usize_length)
  moreover have "usize_checked_add ?after (length line) = Some (?after + length line)"
    using fits Cons.prems(3) by (simp add: usize_checked_add_def)
  moreover have "take (length line) (drop ?after input) = line" by (simp add: body)
  ultimately show ?case
    using fits Cons.IH [OF rest fits Cons.prems(3)] by (simp add: emit_line_def)
qed

lemma push_lines_fitting:
  assumes "length output + length (concat pattern) \<le> unat (max_shadow_memory_bytes limits)"
    and "unat work + length pattern \<le> unat (max_shadow_work_units limits)"
  shows "\<exists>work'. unat work' = unat work + length pattern \<and>
    push_lines limits pattern (output, work) = Ok (output @ concat pattern, work')"
  using assms
proof (induction pattern arbitrary: "output" work)
  case Nil
  then show ?case by simp
next
  case (Cons line pattern)
  have w: "unat (max_shadow_work_units limits) < 2 ^ 64" by simp
  have step: "unat (saturating_add work 1) = unat work + 1"
  proof -
    have "unat work + 1 \<le> unat (max_shadow_work_units limits)" using Cons.prems(2) by simp
    with w have "unat work + 1 < 2 ^ 64" by linarith
    then show ?thesis by (simp add: unat_saturating_add min_def)
  qed
  have "\<exists>work'. unat work' = unat (saturating_add work 1) + length pattern \<and>
      push_lines limits pattern (output @ line, saturating_add work 1) =
        Ok ((output @ line) @ concat pattern, work')"
    using Cons.prems step by (intro Cons.IH) simp_all
  moreover have "usize_checked_add (length output) (length line) = Some (length output + length line)"
    using Cons.prems(1) le_unat_u64 [of "length output + length line" "max_shadow_memory_bytes limits"]
    by (simp add: usize_checked_add_def usize_limit_def)
  moreover have "u64_of_len_or_max (length output + length line) \<le> max_shadow_memory_bytes limits"
    using Cons.prems(1) by (simp add: word_le_nat_alt unat_u64_of_len_or_max)
  moreover have "saturating_add work 1 \<le> max_shadow_work_units limits"
    using Cons.prems(2) step by (simp add: word_le_nat_alt)
  ultimately show ?case using step by (auto simp: Let_def)
qed

lemma push_repeated_fitting:
  assumes "length output + length (concat (concat (replicate n pattern)))
      \<le> unat (max_shadow_memory_bytes limits)"
    and "unat work + n * length pattern \<le> unat (max_shadow_work_units limits)"
  shows "\<exists>work'. unat work' = unat work + n * length pattern \<and>
    push_repeated limits n pattern (output, work) =
      Ok (output @ concat (concat (replicate n pattern)), work')"
  using assms
proof (induction n arbitrary: "output" work)
  case 0
  then show ?case by simp
next
  case (Suc n)
  obtain work1 where work1: "unat work1 = unat work + length pattern"
    and first: "push_lines limits pattern (output, work) = Ok (output @ concat pattern, work1)"
    using push_lines_fitting [of "output" pattern limits work] Suc.prems by auto
  have "\<exists>work'. unat work' = unat work1 + n * length pattern \<and>
      push_repeated limits n pattern (output @ concat pattern, work1) =
        Ok ((output @ concat pattern) @ concat (concat (replicate n pattern)), work')"
    using Suc.prems work1 by (intro Suc.IH) simp_all
  then show ?case using first work1 by auto
qed

lemma length_expand_record: "length (expand_record (n, pattern)) = n * length pattern"
  by (induction n) (simp_all add: expand_record_def)

lemma decode_all_emitted:
  assumes "drop cursor input = concat (map emit_record records) @ rest" and "cursor \<le> length input"
    and "length input < usize_limit"
    and "length output + length (concat (expand_records records)) \<le> unat (max_shadow_memory_bytes limits)"
    and "unat work + length (expand_records records) \<le> unat (max_shadow_work_units limits)"
    and "\<forall>(n, pattern)\<in>set records. 0 < n \<and> n < 2 ^ 64" and "\<And>n. reserves n"
  shows "decode_all reserves limits (length records) input cursor (output, work) =
    Ok (output @ concat (expand_records records), cursor + length (concat (map emit_record records)))"
  using assms(1-6)
proof (induction records arbitrary: cursor "output" work)
  case Nil
  then show ?case by (simp add: expand_records_def)
next
  case (Cons entry records)
  obtain n pattern where entry: "entry = (n, pattern)" by (cases entry)
  let ?n = "write_varint (u64_of_len_or_max n)"
  let ?l = "write_varint (u64_of_len_or_max (length pattern))"
  let ?lines = "concat (map emit_line pattern)"
  let ?rest = "concat (map emit_record records) @ rest"
  have n: "0 < n" "n < 2 ^ 64" using Cons.prems(6) by (auto simp: entry)
  have at: "drop cursor input = ?n @ ?l @ ?lines @ ?rest"
    using Cons.prems(1) by (simp add: entry emit_record_def [of "(n, pattern)"])
  have at1: "drop (cursor + length ?n) input = ?l @ ?lines @ ?rest"
    by (rule drop_append_shift [OF at])
  have at2: "drop (cursor + length ?n + length ?l) input = ?lines @ ?rest"
    by (rule drop_append_shift [OF at1])
  have at3: "drop (cursor + length ?n + length ?l + length ?lines) input = ?rest"
    by (rule drop_append_shift [OF at2])
  have "length (drop cursor input) = length input - cursor" by simp
  then have fits: "cursor + length ?n + length ?l + length ?lines \<le> length input"
    using Cons.prems(2) unfolding at by simp
  have "length pattern \<le> length ?lines"
    by (induction pattern) (auto simp: emit_line_def Suc_le_eq add_strict_increasing)
  with fits have pattern: "length pattern \<le> length input" by linarith
  have small: "length pattern < 2 ^ 64" using pattern Cons.prems(3) by (simp add: usize_limit_def)
  have whole: "expand_records ((n, pattern) # records) = expand_record (n, pattern) @ expand_records records"
    by (simp add: expand_records_def)
  have "length pattern \<le> length (expand_record (n, pattern))"
    using n by (simp add: length_expand_record)
  then have work: "u64_of_len_or_max (length pattern) \<le> max_shadow_work_units limits"
    using Cons.prems(5) by (simp add: entry whole word_le_nat_alt unat_u64_of_len_or_max)
  obtain work' where work': "unat work' = unat work + n * length pattern"
    and pushed: "push_repeated limits n pattern (output, work) =
      Ok (output @ concat (expand_record (n, pattern)), work')"
    using push_repeated_fitting [of "output" n pattern limits work] Cons.prems(4,5)
    by (auto simp: entry whole length_expand_record) (auto simp: expand_record_def)
  have "decode_all reserves limits (length records) input
      (cursor + length ?n + length ?l + length ?lines)
      (output @ concat (expand_record (n, pattern)), work') =
    Ok ((output @ concat (expand_record (n, pattern))) @ concat (expand_records records),
      cursor + length ?n + length ?l + length ?lines + length (concat (map emit_record records)))"
    using Cons.prems(3-6) fits work'
    by (intro Cons.IH [OF at3]) (simp_all add: entry whole length_expand_record)
  then show ?case
    using read_usize_length [OF at n(2)] read_usize_length [OF at1 small] pattern work assms(7) [of "length pattern"]
      read_pattern_emitted [OF at2 _ Cons.prems(3)] fits pushed
    by (simp add: entry whole emit_record_def [of "(n, pattern)"] not_less [symmetric] add.assoc)
qed

lemma decode_encoded:
  assumes made: "encode_records magic records limits = Ok made"
    and bounds: "length (concat (expand_records records)) \<le> unat (max_shadow_memory_bytes limits)"
      "length (expand_records records) \<le> unat (max_shadow_work_units limits)"
      "length (tr_candidate made) \<le> unat (max_candidate_output_bytes limits)"
      "length (tr_candidate made) \<le> unat (max_shadow_memory_bytes limits)"
    and repeats: "\<forall>(n, pattern)\<in>set records. 0 < n \<and> n < 2 ^ 64"
    and number: "length records < 2 ^ 64" and granted: "\<And>n. reserves n"
  shows "decode_records reserves (tr_candidate made) magic limits = Ok (concat (expand_records records))"
proof -
  let ?count = "write_varint (u64_of_len_or_max (length records))"
  have candidate: "tr_candidate made = magic @ ?count @ concat (map emit_record records)"
  proof -
    have "encode_all (max_candidate_output_bytes limits) (magic @ ?count) records = Ok (tr_candidate made)"
      using made by (simp add: encode_records_Ok)
    from encode_all_Ok [OF this] show ?thesis by simp
  qed
  have short: "length (tr_candidate made) < usize_limit"
    using le_unat_u64 [OF bounds(4)] by (simp add: usize_limit_def)
  have at: "drop (length magic) (tr_candidate made) = ?count @ concat (map emit_record records)"
    by (simp add: candidate)
  have body: "drop (length magic + length ?count) (tr_candidate made) =
      concat (map emit_record records) @ []"
    using drop_append_shift [OF at] by simp
  have "decode_all reserves limits (length records) (tr_candidate made)
      (length magic + length ?count) ([], 0) =
    Ok ([] @ concat (expand_records records),
      length magic + length ?count + length (concat (map emit_record records)))"
    using bounds short repeats granted
    by (intro decode_all_emitted [OF body]) (simp_all add: candidate)
  moreover have "validate_recovery_inputs (tr_candidate made) [] limits = Ok ()"
    using bounds(3,4) by (intro validate_recovery_inputs_within) simp_all
  ultimately show ?thesis
    using read_usize_length [OF at number] by (simp add: decode_records_def) (simp add: candidate)
qed

section \<open>Decoding is bounded\<close>

lemma push_lines_bounded:
  "push_lines limits pattern (output, work) = Ok (output', work') \<Longrightarrow>
   bytes_of output \<le> max_shadow_memory_bytes limits \<Longrightarrow>
   bytes_of output' \<le> max_shadow_memory_bytes limits"
  by (induction pattern arbitrary: "output" work)
    (auto simp: usize_checked_add_Some Let_def split: option.splits if_splits)

lemma push_repeated_bounded:
  "push_repeated limits n pattern state = Ok state' \<Longrightarrow>
   bytes_of (fst state) \<le> max_shadow_memory_bytes limits \<Longrightarrow>
   bytes_of (fst state') \<le> max_shadow_memory_bytes limits"
proof (induction n arbitrary: state)
  case (Suc n)
  then show ?case
    by (cases state) (auto simp: and_then_eq_Ok dest: push_lines_bounded)
qed simp

lemma decode_all_bounded:
  "decode_all reserves limits n input cursor (output, work) = Ok (output', after) \<Longrightarrow>
   bytes_of output \<le> max_shadow_memory_bytes limits \<Longrightarrow>
   bytes_of output' \<le> max_shadow_memory_bytes limits"
proof (induction n arbitrary: cursor "output" work)
  case (Suc n)
  then show ?case
    by (auto simp: and_then_eq_Ok split: if_splits dest!: push_repeated_bounded)
qed simp

lemma decode_records_bounded:
  "decode_records reserves input magic limits = Ok output \<Longrightarrow>
   bytes_of output \<le> max_shadow_memory_bytes limits"
  by (auto simp: decode_records_def and_then_eq_Ok u64_of_len_or_max_def split: if_splits
      dest!: decode_all_bounded)

end
