(* ===== verification/Compression_Text.thy ===== *)
theory Compression_Text
  imports Compression_Records Provider_Domain
begin

text \<open>
  \<open>crates/tracepress-compression/src/text.rs\<close>: the six plain-text candidates. The first three
  carry everything in the candidate; the readable folds render the text for a reader and keep the
  input as recovery. \<open>to_vec\<close> is \<open>serde_json::to_vec\<close> and \<open>reserves\<close> the allocator's answer to
  \<open>try_reserve\<close>. The folding loops occur twice in the source, over byte slices and over strings;
  here they are one function.
\<close>

section \<open>Lines\<close>

abbreviation newline :: char where
  "newline \<equiv> CHR 0x0A"

fun lines_scan :: "string \<Rightarrow> string \<Rightarrow> string list" where
  "lines_scan line [] = (if line = [] then [] else [line])"
| "lines_scan line (b # rest) =
     (if b = newline then (line @ [b]) # lines_scan [] rest else lines_scan (line @ [b]) rest)"

definition text_lines :: "string \<Rightarrow> string list" where
  "text_lines input = lines_scan [] input"

definition validate_utf8 :: "string \<Rightarrow> compression_limits \<Rightarrow> (unit, transform_error) result" where
  "validate_utf8 input limits =
     (if bytes_of input > max_shadow_work_units limits then Err TransformResourceLimit
      else if utf8_ok input then Ok () else Err TransformInvalidInput)"

fun run_length :: "string \<Rightarrow> string list \<Rightarrow> nat" where
  "run_length line [] = 0"
| "run_length line (other # rest) = (if other = line then Suc (run_length line rest) else 0)"

function line_runs :: "string list \<Rightarrow> (string \<times> nat) list" where
  "line_runs [] = []"
| "line_runs (line # rest) =
     (let n = run_length line rest in (line, Suc n) # line_runs (drop n rest))"
  by pat_completeness auto
termination by (relation "measure length") auto

definition validated_lines ::
  "string \<Rightarrow> compression_limits \<Rightarrow> ((string \<times> nat) list, transform_error) result" where
  "validated_lines input limits =
     and_then (validate_utf8 input limits) (\<lambda>_. Ok (line_runs (text_lines input)))"

fun utf8_lines :: "string list \<Rightarrow> (string list, transform_error) result" where
  "utf8_lines [] = Ok []"
| "utf8_lines (line # rest) =
     (if utf8_ok line then and_then (utf8_lines rest) (\<lambda>values. Ok (line # values))
      else Err TransformInvalidInput)"

definition validated_line_values ::
  "string \<Rightarrow> compression_limits \<Rightarrow> (string list, transform_error) result" where
  "validated_line_values input limits =
     and_then (validate_utf8 input limits) (\<lambda>_. utf8_lines (text_lines input))"

section \<open>Repeated blocks\<close>

lemma drop_match_shorter:
  "pattern \<noteq> [] \<Longrightarrow> take (length pattern) rest = pattern \<Longrightarrow>
   length (drop (length pattern) rest) < length rest"
  by (cases rest) auto

text \<open>The inner loop: \<open>rest\<close> are the lines after the repetitions found so far.\<close>

function count_repeats ::
  "u64 \<Rightarrow> string list \<Rightarrow> string list \<Rightarrow> nat \<Rightarrow> u64 \<Rightarrow> (nat \<times> u64, transform_error) result" where
  "count_repeats maximum pattern rest repetitions work =
     (if pattern \<noteq> [] \<and> take (length pattern) rest = pattern then
        (let work = saturating_add work (u64_of_len_or_max (length pattern))
         in if work > maximum then Err TransformResourceLimit
            else count_repeats maximum pattern (drop (length pattern) rest) (repetitions + 1) work)
      else Ok (repetitions, work))"
  by pat_completeness auto
termination
  by (relation "measure (\<lambda>(_, _, rest, _, _). length rest)")
    (auto dest: drop_match_shorter simp del: length_drop)

declare count_repeats.simps [simp del]

fun best_block ::
  "u64 \<Rightarrow> string list \<Rightarrow> nat list \<Rightarrow> (nat \<times> nat) option \<Rightarrow> u64
     \<Rightarrow> ((nat \<times> nat) option \<times> u64, transform_error) result" where
  "best_block maximum rest [] best work = Ok (best, work)"
| "best_block maximum rest (n # sizes) best work =
     (let work = saturating_add work 1
      in if work > maximum then Err TransformResourceLimit
         else and_then (count_repeats maximum (take n rest) (drop n rest) 1 work)
           (\<lambda>(repetitions, work).
             best_block maximum rest sizes
               (if repetitions \<ge> 2 \<and>
                   (case best of None \<Rightarrow> True | Some (m, best_repetitions) \<Rightarrow>
                      n * repetitions > m * best_repetitions)
                then Some (n, repetitions) else best) work))"

definition block_sizes :: "string list \<Rightarrow> nat list" where
  "block_sizes rest = [2..<Suc (min (length rest div 2) 8)]"

lemma count_repeats_Ok:
  "count_repeats maximum pattern rest repetitions work = Ok (found, work') \<Longrightarrow>
   \<exists>m tail. found = repetitions + m \<and> rest = concat (replicate m pattern) @ tail"
proof (induction maximum pattern rest repetitions work rule: count_repeats.induct)
  case (1 maximum pattern rest repetitions work)
  show ?case
  proof (cases "pattern \<noteq> [] \<and> take (length pattern) rest = pattern")
    case True
    let ?work = "saturating_add work (u64_of_len_or_max (length pattern))"
    from True 1(2) have ok: "\<not> ?work > maximum"
      and more: "count_repeats maximum pattern (drop (length pattern) rest) (repetitions + 1) ?work =
        Ok (found, work')"
      by (subst (asm) count_repeats.simps, simp add: Let_def split: if_splits)+
    from 1(1) [OF True refl ok more] obtain m tail
      where m: "found = repetitions + 1 + m"
        and tail: "drop (length pattern) rest = concat (replicate m pattern) @ tail" by blast
    have "rest = pattern @ drop (length pattern) rest"
      using True by (metis append_take_drop_id)
    then have "rest = concat (replicate (Suc m) pattern) @ tail" by (simp add: tail)
    with m show ?thesis by (intro exI [of _ "Suc m"] exI [of _ tail]) simp
  next
    case False
    with 1(2) show ?thesis
      by (subst (asm) count_repeats.simps, intro exI [of _ 0] exI [of _ rest]) auto
  qed
qed

text \<open>A block worth folding: where it stands and that it repeats.\<close>

definition folds :: "string list \<Rightarrow> nat \<times> nat \<Rightarrow> bool" where
  "folds rest block \<longleftrightarrow> (case block of (n, r) \<Rightarrow> 2 \<le> n \<and> n \<le> length rest \<and> 2 \<le> r \<and>
     rest = concat (replicate r (take n rest)) @ drop (n * r) rest)"

lemma count_repeats_folds:
  assumes "count_repeats maximum (take n rest) (drop n rest) 1 work = Ok (r, work')"
    and "2 \<le> n" "n \<le> length rest" "2 \<le> r"
  shows "folds rest (n, r)"
proof -
  from assms(1) obtain m tail where m: "r = 1 + m"
    and tail: "drop n rest = concat (replicate m (take n rest)) @ tail"
    using count_repeats_Ok by blast
  have whole: "rest = concat (replicate r (take n rest)) @ tail"
    using tail by (simp add: m) (metis append_take_drop_id)
  have len: "length (concat (replicate k (take n rest))) = n * k" for k
    using assms(3) by (induction k) simp_all
  from whole have "drop (n * r) rest = tail"
    by (metis append_eq_conv_conj len)
  with whole assms(2-4) show ?thesis by (simp add: folds_def)
qed

lemma best_block_folds:
  assumes "best_block maximum rest sizes best work = Ok (found, work')"
    and "\<forall>n\<in>set sizes. 2 \<le> n \<and> n \<le> length rest" and "\<forall>b. best = Some b \<longrightarrow> folds rest b"
    and "found = Some block"
  shows "folds rest block"
  using assms
proof (induction sizes arbitrary: best work)
  case (Cons n sizes)
  from Cons.prems(1) obtain r w
    where "count_repeats maximum (take n rest) (drop n rest) 1 (saturating_add work 1) = Ok (r, w)"
      and rest: "best_block maximum rest sizes
        (if 2 \<le> r \<and> (case best of None \<Rightarrow> True | Some (m, b) \<Rightarrow> m * b < n * r)
         then Some (n, r) else best) w = Ok (found, work')"
    by (auto simp: and_then_eq_Ok Let_def split: if_splits)
  from count_repeats_folds [OF this(1)] Cons.prems(2)
  have "2 \<le> r \<Longrightarrow> folds rest (n, r)" by simp
  with Cons.prems show ?case by (intro Cons.IH [OF rest]) (auto split: if_splits)
qed simp

lemma best_block_found:
  "best_block maximum rest (block_sizes rest) None work = Ok (Some block, work') \<Longrightarrow> folds rest block"
  by (erule best_block_folds) (auto simp: block_sizes_def)

lemma best_block_progress:
  "best_block maximum rest (block_sizes rest) None work = Ok (Some (n, r), work') \<Longrightarrow> 0 < n \<and> 0 < r"
  by (drule best_block_found) (auto simp: folds_def)

function block_records ::
  "u64 \<Rightarrow> string list \<Rightarrow> u64 \<Rightarrow> (line_record list, transform_error) result" where
  "block_records maximum [] work = Ok []"
| "block_records maximum (line # rest) work =
     (case best_block maximum (line # rest) (block_sizes (line # rest)) None work of
        Err e \<Rightarrow> Err e
      | Ok (Some (n, repetitions), work) \<Rightarrow>
          and_then (block_records maximum (drop (n * repetitions) (line # rest)) work)
            (\<lambda>records. Ok ((repetitions, take n (line # rest)) # records))
      | Ok (None, work) \<Rightarrow>
          and_then (block_records maximum rest work) (\<lambda>records. Ok ((1, [line]) # records)))"
  by pat_completeness auto
termination
  by (relation "measure (\<lambda>(_, rest, _). length rest)") (auto dest: best_block_progress)

lemma block_records_Ok:
  assumes "block_records maximum rest work = Ok records"
  shows "expand_records records = rest \<and> (\<forall>(n, pattern)\<in>set records. 0 < n)"
  using assms
proof (induction maximum rest work arbitrary: records rule: block_records.induct)
  case (1 maximum work)
  then show ?case by (simp add: expand_records_def)
next
  case (2 maximum line rest work)
  show ?case
  proof (cases "best_block maximum (line # rest) (block_sizes (line # rest)) None work")
    case (Ok state)
    obtain best work' where state: "state = (best, work')" by (cases state)
    show ?thesis
    proof (cases best)
      case None
      from 2(3) obtain tail where "block_records maximum rest work' = Ok tail"
        and records: "records = (1, [line]) # tail"
        by (auto simp: Ok state None and_then_eq_Ok)
      with 2(1) [OF Ok state [symmetric] None] have
        "expand_records tail = rest" "\<forall>(n, pattern)\<in>set tail. 0 < n" by simp_all
      then show ?thesis
        by (simp add: records expand_records_def expand_record_def)
    next
      case (Some block)
      obtain n r where block: "block = (n, r)" by (cases block)
      have folds: "folds (line # rest) (n, r)"
        using Ok by (intro best_block_found) (simp add: state Some block)
      from 2(3) obtain tail where
        "block_records maximum (drop (n * r) (line # rest)) work' = Ok tail"
        and records: "records = (r, take n (line # rest)) # tail"
        by (auto simp: Ok state Some block and_then_eq_Ok)
      with 2(2) [OF Ok state [symmetric] Some block [symmetric]] have
        "expand_records tail = drop (n * r) (line # rest)" "\<forall>(n, pattern)\<in>set tail. 0 < n" by simp_all
      with folds show ?thesis
        by (simp add: records expand_records_def expand_record_def folds_def del: drop_Suc_Cons)
    qed
  qed (use 2 in simp)
qed

section \<open>The binary candidates\<close>

definition text_noop :: shadow_compressor where
  "text_noop =
     \<lparr>sc_id = ''text.noop'', sc_version = 1, sc_supports = is_tool_result_plain_text,
      sc_transform = (\<lambda>input limits. and_then (bounded_vec input limits)
        (\<lambda>kept. Ok \<lparr>tr_candidate = kept, tr_recovery = []\<rparr>)),
      sc_recover = (\<lambda>candidate recovery limits. bounded_vec candidate limits)\<rparr>"

definition repeated_line_transform :: "string \<Rightarrow> compression_limits \<Rightarrow> transform_result" where
  "repeated_line_transform input limits =
     and_then (validate_utf8 input limits) (\<lambda>_.
       encode_records ''TPL1''
         (map (\<lambda>(line, n). (n, [line])) (line_runs (text_lines input))) limits)"

definition text_repeated_line :: "(nat \<Rightarrow> bool) \<Rightarrow> shadow_compressor" where
  "text_repeated_line reserves =
     \<lparr>sc_id = ''text.repeated_line'', sc_version = 1, sc_supports = is_tool_result_plain_text,
      sc_transform = repeated_line_transform,
      sc_recover = (\<lambda>candidate recovery. decode_records reserves candidate ''TPL1'')\<rparr>"

definition repeated_run_transform :: "string \<Rightarrow> compression_limits \<Rightarrow> transform_result" where
  "repeated_run_transform input limits =
     and_then (validate_utf8 input limits) (\<lambda>_.
     and_then (block_records (max_shadow_work_units limits) (text_lines input) 0) (\<lambda>records.
       encode_records ''TPR2'' records limits))"

definition text_repeated_run :: "(nat \<Rightarrow> bool) \<Rightarrow> shadow_compressor" where
  "text_repeated_run reserves =
     \<lparr>sc_id = ''text.repeated_run'', sc_version = 1, sc_supports = is_tool_result_plain_text,
      sc_transform = repeated_run_transform,
      sc_recover = (\<lambda>candidate recovery. decode_records reserves candidate ''TPR2'')\<rparr>"

section \<open>Lines and runs make up the text\<close>

lemma concat_lines_scan: "concat (lines_scan line rest) = line @ rest"
  by (induction line rest rule: lines_scan.induct) simp_all

lemma concat_text_lines [simp]: "concat (text_lines input) = input"
  by (simp add: text_lines_def concat_lines_scan)

lemma lines_scan_nonempty: "[] \<notin> set (lines_scan line rest)"
  by (induction line rest rule: lines_scan.induct) auto

lemma length_text_lines: "length (text_lines input) \<le> length input"
proof -
  have "[] \<notin> set xss \<Longrightarrow> length xss \<le> length (concat xss)" for xss :: "string list"
    by (induction xss) (auto simp: Suc_le_eq add_strict_increasing)
  from this [OF lines_scan_nonempty [of "[]" input]] show ?thesis
    by (fold text_lines_def) simp
qed

lemma run_length_take: "take (run_length line rest) rest = replicate (run_length line rest) line"
  by (induction line rest rule: run_length.induct) simp_all

lemma line_runs_expand:
  "expand_records (map (\<lambda>(line, n). (n, [line])) (line_runs rest)) = rest \<and>
   (\<forall>(line, n)\<in>set (line_runs rest). 0 < n)"
proof (induction rest rule: line_runs.induct)
  case (2 line rest)
  have "replicate n [line] = map (\<lambda>x. [x]) (replicate n line)" for n by simp
  then have repeated: "concat (replicate n [line]) = replicate n line" for n
    by (simp only: concat_map_singleton) simp
  have "rest = replicate (run_length line rest) line @ drop (run_length line rest) rest"
    by (metis append_take_drop_id run_length_take)
  with 2 [OF refl] show ?case
    by (simp add: Let_def expand_records_def expand_record_def repeated)
qed (simp add: expand_records_def)

lemma records_within:
  assumes "\<forall>(n, pattern)\<in>set records. 0 < n" and "\<forall>(n, pattern)\<in>set records. pattern \<noteq> []"
    and "length (expand_records records) < 2 ^ 64"
  shows "length records < 2 ^ 64" and "\<forall>(n, pattern)\<in>set records. 0 < n \<and> n < 2 ^ 64"
proof -
  have one: "n \<le> length (expand_records records)" if "(n, pattern) \<in> set records" for n pattern
  proof -
    from that assms(2) have "pattern \<noteq> []" by auto
    then have "n \<le> length (expand_record (n, pattern))"
      by (cases pattern) (simp_all add: length_expand_record)
    also have "\<dots> \<le> length (expand_records records)"
      using that by (auto simp: expand_records_def length_concat intro!: member_le_sum_list)
    finally show ?thesis .
  qed
  with assms show "\<forall>(n, pattern)\<in>set records. 0 < n \<and> n < 2 ^ 64" by fastforce
  have "\<forall>(n, pattern)\<in>set records. 1 \<le> n * length pattern"
    using assms(1,2) by (auto simp: Suc_le_eq)
  then have "\<forall>entry\<in>set records. 1 \<le> length (expand_record entry)"
    by (auto simp: length_expand_record simp del: length_0_conv length_greater_0_conv)
  then have "length records \<le> length (expand_records records)"
    by (induction records) (auto simp: expand_records_def)
  with assms(3) show "length records < 2 ^ 64" by simp
qed

end
