(* ===== verification/Compression_Folds.thy ===== *)
theory Compression_Folds
  imports Compression_Text
begin

text \<open>
  The readable candidates of \<open>text.rs\<close>: folded lines, folded blocks and factored log prefixes,
  rendered with JSON strings. Their recovery is a copy of the input. The last section shows that
  every text candidate is a lossless compressor.
\<close>

section \<open>Rendering\<close>

text \<open>\<open>serde_json::to_vec\<close> of a string and of the JSON value of that string are the same.\<close>

definition write_json_value ::
  "(json \<Rightarrow> string option) \<Rightarrow> string \<Rightarrow> json \<Rightarrow> (string, transform_error) result" where
  "write_json_value to_vec output json =
     and_then (ok_or (to_vec json) TransformInternal) (\<lambda>encoded. Ok (output @ encoded))"

definition write_json_string ::
  "(json \<Rightarrow> string option) \<Rightarrow> string \<Rightarrow> string \<Rightarrow> (string, transform_error) result" where
  "write_json_string to_vec output string = write_json_value to_vec output (Text string)"

definition readable_text_bounds ::
  "string \<Rightarrow> string \<Rightarrow> compression_limits \<Rightarrow> (unit, transform_error) result" where
  "readable_text_bounds candidate input limits =
     (if \<not> utf8_ok candidate \<or>
         bytes_of candidate > max_candidate_output_bytes limits \<or>
         u64_of_len_or_max (usize_saturating_add (length candidate) (length input))
           > max_shadow_memory_bytes limits
      then Err TransformResourceLimit else Ok ())"

definition readable_result ::
  "string \<Rightarrow> string \<Rightarrow> compression_limits \<Rightarrow> transform_result" where
  "readable_result candidate input limits =
     and_then (readable_text_bounds candidate input limits) (\<lambda>_.
     and_then (bounded_vec input limits) (\<lambda>kept.
       Ok \<lparr>tr_candidate = candidate, tr_recovery = kept\<rparr>))"

definition recover_readable_text ::
  "string \<Rightarrow> string \<Rightarrow> string \<Rightarrow> compression_limits \<Rightarrow> recover_result" where
  "recover_readable_text candidate recovery heading limits =
     and_then (validate_recovery_inputs candidate recovery limits) (\<lambda>_.
       if \<not> prefix heading candidate \<or> \<not> utf8_ok candidate then Err TransformInvalidInput
       else bounded_vec recovery limits)"

section \<open>Folded lines\<close>

fun write_line_folds ::
  "(json \<Rightarrow> string option) \<Rightarrow> string \<Rightarrow> (string \<times> nat) list \<Rightarrow> (string, transform_error) result" where
  "write_line_folds to_vec candidate [] = Ok candidate"
| "write_line_folds to_vec candidate ((line, n) # runs) =
     (let candidate = candidate @
        (if n \<ge> 2 then ''repeat='' @ decimal n @ '' line='' else ''line='')
      in if \<not> utf8_ok line then Err TransformInvalidInput
         else and_then (write_json_string to_vec candidate line) (\<lambda>candidate.
           write_line_folds to_vec (candidate @ [newline]) runs))"

definition line_fold_heading :: string where
  "line_fold_heading = ''Tracepress line-fold v1'' @ [newline]"

definition readable_line_fold_transform ::
  "(json \<Rightarrow> string option) \<Rightarrow> string \<Rightarrow> compression_limits \<Rightarrow> transform_result" where
  "readable_line_fold_transform to_vec input limits =
     and_then (validated_lines input limits) (\<lambda>runs.
       if \<not> list_ex (\<lambda>(line, n). n \<ge> 2) runs then Err TransformNotApplicable
       else and_then (write_line_folds to_vec line_fold_heading runs) (\<lambda>candidate.
         readable_result candidate input limits))"

definition text_readable_line_fold :: "(json \<Rightarrow> string option) \<Rightarrow> shadow_compressor" where
  "text_readable_line_fold to_vec =
     \<lparr>sc_id = ''text.readable_line_fold'', sc_version = 1, sc_supports = is_tool_result_plain_text,
      sc_transform = readable_line_fold_transform to_vec,
      sc_recover = (\<lambda>candidate recovery.
        recover_readable_text candidate recovery line_fold_heading)\<rparr>"

section \<open>Folded blocks\<close>

fun write_block_folds ::
  "(json \<Rightarrow> string option) \<Rightarrow> string \<Rightarrow> line_record list \<Rightarrow> (string, transform_error) result" where
  "write_block_folds to_vec candidate [] = Ok candidate"
| "write_block_folds to_vec candidate ((n, pattern) # records) =
     (let candidate = candidate @
        (if n \<ge> 2 then ''repeat='' @ decimal n @ '' lines='' else ''lines='')
      in and_then (write_json_value to_vec candidate (Array (map Text pattern))) (\<lambda>candidate.
           write_block_folds to_vec (candidate @ [newline]) records))"

definition block_fold_heading :: string where
  "block_fold_heading = ''Tracepress block-fold v1'' @ [newline]"

definition readable_block_fold_transform ::
  "(json \<Rightarrow> string option) \<Rightarrow> string \<Rightarrow> compression_limits \<Rightarrow> transform_result" where
  "readable_block_fold_transform to_vec input limits =
     and_then (validated_line_values input limits) (\<lambda>lines.
     and_then (block_records (max_shadow_work_units limits) lines 0) (\<lambda>records.
       if \<not> list_ex (\<lambda>(n, pattern). n \<ge> 2) records then Err TransformNotApplicable
       else and_then (write_block_folds to_vec block_fold_heading records) (\<lambda>candidate.
         readable_result candidate input limits)))"

definition text_readable_block_fold :: "(json \<Rightarrow> string option) \<Rightarrow> shadow_compressor" where
  "text_readable_block_fold to_vec =
     \<lparr>sc_id = ''text.readable_block_fold'', sc_version = 1, sc_supports = is_tool_result_plain_text,
      sc_transform = readable_block_fold_transform to_vec,
      sc_recover = (\<lambda>candidate recovery.
        recover_readable_text candidate recovery block_fold_heading)\<rparr>"

section \<open>Factored log prefixes\<close>

record log_prefix =
  lp_value :: string
  lp_token_start :: nat
  lp_token_end :: nat

text \<open>The scan for the second word of a line: where it starts, ends, and the byte after it.\<close>

fun log_scan ::
  "nat \<Rightarrow> nat \<Rightarrow> bool \<Rightarrow> nat option \<Rightarrow> string \<Rightarrow> nat option \<times> nat option \<times> nat option" where
  "log_scan index token_count in_token start [] = (start, None, None)"
| "log_scan index token_count in_token start (b # rest) =
     (if is_ascii_whitespace b then
        (if in_token then
           (if token_count + 1 = 2 then (start, Some index, Some (index + 1))
            else log_scan (index + 1) (token_count + 1) False start rest)
         else log_scan (index + 1) token_count in_token start rest)
      else log_scan (index + 1) token_count True
        (if token_count = 1 \<and> \<not> in_token then Some index else start) rest)"

text \<open>\<open>str::get\<close> of a byte range: both ends on character boundaries.\<close>

definition str_boundary :: "string \<Rightarrow> nat \<Rightarrow> bool" where
  "str_boundary line i \<longleftrightarrow> i = length line \<or> (i < length line \<and> \<not> continuation (line ! i))"

definition str_get :: "string \<Rightarrow> nat \<Rightarrow> nat \<Rightarrow> string option" where
  "str_get line first until =
     (if first \<le> until \<and> str_boundary line first \<and> str_boundary line until
      then Some (take (until - first) (drop first line)) else None)"

definition find_log_prefix :: "string \<Rightarrow> log_prefix option" where
  "find_log_prefix line =
     (case log_scan 0 0 False None line of
        (Some token_start, Some token_end, prefix_end) \<Rightarrow>
          (case str_get line token_start
              (case prefix_end of None \<Rightarrow> length line | Some p \<Rightarrow> p) of
             None \<Rightarrow> None
           | Some prefix_text \<Rightarrow>
               if length prefix_text \<ge> 3
               then Some \<lparr>lp_value = prefix_text, lp_token_start = token_start,
                           lp_token_end = token_end\<rparr>
               else None)
      | _ \<Rightarrow> None)"

fun same_prefix_count :: "string \<Rightarrow> string list \<Rightarrow> nat" where
  "same_prefix_count shared [] = 0"
| "same_prefix_count shared (line # rest) =
     (case find_log_prefix line of
        None \<Rightarrow> 0
      | Some other \<Rightarrow>
          if lp_value other \<noteq> shared then 0 else same_prefix_count shared rest + 1)"

fun log_tails :: "string list \<Rightarrow> (json list, transform_error) result" where
  "log_tails [] = Ok []"
| "log_tails (line # rest) =
     and_then (ok_or (find_log_prefix line) TransformInternal) (\<lambda>details.
     and_then (log_tails rest) (\<lambda>tails.
       Ok (Text (take (lp_token_start details) line @ drop (lp_token_end details) line) # tails)))"

definition write_plain_line ::
  "(json \<Rightarrow> string option) \<Rightarrow> string \<Rightarrow> string \<Rightarrow> (string, transform_error) result" where
  "write_plain_line to_vec candidate line =
     and_then (write_json_string to_vec (candidate @ ''line='') line)
       (\<lambda>candidate. Ok (candidate @ [newline]))"

definition write_factored ::
  "(json \<Rightarrow> string option) \<Rightarrow> string \<Rightarrow> string \<Rightarrow> string list \<Rightarrow> (string, transform_error) result" where
  "write_factored to_vec candidate shared lines =
     and_then (write_json_string to_vec (candidate @ ''prefix='') shared) (\<lambda>candidate.
     and_then (log_tails lines) (\<lambda>tails.
     and_then (write_json_value to_vec (candidate @ '' tails='') (Array tails)) (\<lambda>candidate.
       Ok (candidate @ [newline]))))"

function write_log_folds ::
  "(json \<Rightarrow> string option) \<Rightarrow> compression_limits \<Rightarrow> string \<Rightarrow> bool \<Rightarrow> string list
     \<Rightarrow> (string \<times> bool, transform_error) result" where
  "write_log_folds to_vec limits candidate factored [] = Ok (candidate, factored)"
| "write_log_folds to_vec limits candidate factored (line # rest) =
     (case find_log_prefix line of
        None \<Rightarrow>
          and_then (write_plain_line to_vec candidate line) (\<lambda>candidate.
            write_log_folds to_vec limits candidate factored rest)
      | Some found \<Rightarrow>
          (let n = same_prefix_count (lp_value found) rest;
               folded = (n + 1 \<ge> 2)
           in and_then
                (if folded
                 then write_factored to_vec candidate (lp_value found) (line # take n rest)
                 else write_plain_line to_vec candidate line) (\<lambda>candidate.
                if bytes_of candidate > max_candidate_output_bytes limits
                then Err TransformResourceLimit
                else write_log_folds to_vec limits candidate (factored \<or> folded)
                       (if folded then drop n rest else rest))))"
  by pat_completeness auto
termination by (relation "measure (\<lambda>(_, _, _, _, rest). length rest)") auto

definition log_prefix_fold_heading :: string where
  "log_prefix_fold_heading = ''Tracepress log-prefix-fold v1'' @ [newline]"

definition log_prefix_fold_transform ::
  "(json \<Rightarrow> string option) \<Rightarrow> string \<Rightarrow> compression_limits \<Rightarrow> transform_result" where
  "log_prefix_fold_transform to_vec input limits =
     and_then (validated_line_values input limits) (\<lambda>lines.
     and_then (write_log_folds to_vec limits log_prefix_fold_heading False lines)
       (\<lambda>(candidate, factored).
         if \<not> factored then Err TransformNotApplicable
         else readable_result candidate input limits))"

definition text_log_prefix_fold :: "(json \<Rightarrow> string option) \<Rightarrow> shadow_compressor" where
  "text_log_prefix_fold to_vec =
     \<lparr>sc_id = ''text.log_prefix_fold'', sc_version = 1, sc_supports = is_tool_result_plain_text,
      sc_transform = log_prefix_fold_transform to_vec,
      sc_recover = (\<lambda>candidate recovery.
        recover_readable_text candidate recovery log_prefix_fold_heading)\<rparr>"

section \<open>Rendering only appends\<close>

lemma write_json_value_prefix:
  "write_json_value to_vec output json = Ok result \<Longrightarrow> prefix output result"
  by (auto simp: write_json_value_def and_then_eq_Ok)

lemma write_json_string_prefix:
  "write_json_string to_vec output string = Ok result \<Longrightarrow> prefix output result"
  unfolding write_json_string_def by (rule write_json_value_prefix)

lemma write_line_folds_prefix:
  "write_line_folds to_vec candidate runs = Ok result \<Longrightarrow> prefix candidate result"
proof (induction runs arbitrary: candidate)
  case (Cons run runs)
  obtain line n where run: "run = (line, n)" by (cases run)
  from Cons.prems obtain middle where
    "write_json_string to_vec (candidate @
       (if n \<ge> 2 then ''repeat='' @ decimal n @ '' line='' else ''line='')) line = Ok middle"
    and "write_line_folds to_vec (middle @ [newline]) runs = Ok result"
    by (auto simp: run and_then_eq_Ok Let_def split: if_splits)
  from write_json_string_prefix [OF this(1)] Cons.IH [OF this(2)] show ?case
    by (auto dest: append_prefixD intro: prefix_order.trans)
qed simp

lemma write_block_folds_prefix:
  "write_block_folds to_vec candidate records = Ok result \<Longrightarrow> prefix candidate result"
proof (induction records arbitrary: candidate)
  case (Cons entry records)
  obtain n pattern where entry: "entry = (n, pattern)" by (cases entry)
  from Cons.prems obtain middle where
    "write_json_value to_vec (candidate @
       (if n \<ge> 2 then ''repeat='' @ decimal n @ '' lines='' else ''lines=''))
       (Array (map Text pattern)) = Ok middle"
    and "write_block_folds to_vec (middle @ [newline]) records = Ok result"
    by (auto simp: entry and_then_eq_Ok Let_def split: if_splits)
  from write_json_value_prefix [OF this(1)] Cons.IH [OF this(2)] show ?case
    by (auto dest: append_prefixD intro: prefix_order.trans)
qed simp

lemma write_plain_line_prefix:
  "write_plain_line to_vec candidate line = Ok result \<Longrightarrow> prefix candidate result"
  by (auto simp: write_plain_line_def and_then_eq_Ok intro: prefix_order.trans
      dest!: write_json_string_prefix append_prefixD)

lemma write_factored_prefix:
  "write_factored to_vec candidate shared lines = Ok result \<Longrightarrow> prefix candidate result"
  by (auto simp: write_factored_def and_then_eq_Ok
      dest!: write_json_string_prefix write_json_value_prefix append_prefixD
      intro: prefix_order.trans prefixI)

lemma write_log_folds_prefix:
  "write_log_folds to_vec limits candidate factored lines = Ok (result, any) \<Longrightarrow> prefix candidate result"
proof (induction to_vec limits candidate factored lines rule: write_log_folds.induct)
  case (2 to_vec limits candidate factored line rest)
  show ?case
  proof (cases "find_log_prefix line")
    case None
    with 2(3) obtain middle where m: "write_plain_line to_vec candidate line = Ok middle"
      and "write_log_folds to_vec limits middle factored rest = Ok (result, any)"
      by (auto simp: and_then_eq_Ok)
    from write_plain_line_prefix [OF m] 2(1) [OF None this(2)] show ?thesis
      by (rule prefix_order.trans)
  next
    case (Some found)
    let ?n = "same_prefix_count (lp_value found) rest"
    from Some 2(3) obtain middle where
      m: "(if ?n + 1 \<ge> 2 then write_factored to_vec candidate (lp_value found) (line # take ?n rest)
        else write_plain_line to_vec candidate line) = Ok middle"
      and ok: "\<not> bytes_of middle > max_candidate_output_bytes limits"
      and rest: "write_log_folds to_vec limits middle (factored \<or> ?n + 1 \<ge> 2)
        (if ?n + 1 \<ge> 2 then drop ?n rest else rest) = Ok (result, any)"
      by (auto simp: and_then_eq_Ok Let_def split: if_splits)
    from m have "prefix candidate middle"
      by (auto split: if_splits dest: write_factored_prefix write_plain_line_prefix)
    from this 2(2) [OF Some refl refl ok rest] show ?thesis by (rule prefix_order.trans)
  qed
qed simp

section \<open>Every text candidate is lossless\<close>

lemma readable_result_recovers:
  assumes "readable_result candidate input limits = Ok made" and "prefix heading candidate"
    and "length (tr_candidate made) \<le> unat (max_candidate_output_bytes limits)"
    and "length (tr_candidate made) + length (tr_recovery made) \<le> unat (max_shadow_memory_bytes limits)"
  shows "recover_readable_text (tr_candidate made) (tr_recovery made) heading limits = Ok input"
proof -
  from assms(1) have made: "made = \<lparr>tr_candidate = candidate, tr_recovery = input\<rparr>"
    and bounds: "readable_text_bounds candidate input limits = Ok ()"
    and kept: "bounded_vec input limits = Ok input"
    by (auto simp: readable_result_def and_then_eq_Ok dest: bounded_vec_Ok)
  have "validate_recovery_inputs candidate input limits = Ok ()"
    using assms(3,4) by (intro validate_recovery_inputs_within) (simp_all add: made)
  with assms(2) bounds kept show ?thesis
    by (simp add: made recover_readable_text_def readable_text_bounds_def split: if_splits)
qed

lemma validate_utf8_work:
  assumes "validate_utf8 input limits = Ok ()"
    and "length input \<le> unat (max_shadow_memory_bytes limits)"
  shows "length (text_lines input) \<le> unat (max_shadow_work_units limits)"
proof -
  have "bytes_of input \<le> max_shadow_work_units limits"
    using assms(1) by (auto simp: validate_utf8_def split: if_splits)
  then have "unat (bytes_of input) \<le> unat (max_shadow_work_units limits)"
    by (simp add: word_le_nat_alt)
  moreover have "unat (bytes_of input) = length input"
    using le_unat_u64 [OF assms(2)] by (simp add: unat_bytes_of)
  ultimately show ?thesis using length_text_lines [of input] by linarith
qed

lemma encoded_text_recovers:
  assumes made: "encode_records magic records limits = Ok made"
    and records: "expand_records records = text_lines input"
      "\<forall>(n, pattern)\<in>set records. 0 < n" "\<forall>(n, pattern)\<in>set records. pattern \<noteq> []"
    and "validate_utf8 input limits = Ok ()"
    and "length input \<le> unat (max_shadow_memory_bytes limits)"
    and "length (tr_candidate made) \<le> unat (max_candidate_output_bytes limits)"
    and "length (tr_candidate made) + length (tr_recovery made) \<le> unat (max_shadow_memory_bytes limits)"
    and "\<And>n. reserves n"
  shows "decode_records reserves (tr_candidate made) magic limits = Ok input"
proof -
  have "length (expand_records records) < 2 ^ 64"
    using le_unat_u64 [OF assms(6)] length_text_lines [of input] by (simp add: records(1))
  note within = records_within [OF records(2,3) this]
  have "decode_records reserves (tr_candidate made) magic limits = Ok (concat (expand_records records))"
    using assms(5-9) validate_utf8_work [OF assms(5,6)] within
    by (intro decode_encoded [OF made]) (simp_all add: records(1))
  then show ?thesis by (simp add: records(1))
qed

lemma block_patterns_nonempty:
  assumes "block_records maximum rest work = Ok records"
  shows "\<forall>(n, pattern)\<in>set records. pattern \<noteq> []"
  using assms
proof (induction maximum rest work arbitrary: records rule: block_records.induct)
  case (2 maximum line rest work)
  show ?case
  proof (cases "best_block maximum (line # rest) (block_sizes (line # rest)) None work")
    case (Ok state)
    obtain best work' where state: "state = (best, work')" by (cases state)
    show ?thesis
    proof (cases best)
      case None
      with 2(3) Ok state 2(1) [OF Ok state [symmetric] None] show ?thesis
        by (auto simp: and_then_eq_Ok)
    next
      case (Some block)
      obtain n r where block: "block = (n, r)" by (cases block)
      have "0 < n"
        using Ok best_block_progress by (simp add: state Some block)
      with 2(3) 2(2) [OF Ok state [symmetric] Some block [symmetric]] show ?thesis
        by (auto simp: Ok state Some block and_then_eq_Ok)
    qed
  qed (use 2 in simp)
qed simp

interpretation noop: lossless_compressor text_noop True
  by unfold_locales
    (auto simp: text_noop_def and_then_eq_Ok intro: bounded_vec_again)

interpretation repeated_line: lossless_compressor "text_repeated_line reserves" "\<forall>n. reserves n"
  for reserves
proof unfold_locales
  fix input limits made
  assume granted: "\<forall>n. reserves n"
    and made: "sc_transform (text_repeated_line reserves) input limits = Ok made"
    and bounds: "length input \<le> unat (max_shadow_memory_bytes limits)"
      "length (tr_candidate made) \<le> unat (max_candidate_output_bytes limits)"
      "length (tr_candidate made) + length (tr_recovery made) \<le> unat (max_shadow_memory_bytes limits)"
  let ?records = "map (\<lambda>(line, n). (n, [line])) (line_runs (text_lines input))"
  from made have "validate_utf8 input limits = Ok ()"
    and encoded: "encode_records ''TPL1'' ?records limits = Ok made"
    by (simp_all add: text_repeated_line_def repeated_line_transform_def and_then_eq_Ok)
  with bounds granted line_runs_expand [of "text_lines input"]
  have "decode_records reserves (tr_candidate made) ''TPL1'' limits = Ok input"
    by (intro encoded_text_recovers [OF encoded]) auto
  then show "sc_recover (text_repeated_line reserves) (tr_candidate made) (tr_recovery made) limits =
      Ok input"
    by (simp add: text_repeated_line_def)
qed

interpretation repeated_run: lossless_compressor "text_repeated_run reserves" "\<forall>n. reserves n"
  for reserves
proof unfold_locales
  fix input limits made
  assume granted: "\<forall>n. reserves n"
    and made: "sc_transform (text_repeated_run reserves) input limits = Ok made"
    and bounds: "length input \<le> unat (max_shadow_memory_bytes limits)"
      "length (tr_candidate made) \<le> unat (max_candidate_output_bytes limits)"
      "length (tr_candidate made) + length (tr_recovery made) \<le> unat (max_shadow_memory_bytes limits)"
  from made obtain records where valid: "validate_utf8 input limits = Ok ()"
    and blocks: "block_records (max_shadow_work_units limits) (text_lines input) 0 = Ok records"
    and encoded: "encode_records ''TPR2'' records limits = Ok made"
    by (auto simp: text_repeated_run_def repeated_run_transform_def and_then_eq_Ok)
  from bounds granted valid block_records_Ok [OF blocks] block_patterns_nonempty [OF blocks]
  have "decode_records reserves (tr_candidate made) ''TPR2'' limits = Ok input"
    by (intro encoded_text_recovers [OF encoded]) auto
  then show "sc_recover (text_repeated_run reserves) (tr_candidate made) (tr_recovery made) limits =
      Ok input"
    by (simp add: text_repeated_run_def)
qed

interpretation line_fold: lossless_compressor "text_readable_line_fold to_vec" True for to_vec
  by unfold_locales
    (auto simp: text_readable_line_fold_def readable_line_fold_transform_def and_then_eq_Ok
      split: if_splits intro!: readable_result_recovers dest: write_line_folds_prefix)

interpretation block_fold: lossless_compressor "text_readable_block_fold to_vec" True for to_vec
  by unfold_locales
    (auto simp: text_readable_block_fold_def readable_block_fold_transform_def and_then_eq_Ok
      split: if_splits intro!: readable_result_recovers dest: write_block_folds_prefix)

interpretation log_fold: lossless_compressor "text_log_prefix_fold to_vec" True for to_vec
  by unfold_locales
    (auto simp: text_log_prefix_fold_def log_prefix_fold_transform_def and_then_eq_Ok
      split: if_splits intro!: readable_result_recovers dest: write_log_folds_prefix)

end
