(* ===== verification/Compression_Validator.thy ===== *)
theory Compression_Validator
  imports Compression_Core Stateful Provider_Domain
begin

text \<open>
  The strict JSON validator of \<open>crates/tracepress-compression/src/json.rs\<close>: after \<open>serde_json\<close> has
  accepted the document, \<open>DuplicateParser\<close> walks it again with a work budget and refuses an object
  that names a member twice. \<open>json_codec\<close> holds the calls into \<open>serde_json\<close>: \<open>from_slice\<close> to a
  value and to a string, and \<open>to_vec\<close>.
\<close>

record json_codec =
  jc_value :: "string \<Rightarrow> json option"
  jc_string :: "string \<Rightarrow> string option"
  jc_to_vec :: "json \<Rightarrow> string option"

section \<open>The parser\<close>

record duplicate_parser =
  jp_offset :: nat
  jp_work :: u64

type_synonym 'a parsing = "('a, transform_error, duplicate_parser) stateful"

definition jp_next :: "string \<Rightarrow> u64 \<Rightarrow> char parsing" where
  "jp_next input max_work s =
     (let s = s\<lparr>jp_work := saturating_add (jp_work s) 1\<rparr>
      in if jp_work s > max_work then (Err TransformResourceLimit, s)
         else if \<not> jp_offset s < length input then (Err TransformInvalidInput, s)
         else (Ok (input ! jp_offset s), s\<lparr>jp_offset := jp_offset s + 1\<rparr>))"

definition jp_peek :: "string \<Rightarrow> char parsing" where
  "jp_peek input s =
     (if jp_offset s < length input then (Ok (input ! jp_offset s), s)
      else (Err TransformInvalidInput, s))"

definition jp_take :: "string \<Rightarrow> u64 \<Rightarrow> char \<Rightarrow> unit parsing" where
  "jp_take input max_work expected =
     m_then (jp_next input max_work)
       (\<lambda>b. if b = expected then ret () else halt TransformInvalidInput)"

lemma jp_next_Ok:
  "jp_next input max_work s = (Ok b, t) \<longleftrightarrow>
   jp_offset s < length input \<and> b = input ! jp_offset s \<and>
   saturating_add (jp_work s) 1 \<le> max_work \<and>
   t = \<lparr>jp_offset = jp_offset s + 1, jp_work = saturating_add (jp_work s) 1\<rparr>"
  by (cases s) (auto simp: jp_next_def Let_def)

lemma jp_take_Ok:
  "jp_take input max_work expected s = (Ok u, t) \<Longrightarrow>
   jp_next input max_work s = (Ok expected, t)"
  by (auto simp: jp_take_def m_then_def ret_def halt_def split: prod.splits result.splits if_splits)

text \<open>\<open>while self.input.get(self.offset).is_some_and(p) { self.next()? }\<close>.\<close>

function jp_skip :: "string \<Rightarrow> u64 \<Rightarrow> (char \<Rightarrow> bool) \<Rightarrow> unit parsing" where
  "jp_skip input max_work p s =
     (if jp_offset s < length input \<and> p (input ! jp_offset s)
      then m_then (jp_next input max_work) (\<lambda>_ t. jp_skip input max_work p t) s
      else (Ok (), s))"
  by pat_completeness auto
termination
  by (relation "measure (\<lambda>(input, _, _, s). length input - jp_offset s)") (auto simp: jp_next_Ok)

declare jp_skip.simps [simp del]

definition jp_whitespace :: "string \<Rightarrow> u64 \<Rightarrow> unit parsing" where
  "jp_whitespace input max_work = jp_skip input max_work is_ascii_whitespace"

definition ends_scalar :: "char \<Rightarrow> bool" where
  "ends_scalar b \<longleftrightarrow> is_ascii_whitespace b \<or> b = CHR 0x2C \<or> b = CHR 0x7D \<or> b = CHR 0x5D"

definition jp_scalar :: "string \<Rightarrow> u64 \<Rightarrow> unit parsing" where
  "jp_scalar input max_work s =
     m_then (jp_skip input max_work (\<lambda>b. \<not> ends_scalar b))
       (\<lambda>_ t. if jp_offset t = jp_offset s then (Err TransformInvalidInput, t) else (Ok (), t)) s"

function jp_string_rest :: "string \<Rightarrow> u64 \<Rightarrow> bool \<Rightarrow> unit parsing" where
  "jp_string_rest input max_work escaped s =
     m_then (jp_next input max_work)
       (\<lambda>b t. if escaped then jp_string_rest input max_work False t
              else if b = CHR 0x5C then jp_string_rest input max_work True t
              else if b = CHR 0x22 then (Ok (), t)
              else jp_string_rest input max_work False t) s"
  by pat_completeness auto
termination
  by (relation "measure (\<lambda>(input, _, _, s). length input - jp_offset s)") (auto simp: jp_next_Ok)

declare jp_string_rest.simps [simp del]

definition jp_string :: "string \<Rightarrow> u64 \<Rightarrow> string parsing" where
  "jp_string input max_work s =
     m_then (jp_take input max_work CHR 0x22) (\<lambda>_.
     m_then (jp_string_rest input max_work False) (\<lambda>_ t.
       (Ok (take (jp_offset t - jp_offset s) (drop (jp_offset s) input)), t))) s"

section \<open>What the steps read\<close>

definition consumed :: "string \<Rightarrow> duplicate_parser \<Rightarrow> duplicate_parser \<Rightarrow> string \<Rightarrow> bool" where
  "consumed input s t read \<longleftrightarrow>
     drop (jp_offset s) input = read @ drop (jp_offset t) input \<and>
     jp_offset t = jp_offset s + length read"

lemma consumed_Nil [simp]: "consumed input s s []"
  by (simp add: consumed_def)

lemma consumed_trans: "consumed input s t a \<Longrightarrow> consumed input t u b \<Longrightarrow> consumed input s u (a @ b)"
  by (auto simp: consumed_def)

lemma consumed_offset: "consumed input s t read \<Longrightarrow> jp_offset t = jp_offset s + length read"
  by (simp add: consumed_def)

lemma jp_next_consumed:
  "jp_next input max_work s = (Ok b, t) \<Longrightarrow> consumed input s t [b]"
  by (auto simp: jp_next_Ok consumed_def Cons_nth_drop_Suc)

lemma jp_take_consumed:
  "jp_take input max_work b s = (Ok u, t) \<Longrightarrow> consumed input s t [b]"
  by (rule jp_next_consumed [OF jp_take_Ok])

lemma m_then_Ok:
  "m_then m f s = (Ok b, u) \<longleftrightarrow> (\<exists>a t. m s = (Ok a, t) \<and> f a t = (Ok b, u))"
  by (auto simp: m_then_def split: prod.splits result.splits)

lemma jp_skip_consumed:
  "jp_skip input max_work p s = (Ok u, t) \<Longrightarrow>
   \<exists>read. consumed input s t read \<and> list_all p read"
proof (induction input max_work p s rule: jp_skip.induct)
  case (1 input max_work p s)
  show ?case
  proof (cases "jp_offset s < length input \<and> p (input ! jp_offset s)")
    case True
    with 1(2) obtain b r where b: "jp_next input max_work s = (Ok b, r)"
      and rest: "jp_skip input max_work p r = (Ok u, t)"
      by (subst (asm) jp_skip.simps) (auto simp: m_then_Ok)
    from 1(1) [OF True b rest] obtain read where read: "consumed input r t read" "list_all p read"
      by blast
    have "p b" using True b by (simp add: jp_next_Ok)
    with consumed_trans [OF jp_next_consumed [OF b] read(1)] read(2) show ?thesis
      by (intro exI [of _ "b # read"]) simp
  next
    case False
    with 1(2) show ?thesis
      by (subst (asm) jp_skip.simps) (auto intro: exI [of _ "[]"])
  qed
qed

text \<open>The body of a string and its closing quote.\<close>

fun string_tail :: "bool \<Rightarrow> string \<Rightarrow> bool" where
  "string_tail escaped [] = False"
| "string_tail escaped (b # rest) =
     (if escaped then string_tail False rest
      else if b = CHR 0x5C then string_tail True rest
      else if b = CHR 0x22 then rest = []
      else string_tail False rest)"

definition string_token :: "string \<Rightarrow> bool" where
  "string_token token \<longleftrightarrow> token \<noteq> [] \<and> hd token = CHR 0x22 \<and> string_tail False (tl token)"

lemma jp_string_rest_consumed:
  "jp_string_rest input max_work escaped s = (Ok u, t) \<Longrightarrow>
   \<exists>read. consumed input s t read \<and> string_tail escaped read"
proof (induction input max_work escaped s rule: jp_string_rest.induct)
  case (1 input max_work escaped s)
  from 1(4) obtain b r where b: "jp_next input max_work s = (Ok b, r)"
    and rest: "(if escaped then jp_string_rest input max_work False r
              else if b = CHR 0x5C then jp_string_rest input max_work True r
              else if b = CHR 0x22 then (Ok (), r)
              else jp_string_rest input max_work False r) = (Ok u, t)"
    by (subst (asm) jp_string_rest.simps) (auto simp: m_then_Ok)
  have read: ?case if "consumed input r t read" "string_tail escaped (b # read)" for read
    using consumed_trans [OF jp_next_consumed [OF b] that(1)] that(2)
    by (intro exI [of _ "b # read"]) simp
  consider "escaped" | "\<not> escaped" "b = CHR 0x5C" | "\<not> escaped" "b = CHR 0x22"
    | "\<not> escaped" "b \<noteq> CHR 0x5C" "b \<noteq> CHR 0x22" by blast
  then show ?case
  proof cases
    case 1
    note \<open>escaped\<close>
    with rest obtain more where "consumed input r t more" "string_tail False more"
      using "1.IH"(1) [OF b] by auto
    with \<open>escaped\<close> show ?thesis by (intro read [of more]) simp_all
  next
    case 2
    with rest obtain more where "consumed input r t more" "string_tail True more"
      using "1.IH"(2) [OF b] by auto
    with 2 show ?thesis by (intro read [of more]) simp_all
  next
    case 3
    with rest have "r = t" by auto
    with 3 show ?thesis by (intro read [of "[]"]) simp_all
  next
    case 4
    with rest obtain more where "consumed input r t more" "string_tail False more"
      using "1.IH"(3) [OF b] by auto
    with 4 show ?thesis by (intro read [of more]) simp_all
  qed
qed

lemma jp_string_consumed:
  assumes "jp_string input max_work s = (Ok token, t)"
  shows "consumed input s t token \<and> string_token token"
proof -
  from assms obtain u v r where quote: "jp_take input max_work CHR 0x22 s = (Ok u, r)"
    and rest: "jp_string_rest input max_work False r = (Ok v, t)"
    and token: "token = take (jp_offset t - jp_offset s) (drop (jp_offset s) input)"
    by (auto simp: jp_string_def m_then_Ok)
  from jp_string_rest_consumed [OF rest] obtain read where
    read: "consumed input r t read" "string_tail False read" by blast
  from consumed_trans [OF jp_take_consumed [OF quote] read(1)] have
    whole: "consumed input s t (CHR 0x22 # read)" by simp
  then have "token = CHR 0x22 # read" by (simp add: token consumed_def)
  with whole read(2) show ?thesis by (simp add: string_token_def)
qed

end
