(* ===== verification/Compression_Strict.thy ===== *)
theory Compression_Strict
  imports Compression_Validator
begin

text \<open>
  The recursive part of \<open>DuplicateParser\<close> and \<open>validate_json\<close>, and what acceptance means: the
  document is a tree of values in which no object repeats a decoded member name.
\<close>

section \<open>How far the steps move\<close>

abbreviation unread :: "string \<Rightarrow> duplicate_parser \<Rightarrow> nat" where
  "unread input s \<equiv> length input - jp_offset s"

lemma jp_peek_Ok:
  "jp_peek input s = (Ok b, t) \<longleftrightarrow> t = s \<and> jp_offset s < length input \<and> b = input ! jp_offset s"
  by (auto simp: jp_peek_def)

lemma jp_take_moves: "jp_take input max_work b s = (Ok u, t) \<Longrightarrow> unread input t < unread input s"
  by (drule jp_take_Ok) (auto simp: jp_next_Ok)

lemma jp_whitespace_moves: "jp_whitespace input max_work s = (Ok u, t) \<Longrightarrow> unread input t \<le> unread input s"
  by (auto simp: jp_whitespace_def dest!: jp_skip_consumed consumed_offset)

lemma jp_string_moves: "jp_string input max_work s = (Ok token, t) \<Longrightarrow> unread input t < unread input s"
  by (auto simp: jp_string_def m_then_Ok dest!: jp_take_moves jp_string_rest_consumed consumed_offset)

section \<open>Member names and separators\<close>

text \<open>The start of a turn of the object loop: the name of a member and its colon.\<close>

definition member_name :: "json_codec \<Rightarrow> string \<Rightarrow> u64 \<Rightarrow> string set \<Rightarrow> string parsing" where
  "member_name codec input max_work names =
     m_then (jp_whitespace input max_work) (\<lambda>_.
     m_then (jp_string input max_work) (\<lambda>key.
       case jc_string codec key of
         None \<Rightarrow> halt TransformInvalidInput
       | Some name \<Rightarrow>
           if name \<in> names then halt TransformNotApplicable
           else m_then (jp_whitespace input max_work) (\<lambda>_.
                m_then (jp_take input max_work CHR 0x3A) (\<lambda>_. ret name))))"

text \<open>The end of a turn of either loop: whether a comma follows or the closing delimiter.\<close>

definition jp_separator :: "string \<Rightarrow> u64 \<Rightarrow> char \<Rightarrow> bool parsing" where
  "jp_separator input max_work close =
     m_then (jp_whitespace input max_work) (\<lambda>_.
     m_then (jp_peek input) (\<lambda>b.
       if b = CHR 0x2C then m_then (jp_take input max_work CHR 0x2C) (\<lambda>_. ret True)
       else if b = close then m_then (jp_take input max_work close) (\<lambda>_. ret False)
       else halt TransformInvalidInput))"

lemma member_name_Ok:
  assumes "member_name codec input max_work names s = (Ok name, t)"
  obtains q key r a where "jp_whitespace input max_work s = (Ok (), q)"
    and "jp_string input max_work q = (Ok key, r)" and "jc_string codec key = Some name"
    and "name \<notin> names" and "jp_whitespace input max_work r = (Ok (), a)"
    and "jp_take input max_work CHR 0x3A a = (Ok (), t)"
  using assms
  by (auto simp: member_name_def m_then_Ok halt_def ret_def split: option.splits if_split_asm)

lemma jp_separator_Ok:
  assumes "jp_separator input max_work close s = (Ok again, t)"
  obtains e where "jp_whitespace input max_work s = (Ok (), e)"
    and "jp_take input max_work (if again then CHR 0x2C else close) e = (Ok (), t)"
  using assms by (auto simp: jp_separator_def m_then_Ok jp_peek_Ok halt_def ret_def split: if_splits)

lemma member_name_moves:
  "member_name codec input max_work names s = (Ok name, t) \<Longrightarrow> unread input t < unread input s"
  by (erule member_name_Ok) (auto dest!: jp_whitespace_moves jp_string_moves jp_take_moves)

section \<open>Values, objects and arrays\<close>

text \<open>
  The loops go round only with something read since the last turn; \<open>object_turn\<close> and \<open>array_turn\<close> below show that
  the other branch is never taken.
\<close>

function parse_value :: "json_codec \<Rightarrow> string \<Rightarrow> u64 \<Rightarrow> u16 \<Rightarrow> unit parsing"
  and parse_object :: "json_codec \<Rightarrow> string \<Rightarrow> u64 \<Rightarrow> u16 \<Rightarrow> unit parsing"
  and object_members :: "json_codec \<Rightarrow> string \<Rightarrow> u64 \<Rightarrow> u16 \<Rightarrow> string set \<Rightarrow> unit parsing"
  and parse_array :: "json_codec \<Rightarrow> string \<Rightarrow> u64 \<Rightarrow> u16 \<Rightarrow> unit parsing"
  and array_elements :: "json_codec \<Rightarrow> string \<Rightarrow> u64 \<Rightarrow> u16 \<Rightarrow> unit parsing" where
  "parse_value codec input max_work depth s =
     (if depth > 128 then (Err TransformResourceLimit, s)
      else m_then (jp_whitespace input max_work) (\<lambda>_.
           m_then (jp_peek input) (\<lambda>b t.
             if b = CHR 0x7B then parse_object codec input max_work (saturating_add depth 1) t
             else if b = CHR 0x5B then parse_array codec input max_work (saturating_add depth 1) t
             else if b = CHR 0x22 then m_then (jp_string input max_work) (\<lambda>_. ret ()) t
             else jp_scalar input max_work t)) s)"
| "parse_object codec input max_work depth s =
     m_then (jp_take input max_work CHR 0x7B) (\<lambda>_.
     m_then (jp_whitespace input max_work) (\<lambda>_.
     m_then (jp_peek input) (\<lambda>b t.
       if b = CHR 0x7D then jp_take input max_work CHR 0x7D t
       else object_members codec input max_work depth {} t))) s"
| "object_members codec input max_work depth names s =
     m_then (member_name codec input max_work names) (\<lambda>name.
     m_then (\<lambda>t. parse_value codec input max_work depth t) (\<lambda>_.
     m_then (jp_separator input max_work CHR 0x7D) (\<lambda>again t.
       if \<not> again then (Ok (), t)
       else if unread input t < unread input s
       then object_members codec input max_work depth (insert name names) t
       else (Err TransformInternal, t)))) s"
| "parse_array codec input max_work depth s =
     m_then (jp_take input max_work CHR 0x5B) (\<lambda>_.
     m_then (jp_whitespace input max_work) (\<lambda>_.
     m_then (jp_peek input) (\<lambda>b t.
       if b = CHR 0x5D then jp_take input max_work CHR 0x5D t
       else array_elements codec input max_work depth t))) s"
| "array_elements codec input max_work depth s =
     m_then (\<lambda>t. parse_value codec input max_work depth t) (\<lambda>_.
     m_then (jp_separator input max_work CHR 0x5D) (\<lambda>again t.
       if \<not> again then (Ok (), t)
       else if unread input t < unread input s
       then array_elements codec input max_work depth t
       else (Err TransformInternal, t))) s"
  by pat_completeness auto

termination
  by (relation "measures
      [\<lambda>x. case x of
         Inl (Inl (codec, input, max_work, depth, s)) \<Rightarrow> unread input s
       | Inl (Inr (codec, input, max_work, depth, s)) \<Rightarrow> unread input s
       | Inr (Inl (codec, input, max_work, depth, names, s)) \<Rightarrow> unread input s
       | Inr (Inr (Inl (codec, input, max_work, depth, s))) \<Rightarrow> unread input s
       | Inr (Inr (Inr (codec, input, max_work, depth, s))) \<Rightarrow> unread input s,
       \<lambda>x. case x of Inl (Inl _) \<Rightarrow> 1 | Inr (Inr (Inr _)) \<Rightarrow> 2 | _ \<Rightarrow> 0]")
    (auto simp: jp_peek_Ok dest!: jp_whitespace_moves jp_take_moves member_name_moves)

declare parse_value.simps [simp del] parse_object.simps [simp del] object_members.simps [simp del]
  parse_array.simps [simp del] array_elements.simps [simp del]

section \<open>Documents without repeated names\<close>

abbreviation spaces :: "string \<Rightarrow> bool" where
  "spaces text \<equiv> list_all is_ascii_whitespace text"

definition scalar_token :: "string \<Rightarrow> bool" where
  "scalar_token token \<longleftrightarrow> token \<noteq> [] \<and> list_all (\<lambda>b. \<not> ends_scalar b) token"

text \<open>
  \<open>strict_members codec names text\<close>: the rest of an object, its closing brace included, names
  members that differ from each other and from \<open>names\<close>.
\<close>

inductive strict_value :: "json_codec \<Rightarrow> string \<Rightarrow> bool"
  and strict_members :: "json_codec \<Rightarrow> string set \<Rightarrow> string \<Rightarrow> bool"
  and strict_elements :: "json_codec \<Rightarrow> string \<Rightarrow> bool"
  for codec :: json_codec where
  strict_string: "spaces w \<Longrightarrow> string_token token \<Longrightarrow> strict_value codec (w @ token)"
| strict_scalar: "spaces w \<Longrightarrow> scalar_token token \<Longrightarrow> strict_value codec (w @ token)"
| strict_empty_object: "spaces w \<Longrightarrow> spaces x \<Longrightarrow> strict_value codec (w @ ''{'' @ x @ ''}'')"
| strict_object: "spaces w \<Longrightarrow> spaces x \<Longrightarrow> strict_members codec {} members \<Longrightarrow>
    strict_value codec (w @ ''{'' @ x @ members)"
| strict_empty_array: "spaces w \<Longrightarrow> spaces x \<Longrightarrow> strict_value codec (w @ ''['' @ x @ '']'')"
| strict_array: "spaces w \<Longrightarrow> spaces x \<Longrightarrow> strict_elements codec elements \<Longrightarrow>
    strict_value codec (w @ ''['' @ x @ elements)"
| last_member: "spaces w \<Longrightarrow> string_token key \<Longrightarrow> jc_string codec key = Some name \<Longrightarrow>
    name \<notin> names \<Longrightarrow> spaces x \<Longrightarrow> strict_value codec v \<Longrightarrow> spaces y \<Longrightarrow>
    strict_members codec names (w @ key @ x @ '':'' @ v @ y @ ''}'')"
| more_members: "spaces w \<Longrightarrow> string_token key \<Longrightarrow> jc_string codec key = Some name \<Longrightarrow>
    name \<notin> names \<Longrightarrow> spaces x \<Longrightarrow> strict_value codec v \<Longrightarrow> spaces y \<Longrightarrow>
    strict_members codec (insert name names) members \<Longrightarrow>
    strict_members codec names (w @ key @ x @ '':'' @ v @ y @ '','' @ members)"
| last_element: "strict_value codec v \<Longrightarrow> spaces y \<Longrightarrow> strict_elements codec (v @ y @ '']'')"
| more_elements: "strict_value codec v \<Longrightarrow> spaces y \<Longrightarrow> strict_elements codec elements \<Longrightarrow>
    strict_elements codec (v @ y @ '','' @ elements)"

section \<open>Acceptance is sound\<close>

lemma jp_whitespace_consumed:
  "jp_whitespace input max_work s = (Ok u, t) \<Longrightarrow> \<exists>read. consumed input s t read \<and> spaces read"
  unfolding jp_whitespace_def by (rule jp_skip_consumed)

lemma jp_scalar_consumed:
  assumes "jp_scalar input max_work s = (Ok u, t)"
  shows "\<exists>read. consumed input s t read \<and> scalar_token read"
proof -
  from assms have skip: "jp_skip input max_work (\<lambda>b. \<not> ends_scalar b) s = (Ok (), t)"
    and moved: "jp_offset t \<noteq> jp_offset s"
    by (auto simp: jp_scalar_def m_then_Ok split: if_splits)
  from jp_skip_consumed [OF skip] obtain read where
    read: "consumed input s t read" "list_all (\<lambda>b. \<not> ends_scalar b) read" by blast
  with moved have "read \<noteq> []" by (auto simp: consumed_def)
  with read show ?thesis by (auto simp: scalar_token_def)
qed

definition reads :: "string \<Rightarrow> unit parsing \<Rightarrow> (string \<Rightarrow> bool) \<Rightarrow> duplicate_parser \<Rightarrow> bool" where
  "reads input m P s \<longleftrightarrow> (\<forall>t. m s = (Ok (), t) \<longrightarrow> (\<exists>text. consumed input s t text \<and> P text))"

lemma readsI: "(\<And>t. m s = (Ok (), t) \<Longrightarrow> \<exists>text. consumed input s t text \<and> P text) \<Longrightarrow> reads input m P s"
  by (simp add: reads_def)

lemma parser_readsD: "reads input m P s \<Longrightarrow> m s = (Ok u, t) \<Longrightarrow> \<exists>text. consumed input s t text \<and> P text"
  by (simp add: reads_def)

lemma member_name_consumed:
  assumes "member_name codec input max_work names s = (Ok name, t)"
  shows "\<exists>w key x. consumed input s t (w @ key @ x @ '':'') \<and> spaces w \<and> string_token key \<and>
    jc_string codec key = Some name \<and> name \<notin> names \<and> spaces x"
proof -
  from assms obtain q key r a where w: "jp_whitespace input max_work s = (Ok (), q)"
    and key: "jp_string input max_work q = (Ok key, r)"
    and name: "jc_string codec key = Some name" "name \<notin> names"
    and x: "jp_whitespace input max_work r = (Ok (), a)"
    and colon: "jp_take input max_work CHR 0x3A a = (Ok (), t)"
    by (rule member_name_Ok)
  from jp_whitespace_consumed [OF w] obtain sw where sw: "consumed input s q sw" "spaces sw" by blast
  from jp_whitespace_consumed [OF x] obtain sx where sx: "consumed input r a sx" "spaces sx" by blast
  note token = jp_string_consumed [OF key]
  have "consumed input s t (sw @ key @ sx @ '':'')"
    using consumed_trans [OF sw(1) consumed_trans [OF _ consumed_trans [OF sx(1) jp_take_consumed [OF colon]]]]
      token by blast
  with sw sx token name show ?thesis by blast
qed

lemma jp_separator_consumed:
  assumes "jp_separator input max_work close s = (Ok again, t)"
  shows "\<exists>y. consumed input s t (y @ [if again then CHR 0x2C else close]) \<and> spaces y"
proof -
  from assms obtain e where w: "jp_whitespace input max_work s = (Ok (), e)"
    and c: "jp_take input max_work (if again then CHR 0x2C else close) e = (Ok (), t)"
    by (rule jp_separator_Ok)
  from jp_whitespace_consumed [OF w] obtain y where "consumed input s e y" "spaces y" by blast
  with consumed_trans [OF _ jp_take_consumed [OF c]] show ?thesis by blast
qed

lemma parser_sound:
  "reads input (parse_value codec input max_work depth) (strict_value codec) s"
  "reads input (parse_object codec input max_work depth)
     (\<lambda>text. \<forall>w. spaces w \<longrightarrow> strict_value codec (w @ text)) s"
  "reads input (object_members codec input max_work depth names) (strict_members codec names) s"
  "reads input (parse_array codec input max_work depth)
     (\<lambda>text. \<forall>w. spaces w \<longrightarrow> strict_value codec (w @ text)) s"
  "reads input (array_elements codec input max_work depth) (strict_elements codec) s"
proof (induction codec input max_work depth s and codec input max_work depth s
    and codec input max_work depth names s and codec input max_work depth s
    and codec input max_work depth s
    rule: parse_value_parse_object_object_members_parse_array_array_elements.induct)
  case (1 codec input max_work depth s)
  show ?case
  proof (rule readsI)
    fix t assume "parse_value codec input max_work depth s = (Ok (), t)"
    then obtain r b where depth: "\<not> depth > 128"
      and w: "jp_whitespace input max_work s = (Ok (), r)" and b: "jp_peek input r = (Ok b, r)"
      and rest: "(if b = CHR 0x7B then parse_object codec input max_work (saturating_add depth 1) r
             else if b = CHR 0x5B then parse_array codec input max_work (saturating_add depth 1) r
             else if b = CHR 0x22 then m_then (jp_string input max_work) (\<lambda>_. ret ()) r
             else jp_scalar input max_work r) = (Ok (), t)"
      by (subst (asm) parse_value.simps) (auto simp: m_then_Ok jp_peek_Ok split: if_splits)
    from jp_whitespace_consumed [OF w] obtain sp where sp: "consumed input s r sp" "spaces sp" by blast
    have "\<exists>text. consumed input r t text \<and> strict_value codec (sp @ text)"
    proof -
      consider "b = CHR 0x7B" | "b = CHR 0x5B" | "b = CHR 0x22"
        | "b \<noteq> CHR 0x7B" "b \<noteq> CHR 0x5B" "b \<noteq> CHR 0x22" by blast
      then show ?thesis
      proof cases
        case b1: 1
        with rest have "parse_object codec input max_work (saturating_add depth 1) r = (Ok (), t)"
          by simp
        from parser_readsD [OF 1(1) [OF depth w b b1] this] sp(2) show ?thesis by blast
      next
        case b2: 2
        then have "b \<noteq> CHR 0x7B" by simp
        from b2 rest have "parse_array codec input max_work (saturating_add depth 1) r = (Ok (), t)"
          by simp
        from parser_readsD [OF 1(2) [OF depth w b \<open>b \<noteq> CHR 0x7B\<close> b2] this] sp(2) show ?thesis by blast
      next
        case 3
        with rest obtain token where "jp_string input max_work r = (Ok token, t)"
          by (auto simp: m_then_Ok ret_def)
        from jp_string_consumed [OF this] sp(2) show ?thesis by (blast intro: strict_string)
      next
        case 4
        with rest have "jp_scalar input max_work r = (Ok (), t)" by simp
        from jp_scalar_consumed [OF this] sp(2) show ?thesis by (blast intro: strict_scalar)
      qed
    qed
    with sp(1) show "\<exists>text. consumed input s t text \<and> strict_value codec text"
      by (blast intro: consumed_trans)
  qed
next
  case (2 codec input max_work depth s)
  show ?case
  proof (rule readsI)
    fix t assume "parse_object codec input max_work depth s = (Ok (), t)"
    then obtain q r b where o: "jp_take input max_work CHR 0x7B s = (Ok (), q)"
      and w: "jp_whitespace input max_work q = (Ok (), r)" and b: "jp_peek input r = (Ok b, r)"
      and rest: "(if b = CHR 0x7D then jp_take input max_work CHR 0x7D r
       else object_members codec input max_work depth {} r) = (Ok (), t)"
      by (subst (asm) parse_object.simps) (auto simp: m_then_Ok jp_peek_Ok)
    from jp_whitespace_consumed [OF w] obtain sp where sp: "consumed input q r sp" "spaces sp" by blast
    from consumed_trans [OF jp_take_consumed [OF o] sp(1)]
    have start: "consumed input s r (''{'' @ sp)" by simp
    have "\<exists>text. consumed input r t text \<and> (\<forall>w. spaces w \<longrightarrow> strict_value codec (w @ ''{'' @ sp @ text))"
    proof (cases "b = CHR 0x7D")
      case True
      with rest jp_take_consumed [of input max_work "CHR 0x7D" r "()" t] sp(2)
        strict_empty_object [of _ sp codec] show ?thesis
        by (intro exI [of _ "''}''"]) simp
    next
      case False
      with rest have "object_members codec input max_work depth {} r = (Ok (), t)" by simp
      from parser_readsD [OF 2(1) [OF o w b False] this] obtain again
        where "consumed input r t again" "strict_members codec {} again" by blast
      with sp(2) strict_object [of _ sp codec again] show ?thesis
        by (intro exI [of _ again]) simp
    qed
    then obtain body where "consumed input r t body"
      and "\<forall>w. spaces w \<longrightarrow> strict_value codec (w @ ''{'' @ sp @ body)" by blast
    with consumed_trans [OF start] show
      "\<exists>text. consumed input s t text \<and> (\<forall>w. spaces w \<longrightarrow> strict_value codec (w @ text))"
      by (intro exI [of _ "(''{'' @ sp) @ body"]) simp
  qed
next
  case (3 codec input max_work depth names s)
  show ?case
  proof (rule readsI)
    fix t assume "object_members codec input max_work depth names s = (Ok (), t)"
    then obtain name c d again e where name: "member_name codec input max_work names s = (Ok name, c)"
      and v: "parse_value codec input max_work depth c = (Ok (), d)"
      and sep: "jp_separator input max_work CHR 0x7D d = (Ok again, e)"
      and rest: "(if \<not> again then (Ok (), e)
        else if unread input e < unread input s
        then object_members codec input max_work depth (insert name names) e
        else (Err TransformInternal, e)) = (Ok (), t)"
      unfolding object_members.simps [of codec input max_work depth names s] m_then_Ok by (auto split del: if_split)
    from member_name_consumed [OF name] obtain w key x
      where nt: "consumed input s c (w @ key @ x @ '':'')" and w: "spaces w" and key: "string_token key"
      and decoded: "jc_string codec key = Some name" "name \<notin> names" and x: "spaces x" by blast
    from parser_readsD [OF 3(1) [OF name] v] obtain vt
      where vt: "consumed input c d vt" "strict_value codec vt" by blast
    from jp_separator_consumed [OF sep] obtain y
      where y: "consumed input d e (y @ [if again then CHR 0x2C else CHR 0x7D])" "spaces y" by blast
    note start = consumed_trans [OF consumed_trans [OF nt vt(1)] y(1)]
    show "\<exists>text. consumed input s t text \<and> strict_members codec names text"
    proof (cases again)
      case True
      with rest have less: "unread input e < unread input s"
        and again: "object_members codec input max_work depth (insert name names) e = (Ok (), t)"
        by (simp_all split: if_splits)
      from True have "\<not> \<not> again" by simp
      from parser_readsD [OF 3(2) [OF name v sep this less] again] obtain mt
        where mt: "consumed input e t mt" "strict_members codec (insert name names) mt" by blast
      from more_members [OF w key decoded x vt(2) y(2) mt(2)] consumed_trans [OF start mt(1)] True
      show ?thesis by (intro exI [of _ "w @ key @ x @ '':'' @ vt @ y @ '','' @ mt"]) simp
    next
      case False
      with rest have "e = t" by simp
      with last_member [OF w key decoded x vt(2) y(2)] start False show ?thesis
        by (intro exI [of _ "w @ key @ x @ '':'' @ vt @ y @ ''}''"]) simp
    qed
  qed
next
  case (4 codec input max_work depth s)
  show ?case
  proof (rule readsI)
    fix t assume "parse_array codec input max_work depth s = (Ok (), t)"
    then obtain q r b where o: "jp_take input max_work CHR 0x5B s = (Ok (), q)"
      and w: "jp_whitespace input max_work q = (Ok (), r)" and b: "jp_peek input r = (Ok b, r)"
      and rest: "(if b = CHR 0x5D then jp_take input max_work CHR 0x5D r
       else array_elements codec input max_work depth r) = (Ok (), t)"
      by (subst (asm) parse_array.simps) (auto simp: m_then_Ok jp_peek_Ok)
    from jp_whitespace_consumed [OF w] obtain sp where sp: "consumed input q r sp" "spaces sp" by blast
    from consumed_trans [OF jp_take_consumed [OF o] sp(1)]
    have start: "consumed input s r (''['' @ sp)" by simp
    have "\<exists>text. consumed input r t text \<and> (\<forall>w. spaces w \<longrightarrow> strict_value codec (w @ ''['' @ sp @ text))"
    proof (cases "b = CHR 0x5D")
      case True
      with rest jp_take_consumed [of input max_work "CHR 0x5D" r "()" t] sp(2)
        strict_empty_array [of _ sp codec] show ?thesis
        by (intro exI [of _ "'']''"]) simp
    next
      case False
      with rest have "array_elements codec input max_work depth r = (Ok (), t)" by simp
      from parser_readsD [OF 4(1) [OF o w b False] this] obtain again
        where "consumed input r t again" "strict_elements codec again" by blast
      with sp(2) strict_array [of _ sp codec again] show ?thesis
        by (intro exI [of _ again]) simp
    qed
    then obtain body where "consumed input r t body"
      and "\<forall>w. spaces w \<longrightarrow> strict_value codec (w @ ''['' @ sp @ body)" by blast
    with consumed_trans [OF start] show
      "\<exists>text. consumed input s t text \<and> (\<forall>w. spaces w \<longrightarrow> strict_value codec (w @ text))"
      by (intro exI [of _ "(''['' @ sp) @ body"]) simp
  qed
next
  case (5 codec input max_work depth s)
  show ?case
  proof (rule readsI)
    fix t assume "array_elements codec input max_work depth s = (Ok (), t)"
    then obtain d again e where v: "parse_value codec input max_work depth s = (Ok (), d)"
      and sep: "jp_separator input max_work CHR 0x5D d = (Ok again, e)"
      and rest: "(if \<not> again then (Ok (), e)
        else if unread input e < unread input s
        then array_elements codec input max_work depth e
        else (Err TransformInternal, e)) = (Ok (), t)"
      unfolding array_elements.simps [of codec input max_work depth s] m_then_Ok by (auto split del: if_split)
    from parser_readsD [OF 5(1) v] obtain vt
      where vt: "consumed input s d vt" "strict_value codec vt" by blast
    from jp_separator_consumed [OF sep] obtain y
      where y: "consumed input d e (y @ [if again then CHR 0x2C else CHR 0x5D])" "spaces y" by blast
    note start = consumed_trans [OF vt(1) y(1)]
    show "\<exists>text. consumed input s t text \<and> strict_elements codec text"
    proof (cases again)
      case True
      with rest have less: "unread input e < unread input s"
        and again: "array_elements codec input max_work depth e = (Ok (), t)"
        by (simp_all split: if_splits)
      from True have "\<not> \<not> again" by simp
      from parser_readsD [OF 5(2) [OF v sep this less] again] obtain mt
        where mt: "consumed input e t mt" "strict_elements codec mt" by blast
      from more_elements [OF vt(2) y(2) mt(2)] consumed_trans [OF start mt(1)] True
      show ?thesis by (intro exI [of _ "vt @ y @ '','' @ mt"]) simp
    next
      case False
      with rest have "e = t" by simp
      with last_element [OF vt(2) y(2)] start False show ?thesis
        by (intro exI [of _ "vt @ y @ '']''"]) simp
    qed
  qed
qed

section \<open>Every turn reads\<close>

lemma parse_value_moves:
  "parse_value codec input max_work depth s = (Ok (), t) \<Longrightarrow> unread input t \<le> unread input s"
  by (drule parser_readsD [OF parser_sound(1)]) (auto dest: consumed_offset)

lemma jp_separator_moves:
  "jp_separator input max_work close s = (Ok again, t) \<Longrightarrow> unread input t < unread input s"
  by (erule jp_separator_Ok) (auto dest!: jp_whitespace_moves jp_take_moves)

lemma object_turn:
  "object_members codec input max_work depth names s =
     m_then (member_name codec input max_work names) (\<lambda>name.
     m_then (parse_value codec input max_work depth) (\<lambda>_.
     m_then (jp_separator input max_work CHR 0x7D) (\<lambda>again t.
       if \<not> again then (Ok (), t)
       else object_members codec input max_work depth (insert name names) t))) s"
  unfolding object_members.simps [of codec input max_work depth names s]
  by (intro m_then_cong refl)
    (auto dest!: member_name_moves parse_value_moves jp_separator_moves)

lemma array_turn:
  "array_elements codec input max_work depth s =
     m_then (parse_value codec input max_work depth) (\<lambda>_.
     m_then (jp_separator input max_work CHR 0x5D) (\<lambda>again t.
       if \<not> again then (Ok (), t) else array_elements codec input max_work depth t)) s"
  unfolding array_elements.simps [of codec input max_work depth s]
  by (intro m_then_cong refl) (auto dest!: parse_value_moves jp_separator_moves)

section \<open>Validation\<close>

definition validate_json ::
  "json_codec \<Rightarrow> string \<Rightarrow> compression_limits \<Rightarrow> (unit, transform_error) result" where
  "validate_json codec input limits =
     (if bytes_of input > max_shadow_work_units limits then Err TransformResourceLimit
      else case jc_value codec input of
        None \<Rightarrow> Err TransformInvalidInput
      | Some _ \<Rightarrow>
          (let max_work = max_shadow_work_units limits
           in case m_then (parse_value codec input max_work 0)
                 (\<lambda>_. jp_whitespace input max_work) \<lparr>jp_offset = 0, jp_work = 0\<rparr> of
                (Err e, _) \<Rightarrow> Err e
              | (Ok _, t) \<Rightarrow>
                  if jp_offset t \<noteq> length input then Err TransformInvalidInput else Ok ()))"

lemma validate_json_strict:
  assumes "validate_json codec input limits = Ok ()"
  shows "jc_value codec input \<noteq> None \<and>
    (\<exists>v w. input = v @ w \<and> strict_value codec v \<and> spaces w)"
proof -
  let ?s = "\<lparr>jp_offset = 0, jp_work = 0\<rparr>"
  let ?max = "max_shadow_work_units limits"
  from assms obtain r t where known: "jc_value codec input \<noteq> None"
    and v: "parse_value codec input ?max 0 ?s = (Ok (), r)"
    and w: "jp_whitespace input ?max r = (Ok (), t)" and whole: "jp_offset t = length input"
    by (auto simp: validate_json_def Let_def m_then_def
        split: if_splits option.splits prod.splits result.splits)
  from parser_readsD [OF parser_sound(1) v] obtain vt where vt: "consumed input ?s r vt" "strict_value codec vt"
    by blast
  from jp_whitespace_consumed [OF w] obtain sp where sp: "consumed input r t sp" "spaces sp" by blast
  from consumed_trans [OF vt(1) sp(1)] whole have "input = vt @ sp" by (simp add: consumed_def)
  with known vt(2) sp(2) show ?thesis by blast
qed

text \<open>A document for samples: an array with nothing in it, for any codec that parses it.\<close>

lemma empty_array_validates:
  assumes "jc_value codec ''[ ]'' = Some json"
  shows "validate_json codec ''[ ]'' compression_limits_default = Ok ()"
  by (simp add: validate_json_def assms compression_limits_default_def u64_of_len_or_max_def m_then_def
     parse_value.simps parse_array.simps jp_whitespace_def jp_skip.simps jp_peek_def jp_take_def
     jp_next_def ret_def saturating_add_def is_ascii_whitespace_def)

end
