(* ===== verification/Compression_Json.thy ===== *)
theory Compression_Json
  imports Compression_Strict Compression_Varint
begin

text \<open>
  \<open>JsonNoop\<close> and \<open>JsonMinify\<close> of \<open>crates/tracepress-compression/src/json.rs\<close>: the minifier drops
  the white space between tokens and keeps in the recovery, for each run of it, the position in
  the candidate and the bytes; recovery weaves the runs back in.
\<close>

section \<open>Bounds\<close>

definition json_bounds ::
  "string \<Rightarrow> string \<Rightarrow> compression_limits \<Rightarrow> (unit, transform_error) result" where
  "json_bounds candidate recovery limits =
     (if bytes_of candidate > max_candidate_output_bytes limits \<or>
         saturating_add (bytes_of candidate) (bytes_of recovery) > max_shadow_memory_bytes limits
      then Err TransformResourceLimit else Ok ())"

definition check_memory :: "nat \<Rightarrow> compression_limits \<Rightarrow> (unit, transform_error) result" where
  "check_memory n limits =
     (if u64_of_len_or_max n > max_shadow_memory_bytes limits then Err TransformResourceLimit
      else Ok ())"

definition write_bytes :: "string \<Rightarrow> string" where
  "write_bytes bytes = write_varint (bytes_of bytes) @ bytes"

definition read_bytes :: "string \<Rightarrow> nat \<Rightarrow> (string \<times> nat, transform_error) result" where
  "read_bytes input cursor =
     and_then (read_usize input cursor) (\<lambda>(n, cursor).
       case usize_checked_add cursor n of
         None \<Rightarrow> Err TransformResourceLimit
       | Some until \<Rightarrow>
           if until \<le> length input then Ok (take n (drop cursor input), until)
           else Err TransformInvalidInput)"

lemma read_bytes_cursor: "read_bytes input cursor = Ok (bytes, after) \<Longrightarrow> cursor < after \<and> after \<le> length input"
  by (auto simp: read_bytes_def and_then_eq_Ok usize_checked_add_Some split: if_splits option.splits
      dest: read_usize_cursor)

section \<open>Minifying\<close>

text \<open>The flags \<open>in_string\<close> and \<open>escaped\<close> after a byte that is kept.\<close>

definition string_state :: "bool \<Rightarrow> bool \<Rightarrow> char \<Rightarrow> bool \<times> bool" where
  "string_state in_string escaped b =
     (if in_string then
        (if escaped then (True, False)
         else if b = CHR 0x5C then (True, True)
         else if b = CHR 0x22 then (False, False)
         else (True, False))
      else if b = CHR 0x22 then (True, escaped)
      else (False, escaped))"

text \<open>The scan over the rest of the input; what it appends to the candidate and the recovery.\<close>

function minify_scan ::
  "string \<Rightarrow> string \<Rightarrow> bool \<Rightarrow> bool \<Rightarrow> string \<Rightarrow> string \<times> string" where
  "minify_scan candidate recovery in_string escaped [] = (candidate, recovery)"
| "minify_scan candidate recovery in_string escaped (b # rest) =
     (if \<not> in_string \<and> is_ascii_whitespace b then
        (let whitespace = takeWhile is_ascii_whitespace (b # rest)
         in minify_scan candidate
              (recovery @ write_varint (bytes_of candidate) @ write_bytes whitespace)
              in_string escaped (dropWhile is_ascii_whitespace rest))
      else let (in_string, escaped) = string_state in_string escaped b
           in minify_scan (candidate @ [b]) recovery in_string escaped rest)"
  by pat_completeness auto
termination
  by (relation "measure (\<lambda>(_, _, _, _, rest). length rest)")
    (auto simp: le_imp_less_Suc length_dropWhile_le)

definition minify_transform :: "json_codec \<Rightarrow> string \<Rightarrow> compression_limits \<Rightarrow> transform_result" where
  "minify_transform codec input limits =
     and_then (validate_json codec input limits) (\<lambda>_.
       let (candidate, recovery) = minify_scan [] [] False False input
       in and_then (json_bounds candidate recovery limits) (\<lambda>_.
            Ok \<lparr>tr_candidate = candidate, tr_recovery = recovery\<rparr>))"

function minify_restore ::
  "compression_limits \<Rightarrow> string \<Rightarrow> string \<Rightarrow> nat \<Rightarrow> nat \<Rightarrow> string \<Rightarrow> recover_result" where
  "minify_restore limits candidate recovery cursor source output =
     (if cursor < length recovery then
        and_then (read_usize recovery cursor) (\<lambda>(position, after).
          if position < source \<or> position > length candidate then Err TransformInvalidInput
          else let output = output @ take (position - source) (drop source candidate)
               in case read_bytes recovery after of
                    Err e \<Rightarrow> Err e
                  | Ok (whitespace, next_cursor) \<Rightarrow>
                      (let output = output @ whitespace
                       in case check_memory (length output) limits of
                            Err e \<Rightarrow> Err e
                          | Ok _ \<Rightarrow> if cursor < next_cursor
                              then minify_restore limits candidate recovery next_cursor position output
                              else Err TransformInternal))
      else if source \<le> length candidate then
        (let output = output @ drop source candidate
         in and_then (check_memory (length output) limits) (\<lambda>_. Ok output))
      else Err TransformInvalidInput)"
  by pat_completeness auto
termination
  by (relation "measure (\<lambda>(_, _, recovery, cursor, _, _). length recovery - cursor)") auto

declare minify_restore.simps [simp del]

definition minify_recover :: "string \<Rightarrow> string \<Rightarrow> compression_limits \<Rightarrow> recover_result" where
  "minify_recover candidate recovery limits =
     and_then (validate_recovery_inputs candidate recovery limits) (\<lambda>_.
       minify_restore limits candidate recovery 0 0 [])"

definition json_minify :: "json_codec \<Rightarrow> shadow_compressor" where
  "json_minify codec =
     \<lparr>sc_id = ''json.minify'', sc_version = 1, sc_supports = is_tool_result_json,
      sc_transform = minify_transform codec, sc_recover = minify_recover\<rparr>"

definition json_noop :: shadow_compressor where
  "json_noop =
     \<lparr>sc_id = ''json.noop'', sc_version = 1, sc_supports = is_tool_result_json,
      sc_transform = (\<lambda>input limits. and_then (bounded_vec input limits)
        (\<lambda>kept. Ok \<lparr>tr_candidate = kept, tr_recovery = []\<rparr>)),
      sc_recover = (\<lambda>candidate recovery limits. bounded_vec candidate limits)\<rparr>"

text \<open>The cursor of the recovery always moves on, so the last branch of the loop is never taken.\<close>

lemma minify_restore_turn:
  assumes "cursor < length recovery"
  shows "minify_restore limits candidate recovery cursor source output =
     and_then (read_usize recovery cursor) (\<lambda>(position, after).
       if position < source \<or> position > length candidate then Err TransformInvalidInput
       else and_then (read_bytes recovery after) (\<lambda>(whitespace, next_cursor).
         and_then (check_memory
             (length (output @ take (position - source) (drop source candidate) @ whitespace)) limits)
           (\<lambda>_. minify_restore limits candidate recovery next_cursor position
             (output @ take (position - source) (drop source candidate) @ whitespace))))"
  using assms
  by (subst minify_restore.simps)
    (auto simp: Let_def and_then_def split: result.split prod.split
      dest!: read_usize_cursor read_bytes_cursor)

section \<open>Round trip\<close>

text \<open>A gap is the white space dropped before a position of the candidate.\<close>

definition emit_gap :: "nat \<times> string \<Rightarrow> string" where
  "emit_gap gap = write_varint (u64_of_len_or_max (fst gap)) @ write_bytes (snd gap)"

fun weave :: "nat \<Rightarrow> string \<Rightarrow> (nat \<times> string) list \<Rightarrow> string" where
  "weave source tail [] = tail"
| "weave source tail ((position, whitespace) # gaps) =
     take (position - source) tail @ whitespace @ weave position (drop (position - source) tail) gaps"

fun gaps_in_order :: "nat \<Rightarrow> nat \<Rightarrow> (nat \<times> string) list \<Rightarrow> bool" where
  "gaps_in_order source limit [] \<longleftrightarrow> source \<le> limit"
| "gaps_in_order source limit ((position, whitespace) # gaps) \<longleftrightarrow>
     source \<le> position \<and> gaps_in_order position limit gaps"

lemma gaps_in_order_le: "gaps_in_order source limit gaps \<Longrightarrow> source \<le> limit"
  by (induction source limit gaps rule: gaps_in_order.induct) auto

lemma weave_shift:
  "gaps_in_order (Suc source) (Suc source + length tail) gaps \<Longrightarrow>
   weave source (b # tail) gaps = b # weave (Suc source) tail gaps"
proof (cases gaps)
  case (Cons gap rest)
  obtain position whitespace where gap: "gap = (position, whitespace)" by (cases gap)
  assume "gaps_in_order (Suc source) (Suc source + length tail) gaps"
  then have "Suc source \<le> position" by (simp add: Cons gap)
  then have "position - source = Suc (position - Suc source)" by linarith
  then show ?thesis by (simp add: Cons gap)
qed simp

lemma minify_scan_gaps:
  "\<exists>added gaps. fst (minify_scan candidate recovery in_string escaped rest) = candidate @ added \<and>
     snd (minify_scan candidate recovery in_string escaped rest) = recovery @ concat (map emit_gap gaps) \<and>
     gaps_in_order (length candidate) (length candidate + length added) gaps \<and>
     weave (length candidate) added gaps = rest"
proof (induction candidate recovery in_string escaped rest rule: minify_scan.induct)
  case (1 candidate recovery in_string escaped)
  show ?case by (rule exI [of _ "[]"], rule exI [of _ "[]"]) simp
next
  case (2 candidate recovery in_string escaped b rest)
  show ?case
  proof (cases "\<not> in_string \<and> is_ascii_whitespace b")
    case True
    let ?ws = "takeWhile is_ascii_whitespace (b # rest)"
    let ?recovery = "recovery @ write_varint (bytes_of candidate) @ write_bytes ?ws"
    let ?left = "dropWhile is_ascii_whitespace rest"
    from 2(1) [OF True refl] obtain added gaps where
      ih: "fst (minify_scan candidate ?recovery in_string escaped ?left) = candidate @ added"
      "snd (minify_scan candidate ?recovery in_string escaped ?left) = ?recovery @ concat (map emit_gap gaps)"
      "gaps_in_order (length candidate) (length candidate + length added) gaps"
      "weave (length candidate) added gaps = ?left" by blast
    have "?ws @ ?left = b # rest" using True by simp
    with ih True show ?thesis
      by (intro exI [of _ added] exI [of _ "(length candidate, ?ws) # gaps"])
        (simp add: emit_gap_def [of "(x, y)" for x y] Let_def)
  next
    case False
    obtain in_string' escaped' where
      state: "string_state in_string escaped b = (in_string', escaped')" by fastforce
    have step: "minify_scan candidate recovery in_string escaped (b # rest) =
        minify_scan (candidate @ [b]) recovery in_string' escaped' rest"
      using False by (auto simp: state)
    from 2(2) [OF False state [symmetric] refl]
    obtain added gaps where
      "fst (minify_scan candidate recovery in_string escaped (b # rest)) = candidate @ (b # added)"
      "snd (minify_scan candidate recovery in_string escaped (b # rest)) =
         recovery @ concat (map emit_gap gaps)"
      and order: "gaps_in_order (Suc (length candidate)) (Suc (length candidate) + length added) gaps"
      and "weave (Suc (length candidate)) added gaps = rest"
      unfolding step by (auto simp del: minify_scan.simps)
    moreover have "gaps_in_order (length candidate) (length candidate + length (b # added)) gaps"
      using order by (cases gaps) auto
    ultimately show ?thesis
      by (intro exI [of _ "b # added"] exI [of _ gaps]) (simp add: weave_shift)
  qed
qed

text \<open>What was kept is kept again: the candidate has no white space left to drop.\<close>

lemma minify_scan_stable:
  "\<exists>added. fst (minify_scan candidate recovery in_string escaped rest) = candidate @ added \<and>
     (\<forall>c r. minify_scan c r in_string escaped added = (c @ added, r))"
proof (induction candidate recovery in_string escaped rest rule: minify_scan.induct)
  case (1 candidate recovery in_string escaped)
  show ?case by (rule exI [of _ "[]"]) simp
next
  case (2 candidate recovery in_string escaped b rest)
  show ?case
  proof (cases "\<not> in_string \<and> is_ascii_whitespace b")
    case True
    from 2(1) [OF True refl] True show ?thesis by (simp add: Let_def)
  next
    case False
    obtain in_string' escaped' where
      state: "string_state in_string escaped b = (in_string', escaped')" by fastforce
    have step: "minify_scan c r in_string escaped (b # more_bytes) =
        minify_scan (c @ [b]) r in_string' escaped' more_bytes" for c r more_bytes
      using False by (auto simp: state)
    from 2(2) [OF False state [symmetric] refl] obtain added where
      "fst (minify_scan (candidate @ [b]) recovery in_string' escaped' rest) = (candidate @ [b]) @ added"
      and "\<forall>c r. minify_scan c r in_string' escaped' added = (c @ added, r)" by blast
    then show ?thesis
      by (intro exI [of _ "b # added"]) (simp add: step del: minify_scan.simps)
  qed
qed

lemma minify_again:
  "minify_scan [] [] False False input = (candidate, recovery) \<Longrightarrow>
   minify_scan [] [] False False candidate = (candidate, [])"
  using minify_scan_stable [of "[]" "[]" False False input] by auto

lemma minify_scan_length:
  "length (fst (minify_scan candidate recovery in_string escaped rest)) \<le> length candidate + length rest"
proof (induction candidate recovery in_string escaped rest rule: minify_scan.induct)
  case (2 candidate recovery in_string escaped b rest)
  show ?case
  proof (cases "\<not> in_string \<and> is_ascii_whitespace b")
    case True
    from 2(1) [OF True refl] length_dropWhile_le [of is_ascii_whitespace rest] True
    show ?thesis by (simp add: Let_def)
  next
    case False
    obtain in_string' escaped' where
      state: "string_state in_string escaped b = (in_string', escaped')" by fastforce
    from 2(2) [OF False state [symmetric] refl] False show ?thesis by (auto simp: state)
  qed
qed simp

text \<open>What is kept, byte by byte: everything but the white space outside strings.\<close>

fun without_spaces :: "bool \<Rightarrow> bool \<Rightarrow> string \<Rightarrow> string" where
  "without_spaces in_string escaped [] = []"
| "without_spaces in_string escaped (b # rest) =
     (if \<not> in_string \<and> is_ascii_whitespace b then without_spaces in_string escaped rest
      else let (in_string, escaped) = string_state in_string escaped b
           in b # without_spaces in_string escaped rest)"

lemma without_spaces_drop:
  "\<not> in_string \<Longrightarrow> without_spaces in_string escaped (dropWhile is_ascii_whitespace rest) =
     without_spaces in_string escaped rest"
  by (induction rest) auto

lemma minify_scan_keeps:
  "fst (minify_scan candidate recovery in_string escaped rest) =
     candidate @ without_spaces in_string escaped rest"
proof (induction candidate recovery in_string escaped rest rule: minify_scan.induct)
  case (2 candidate recovery in_string escaped b rest)
  show ?case
  proof (cases "\<not> in_string \<and> is_ascii_whitespace b")
    case True
    from 2(1) [OF True refl] True show ?thesis by (simp add: Let_def without_spaces_drop)
  next
    case False
    obtain in_string' escaped' where
      state: "string_state in_string escaped b = (in_string', escaped')" by fastforce
    from 2(2) [OF False state [symmetric] refl] False show ?thesis by (auto simp: state)
  qed
qed simp

lemma read_bytes_written:
  assumes "drop cursor input = write_bytes bytes @ rest" and "cursor \<le> length input"
    and "length input < usize_limit"
  shows "read_bytes input cursor = Ok (bytes, cursor + length (write_bytes bytes))"
proof -
  let ?after = "cursor + length (write_varint (bytes_of bytes))"
  have at: "drop cursor input = write_varint (bytes_of bytes) @ bytes @ rest"
    using assms(1) by (simp add: write_bytes_def)
  then have "drop ?after input = bytes @ rest"
    by (metis add.commute append_eq_conv_conj drop_drop)
  moreover have "length (drop cursor input) = length input - cursor" by simp
  then have fits: "?after + length bytes \<le> length input" using assms(2) unfolding at by simp
  moreover have "length bytes < 2 ^ 64" using fits assms(3) by (simp add: usize_limit_def)
  ultimately show ?thesis
    using read_usize_length [OF at] assms(3)
    by (simp add: read_bytes_def usize_checked_add_def write_bytes_def add.assoc)
qed

lemma minify_restore_gaps:
  assumes "drop cursor recovery = concat (map emit_gap gaps)" and "cursor \<le> length recovery"
    and "length recovery < usize_limit" and "length candidate < 2 ^ 64"
    and "gaps_in_order source (length candidate) gaps"
    and "length (output @ weave source (drop source candidate) gaps) \<le> unat (max_shadow_memory_bytes limits)"
  shows "minify_restore limits candidate recovery cursor source output =
    Ok (output @ weave source (drop source candidate) gaps)"
  using assms
proof (induction gaps arbitrary: cursor source "output")
  case Nil
  then have "\<not> cursor < length recovery" by simp
  with Nil show ?case
    by (subst minify_restore.simps)
      (simp add: check_memory_def word_le_nat_alt not_less unat_u64_of_len_or_max)
next
  case (Cons gap gaps)
  obtain position whitespace where gap: "gap = (position, whitespace)" by (cases gap)
  let ?p = "write_varint (u64_of_len_or_max position)"
  have at: "drop cursor recovery = ?p @ write_bytes whitespace @ concat (map emit_gap gaps)"
    using Cons.prems(1) by (simp add: gap emit_gap_def [of "(position, whitespace)"])
  have at1: "drop (cursor + length ?p) recovery = write_bytes whitespace @ concat (map emit_gap gaps)"
    using at by (metis add.commute append_eq_conv_conj drop_drop)
  have at2: "drop (cursor + length ?p + length (write_bytes whitespace)) recovery =
      concat (map emit_gap gaps)"
    using at1 by (metis add.commute append_eq_conv_conj drop_drop)
  have "length (drop cursor recovery) = length recovery - cursor" by simp
  then have fits: "cursor + length ?p + length (write_bytes whitespace) \<le> length recovery"
    using Cons.prems(2) unfolding at by simp
  have order: "source \<le> position" "gaps_in_order position (length candidate) gaps"
    using Cons.prems(5) by (simp_all add: gap)
  have position: "position \<le> length candidate" using gaps_in_order_le [OF order(2)] .
  let ?out = "output @ take (position - source) (drop source candidate) @ whitespace"
  have woven: "output @ weave source (drop source candidate) (gap # gaps) =
      ?out @ weave position (drop position candidate) gaps"
    using order(1) by (simp add: gap)
  have "minify_restore limits candidate recovery
      (cursor + length ?p + length (write_bytes whitespace)) position ?out =
    Ok (?out @ weave position (drop position candidate) gaps)"
    using Cons.prems(3,4,6) fits order(2) unfolding woven by (intro Cons.IH [OF at2]) simp_all
  moreover have "check_memory (length ?out) limits = Ok ()"
    using Cons.prems(6) unfolding woven
    by (simp add: check_memory_def word_le_nat_alt not_less unat_u64_of_len_or_max)
  moreover have "read_usize recovery cursor = Ok (position, cursor + length ?p)"
    using position Cons.prems(4) by (intro read_usize_length [OF at]) simp
  moreover have "read_bytes recovery (cursor + length ?p) =
      Ok (whitespace, cursor + length ?p + length (write_bytes whitespace))"
    using fits Cons.prems(3) by (intro read_bytes_written [OF at1]) simp_all
  moreover have "cursor < length recovery" using fits by (simp add: write_bytes_def)
      (metis at drop_all length_0_conv length_append add_is_0 linorder_not_less
        list.size(3) write_varint_nonempty)
  ultimately show ?case
    using order(1) position unfolding woven by (simp add: minify_restore_turn)
qed

interpretation noop: lossless_compressor json_noop True
  by unfold_locales (auto simp: json_noop_def and_then_eq_Ok intro: bounded_vec_again)

interpretation minify: lossless_compressor "json_minify codec" True for codec
proof unfold_locales
  fix input limits made
  assume made: "sc_transform (json_minify codec) input limits = Ok made"
    and input: "length input \<le> unat (max_shadow_memory_bytes limits)"
    and candidate: "length (tr_candidate made) \<le> unat (max_candidate_output_bytes limits)"
    and total: "length (tr_candidate made) + length (tr_recovery made) \<le> unat (max_shadow_memory_bytes limits)"
  from made have parts: "minify_scan [] [] False False input = (tr_candidate made, tr_recovery made)"
    by (auto simp: json_minify_def minify_transform_def and_then_eq_Ok Let_def split: prod.splits)
  from minify_scan_gaps [of "[]" "[]" False False input] parts obtain gaps
    where recovery: "tr_recovery made = concat (map emit_gap gaps)"
      and order: "gaps_in_order 0 (length (tr_candidate made)) gaps"
      and woven: "weave 0 (tr_candidate made) gaps = input" by auto
  have short: "length (tr_recovery made) < usize_limit" "length (tr_candidate made) < 2 ^ 64"
    using le_unat_u64 [OF total] by (simp_all add: usize_limit_def)
  have "minify_restore limits (tr_candidate made) (tr_recovery made) 0 0 [] =
      Ok ([] @ weave 0 (drop 0 (tr_candidate made)) gaps)"
    using recovery short order input woven by (intro minify_restore_gaps) simp_all
  moreover have "validate_recovery_inputs (tr_candidate made) (tr_recovery made) limits = Ok ()"
    using candidate total by (rule validate_recovery_inputs_within)
  ultimately show "sc_recover (json_minify codec) (tr_candidate made) (tr_recovery made) limits = Ok input"
    by (simp add: json_minify_def minify_recover_def woven)
qed

end
