(* ===== verification/Compression_Tables.thy ===== *)
theory Compression_Tables
  imports Compression_Strict Utf8 "HOL-Library.List_Lexorder" "HOL-Library.Char_ord"
begin

text \<open>
  The structural candidates of \<open>crates/tracepress-compression/src/json.rs\<close>: the tabular projection,
  the three readable tables and the factoring of repeated subtrees. Each of them keeps the input as
  recovery; the candidate is a rendering. A \<open>serde_json\<close> map is the list of its members in key
  order, and a \<open>BTreeMap\<close> over byte strings an association list in that order.
\<close>

fun collect_results :: "('a \<Rightarrow> ('b, 'e) result) \<Rightarrow> 'a list \<Rightarrow> ('b list, 'e) result" where
  "collect_results f [] = Ok []"
| "collect_results f (x # xs) =
     and_then (f x) (\<lambda>y. and_then (collect_results f xs) (\<lambda>ys. Ok (y # ys)))"

definition copy_bounds :: "string \<Rightarrow> string \<Rightarrow> compression_limits \<Rightarrow> (unit, transform_error) result" where
  "copy_bounds candidate recovery limits =
     (if bytes_of candidate > max_candidate_output_bytes limits \<or>
         saturating_add (bytes_of candidate) (bytes_of recovery) > max_shadow_memory_bytes limits
      then Err TransformResourceLimit else Ok ())"

text \<open>The common end: a bounded copy of the input is the recovery.\<close>

definition with_copy :: "string \<Rightarrow> string \<Rightarrow> compression_limits \<Rightarrow> transform_result" where
  "with_copy candidate input limits =
     and_then (bounded_vec input limits) (\<lambda>recovery.
     and_then (copy_bounds candidate recovery limits) (\<lambda>_.
       Ok \<lparr>tr_candidate = candidate, tr_recovery = recovery\<rparr>))"

section \<open>Rows and columns\<close>

definition parsed_rows ::
  "json_codec \<Rightarrow> string \<Rightarrow> compression_limits \<Rightarrow> (json list, transform_error) result" where
  "parsed_rows codec input limits =
     and_then (validate_json codec input limits) (\<lambda>_.
     and_then (ok_or (jc_value codec input) TransformInvalidInput) (\<lambda>document.
       ok_or (as_array document) TransformNotApplicable))"

definition first_columns :: "json list \<Rightarrow> (string list, transform_error) result" where
  "first_columns rows =
     and_then (ok_or (case rows of [] \<Rightarrow> None | row # _ \<Rightarrow> as_object row) TransformNotApplicable)
       (\<lambda>members. if members = [] then Err TransformNotApplicable else Ok (map fst members))"

text \<open>The members of a row with exactly the expected columns.\<close>

definition row_members :: "string list \<Rightarrow> json \<Rightarrow> (json_map, transform_error) result" where
  "row_members columns row =
     and_then (ok_or (as_object row) TransformNotApplicable) (\<lambda>members.
       if set (map fst members) \<noteq> set columns then Err TransformNotApplicable else Ok members)"

definition project_row :: "string list \<Rightarrow> json \<Rightarrow> (json list, transform_error) result" where
  "project_row columns row =
     and_then (row_members columns row) (\<lambda>members.
       collect_results (\<lambda>column. ok_or (map_of members column) TransformInternal) columns)"

section \<open>The tabular candidate\<close>

definition tabular_transform :: "json_codec \<Rightarrow> string \<Rightarrow> compression_limits \<Rightarrow> transform_result" where
  "tabular_transform codec input limits =
     and_then (parsed_rows codec input limits) (\<lambda>rows.
       if length rows < 2 then Err TransformNotApplicable
       else and_then (first_columns rows) (\<lambda>columns.
         and_then (collect_results (project_row columns) rows) (\<lambda>projected.
         and_then
           (ok_or (jc_to_vec codec
              (Array [Text ''TPJ2'', Array (map Text columns), Array (map Array projected)]))
              TransformInternal) (\<lambda>candidate.
           with_copy candidate input limits))))"

definition reparsed_recover ::
  "json_codec \<Rightarrow> string \<Rightarrow> string \<Rightarrow> compression_limits \<Rightarrow> recover_result" where
  "reparsed_recover codec candidate recovery limits =
     and_then (validate_recovery_inputs candidate recovery limits) (\<lambda>_.
     and_then (ok_or (jc_value codec candidate) TransformInvalidInput) (\<lambda>_.
       bounded_vec recovery limits))"

definition json_tabular :: "json_codec \<Rightarrow> shadow_compressor" where
  "json_tabular codec =
     \<lparr>sc_id = ''json.tabular'', sc_version = 1, sc_supports = is_tool_result_json,
      sc_transform = tabular_transform codec, sc_recover = reparsed_recover codec\<rparr>"

section \<open>Readable tables\<close>

datatype readable_table_style = HumanTable | CompactRecords | KeyElision

fun table_heading :: "readable_table_style \<Rightarrow> string" where
  "table_heading HumanTable = ''Tracepress table v1'' @ [CHR 0x0A]"
| "table_heading CompactRecords = ''Tracepress records v1'' @ [CHR 0x0A]"
| "table_heading KeyElision = ''Tracepress key-elision v1'' @ [CHR 0x0A]"

text \<open>The depth of a value, with the work of every visit charged.\<close>

fun json_value_depth :: "u64 \<Rightarrow> json \<Rightarrow> u32 \<Rightarrow> u64 \<Rightarrow> (u32 \<times> u64, transform_error) result"
  and element_depths ::
    "u64 \<Rightarrow> json list \<Rightarrow> u32 \<Rightarrow> u32 \<Rightarrow> u64 \<Rightarrow> (u32 \<times> u64, transform_error) result"
  and member_depths ::
    "u64 \<Rightarrow> json_map \<Rightarrow> u32 \<Rightarrow> u32 \<Rightarrow> u64 \<Rightarrow> (u32 \<times> u64, transform_error) result" where
  "json_value_depth max_work json depth work =
     (let work = saturating_add work 1
      in if work > max_work then Err TransformResourceLimit
         else case json of
                Array values \<Rightarrow> element_depths max_work values (saturating_add depth 1) depth work
              | Object members \<Rightarrow> member_depths max_work members (saturating_add depth 1) depth work
              | _ \<Rightarrow> Ok (depth, work))"
| "element_depths max_work [] depth maximum work = Ok (maximum, work)"
| "element_depths max_work (element # elements) depth maximum work =
     and_then (json_value_depth max_work element depth work) (\<lambda>(child, work).
       element_depths max_work elements depth (max maximum child) work)"
| "member_depths max_work [] depth maximum work = Ok (maximum, work)"
| "member_depths max_work ((key, element) # members) depth maximum work =
     and_then (json_value_depth max_work element depth work) (\<lambda>(child, work).
       member_depths max_work members depth (max maximum child) work)"

fun shallow_cells ::
  "u64 \<Rightarrow> json_map \<Rightarrow> string list \<Rightarrow> u64 \<Rightarrow> (json list \<times> u64, transform_error) result" where
  "shallow_cells max_work members [] work = Ok ([], work)"
| "shallow_cells max_work members (column # columns) work =
     and_then (ok_or (map_of members column) TransformInternal) (\<lambda>cell.
     and_then (json_value_depth max_work cell 0 work) (\<lambda>(depth, work).
       if depth > 8 then Err TransformNotApplicable
       else and_then (shallow_cells max_work members columns work) (\<lambda>(cells, work).
         Ok (cell # cells, work))))"

fun shallow_rows ::
  "u64 \<Rightarrow> string list \<Rightarrow> json list \<Rightarrow> u64 \<Rightarrow> (json list list, transform_error) result" where
  "shallow_rows max_work columns [] work = Ok []"
| "shallow_rows max_work columns (row # rows) work =
     and_then (row_members columns row) (\<lambda>members.
     and_then (shallow_cells max_work members columns work) (\<lambda>(cells, work).
       if work > max_work then Err TransformResourceLimit
       else and_then (shallow_rows max_work columns rows work) (\<lambda>values. Ok (cells # values))))"

definition write_json ::
  "json_codec \<Rightarrow> string \<Rightarrow> json \<Rightarrow> (string, transform_error) result" where
  "write_json codec output json =
     and_then (ok_or (jc_to_vec codec json) TransformInternal) (\<lambda>bytes. Ok (output @ bytes))"

fun write_rows ::
  "json_codec \<Rightarrow> string \<Rightarrow> string \<Rightarrow> json list list \<Rightarrow> (string, transform_error) result" where
  "write_rows codec label output [] = Ok output"
| "write_rows codec label output (row # rows) =
     and_then (write_json codec (output @ label) (Array row)) (\<lambda>output.
       write_rows codec label (output @ [CHR 0x0A]) rows)"

text \<open>Values with commas between them; \<open>first\<close> is \<open>index == 0\<close>.\<close>

fun write_commas ::
  "json_codec \<Rightarrow> bool \<Rightarrow> string \<Rightarrow> json list \<Rightarrow> (string, transform_error) result" where
  "write_commas codec first output [] = Ok output"
| "write_commas codec first output (cell # cells) =
     and_then (write_json codec (if first then output else output @ '','') cell) (\<lambda>output.
       write_commas codec False output cells)"

fun write_tuples ::
  "json_codec \<Rightarrow> string \<Rightarrow> json list list \<Rightarrow> (string, transform_error) result" where
  "write_tuples codec output [] = Ok output"
| "write_tuples codec output (row # rows) =
     and_then (write_commas codec True (output @ ''('') row) (\<lambda>output.
       write_tuples codec (output @ '')'' @ [CHR 0x0A]) rows)"

definition render_readable_table ::
  "json_codec \<Rightarrow> string list \<Rightarrow> json list list \<Rightarrow> readable_table_style \<Rightarrow> compression_limits
     \<Rightarrow> (string, transform_error) result" where
  "render_readable_table codec columns rows style limits =
     and_then
       (case style of
          HumanTable \<Rightarrow>
            and_then (write_json codec (table_heading style @ ''fields'' @ [CHR 0x09])
                (Array (map Text columns))) (\<lambda>output.
              write_rows codec (''row'' @ [CHR 0x09]) (output @ [CHR 0x0A]) rows)
        | CompactRecords \<Rightarrow>
            and_then (write_json codec (table_heading style @ ''fields: '')
                (Array (map Text columns))) (\<lambda>output.
              write_rows codec '''' (output @ [CHR 0x0A]) rows)
        | KeyElision \<Rightarrow>
            and_then (write_commas codec True (table_heading style @ ''fields('') (map Text columns))
              (\<lambda>output. write_tuples codec (output @ ''): '' @ [CHR 0x0A]) rows))
       (\<lambda>output. if bytes_of output > max_candidate_output_bytes limits
                  then Err TransformResourceLimit else Ok output)"

definition readable_table_transform ::
  "json_codec \<Rightarrow> string \<Rightarrow> compression_limits \<Rightarrow> readable_table_style \<Rightarrow> transform_result" where
  "readable_table_transform codec input limits style =
     and_then (parsed_rows codec input limits) (\<lambda>rows.
       if length rows < 2 \<or> length rows > 100000
       then Err (if length rows > 100000 then TransformResourceLimit else TransformNotApplicable)
       else and_then (first_columns rows) (\<lambda>columns.
         if length columns > 64 then Err TransformNotApplicable
         else and_then (shallow_rows (max_shadow_work_units limits) columns rows 0) (\<lambda>values.
           and_then (render_readable_table codec columns values style limits) (\<lambda>candidate.
             with_copy candidate input limits))))"

definition readable_table_recover ::
  "string \<Rightarrow> string \<Rightarrow> compression_limits \<Rightarrow> readable_table_style \<Rightarrow> recover_result" where
  "readable_table_recover candidate recovery limits style =
     and_then (validate_recovery_inputs candidate recovery limits) (\<lambda>_.
       if \<not> prefix (table_heading style) candidate \<or> \<not> utf8_ok candidate
       then Err TransformInvalidInput else bounded_vec recovery limits)"

fun table_id :: "readable_table_style \<Rightarrow> string" where
  "table_id HumanTable = ''json.readable_table''"
| "table_id CompactRecords = ''json.compact_records''"
| "table_id KeyElision = ''json.key_elision''"

text \<open>\<open>JsonReadableTable\<close>, \<open>JsonCompactRecords\<close> and \<open>JsonKeyElision\<close>.\<close>

definition json_table :: "json_codec \<Rightarrow> readable_table_style \<Rightarrow> shadow_compressor" where
  "json_table codec style =
     \<lparr>sc_id = table_id style, sc_version = 1, sc_supports = is_tool_result_json,
      sc_transform = (\<lambda>input limits. readable_table_transform codec input limits style),
      sc_recover = (\<lambda>candidate recovery limits.
        readable_table_recover candidate recovery limits style)\<rparr>"

section \<open>Repeated subtrees\<close>

text \<open>\<open>frequencies.entry(encoded).or_default()\<close> with the counter raised.\<close>

fun count_subtree :: "string \<Rightarrow> (string \<times> u64) list \<Rightarrow> (string \<times> u64) list" where
  "count_subtree key [] = [(key, saturating_add 0 1)]"
| "count_subtree key ((other, n) # rest) =
     (if key = other then (other, saturating_add n 1) # rest
      else if key < other then (key, saturating_add 0 1) # (other, n) # rest
      else (other, n) # count_subtree key rest)"

record subtree_counts =
  sb_frequencies :: "(string \<times> u64) list"
  sb_work :: u64
  sb_retained :: u64

definition enter_subtree :: "compression_limits \<Rightarrow> (unit, transform_error, subtree_counts) stateful" where
  "enter_subtree limits s =
     (let s = s\<lparr>sb_work := saturating_add (sb_work s) 1\<rparr>
      in if sb_work s > max_shadow_work_units limits then (Err TransformResourceLimit, s)
         else (Ok (), s))"

definition record_subtree ::
  "json_codec \<Rightarrow> compression_limits \<Rightarrow> json \<Rightarrow> (unit, transform_error, subtree_counts) stateful" where
  "record_subtree codec limits json s =
     (case jc_to_vec codec json of
        None \<Rightarrow> (Err TransformInternal, s)
      | Some encoded \<Rightarrow>
          (let s = s\<lparr>sb_work := saturating_add (sb_work s) (bytes_of encoded)\<rparr>
           in if sb_work s > max_shadow_work_units limits then (Err TransformResourceLimit, s)
              else if encoded \<in> set (map fst (sb_frequencies s)) then
                (Ok (), s\<lparr>sb_frequencies := count_subtree encoded (sb_frequencies s)\<rparr>)
              else case checked_add (sb_retained s) (bytes_of encoded) of
                     None \<Rightarrow> (Err TransformResourceLimit, s)
                   | Some retained \<Rightarrow>
                       (let s = s\<lparr>sb_retained := retained\<rparr>
                        in if retained > max_shadow_memory_bytes limits
                           then (Err TransformResourceLimit, s)
                           else (Ok (), s\<lparr>sb_frequencies := count_subtree encoded (sb_frequencies s)\<rparr>))))"

fun collect_subtrees ::
    "json_codec \<Rightarrow> compression_limits \<Rightarrow> json \<Rightarrow> (unit, transform_error, subtree_counts) stateful"
  and collect_elements ::
    "json_codec \<Rightarrow> compression_limits \<Rightarrow> json list \<Rightarrow> (unit, transform_error, subtree_counts) stateful"
  and collect_members ::
    "json_codec \<Rightarrow> compression_limits \<Rightarrow> json_map \<Rightarrow> (unit, transform_error, subtree_counts) stateful"
  where
  "collect_subtrees codec limits json =
     m_then (enter_subtree limits) (\<lambda>_.
       case json of
         Array elements \<Rightarrow>
           m_then (collect_elements codec limits elements) (\<lambda>_. record_subtree codec limits json)
       | Object members \<Rightarrow>
           m_then (collect_members codec limits members) (\<lambda>_. record_subtree codec limits json)
       | _ \<Rightarrow> ret ())"
| "collect_elements codec limits [] = ret ()"
| "collect_elements codec limits (element # elements) =
     m_then (collect_subtrees codec limits element) (\<lambda>_. collect_elements codec limits elements)"
| "collect_members codec limits [] = ret ()"
| "collect_members codec limits ((key, element) # members) =
     m_then (collect_subtrees codec limits element) (\<lambda>_. collect_members codec limits members)"

fun factor_value ::
    "json_codec \<Rightarrow> (string \<rightharpoonup> nat) \<Rightarrow> u64 \<Rightarrow> bool \<Rightarrow> json \<Rightarrow> u64 \<Rightarrow> (json \<times> u64, transform_error) result"
  and factor_elements ::
    "json_codec \<Rightarrow> (string \<rightharpoonup> nat) \<Rightarrow> u64 \<Rightarrow> json list \<Rightarrow> u64 \<Rightarrow> (json list \<times> u64, transform_error) result"
  and factor_members ::
    "json_codec \<Rightarrow> (string \<rightharpoonup> nat) \<Rightarrow> u64 \<Rightarrow> json_map \<Rightarrow> u64 \<Rightarrow> (json_map \<times> u64, transform_error) result"
  where
  "factor_value codec indices max_work at_root json work =
     (let work = saturating_add work 1
      in if work > max_work then Err TransformResourceLimit
         else and_then
           (if at_root then Ok None
            else and_then (ok_or (jc_to_vec codec json) TransformInternal)
                   (\<lambda>encoded. Ok (indices encoded)))
           (\<lambda>shared. case shared of
              Some index \<Rightarrow> Ok (Array [Text ''$tp_ref'', Number (PosInt (of_nat index))], work)
            | None \<Rightarrow>
                (case json of
                   Array elements \<Rightarrow>
                     and_then (factor_elements codec indices max_work elements work)
                       (\<lambda>(elements, work). Ok (Array elements, work))
                 | Object members \<Rightarrow>
                     and_then (factor_members codec indices max_work members work)
                       (\<lambda>(members, work). Ok (Object members, work))
                 | scalar \<Rightarrow> Ok (scalar, work))))"
| "factor_elements codec indices max_work [] work = Ok ([], work)"
| "factor_elements codec indices max_work (element # elements) work =
     and_then (factor_value codec indices max_work False element work) (\<lambda>(element, work).
     and_then (factor_elements codec indices max_work elements work) (\<lambda>(elements, work).
       Ok (element # elements, work)))"
| "factor_members codec indices max_work [] work = Ok ([], work)"
| "factor_members codec indices max_work ((key, element) # members) work =
     and_then (factor_value codec indices max_work False element work) (\<lambda>(element, work).
     and_then (factor_members codec indices max_work members work) (\<lambda>(members, work).
       Ok ((key, element) # members, work)))"

text \<open>The repeated subtrees worth a definition, in the order of their encodings.\<close>

definition subtree_definitions ::
  "json_codec \<Rightarrow> compression_limits \<Rightarrow> json \<Rightarrow> (json list, transform_error) result" where
  "subtree_definitions codec limits document =
     (case collect_subtrees codec limits document
         \<lparr>sb_frequencies = [], sb_work = 0, sb_retained = 0\<rparr> of
        (Err e, _) \<Rightarrow> Err e
      | (Ok _, counts) \<Rightarrow>
          collect_results (\<lambda>(bytes, n). ok_or (jc_value codec bytes) TransformInternal)
            (filter (\<lambda>(bytes, n). n > 1 \<and> length bytes \<ge> 8) (sb_frequencies counts)))"

definition factored_candidate ::
  "json_codec \<Rightarrow> compression_limits \<Rightarrow> json \<Rightarrow> json list \<Rightarrow> (string, transform_error) result" where
  "factored_candidate codec limits document definitions =
     and_then (collect_results (\<lambda>json. ok_or (jc_to_vec codec json) TransformInternal) definitions)
       (\<lambda>keys. and_then
          (factor_value codec (map_of (rev (zip keys [0..<length keys])))
             (max_shadow_work_units limits) True document 0)
          (\<lambda>(transformed, _).
             ok_or (jc_to_vec codec (Array [Text ''TPJ3'', Array definitions, transformed]))
               TransformInternal))"

definition subtree_transform :: "json_codec \<Rightarrow> string \<Rightarrow> compression_limits \<Rightarrow> transform_result" where
  "subtree_transform codec input limits =
     and_then (validate_json codec input limits) (\<lambda>_.
     and_then (ok_or (jc_value codec input) TransformInvalidInput) (\<lambda>document.
     and_then (subtree_definitions codec limits document) (\<lambda>definitions.
       if definitions = [] then Err TransformNotApplicable
       else and_then (factored_candidate codec limits document definitions) (\<lambda>candidate.
         with_copy candidate input limits))))"

definition json_repeated_subtree :: "json_codec \<Rightarrow> shadow_compressor" where
  "json_repeated_subtree codec =
     \<lparr>sc_id = ''json.repeated_subtree'', sc_version = 1, sc_supports = is_tool_result_json,
      sc_transform = subtree_transform codec, sc_recover = reparsed_recover codec\<rparr>"

section \<open>Recovery is the copy\<close>

lemma with_copy_Ok:
  "with_copy candidate input limits = Ok made \<longleftrightarrow>
   made = \<lparr>tr_candidate = candidate, tr_recovery = input\<rparr> \<and>
   bounded_vec input limits = Ok input \<and> copy_bounds candidate input limits = Ok ()"
  by (auto simp: with_copy_def and_then_eq_Ok dest: bounded_vec_Ok)

lemma copy_bounds_validate:
  "copy_bounds candidate recovery limits = Ok () \<longleftrightarrow>
   validate_recovery_inputs candidate recovery limits = Ok ()"
  by (simp add: copy_bounds_def validate_recovery_inputs_def)

text \<open>
  The tabular and the factored candidate recover exactly when \<open>serde_json\<close> reads the candidate
  back; the rendering nests deeper than the input, so that its recursion limit may refuse it.
\<close>

lemma reparsed_recovers:
  assumes "with_copy candidate input limits = Ok made"
  shows "reparsed_recover codec (tr_candidate made) (tr_recovery made) limits =
    (if jc_value codec (tr_candidate made) = None then Err TransformInvalidInput else Ok input)"
  using assms
  by (auto simp: with_copy_Ok copy_bounds_validate reparsed_recover_def and_then_def ok_or_def
      split: option.split)

lemma tabular_made:
  "tabular_transform codec input limits = Ok made \<Longrightarrow>
   with_copy (tr_candidate made) input limits = Ok made"
  by (auto simp: tabular_transform_def and_then_eq_Ok with_copy_Ok split: if_splits)

lemma subtree_made:
  "subtree_transform codec input limits = Ok made \<Longrightarrow>
   with_copy (tr_candidate made) input limits = Ok made"
  by (auto simp: subtree_transform_def and_then_eq_Ok with_copy_Ok split: if_splits)

section \<open>Readable tables are lossless\<close>

lemma utf8_ok_append: "utf8_ok a \<Longrightarrow> utf8_ok b \<Longrightarrow> utf8_ok (a @ b)"
  by (induction a rule: utf8_ok.induct) (auto split: if_splits list.splits)

definition writes_utf8 :: "json_codec \<Rightarrow> bool" where
  "writes_utf8 codec \<longleftrightarrow> (\<forall>json bytes. jc_to_vec codec json = Some bytes \<longrightarrow> utf8_ok bytes)"

text \<open>A renderer appends valid UTF-8 to what it is given.\<close>

definition appends :: "string \<Rightarrow> (string, transform_error) result \<Rightarrow> bool" where
  "appends output r \<longleftrightarrow>
     (\<forall>result. r = Ok result \<longrightarrow> prefix output result \<and> (utf8_ok output \<longrightarrow> utf8_ok result))"

lemma appends_Ok: "utf8_ok bytes \<Longrightarrow> appends output (Ok (output @ bytes))"
  by (simp add: appends_def utf8_ok_append)

lemma appends_Err [simp]: "appends output (Err e)"
  by (simp add: appends_def)

lemma appends_same [simp]: "appends output (Ok output)"
  by (simp add: appends_def)

lemma appends_then:
  assumes "appends output r" and "\<And>middle. appends middle (f middle)"
  shows "appends output (and_then r f)"
  using assms by (auto simp: appends_def and_then_eq_Ok intro: prefix_order.trans)

lemma appends_after:
  assumes "utf8_ok bytes" and "appends (output @ bytes) r"
  shows "appends output r"
  using assms by (auto simp: appends_def utf8_ok_append dest: append_prefixD)

lemma utf8_newline: "utf8_ok [CHR 0x0A]"
  by (simp add: byte_def)

lemma write_json_appends: "writes_utf8 codec \<Longrightarrow> appends output (write_json codec output json)"
  by (cases "jc_to_vec codec json") (auto simp: write_json_def writes_utf8_def intro: appends_Ok)

lemma write_rows_appends:
  assumes "writes_utf8 codec" and "utf8_ok label"
  shows "appends output (write_rows codec label output rows)"
proof (induction rows arbitrary: "output")
  case (Cons row rows)
  have "appends middle (write_rows codec label (middle @ [CHR 0x0A]) rows)" for middle
    by (rule appends_after [OF utf8_newline Cons.IH])
  moreover have "appends output (write_json codec (output @ label) (Array row))"
    by (rule appends_after [OF assms(2) write_json_appends [OF assms(1)]])
  ultimately show ?case unfolding write_rows.simps by (intro appends_then)
qed simp

lemma write_commas_appends:
  assumes "writes_utf8 codec"
  shows "appends output (write_commas codec first output cells)"
proof (induction cells arbitrary: "output" first)
  case (Cons cell cells)
  have "appends output (write_json codec (output @ '','') cell)"
    by (rule appends_after [OF _ write_json_appends [OF assms]]) (simp add: byte_def)
  then have "appends output (write_json codec (if first then output else output @ '','') cell)"
    by (cases first) (simp_all add: write_json_appends [OF assms])
  then show ?case unfolding write_commas.simps by (rule appends_then [OF _ Cons.IH])
qed simp

lemma write_tuples_appends:
  assumes "writes_utf8 codec"
  shows "appends output (write_tuples codec output rows)"
proof (induction rows arbitrary: "output")
  case (Cons row rows)
  have "appends middle (write_tuples codec (middle @ '')'' @ [CHR 0x0A]) rows)" for middle
    by (rule appends_after [OF _ Cons.IH]) (simp add: byte_def)
  moreover have "appends output (write_commas codec True (output @ ''('') row)"
    by (rule appends_after [OF _ write_commas_appends [OF assms]]) (simp add: byte_def)
  ultimately show ?case unfolding write_tuples.simps by (intro appends_then)
qed simp

lemma render_heading:
  assumes codec: "writes_utf8 codec"
    and "render_readable_table codec columns rows style limits = Ok candidate"
  shows "prefix (table_heading style) candidate \<and> utf8_ok candidate"
proof -
  let ?c = "Array (map Text columns)"
  let ?h = "table_heading style"
  have heading: "utf8_ok ?h" by (cases style) (simp_all add: byte_def)
  have head: "appends ?h (write_json codec (?h @ label) json)" if "utf8_ok label" for label json
    by (rule appends_after [OF that write_json_appends [OF codec]])
  have body: "appends middle (write_rows codec label (middle @ [CHR 0x0A]) rows)"
    if "utf8_ok label" for label middle
    by (rule appends_after [OF utf8_newline write_rows_appends [OF codec that]])
  have tuples: "appends middle (write_tuples codec (middle @ ''): '' @ [CHR 0x0A]) rows)" for middle
    by (rule appends_after [OF _ write_tuples_appends [OF codec]]) (simp add: byte_def)
  have names: "appends ?h (write_commas codec True (?h @ ''fields('') (map Text columns))"
    by (rule appends_after [OF _ write_commas_appends [OF codec]]) (simp add: byte_def)
  have labels: "utf8_ok (''fields'' @ [CHR 0x09])" "utf8_ok ''fields: ''"
    "utf8_ok (''row'' @ [CHR 0x09])" "utf8_ok []" by (simp_all add: byte_def)
  have "appends ?h (case style of
      HumanTable \<Rightarrow> and_then (write_json codec (table_heading style @ ''fields'' @ [CHR 0x09]) ?c)
        (\<lambda>output. write_rows codec (''row'' @ [CHR 0x09]) (output @ [CHR 0x0A]) rows)
    | CompactRecords \<Rightarrow> and_then (write_json codec (table_heading style @ ''fields: '') ?c)
        (\<lambda>output. write_rows codec [] (output @ [CHR 0x0A]) rows)
    | KeyElision \<Rightarrow> and_then (write_commas codec True (table_heading style @ ''fields('') (map Text columns))
        (\<lambda>output. write_tuples codec (output @ ''): '' @ [CHR 0x0A]) rows))"
  proof (cases style)
    case HumanTable
    show ?thesis
      unfolding HumanTable readable_table_style.case
      by (rule appends_then [OF head [OF labels(1), unfolded HumanTable] body [OF labels(3)]])
  next
    case CompactRecords
    show ?thesis
      unfolding CompactRecords readable_table_style.case
      by (rule appends_then [OF head [OF labels(2), unfolded CompactRecords] body [OF labels(4)]])
  next
    case KeyElision
    show ?thesis
      unfolding KeyElision readable_table_style.case
      by (rule appends_then [OF names [unfolded KeyElision] tuples])
  qed
  with assms heading show ?thesis
    by (auto simp: render_readable_table_def and_then_eq_Ok appends_def split: if_splits)
qed

interpretation table: lossless_compressor "json_table codec style" "writes_utf8 codec" for codec style
proof unfold_locales
  fix input limits made
  assume "writes_utf8 codec"
    and made: "sc_transform (json_table codec style) input limits = Ok made"
  from made obtain columns rows candidate where
    rendered: "render_readable_table codec columns rows style limits = Ok candidate"
    and copy: "with_copy candidate input limits = Ok made"
    by (auto simp: json_table_def readable_table_transform_def and_then_eq_Ok split: if_splits)
  from render_heading [OF \<open>writes_utf8 codec\<close> rendered] copy
  show "sc_recover (json_table codec style) (tr_candidate made) (tr_recovery made) limits = Ok input"
    by (auto simp: json_table_def readable_table_recover_def with_copy_Ok copy_bounds_validate)
qed

section \<open>The counted subtrees\<close>

text \<open>The table stays in key order, one entry for a key.\<close>

lemma count_subtree_keys: "set (map fst (count_subtree key fs)) = insert key (set (map fst fs))"
  by (induction key fs rule: count_subtree.induct) auto

lemma count_subtree_sorted:
  "sorted_wrt (<) (map fst fs) \<Longrightarrow> sorted_wrt (<) (map fst (count_subtree key fs))"
proof (induction key fs rule: count_subtree.induct)
  case (2 key other n rest)
  have "\<forall>k\<in>set (map fst (count_subtree key rest)). other < k" if "other < key"
    using 2(2) that unfolding count_subtree_keys by auto
  then show ?case
    using 2 by (auto intro: order.strict_trans)
qed simp

lemma count_subtree_lookup:
  assumes "sorted_wrt (<) (map fst fs)"
  shows "map_of (count_subtree key fs) = (map_of fs)(key \<mapsto>
     saturating_add (case map_of fs key of None \<Rightarrow> 0 | Some n \<Rightarrow> n) 1)"
  using assms
proof (induction key fs rule: count_subtree.induct)
  case (2 key other n rest)
  have "key \<notin> fst ` set rest" if "key < other"
    using 2(2) that by fastforce
  then have absent: "map_of rest key = None" if "key < other"
    using that by (simp add: map_of_eq_None_iff)
  show ?case
    using 2 absent by (auto simp: fun_eq_iff)
qed (simp add: fun_eq_iff)

definition counted :: "subtree_counts \<Rightarrow> bool" where
  "counted s \<longleftrightarrow> sorted_wrt (<) (map fst (sb_frequencies s))"

lemma record_subtree_counted:
  "counted s \<Longrightarrow> outcome (record_subtree codec limits json) (\<lambda>_. counted) (\<lambda>_. counted) s"
  by (auto simp: record_subtree_def outcome_def counted_def Let_def count_subtree_sorted
      split: option.split prod.split result.split)

lemma enter_subtree_counted:
  "counted s \<Longrightarrow> outcome (enter_subtree limits) (\<lambda>_. counted) (\<lambda>_. counted) s"
  by (auto simp: enter_subtree_def outcome_def counted_def Let_def)

lemma collect_counted:
  "counted s \<Longrightarrow> outcome (collect_subtrees codec limits json) (\<lambda>_. counted) (\<lambda>_. counted) s"
  "counted s \<Longrightarrow> outcome (collect_elements codec limits elements) (\<lambda>_. counted) (\<lambda>_. counted) s"
  "counted s \<Longrightarrow> outcome (collect_members codec limits members) (\<lambda>_. counted) (\<lambda>_. counted) s"
proof (induction codec limits json and codec limits elements and codec limits members
    arbitrary: s and s and s rule: collect_subtrees_collect_elements_collect_members.induct)
  case (1 codec limits json)
  note subtree = record_subtree_counted [of _ codec limits json]
  have "outcome (case json of
         Array elements \<Rightarrow>
           m_then (collect_elements codec limits elements) (\<lambda>_. record_subtree codec limits json)
       | Object members \<Rightarrow>
           m_then (collect_members codec limits members) (\<lambda>_. record_subtree codec limits json)
       | _ \<Rightarrow> ret ()) (\<lambda>_. counted) (\<lambda>_. counted) t" if t: "counted t" for t
  proof (cases json)
    case (Array elements)
    have "outcome (collect_elements codec limits elements) (\<lambda>_. counted) (\<lambda>_. counted) t"
      by (rule 1(1) [OF Array t])
    from outcome_weaken [OF this subtree] show ?thesis by (simp add: Array)
  next
    case (Object members)
    have "outcome (collect_members codec limits members) (\<lambda>_. counted) (\<lambda>_. counted) t"
      by (rule 1(2) [OF Object t])
    from outcome_weaken [OF this subtree] show ?thesis by (simp add: Object)
  qed (simp_all add: t)
  then show ?case
    unfolding collect_subtrees.simps outcome_m_then
    by (rule outcome_weaken [OF enter_subtree_counted [OF 1(3)]])
next
  case (3 codec limits element elements)
  from outcome_weaken [OF 3(1) [OF 3(3)] 3(2)] show ?case by simp
next
  case (5 codec limits key element members)
  from outcome_weaken [OF 5(1) [OF 5(3)] 5(2)] show ?case by simp
qed simp_all

end
