(* ===== verification/Compression_Evaluation.thy ===== *)
theory Compression_Evaluation
  imports Compression_Folds Compression_Json Compression_Tables
begin

text \<open>
  The properties of the shadow evaluation over the compressors of the crate: what it accepts is an
  improvement that recovers, the gates on recovery and determinism are never what stops a lossless
  compressor, and decoding, validation and minification keep their promises.
\<close>

section \<open>Samples\<close>

text \<open>Samples for the witnesses: a codec that answers every document, and a block it minifies.\<close>

definition permissive_codec :: json_codec where
  "permissive_codec =
     \<lparr>jc_value = (\<lambda>_. Some (Array [Object [(''k'', Null)], Object [(''k'', Null)]])),
      jc_string = (\<lambda>_. Some ''k''), jc_to_vec = (\<lambda>_. Some ''null'')\<rparr>"

definition sample_block :: block_metadata where
  "sample_block =
     \<lparr>bm_origin = ToolGenerated, bm_kind = ToolResult, bm_detected_kind = DetectedJson,
      bm_input_estimated_tokens = Some 3, bm_request_offset = 0, bm_request_analysis_bytes = 0,
      bm_persistence = None, bm_exact_repetition = None\<rparr>"

definition sample_minified :: transformation where
  "sample_minified = \<lparr>tr_candidate = ''[]'', tr_recovery = [CHR 0x01, CHR 0x01, CHR 0x20]\<rparr>"

lemma sample_validates: "validate_json permissive_codec ''[ ]'' compression_limits_default = Ok ()"
  by (rule empty_array_validates) (simp add: permissive_codec_def)

lemma sample_scan: "minify_scan [] [] False False ''[ ]'' = (tr_candidate sample_minified, tr_recovery sample_minified)"
  by (simp add: sample_minified_def string_state_def is_ascii_whitespace_def write_bytes_def Let_def
      write_varint_small u64_of_len_or_max_def)
     (simp add: char_of_def bit_0)

lemma sample_minifies: "minify_transform permissive_codec ''[ ]'' compression_limits_default = Ok sample_minified"
  by (simp add: minify_transform_def sample_validates sample_scan del: minify_scan.simps)
    (simp add: json_bounds_def sample_minified_def u64_of_len_or_max_def compression_limits_default_def saturating_add_def)

lemma sample_recovers:
  "sc_recover (json_minify permissive_codec) (tr_candidate sample_minified) (tr_recovery sample_minified)
     compression_limits_default = Ok ''[ ]''"
  by (rule minify.recovers)
    (simp_all add: json_minify_def sample_minifies, simp_all add: sample_minified_def compression_limits_default_def)

lemma sample_evaluation:
  "evaluate_with_estimator sha256 0 0 (json_minify permissive_codec) sample_block ''[ ]''
     compression_limits_default estimate =
   measure_candidate sha256 0 (json_minify permissive_codec) sample_block ''[ ]''
     compression_limits_default estimate True sample_minified"
proof -
  have "sc_transform (json_minify permissive_codec) ''[ ]'' compression_limits_default = Ok sample_minified"
    by (simp add: json_minify_def sample_minifies)
  then show ?thesis
  by (simp add: evaluate_with_estimator_def Let_def)
    (simp add: json_minify_def sample_block_def is_tool_result_json_def sample_minified_def
      u64_of_len_or_max_def compression_limits_default_def saturating_add_def elapsed_reading_def)
qed

lemma sample_applicable:
  "cm_status (cc_metrics (evaluate_with_estimator sha256 0 0 (json_minify permissive_codec) sample_block ''[ ]''
     compression_limits_default (\<lambda>_. Some 2))) = CandidateApplicable"
  by (simp add: sample_evaluation measure_candidate_fields sample_recovers)
    (simp add: terminal_status_def sample_minified_def sample_block_def u64_of_len_or_max_def)

lemma sample_blocks: "block_records 100 [''a'', ''b'', ''a'', ''b''] 0 = Ok [(2, [''a'', ''b''])]"
  by (simp add: block_sizes_def upt_rec count_repeats.simps saturating_add_def u64_of_len_or_max_def Let_def)

lemma sample_tabular: "sc_transform (json_tabular permissive_codec) ''[ ]'' compression_limits_default = Ok \<lparr>tr_candidate = ''null'', tr_recovery = ''[ ]''\<rparr>"
  by (simp add: json_tabular_def tabular_transform_def parsed_rows_def sample_validates)
    (simp add: permissive_codec_def first_columns_def project_row_def row_members_def with_copy_def bounded_vec_def copy_bounds_def u64_of_len_or_max_def compression_limits_default_def saturating_add_def)

lemma sample_encodes: "\<exists>made. encode_records ''TPL1'' [(2, [''a''])] compression_limits_default = Ok made \<and> length (tr_candidate made) < 20"
  by (simp add: encode_records_def compression_limits_default_def u64_of_len_or_max_def
   saturating_add_def write_varint_small)

section \<open>Acceptance\<close>

text \<open>
  C15. A candidate is accepted only when the compressor covers the block, the candidate is within
  the bounds and strictly shorter than the input, its recovery gives bytes with the digest of the
  input, and it is estimated at fewer tokens whenever both estimates are known.
\<close>

theorem applicable_candidates_improve:
  assumes "evaluate_with_estimator sha256 ms us compressor metadata input limits estimate = result"
    and "cm_status (cc_metrics result) = CandidateApplicable"
  shows "\<exists>made. sc_supports compressor metadata \<and>
      sc_transform compressor input limits = Ok made \<and> cc_candidate result = Some (tr_candidate made) \<and>
      cm_recovery_verified (cc_metrics result) \<and> cm_deterministic (cc_metrics result) \<and>
      (\<exists>recovered. sc_recover compressor (tr_candidate made) (tr_recovery made) limits = Ok recovered \<and>
         sha256 recovered = sha256 input) \<and>
      bytes_of (tr_candidate made) < bytes_of input \<and>
      bytes_of input \<le> max_candidate_input_bytes limits \<and>
      bytes_of (tr_candidate made) \<le> max_candidate_output_bytes limits \<and>
      (\<forall>before after. bm_input_estimated_tokens metadata = Some before \<longrightarrow>
         estimate (tr_candidate made) = Some after \<longrightarrow> after < before)"
  using assms by (rule evaluate_applicable)

theorem applicable_candidates_improve_witness:
  "\<exists>bytes. cc_candidate (evaluate_with_estimator (\<lambda>_. Digest32 (replicate 32 0)) 0 0
      (json_minify permissive_codec) sample_block ''[ ]'' compression_limits_default (\<lambda>_. Some 2)) = Some bytes \<and>
    bytes_of bytes < bytes_of ''[ ]''"
  using applicable_candidates_improve
    [OF refl sample_applicable [of "\<lambda>_. Digest32 (replicate 32 0)"]] by blast

section \<open>Every candidate recovers\<close>

text \<open>The compressors whose recovery does not read the candidate back with \<open>serde_json\<close>.\<close>

definition lossless_candidates ::
  "(nat \<Rightarrow> bool) \<Rightarrow> (json \<Rightarrow> string option) \<Rightarrow> json_codec \<Rightarrow> shadow_compressor set" where
  "lossless_candidates reserves to_vec codec =
     {text_noop, text_repeated_line reserves, text_repeated_run reserves,
      text_readable_line_fold to_vec, text_readable_block_fold to_vec, text_log_prefix_fold to_vec,
      json_noop, json_minify codec, json_table codec HumanTable, json_table codec CompactRecords,
      json_table codec KeyElision}"

lemma candidates_lossless:
  assumes "compressor \<in> lossless_candidates reserves to_vec codec"
    and "\<forall>n. reserves n" and "writes_utf8 codec"
  shows "lossless_compressor compressor True"
proof -
  have granted: "(\<forall>n. reserves n) = True" "writes_utf8 codec = True" using assms(2,3) by simp_all
  note laws = Compression_Folds.noop.lossless_compressor_axioms
    repeated_line.lossless_compressor_axioms [of reserves, unfolded granted]
    repeated_run.lossless_compressor_axioms [of reserves, unfolded granted]
    line_fold.lossless_compressor_axioms block_fold.lossless_compressor_axioms
    log_fold.lossless_compressor_axioms Compression_Json.noop.lossless_compressor_axioms
    minify.lossless_compressor_axioms table.lossless_compressor_axioms [of codec, unfolded granted]
  from assms(1) show ?thesis
    unfolding lossless_candidates_def by (elim insertE emptyE; simp only: laws)
qed

text \<open>
  C12. For every text compressor, the minifier and the readable tables, an evaluation that keeps a
  candidate keeps one whose recovery is exactly the input; it is never stopped by the recovery or
  the determinism gate, so the candidate is applicable or no improvement. The allocator must grant
  small reservations, the JSON writer must write UTF-8 and the memory limit be below the maximum.
\<close>

theorem shadow_candidates_recover:
  assumes "compressor \<in> lossless_candidates reserves to_vec codec"
    and "\<forall>n. reserves n" and "writes_utf8 codec" and "max_shadow_memory_bytes limits \<noteq> - 1"
    and "cc_candidate (evaluate_with_estimator sha256 ms us compressor metadata input limits estimate) =
      Some bytes"
  shows "cm_status (cc_metrics
      (evaluate_with_estimator sha256 ms us compressor metadata input limits estimate))
      \<in> {CandidateNoImprovement, CandidateApplicable} \<and>
    (\<exists>made. sc_transform compressor input limits = Ok made \<and> tr_candidate made = bytes \<and>
       sc_recover compressor bytes (tr_recovery made) limits = Ok input)"
  using lossless_compressor.evaluation_recovers
    [OF candidates_lossless [OF assms(1-3)] TrueI assms(4) refl assms(5)] by blast

theorem shadow_candidates_recover_witness:
  "cm_status (cc_metrics (evaluate_with_estimator (\<lambda>_. Digest32 (replicate 32 0)) 0 0
      (json_minify permissive_codec) sample_block ''[ ]'' compression_limits_default (\<lambda>_. Some 2)))
    \<in> {CandidateNoImprovement, CandidateApplicable}"
proof -
  have "cc_candidate (evaluate_with_estimator (\<lambda>_. Digest32 (replicate 32 0)) 0 0
      (json_minify permissive_codec) sample_block ''[ ]'' compression_limits_default (\<lambda>_. Some 2)) = Some ''[]''"
    by (simp add: sample_evaluation measure_candidate_fields) (simp add: sample_minified_def)
  moreover have "json_minify permissive_codec \<in> lossless_candidates (\<lambda>_. True) (\<lambda>_. None) permissive_codec"
    by (simp add: lossless_candidates_def)
  moreover have "writes_utf8 permissive_codec"
    by (simp add: writes_utf8_def permissive_codec_def byte_def)
  ultimately show ?thesis
    using shadow_candidates_recover [of "json_minify permissive_codec" "\<lambda>_. True" "\<lambda>_. None"
        permissive_codec compression_limits_default "\<lambda>_. Digest32 (replicate 32 0)" 0 0 sample_block
        "''[ ]''" "\<lambda>_. Some 2" "''[]''"]
    by (simp add: compression_limits_default_def)
qed

section \<open>Binary records\<close>

text \<open>
  Folding repeated blocks of lines loses nothing and invents nothing: the records expand to the
  lines of the text, in order, every pattern at least once.
\<close>

theorem folded_blocks_expand:
  assumes "block_records maximum rest work = Ok records"
  shows "expand_records records = rest \<and> (\<forall>(n, pattern)\<in>set records. 0 < n \<and> pattern \<noteq> [])"
  using block_records_Ok [OF assms] block_patterns_nonempty [OF assms] by auto

theorem folded_blocks_expand_witness:
  "expand_records [(2, [''a'', ''b''])] = [''a'', ''b'', ''a'', ''b'']"
  using folded_blocks_expand [OF sample_blocks] by simp

text \<open>
  C25. Whatever bytes are given as a candidate, decoding them produces at most as many bytes as the
  memory limit allows, or an error.
\<close>

theorem decoded_records_fit:
  assumes "decode_records reserves candidate magic limits = Ok decoded"
  shows "bytes_of decoded \<le> max_shadow_memory_bytes limits"
  using assms by (rule decode_records_bounded)

theorem decoded_records_fit_witness:
  "\<exists>candidate. decode_records (\<lambda>_. True) candidate ''TPL1'' compression_limits_default = Ok ''aa'' \<and>
    bytes_of ''aa'' \<le> max_shadow_memory_bytes compression_limits_default"
proof -
  obtain made where made: "encode_records ''TPL1'' [(2, [''a''])] compression_limits_default = Ok made"
    and short: "length (tr_candidate made) < 20" using sample_encodes by blast
  have lines: "expand_records [(2, [''a''])] = [''a'', ''a'']"
    by (simp add: expand_records_def expand_record_def numeral_2_eq_2)
  have "decode_records (\<lambda>_. True) (tr_candidate made) ''TPL1'' compression_limits_default =
      Ok (concat (expand_records [(2, [''a''])]))"
    using short by (intro decode_encoded [OF made])
      (simp_all add: lines, simp_all add: compression_limits_default_def)
  then have decoded:
    "decode_records (\<lambda>_. True) (tr_candidate made) ''TPL1'' compression_limits_default = Ok ''aa''"
    by (simp add: lines)
  with decoded_records_fit [OF decoded] show ?thesis by blast
qed

text \<open>
  A variable-length integer is read back as it was written, wherever it stands in the input,
  and the cursor moves to the byte after it.
\<close>

theorem varint_round_trip:
  "read_varint (before @ write_varint number @ after) (length before) =
     Ok (number, length before + length (write_varint number))"
  by (rule read_varint_written) simp

section \<open>Strict JSON\<close>





text \<open>
  C26. The tabular and the factored candidates keep the input as recovery but read the candidate
  back first: recovery fails exactly when the JSON parser refuses what was rendered.
\<close>

theorem reparsed_candidates_recover:
  assumes "compressor \<in> {json_tabular codec, json_repeated_subtree codec}"
    and "sc_transform compressor input limits = Ok made"
  shows "sc_recover compressor (tr_candidate made) (tr_recovery made) limits =
    (if jc_value codec (tr_candidate made) = None then Err TransformInvalidInput else Ok input)"
proof -
  have "with_copy (tr_candidate made) input limits = Ok made"
    using assms tabular_made subtree_made by (auto simp: json_tabular_def json_repeated_subtree_def)
  from reparsed_recovers [OF this] show ?thesis
    using assms(1) by (auto simp: json_tabular_def json_repeated_subtree_def)
qed

theorem reparsed_candidates_recover_witness:
  "sc_recover (json_tabular permissive_codec) ''null'' ''[ ]'' compression_limits_default = Ok ''[ ]''"
  using reparsed_candidates_recover [OF insertI1 sample_tabular] by (simp add: permissive_codec_def)

end
