(* ===== verification/Compression_Reduction.thy ===== *)
theory Compression_Reduction
  imports Compression_Tables Compression_Json
begin

unbundle bit_operations_syntax

text \<open>
  The lossy reducers of \<open>reduction.rs\<close>: what a reduction reports, the contract of a reducer, the
  three reducers of JSON results and the model of a test run. The reducer of search results is in
  its own theory. A reducer reads the clock twice, where it checks its time and where it reports
  it; the two readings are parameters.
\<close>

section \<open>What a reduction reports\<close>

datatype reduction_policy_decision = KeepFull | ReduceView | KeepFullWithCandidate | Unsupported

datatype reduction_status =
  ReductionApplicable | ReductionNotApplicable | ReductionNoImprovement | ReductionResourceLimit
| ReductionInvalidInput | ReductionInternalError

record reduction_metrics =
  rm_reducer_id :: string
  rm_reducer_version :: u32
  rm_status :: reduction_status
  rm_input_bytes :: u64
  rm_visible_bytes :: "u64 option"
  rm_gross_bytes_delta :: "u64 option"
  rm_input_estimated_tokens :: "u64 option"
  rm_visible_estimated_tokens :: "u64 option"
  rm_gross_estimated_token_delta :: "u64 option"
  rm_processing_us :: u64
  rm_omitted_fields :: u64
  rm_omitted_items :: u64
  rm_recovery_available :: bool
  rm_recovery_verified :: bool
  rm_deterministic :: bool
  rm_recovery_id :: "string option"
  rm_original_fingerprint :: digest32
  rm_visible_fingerprint :: "digest32 option"
  rm_first_modified_offset :: "u64 option"
  rm_preserved_prefix_bytes :: "u64 option"
  rm_provider_readability :: string

record reduction_candidate =
  rc_metrics :: reduction_metrics
  rc_visible :: "string option"
  rc_original :: "string option"

definition rc_recover :: "reduction_candidate \<Rightarrow> string option" where
  "rc_recover candidate = rc_original candidate"

definition rc_status :: "reduction_candidate \<Rightarrow> reduction_status" where
  "rc_status candidate = rm_status (rc_metrics candidate)"

definition with_estimates ::
  "u64 option \<Rightarrow> u64 option \<Rightarrow> reduction_candidate \<Rightarrow> reduction_candidate" where
  "with_estimates input visible candidate =
     candidate\<lparr>rc_metrics := (rc_metrics candidate)
       \<lparr>rm_input_estimated_tokens := input, rm_visible_estimated_tokens := visible,
        rm_gross_estimated_token_delta :=
          (case zip_option input visible of
             None \<Rightarrow> None
           | Some (before, after) \<Rightarrow>
               if after < before then Some (saturating_sub before after) else None)\<rparr>\<rparr>"

definition with_deterministic :: "bool \<Rightarrow> reduction_candidate \<Rightarrow> reduction_candidate" where
  "with_deterministic deterministic candidate =
     (let metrics = (rc_metrics candidate)\<lparr>rm_deterministic := deterministic\<rparr>
      in candidate\<lparr>rc_metrics :=
           (if deterministic then metrics else metrics\<lparr>rm_status := ReductionInternalError\<rparr>)\<rparr>)"

text \<open>The identifier of the local recovery: the first eight bytes of the fingerprint in base 16.\<close>

definition u64_from_be_bytes :: "u8 list \<Rightarrow> u64" where
  "u64_from_be_bytes bytes = foldl (\<lambda>w b. push_bit 8 w OR ucast b) 0 bytes"

definition hex16 :: "u64 \<Rightarrow> string" where
  "hex16 w = map (\<lambda>i. u8_char (hex_nibble (ucast (drop_bit (4 * i) w) AND 15))) (rev [0..<16])"

definition opaque_recovery_id :: "digest32 \<Rightarrow> string" where
  "opaque_recovery_id fingerprint =
     ''recovery-'' @ hex16 (u64_from_be_bytes (take 8 (digest_bytes fingerprint)))"

section \<open>Reducers\<close>

type_synonym readings = "nat \<times> nat"

record tool_result_reducer =
  rd_id :: string
  rd_version :: u32
  rd_supports :: "block_metadata \<Rightarrow> bool"
  rd_policy :: "block_metadata \<Rightarrow> u64 \<Rightarrow> reduction_policy_decision"
  rd_reduce :: "(string \<Rightarrow> digest32) \<Rightarrow> readings \<Rightarrow> string \<Rightarrow> compression_limits \<Rightarrow> reduction_candidate"

definition tool_aware_reduction_version :: u32 where
  "tool_aware_reduction_version = 1"

definition policy_above ::
  "u64 \<Rightarrow> (block_metadata \<Rightarrow> bool) \<Rightarrow> block_metadata \<Rightarrow> u64 \<Rightarrow> reduction_policy_decision" where
  "policy_above least supports metadata input_bytes =
     (if \<not> supports metadata then Unsupported
      else if input_bytes < least then KeepFull
      else KeepFullWithCandidate)"

definition refused_view ::
  "string \<Rightarrow> (string \<Rightarrow> digest32) \<Rightarrow> nat \<Rightarrow> string \<Rightarrow> reduction_status \<Rightarrow> reduction_candidate" where
  "refused_view reducer sha256 us input status =
     \<lparr>rc_metrics =
        \<lparr>rm_reducer_id = reducer, rm_reducer_version = tool_aware_reduction_version,
         rm_status = status, rm_input_bytes = bytes_of input, rm_visible_bytes = None,
         rm_gross_bytes_delta = None, rm_input_estimated_tokens = None,
         rm_visible_estimated_tokens = None, rm_gross_estimated_token_delta = None,
         rm_processing_us = elapsed_reading us, rm_omitted_fields = 0, rm_omitted_items = 0,
         rm_recovery_available = False, rm_recovery_verified = False, rm_deterministic = True,
         rm_recovery_id = None, rm_original_fingerprint = sha256 input,
         rm_visible_fingerprint = None, rm_first_modified_offset = None,
         rm_preserved_prefix_bytes = None,
         rm_provider_readability = ''human_readable_structured''\<rparr>,
      rc_visible = None, rc_original = None\<rparr>"

definition accepted_view ::
  "string \<Rightarrow> (string \<Rightarrow> digest32) \<Rightarrow> nat \<Rightarrow> string \<Rightarrow> string \<Rightarrow> u64 \<Rightarrow> u64 \<Rightarrow> reduction_candidate" where
  "accepted_view reducer sha256 us input visible omitted_fields omitted_items =
     (let shared = common_prefix_length input visible
      in \<lparr>rc_metrics =
            \<lparr>rm_reducer_id = reducer, rm_reducer_version = tool_aware_reduction_version,
             rm_status = ReductionApplicable, rm_input_bytes = bytes_of input,
             rm_visible_bytes = Some (bytes_of visible),
             rm_gross_bytes_delta = Some (saturating_sub (bytes_of input) (bytes_of visible)),
             rm_input_estimated_tokens = None, rm_visible_estimated_tokens = None,
             rm_gross_estimated_token_delta = None, rm_processing_us = elapsed_reading us,
             rm_omitted_fields = omitted_fields, rm_omitted_items = omitted_items,
             rm_recovery_available = True, rm_recovery_verified = (sha256 input = sha256 input),
             rm_deterministic = True,
             rm_recovery_id = Some (opaque_recovery_id (sha256 input)),
             rm_original_fingerprint = sha256 input,
             rm_visible_fingerprint = Some (sha256 visible),
             rm_first_modified_offset =
               (if shared < length input \<or> shared < length visible
                then Some (u64_of_len_or_max shared) else None),
             rm_preserved_prefix_bytes = Some (u64_of_len_or_max shared),
             rm_provider_readability = ''human_readable_structured''\<rparr>,
          rc_visible = Some visible, rc_original = Some input\<rparr>)"

definition over_view_limits :: "readings \<Rightarrow> string \<Rightarrow> compression_limits \<Rightarrow> string \<Rightarrow> bool" where
  "over_view_limits us input limits visible \<longleftrightarrow>
     bytes_of visible > max_candidate_output_bytes limits \<or>
     saturating_add (bytes_of visible) (bytes_of input) > max_shadow_memory_bytes limits \<or>
     elapsed_reading (fst us) > saturating_mul (max_shadow_wall_time_ms limits) 1000"

text \<open>The end the three reducers of JSON share.\<close>

definition conclude_view ::
  "string \<Rightarrow> (string \<Rightarrow> digest32) \<Rightarrow> readings \<Rightarrow> string \<Rightarrow> compression_limits \<Rightarrow> string \<times> u64 \<times> u64
     \<Rightarrow> reduction_candidate" where
  "conclude_view reducer sha256 us input limits made =
     (case made of (visible, omitted_fields, omitted_items) \<Rightarrow>
        if over_view_limits us input limits visible
        then refused_view reducer sha256 (snd us) input ReductionResourceLimit
        else if bytes_of visible \<ge> bytes_of input
        then refused_view reducer sha256 (snd us) input ReductionNoImprovement
        else accepted_view reducer sha256 (snd us) input visible omitted_fields omitted_items)"

text \<open>A reducer of JSON: the bounds on its input, what it makes of it, and the shared end.\<close>

definition reduce_with ::
  "string \<Rightarrow> (string \<Rightarrow> compression_limits \<Rightarrow> (string \<times> u64 \<times> u64, reduction_status) result)
     \<Rightarrow> (string \<Rightarrow> digest32) \<Rightarrow> readings \<Rightarrow> string \<Rightarrow> compression_limits \<Rightarrow> reduction_candidate" where
  "reduce_with reducer view sha256 us input limits =
     (if bytes_of input > max_candidate_input_bytes limits \<or>
         bytes_of input > max_shadow_memory_bytes limits
      then refused_view reducer sha256 (snd us) input ReductionResourceLimit
      else case view input limits of
          Err status \<Rightarrow> refused_view reducer sha256 (snd us) input status
        | Ok made \<Rightarrow> conclude_view reducer sha256 us input limits made)"

fun status_for_validation :: "transform_error \<Rightarrow> reduction_status" where
  "status_for_validation TransformNotApplicable = ReductionNotApplicable"
| "status_for_validation TransformResourceLimit = ReductionResourceLimit"
| "status_for_validation TransformInvalidInput = ReductionInvalidInput"
| "status_for_validation TransformInternal = ReductionInternalError"

section \<open>Empty fields\<close>

fun is_empty_value :: "json \<Rightarrow> bool" where
  "is_empty_value Null \<longleftrightarrow> True"
| "is_empty_value (Text s) \<longleftrightarrow> s = []"
| "is_empty_value (Array elements) \<longleftrightarrow> elements = []"
| "is_empty_value (Object members) \<longleftrightarrow> members = []"
| "is_empty_value _ \<longleftrightarrow> False"

text \<open>The state is the work done and the fields omitted.\<close>

fun strip_empty_fields ::
    "u64 \<Rightarrow> json \<Rightarrow> u64 \<times> u64 \<Rightarrow> (json \<times> u64 \<times> u64, transform_error) result"
  and strip_elements ::
    "u64 \<Rightarrow> json list \<Rightarrow> u64 \<times> u64 \<Rightarrow> (json list \<times> u64 \<times> u64, transform_error) result"
  and strip_members ::
    "u64 \<Rightarrow> json_map \<Rightarrow> u64 \<times> u64 \<Rightarrow> (json_map \<times> u64 \<times> u64, transform_error) result"
  where
  "strip_empty_fields max_work json (work, omitted) =
     (let work = saturating_add work 1
      in if work > max_work then Err TransformResourceLimit
         else case json of
             Object members \<Rightarrow>
               and_then (strip_members max_work members (work, omitted)) (\<lambda>(members, s).
                 Ok (Object members, s))
           | Array elements \<Rightarrow>
               and_then (strip_elements max_work elements (work, omitted)) (\<lambda>(elements, s).
                 Ok (Array elements, s))
           | other \<Rightarrow> Ok (other, work, omitted))"
| "strip_elements max_work [] s = Ok ([], s)"
| "strip_elements max_work (element # elements) s =
     and_then (strip_empty_fields max_work element s) (\<lambda>(element, s).
     and_then (strip_elements max_work elements s) (\<lambda>(elements, s).
       Ok (element # elements, s)))"
| "strip_members max_work [] s = Ok ([], s)"
| "strip_members max_work ((key, child) # members) (work, omitted) =
     (if is_empty_value child
      then strip_members max_work members (work, saturating_add omitted 1)
      else and_then (strip_empty_fields max_work child (work, omitted)) (\<lambda>(child, s).
           and_then (strip_members max_work members s) (\<lambda>(members, s).
             Ok ((key, child) # members, s))))"

definition empty_noise_view ::
  "json_codec \<Rightarrow> string \<Rightarrow> compression_limits \<Rightarrow> (string \<times> u64 \<times> u64, reduction_status) result" where
  "empty_noise_view codec input limits =
     and_then (ok_or (jc_value codec input) ReductionInvalidInput) (\<lambda>json.
     and_then (map_err (\<lambda>_. ReductionResourceLimit)
         (strip_empty_fields (max_shadow_work_units limits) json (0, 0))) (\<lambda>(reduced, _, omitted).
     and_then (ok_or (jc_to_vec codec reduced) ReductionInternalError) (\<lambda>visible.
       Ok (visible, omitted, 0))))"

definition json_empty_noise_fields :: "json_codec \<Rightarrow> tool_result_reducer" where
  "json_empty_noise_fields codec =
     \<lparr>rd_id = ''json.empty_noise_fields'', rd_version = tool_aware_reduction_version,
      rd_supports = is_tool_result_json, rd_policy = policy_above 128 is_tool_result_json,
      rd_reduce = reduce_with ''json.empty_noise_fields'' (empty_noise_view codec)\<rparr>"

section \<open>Repeated values\<close>

fun is_json_scalar :: "json \<Rightarrow> bool" where
  "is_json_scalar (Array _) \<longleftrightarrow> False"
| "is_json_scalar (Object _) \<longleftrightarrow> False"
| "is_json_scalar _ \<longleftrightarrow> True"

text \<open>Whether every row is an object with these keys and the value under the key.\<close>

definition shared_by_rows :: "string set \<Rightarrow> string \<Rightarrow> json \<Rightarrow> json list \<Rightarrow> bool" where
  "shared_by_rows keys key json rows \<longleftrightarrow>
     \<not> list_ex (\<lambda>row. case as_object row of
        None \<Rightarrow> True
      | Some members \<Rightarrow> fst ` set members \<noteq> keys \<or> map_of members key \<noteq> Some json) rows"

fun common_members ::
  "u64 \<Rightarrow> json list \<Rightarrow> json_map \<Rightarrow> string list \<Rightarrow> u64 \<Rightarrow> (json_map \<times> u64, reduction_status) result" where
  "common_members max_work rows first [] work = Ok ([], work)"
| "common_members max_work rows first (key # keys) work =
     (let work = saturating_add work (word_of_nat (length rows))
      in if work > max_work then Err ReductionResourceLimit
         else case map_of first key of
             None \<Rightarrow> Err ReductionNotApplicable
           | Some json \<Rightarrow>
               and_then (common_members max_work rows first keys work) (\<lambda>(common, work).
                 Ok (if is_json_scalar json \<and> shared_by_rows (fst ` set first) key json rows
                     then (key, json) # common else common, work)))"

fun remove_members :: "string list \<Rightarrow> json_map \<times> u64 \<Rightarrow> json_map \<times> u64" where
  "remove_members [] s = s"
| "remove_members (key # keys) (members, omitted) =
     (if map_of members key \<noteq> None
      then remove_members keys (filter (\<lambda>member. fst member \<noteq> key) members, saturating_add omitted 1)
      else remove_members keys (members, omitted))"

fun elide_rows ::
  "u64 \<Rightarrow> string list \<Rightarrow> json list \<Rightarrow> u64 \<times> u64 \<Rightarrow> (json list \<times> u64, reduction_status) result" where
  "elide_rows max_work keys [] (work, omitted) = Ok ([], omitted)"
| "elide_rows max_work keys (row # rows) (work, omitted) =
     and_then (ok_or (as_object row) ReductionNotApplicable) (\<lambda>members.
       let (members, omitted) = remove_members keys (members, omitted);
           work = saturating_add work 1
       in if work > max_work then Err ReductionResourceLimit
          else and_then (elide_rows max_work keys rows (work, omitted)) (\<lambda>(rows, omitted).
            Ok (Object members # rows, omitted)))"

definition elided_value ::
  "json_codec \<Rightarrow> string \<Rightarrow> compression_limits \<Rightarrow> (json \<times> u64, reduction_status) result" where
  "elided_value codec input limits =
     and_then (map_err status_for_validation (validate_json codec input limits)) (\<lambda>_.
       case jc_value codec input of
         Some (Array rows) \<Rightarrow>
           if length rows < 2 then Err ReductionNotApplicable
           else (case as_object (hd rows) of
               Some first \<Rightarrow>
                 if first = [] then Err ReductionNotApplicable
                 else and_then
                   (common_members (max_shadow_work_units limits) rows first
                      (sorted_list_of_set (fst ` set first)) 0)
                   (\<lambda>(common, work).
                     if common = [] then Err ReductionNotApplicable
                     else and_then
                       (elide_rows (max_shadow_work_units limits) (map fst common) rows (work, 0))
                       (\<lambda>(reduced, omitted).
                         Ok (Object [(''common'', Object common), (''rows'', Array reduced)], omitted)))
             | None \<Rightarrow> Err ReductionNotApplicable)
       | _ \<Rightarrow> Err ReductionNotApplicable)"

definition repeated_value_view ::
  "json_codec \<Rightarrow> string \<Rightarrow> compression_limits \<Rightarrow> (string \<times> u64 \<times> u64, reduction_status) result" where
  "repeated_value_view codec input limits =
     and_then (elided_value codec input limits) (\<lambda>(reduced, omitted).
     and_then (ok_or (jc_to_vec codec reduced) ReductionInternalError) (\<lambda>visible.
       Ok (visible, omitted, 0)))"

definition json_repeated_value_elision :: "json_codec \<Rightarrow> tool_result_reducer" where
  "json_repeated_value_elision codec =
     \<lparr>rd_id = ''json.repeated_value_elision'', rd_version = tool_aware_reduction_version,
      rd_supports = is_tool_result_json, rd_policy = policy_above 128 is_tool_result_json,
      rd_reduce = reduce_with ''json.repeated_value_elision'' (repeated_value_view codec)\<rparr>"

section \<open>Shell output\<close>

definition shell_head_lines :: nat where "shell_head_lines = 24"
definition shell_tail_lines :: nat where "shell_tail_lines = 24"

fun split_on :: "char \<Rightarrow> string \<Rightarrow> string list" where
  "split_on sep [] = [[]]"
| "split_on sep (c # rest) =
     (if c = sep then [] # split_on sep rest
      else case split_on sep rest of
          field # parts \<Rightarrow> (c # field) # parts
        | [] \<Rightarrow> [[c]])"

fun join_with :: "string \<Rightarrow> string list \<Rightarrow> string" where
  "join_with sep [] = []"
| "join_with sep [part] = part"
| "join_with sep (part # parts) = part @ sep @ join_with sep parts"

definition shell_output_key :: "json_map \<Rightarrow> string option" where
  "shell_output_key members =
     find (\<lambda>key. case map_of members key of
        Some (Text output) \<Rightarrow> newline \<in> set output | _ \<Rightarrow> False) [''stdout'', ''output'']"

definition projected_output :: "string list \<Rightarrow> string" where
  "projected_output lines =
     join_with [newline] (take shell_head_lines lines)
       @ [newline] @ ''[Tracepress omitted ''
       @ decimal (length lines - (shell_head_lines + shell_tail_lines))
       @ '' output lines; local recovery is available]'' @ [newline]
       @ join_with [newline] (drop (length lines - shell_tail_lines) lines)"

definition replace_member :: "string \<Rightarrow> json \<Rightarrow> json_map \<Rightarrow> json_map" where
  "replace_member key json members = map (\<lambda>(k, v). if k = key then (k, json) else (k, v)) members"

definition projected_object ::
  "json_codec \<Rightarrow> string \<Rightarrow> compression_limits \<Rightarrow> (json_map \<times> nat, reduction_status) result" where
  "projected_object codec input limits =
     and_then (map_err status_for_validation (validate_json codec input limits)) (\<lambda>_.
       case jc_value codec input of
         Some (Object members) \<Rightarrow>
           if map_of members ''exit_code'' = None \<and> map_of members ''status'' = None
           then Err ReductionNotApplicable
           else (case shell_output_key members of
               None \<Rightarrow> Err ReductionNotApplicable
             | Some key \<Rightarrow>
                 (case map_of members key of
                    Some (Text output) \<Rightarrow>
                      let lines = split_on newline output
                      in if length lines \<le> shell_head_lines + shell_tail_lines + 1
                         then Err ReductionNoImprovement
                         else if saturating_add (u64_of_len_or_max (length lines)) (bytes_of input)
                                > max_shadow_work_units limits
                         then Err ReductionResourceLimit
                         else Ok (replace_member key (Text (projected_output lines)) members,
                                  length lines - (shell_head_lines + shell_tail_lines))
                  | _ \<Rightarrow> Err ReductionNotApplicable))
       | _ \<Rightarrow> Err ReductionNotApplicable)"

definition shell_projection_view ::
  "json_codec \<Rightarrow> string \<Rightarrow> compression_limits \<Rightarrow> (string \<times> u64 \<times> u64, reduction_status) result" where
  "shell_projection_view codec input limits =
     and_then (projected_object codec input limits) (\<lambda>(members, omitted_items).
     and_then (ok_or (jc_to_vec codec (Object members)) ReductionInternalError) (\<lambda>visible.
       Ok (visible, 0, u64_of_len_or_max omitted_items)))"

definition shell_diagnostic_projection :: "json_codec \<Rightarrow> tool_result_reducer" where
  "shell_diagnostic_projection codec =
     \<lparr>rd_id = ''shell.diagnostic_projection'', rd_version = tool_aware_reduction_version,
      rd_supports = is_tool_result_json, rd_policy = policy_above 256 is_tool_result_json,
      rd_reduce = reduce_with ''shell.diagnostic_projection'' (shell_projection_view codec)\<rparr>"

section \<open>What a reducer promises\<close>

text \<open>
  The contract of a view: it is shorter than the input, within the bounds, and the input is kept;
  without a view nothing is kept and nothing is claimed.
\<close>

definition sound_view :: "string \<Rightarrow> compression_limits \<Rightarrow> reduction_candidate \<Rightarrow> bool" where
  "sound_view input limits candidate \<longleftrightarrow>
     (case rc_visible candidate of
        None \<Rightarrow> rc_original candidate = None \<and> rc_status candidate \<noteq> ReductionApplicable
      | Some visible \<Rightarrow>
          rc_status candidate = ReductionApplicable \<and> rc_original candidate = Some input \<and>
          bytes_of visible < bytes_of input \<and>
          bytes_of visible \<le> max_candidate_output_bytes limits \<and>
          rm_gross_bytes_delta (rc_metrics candidate) = Some (bytes_of input - bytes_of visible))"

lemma sound_refused:
  "status \<noteq> ReductionApplicable \<Longrightarrow> sound_view input limits (refused_view reducer sha256 us input status)"
  by (simp add: sound_view_def refused_view_def rc_status_def)

lemma sound_accepted:
  "bytes_of visible < bytes_of input \<Longrightarrow> bytes_of visible \<le> max_candidate_output_bytes limits \<Longrightarrow>
   sound_view input limits (accepted_view reducer sha256 us input visible fields_left items_left)"
  by (simp add: sound_view_def accepted_view_def rc_status_def Let_def saturating_sub_def less_imp_le)

lemma shorter_bytes: "bytes_of a < bytes_of b \<Longrightarrow> length a < length b"
  by (auto simp: word_less_nat_alt unat_u64_of_len_or_max)

locale view_reducer =
  fixes reducer :: tool_result_reducer
  assumes view: "sound_view input limits (rd_reduce reducer sha256 us input limits)"
begin

lemma visible_is_shorter:
  assumes "rc_visible (rd_reduce reducer sha256 us input limits) = Some visible"
  shows "length visible < length input \<and>
    rc_recover (rd_reduce reducer sha256 us input limits) = Some input \<and>
    bytes_of visible \<le> max_candidate_output_bytes limits"
  using view [of input limits sha256 us] assms shorter_bytes
  by (auto simp: sound_view_def rc_recover_def)

lemma applicable_is_visible:
  "rc_status (rd_reduce reducer sha256 us input limits) = ReductionApplicable \<longleftrightarrow>
   rc_visible (rd_reduce reducer sha256 us input limits) \<noteq> None"
  using view [of input limits sha256 us] by (auto simp: sound_view_def split: option.splits)

end

lemma reduce_with_sound:
  assumes "\<And>status. view input limits = Err status \<Longrightarrow> status \<noteq> ReductionApplicable"
  shows "sound_view input limits (reduce_with reducer view sha256 us input limits)"
  using assms
  by (auto simp: reduce_with_def conclude_view_def over_view_limits_def not_less not_le
      split: result.split prod.split intro!: sound_refused sound_accepted)

lemma status_for_validation_not [simp]: "status_for_validation e \<noteq> ReductionApplicable"
  by (cases e) simp_all

lemma validation_refuses:
  "map_err status_for_validation r = Err status \<Longrightarrow> status \<noteq> ReductionApplicable"
  by (cases r) auto

lemma empty_noise_refuses: "empty_noise_view codec input limits = Err status \<Longrightarrow> status \<noteq> ReductionApplicable"
  by (auto simp: empty_noise_view_def and_then_eq_Err ok_or_def map_err_def
      split: option.splits result.splits)

lemma common_members_refuses:
  "common_members max_work rows first keys work = Err status \<Longrightarrow> status \<noteq> ReductionApplicable"
  by (induction max_work rows first keys work rule: common_members.induct)
    (auto simp: Let_def and_then_eq_Err split: if_splits option.splits)

lemma elide_rows_refuses:
  "elide_rows max_work keys rows (work, omitted) = Err status \<Longrightarrow> status \<noteq> ReductionApplicable"
  by (induction rows arbitrary: work omitted)
    (auto simp: Let_def and_then_eq_Err ok_or_def split: if_splits option.splits prod.splits)

lemma elided_refuses: "elided_value codec input limits = Err status \<Longrightarrow> status \<noteq> ReductionApplicable"
  by (auto simp: elided_value_def and_then_eq_Err dest: validation_refuses common_members_refuses
      elide_rows_refuses split: option.splits json.splits if_splits)

lemma repeated_value_refuses:
  "repeated_value_view codec input limits = Err status \<Longrightarrow> status \<noteq> ReductionApplicable"
  by (auto simp: repeated_value_view_def and_then_eq_Err ok_or_def dest: elided_refuses
      split: option.splits)

lemma projected_refuses:
  "projected_object codec input limits = Err status \<Longrightarrow> status \<noteq> ReductionApplicable"
  by (auto simp: projected_object_def and_then_eq_Err Let_def dest: validation_refuses
      split: option.splits json.splits if_splits)

lemma shell_projection_refuses:
  "shell_projection_view codec input limits = Err status \<Longrightarrow> status \<noteq> ReductionApplicable"
  by (auto simp: shell_projection_view_def and_then_eq_Err ok_or_def dest: projected_refuses
      split: option.splits)

interpretation empty_noise: view_reducer "json_empty_noise_fields codec" for codec
  by unfold_locales (auto simp: json_empty_noise_fields_def intro!: reduce_with_sound empty_noise_refuses)

interpretation repeated_value: view_reducer "json_repeated_value_elision codec" for codec
  by unfold_locales
    (auto simp: json_repeated_value_elision_def intro!: reduce_with_sound repeated_value_refuses)

interpretation shell_projection: view_reducer "shell_diagnostic_projection codec" for codec
  by unfold_locales
    (auto simp: shell_diagnostic_projection_def intro!: reduce_with_sound shell_projection_refuses)

section \<open>What stripping keeps\<close>

text \<open>The fields of a document at every depth, and documents whose fields all hold something.\<close>

fun field_count :: "json \<Rightarrow> nat" and element_fields :: "json list \<Rightarrow> nat"
  and member_fields :: "json_map \<Rightarrow> nat" where
  "field_count json =
     (case json of Array elements \<Rightarrow> element_fields elements
      | Object members \<Rightarrow> member_fields members | _ \<Rightarrow> 0)"
| "element_fields [] = 0"
| "element_fields (element # elements) = field_count element + element_fields elements"
| "member_fields [] = 0"
| "member_fields ((key, child) # members) = Suc (field_count child + member_fields members)"

definition holds_something :: "json \<Rightarrow> bool" where
  "holds_something json \<longleftrightarrow> json \<noteq> Null \<and> json \<noteq> Text [] \<and> json \<noteq> Array []"

fun noise_free :: "json \<Rightarrow> bool" and elements_noise_free :: "json list \<Rightarrow> bool"
  and members_noise_free :: "json_map \<Rightarrow> bool" where
  "noise_free json \<longleftrightarrow>
     (case json of Array elements \<Rightarrow> elements_noise_free elements
      | Object members \<Rightarrow> members_noise_free members | _ \<Rightarrow> True)"
| "elements_noise_free [] \<longleftrightarrow> True"
| "elements_noise_free (element # elements) \<longleftrightarrow> noise_free element \<and> elements_noise_free elements"
| "members_noise_free [] \<longleftrightarrow> True"
| "members_noise_free ((key, child) # members) \<longleftrightarrow>
     holds_something child \<and> noise_free child \<and> members_noise_free members"

lemma empty_value_fields: "is_empty_value child \<Longrightarrow> field_count child = 0"
  by (cases child) auto

lemma strip_keeps_elements:
  "strip_elements max_work elements s = Ok (elements', s') \<Longrightarrow> length elements' = length elements"
  by (induction elements arbitrary: s elements' s')
    (auto simp: and_then_eq_Ok split: prod.splits)

lemma strip_keeps_something:
  assumes "strip_empty_fields max_work child s = Ok (child', s')" and "\<not> is_empty_value child"
  shows "holds_something child'"
  using assms
  by (cases s; cases child)
    (auto simp: Let_def and_then_eq_Ok holds_something_def dest!: strip_keeps_elements split: if_splits)

lemma strip_counts:
  "strip_empty_fields max_work json s = Ok (json', s') \<Longrightarrow> unat (snd s) + field_count json < 2 ^ 64 \<Longrightarrow>
     unat (snd s') + field_count json' = unat (snd s) + field_count json \<and> noise_free json'"
  "strip_elements max_work elements s = Ok (elements', s') \<Longrightarrow>
     unat (snd s) + element_fields elements < 2 ^ 64 \<Longrightarrow>
     unat (snd s') + element_fields elements' = unat (snd s) + element_fields elements \<and>
     elements_noise_free elements'"
  "strip_members max_work members s = Ok (members', s') \<Longrightarrow>
     unat (snd s) + member_fields members < 2 ^ 64 \<Longrightarrow>
     unat (snd s') + member_fields members' = unat (snd s) + member_fields members \<and>
     members_noise_free members'"
proof (induction max_work json s and max_work elements s and max_work members s
    arbitrary: json' s' and elements' s' and members' s'
    rule: strip_empty_fields_strip_elements_strip_members.induct)
  case (1 max_work json work omitted)
  then show ?case
    by (cases json) (auto simp: Let_def and_then_eq_Ok split: if_splits)
next
  case (3 max_work element elements s)
  then obtain e1 s1 e2 where first: "strip_empty_fields max_work element s = Ok (e1, s1)"
    and rest: "strip_elements max_work elements s1 = Ok (e2, s')" and made: "elements' = e1 # e2"
    by (auto simp: and_then_eq_Ok)
  have "unat (snd s1) + field_count e1 = unat (snd s) + field_count element \<and> noise_free e1"
    using 3(1) [OF first] 3(4) by simp
  moreover from this have "unat (snd s') + element_fields e2 = unat (snd s1) + element_fields elements \<and>
      elements_noise_free e2"
    using 3(2) [OF rest] 3(4) by simp
  ultimately show ?case by (simp add: made del: field_count.simps noise_free.simps)
next
  case (5 max_work key child members work omitted)
  show ?case
  proof (cases "is_empty_value child")
    case True
    have "unat (saturating_add omitted 1) = Suc (unat omitted)"
      using 5(5) by (simp add: unat_saturating_add)
    with 5 True show ?thesis by (simp add: empty_value_fields del: field_count.simps)
  next
    case False
    with 5(4) obtain e1 s1 e2 where first: "strip_empty_fields max_work child (work, omitted) = Ok (e1, s1)"
      and rest: "strip_members max_work members s1 = Ok (e2, s')" and made: "members' = (key, e1) # e2"
      by (auto simp: and_then_eq_Ok)
    have "unat (snd s1) + field_count e1 = unat omitted + field_count child \<and> noise_free e1"
      using 5(2) [OF False first] 5(5) by simp
    moreover from this have "unat (snd s') + member_fields e2 = unat (snd s1) + member_fields members \<and>
        members_noise_free e2"
      using 5(3) [OF False rest] 5(5) by simp
    moreover have "holds_something e1" using strip_keeps_something [OF first False] .
    ultimately show ?thesis by (simp add: made del: field_count.simps noise_free.simps)
  qed
qed auto

end
