(* ===== verification/Compression_Search.thy ===== *)
theory Compression_Search
  imports Compression_Reduction "HOL-Library.Product_Lexorder" "HOL-Library.Multiset"
begin

text \<open>
  The model of search results and their reducer in \<open>reduction.rs\<close>: lines of \<open>rg\<close>, of its JSON
  output or of a grouped view are parsed into matches, and the matches are rendered by file. The
  result may also be one string inside a JSON envelope, whose other bytes are kept.
\<close>

section \<open>Text\<close>

definition split_once :: "char \<Rightarrow> string \<Rightarrow> (string \<times> string) option" where
  "split_once sep s =
     (if sep \<in> set s then Some (takeWhile (\<lambda>c. c \<noteq> sep) s, tl (dropWhile (\<lambda>c. c \<noteq> sep) s)) else None)"

text \<open>\<open>str::parse::<u64>\<close>: digits, perhaps after a plus sign, that fit.\<close>

fun decimal_value :: "string \<Rightarrow> nat \<Rightarrow> nat option" where
  "decimal_value [] n = Some n"
| "decimal_value (c # rest) n =
     (if is_ascii_digit c then decimal_value rest (10 * n + (byte c - 48)) else None)"

definition parse_u64 :: "string \<Rightarrow> u64 option" where
  "parse_u64 s =
     (let digits = (case s of c # rest \<Rightarrow> if c = CHR ''+'' then rest else s | [] \<Rightarrow> [])
      in if digits = [] then None
         else case decimal_value digits 0 of
             Some n \<Rightarrow> if n < 2 ^ 64 then Some (word_of_nat n) else None
           | None \<Rightarrow> None)"

fun escape_newlines :: "string \<Rightarrow> string" where
  "escape_newlines [] = []"
| "escape_newlines (c # rest) =
     (if c = newline then CHR 0x5C # CHR ''n'' # escape_newlines rest else c # escape_newlines rest)"

fun restore_newlines :: "string \<Rightarrow> string" where
  "restore_newlines (a # b # rest) =
     (if a = CHR 0x5C \<and> b = CHR ''n'' then newline # restore_newlines rest
      else a # restore_newlines (b # rest))"
| "restore_newlines s = s"

section \<open>Matches\<close>

record search_match =
  mt_file :: string
  mt_line :: u64
  mt_text :: string

record search_result_model =
  sr_matches :: "search_match list"
  sr_summary :: "string list"

definition match_key :: "search_match \<Rightarrow> string \<times> u64 \<times> string" where
  "match_key m = (mt_file m, mt_line m, mt_text m)"

text \<open>What the loop over the lines has found, and the file of the group it is in.\<close>

record search_state =
  st_file :: "string option"
  st_matches :: "search_match list"
  st_summary :: "string list"

definition add_match :: "string \<Rightarrow> u64 \<Rightarrow> string \<Rightarrow> search_state \<Rightarrow> search_state" where
  "add_match file number line s =
     s\<lparr>st_matches := st_matches s @ [\<lparr>mt_file = file, mt_line = number, mt_text = line\<rparr>]\<rparr>"

definition add_summary :: "string \<Rightarrow> search_state \<Rightarrow> search_state" where
  "add_summary line s = s\<lparr>st_summary := st_summary s @ [line]\<rparr>"

definition event_type :: "json \<Rightarrow> string option" where
  "event_type json = Option.bind (json_get json ''type'') as_str"

definition number_member :: "json \<Rightarrow> string \<Rightarrow> u64 option" where
  "number_member json key =
     (case json_get json key of Some (Number n) \<Rightarrow> number_as_u64 n | _ \<Rightarrow> None)"

definition nested_text :: "json \<Rightarrow> string \<Rightarrow> string option" where
  "nested_text json key =
     Option.bind (Option.bind (json_get json key) (\<lambda>inner. json_get inner ''text'')) as_str"

definition trim_line_end :: "string \<Rightarrow> string" where
  "trim_line_end s = rev (dropWhile (\<lambda>c. c = CHR 0x0D \<or> c = newline) (rev s))"

text \<open>A line that is JSON; a match without its data stops the whole parse.\<close>

definition parse_event :: "json \<Rightarrow> search_state \<Rightarrow> search_state option" where
  "parse_event json s =
     (if event_type json = Some ''match''
      then Option.bind (json_get json ''data'') (\<lambda>data.
           Option.bind (nested_text data ''path'') (\<lambda>file.
           Option.bind (number_member data ''line_number'') (\<lambda>number.
           Option.bind (nested_text data ''lines'') (\<lambda>line.
             Some (add_match file number (trim_line_end line) s)))))
      else if event_type json \<noteq> Some ''begin'' \<and> event_type json \<noteq> Some ''end'' \<and>
              event_type json \<noteq> Some ''summary''
      then Some (add_summary ''structured_event'' s)
      else Some s)"

definition parse_plain :: "string \<Rightarrow> search_state \<Rightarrow> search_state" where
  "parse_plain line s =
     (case split_once CHR 0x3A line of
        None \<Rightarrow> add_summary line s
      | Some (file, rest) \<Rightarrow>
          (case split_once CHR 0x3A rest of
             None \<Rightarrow> add_summary line s
           | Some (number, body) \<Rightarrow>
               (case parse_u64 number of
                  None \<Rightarrow> add_summary line s
                | Some number \<Rightarrow> add_match file number body s)))"

definition grouped_row :: "string \<Rightarrow> search_state \<Rightarrow> (string \<times> u64 \<times> string) option" where
  "grouped_row line s =
     Option.bind (st_file s) (\<lambda>file.
     Option.bind (split_once CHR 0x09 line) (\<lambda>(number, body).
     Option.bind (parse_u64 number) (\<lambda>number. Some (file, number, body))))"

definition group_heading :: "string \<Rightarrow> string option" where
  "group_heading line =
     (case strip_suffix '':'' line of
        Some file \<Rightarrow> if file \<noteq> [] \<and> CHR '' '' \<notin> set file then Some file else None
      | None \<Rightarrow> None)"

definition parse_line :: "json_codec \<Rightarrow> string \<Rightarrow> search_state \<Rightarrow> search_state option" where
  "parse_line codec line s =
     (if line = [] \<or> line = ''[search results]'' then Some s
      else case group_heading line of
          Some file \<Rightarrow> Some (s\<lparr>st_file := Some file\<rparr>)
        | None \<Rightarrow>
            (case grouped_row line s of
               Some (file, number, body) \<Rightarrow> Some (add_match file number (restore_newlines body) s)
             | None \<Rightarrow>
                 (case jc_value codec line of
                    Some json \<Rightarrow> parse_event json s
                  | None \<Rightarrow> Some (parse_plain line s))))"

fun parse_lines :: "json_codec \<Rightarrow> string list \<Rightarrow> search_state \<Rightarrow> search_state option" where
  "parse_lines codec [] s = Some s"
| "parse_lines codec (line # lines) s =
     (case parse_line codec line s of None \<Rightarrow> None | Some s \<Rightarrow> parse_lines codec lines s)"

definition search_parse :: "json_codec \<Rightarrow> string \<Rightarrow> compression_limits \<Rightarrow> search_result_model option" where
  "search_parse codec input limits =
     (case u64_of_len (length input) of
        None \<Rightarrow> None
      | Some n \<Rightarrow>
          if n > max_candidate_input_bytes limits \<or> \<not> utf8_ok input then None
          else (case parse_lines codec (str_lines input)
                  \<lparr>st_file = None, st_matches = [], st_summary = []\<rparr> of
              None \<Rightarrow> None
            | Some s \<Rightarrow>
                if st_matches s = [] then None
                else Some \<lparr>sr_matches = sort_key match_key (st_matches s), sr_summary = st_summary s\<rparr>))"

definition render_match :: "search_match \<Rightarrow> string" where
  "render_match m = decimal (unat (mt_line m)) @ [CHR 0x09] @ escape_newlines (mt_text m) @ [newline]"

definition render_group :: "search_match list \<Rightarrow> string \<Rightarrow> string" where
  "render_group matches file =
     file @ '':'' @ [newline] @ concat (map render_match (filter (\<lambda>m. mt_file m = file) matches))"

definition matched_files :: "search_match list \<Rightarrow> string list" where
  "matched_files matches = sorted_list_of_set (mt_file ` set matches)"

definition render_grouped :: "search_result_model \<Rightarrow> string" where
  "render_grouped model =
     ''[search results]'' @ [newline]
       @ concat (map (render_group (sr_matches model)) (matched_files (sr_matches model)))"

section \<open>Envelopes\<close>

text \<open>The bytes up to the closing quote of a string.\<close>

fun string_end :: "bool \<Rightarrow> string \<Rightarrow> nat option" where
  "string_end escaped [] = None"
| "string_end escaped (b # rest) =
     (if escaped then map_option Suc (string_end False rest)
      else if b = CHR 0x5C then map_option Suc (string_end True rest)
      else if b = CHR 0x22 then Some 1
      else map_option Suc (string_end False rest))"

definition over_maximum :: "nat \<Rightarrow> u32 \<Rightarrow> bool" where
  "over_maximum n maximum \<longleftrightarrow> min n (2 ^ 32 - 1) > unat maximum"

function token_ranges ::
  "u32 \<Rightarrow> nat \<Rightarrow> nat \<Rightarrow> string \<Rightarrow> ((nat \<times> nat) list, reduction_status) result" where
  "token_ranges maximum n index [] = Ok []"
| "token_ranges maximum n index (b # rest) =
     (if b \<noteq> CHR 0x22 then token_ranges maximum n (Suc index) rest
      else case string_end False rest of
          None \<Rightarrow> Err ReductionInvalidInput
        | Some k \<Rightarrow>
            if over_maximum (Suc n) maximum then Err ReductionResourceLimit
            else and_then (token_ranges maximum (Suc n) (Suc (index + k)) (drop k rest)) (\<lambda>ranges.
              Ok ((index, Suc (index + k)) # ranges)))"
  by pat_completeness auto
termination
  by (relation "measure (\<lambda>(_, _, _, rest). length rest)") auto

definition json_string_token_ranges ::
  "json_codec \<Rightarrow> string \<Rightarrow> u32 \<Rightarrow> ((nat \<times> nat) list, reduction_status) result" where
  "json_string_token_ranges codec input maximum =
     (if jc_value codec input = None then Err ReductionInvalidInput
      else token_ranges maximum 0 0 input)"

definition range_bytes :: "string \<Rightarrow> nat \<times> nat \<Rightarrow> string" where
  "range_bytes input r = take (snd r - fst r) (drop (fst r) input)"

definition replace_range :: "string \<Rightarrow> nat \<times> nat \<Rightarrow> string \<Rightarrow> string" where
  "replace_range input r replacement = take (fst r) input @ replacement @ drop (snd r) input"

text \<open>The only string of the envelope that holds search results.\<close>

fun sole_search ::
  "json_codec \<Rightarrow> string \<Rightarrow> compression_limits \<Rightarrow> (nat \<times> nat) list
     \<Rightarrow> ((nat \<times> nat) \<times> search_result_model) option \<Rightarrow> ((nat \<times> nat) \<times> search_result_model) option" where
  "sole_search codec input limits [] found = found"
| "sole_search codec input limits (r # ranges) found =
     (case jc_string codec (range_bytes input r) of
        None \<Rightarrow> None
      | Some decoded \<Rightarrow>
          (case search_parse codec decoded limits of
             None \<Rightarrow> sole_search codec input limits ranges found
           | Some model \<Rightarrow>
               if sr_matches model = [] then sole_search codec input limits ranges found
               else if found \<noteq> None then None
               else sole_search codec input limits ranges (Some (r, model))))"

definition search_json_envelope_view ::
  "json_codec \<Rightarrow> string \<Rightarrow> compression_limits \<Rightarrow> (search_result_model \<times> string) option" where
  "search_json_envelope_view codec input limits =
     (case json_string_token_ranges codec input (max_candidates_per_block limits) of
        Err _ \<Rightarrow> None
      | Ok ranges \<Rightarrow>
          Option.bind (sole_search codec input limits ranges None) (\<lambda>(r, model).
            if \<not> utf8_ok (render_grouped model) then None
            else Option.bind (jc_to_vec codec (Text (render_grouped model))) (\<lambda>replacement.
              if length replacement \<ge> snd r - fst r then None
              else Some (model, replace_range input r replacement))))"

section \<open>The reducer\<close>

definition search_view ::
  "json_codec \<Rightarrow> string \<Rightarrow> compression_limits \<Rightarrow> (search_result_model \<times> string) option" where
  "search_view codec input limits =
     (case search_parse codec input limits of
        Some model \<Rightarrow> Some (model, render_grouped model)
      | None \<Rightarrow> search_json_envelope_view codec input limits)"

definition search_reduce ::
  "json_codec \<Rightarrow> (string \<Rightarrow> digest32) \<Rightarrow> readings \<Rightarrow> string \<Rightarrow> compression_limits \<Rightarrow> reduction_candidate" where
  "search_reduce codec sha256 us input limits =
     (let refused = refused_view ''search.result_projection'' sha256 (snd us) input
      in if bytes_of input > max_candidate_input_bytes limits \<or>
            bytes_of input > max_shadow_memory_bytes limits
         then refused ReductionResourceLimit
         else case search_view codec input limits of
             None \<Rightarrow> refused ReductionNotApplicable
           | Some (model, visible) \<Rightarrow>
               if length (sr_matches model) < 2 then refused ReductionNoImprovement
               else if bytes_of visible \<ge> bytes_of input \<or> over_view_limits us input limits visible
               then refused ReductionNoImprovement
               else accepted_view ''search.result_projection'' sha256 (snd us) input visible 0 0)"

definition search_supports :: "block_metadata \<Rightarrow> bool" where
  "search_supports metadata \<longleftrightarrow> is_tool_result_plain_text metadata \<or> is_tool_result_json metadata"

definition search_result_projection :: "json_codec \<Rightarrow> tool_result_reducer" where
  "search_result_projection codec =
     \<lparr>rd_id = ''search.result_projection'', rd_version = tool_aware_reduction_version,
      rd_supports = search_supports, rd_policy = policy_above 256 search_supports,
      rd_reduce = search_reduce codec\<rparr>"

lemma search_reduce_sound: "sound_view input limits (search_reduce codec sha256 us input limits)"
  by (auto simp: search_reduce_def Let_def over_view_limits_def not_less not_le
      split: option.split prod.split intro!: sound_refused sound_accepted)

interpretation search: view_reducer "search_result_projection codec" for codec
  by unfold_locales (simp add: search_result_projection_def search_reduce_sound)

end
