(* ===== verification/Compression_Grouping.thy ===== *)
theory Compression_Grouping
  imports Compression_Search "HOL-Library.Sublist"
begin

text \<open>
  What the grouped view of search results keeps: it is parsed back into the same matches, for
  matches whose file and text cannot be taken for something else; and what is taken for it.
\<close>

section \<open>Numbers and text\<close>

lemma decimal_digits: "list_all is_ascii_digit (decimal n)"
proof (induction n rule: decimal.induct)
  case (1 n)
  have digit: "is_ascii_digit (char_of (48 + k))" if "k < 10" for k :: nat
  proof -
    have "of_char (char_of (48 + k) :: char) = 48 + k" using that by simp
    then show ?thesis using that by (simp add: is_ascii_digit_def byte_def)
  qed
  have "n mod 10 < 10" by simp
  then show ?case using 1 digit [of n] digit [of "n mod 10"]
    by (subst decimal.simps) (auto simp del: decimal.simps)
qed

lemma decimal_not_Nil [simp]: "decimal n \<noteq> []"
  by (subst decimal.simps) simp

lemma decimal_value_append:
  "decimal_value (a @ b) m = Option.bind (decimal_value a m) (decimal_value b)"
  by (induction a arbitrary: m) auto

lemma decimal_value_digit: "k < 10 \<Longrightarrow> decimal_value [char_of (48 + k)] m = Some (10 * m + k)" for k :: nat
proof -
  assume "k < 10"
  then have "of_char (char_of (48 + k) :: char) = 48 + k" by simp
  with \<open>k < 10\<close> show ?thesis by (simp add: is_ascii_digit_def byte_def)
qed

lemma decimal_value_decimal: "decimal_value (decimal n) 0 = Some n"
proof (induction n rule: decimal.induct)
  case (1 n)
  show ?case
  proof (cases "n < 10")
    case True
    then show ?thesis using decimal_value_digit [of n 0] by (subst decimal.simps) (simp del: decimal_value.simps)
  next
    case False
    with 1 decimal_value_digit [of "n mod 10" "n div 10"] show ?thesis
      by (subst decimal.simps) (simp add: decimal_value_append del: decimal.simps decimal_value.simps)
  qed
qed

lemma decimal_head: "\<exists>c rest. decimal n = c # rest \<and> is_ascii_digit c"
  using decimal_digits [of n] decimal_not_Nil [of n] by (cases "decimal n") auto

lemma parse_u64_decimal: "parse_u64 (decimal (unat w)) = Some w"
proof -
  obtain c rest where d: "decimal (unat w) = c # rest" and "is_ascii_digit c"
    using decimal_head by blast
  then have "c \<noteq> CHR ''+''" by (auto simp: is_ascii_digit_def byte_def)
  moreover have "unat w < 2 ^ 64" by simp
  ultimately show ?thesis
    using decimal_value_decimal [of "unat w"] unfolding parse_u64_def Let_def d
    by (simp del: decimal_value.simps)
qed

lemma digits_avoid: "\<not> is_ascii_digit c \<Longrightarrow> c \<notin> set (decimal n)"
  using decimal_digits [of n] by (auto simp: list_all_iff)

lemma no_digits [simp]:
  "\<not> is_ascii_digit CHR 0x09" "\<not> is_ascii_digit CHR 0x0A" "\<not> is_ascii_digit CHR '' ''"
  "\<not> is_ascii_digit CHR ''[''"
  by (simp_all add: is_ascii_digit_def byte_def)

lemma restore_escaped:
  "\<not> sublist [CHR 0x5C, CHR ''n''] t \<Longrightarrow> restore_newlines (escape_newlines t) = t"
proof (induction t)
  case (Cons c rest)
  have rest: "\<not> sublist [CHR 0x5C, CHR ''n''] rest"
    using Cons.prems by (auto simp: sublist_Cons_right)
  show ?case
  proof (cases "c = newline")
    case True
    with Cons.IH [OF rest] show ?thesis by simp
  next
    case False
    show ?thesis
    proof (cases "escape_newlines rest")
      case Nil
      with Cons.IH [OF rest] False show ?thesis by simp
    next
      case (Cons x xs)
      have "\<not> (c = CHR 0x5C \<and> x = CHR ''n'')"
      proof
        assume two: "c = CHR 0x5C \<and> x = CHR ''n''"
        then obtain tl where "rest = CHR ''n'' # tl" using Cons by (cases rest) (auto split: if_splits)
        with two have "prefix [CHR 0x5C, CHR ''n''] (c # rest)" by simp
        with \<open>\<not> sublist [CHR 0x5C, CHR ''n''] (c # rest)\<close> show False by (auto simp: sublist_Cons_right)
      qed
      with False Cons Cons.IH [OF rest] show ?thesis by auto
    qed
  qed
qed simp

lemma escape_newlines_set: "newline \<notin> set (escape_newlines t)"
  by (induction t) auto

lemma escape_Nil [simp]: "escape_newlines t = [] \<longleftrightarrow> t = []"
  by (cases t) auto

lemma escape_keeps_last: "escape_newlines t \<noteq> [] \<Longrightarrow>
    last (escape_newlines t) = (if last t = newline then CHR ''n'' else last t)"
  by (induction t) (auto split: if_splits)

lemma escape_keeps_char: "c \<notin> {newline, CHR 0x5C, CHR ''n''} \<Longrightarrow> c \<in> set (escape_newlines t) \<longleftrightarrow> c \<in> set t"
  by (induction t) auto

section \<open>Rows\<close>

text \<open>A match whose heading and row read as what they are.\<close>

definition readable_match :: "search_match \<Rightarrow> bool" where
  "readable_match m \<longleftrightarrow>
     mt_file m \<noteq> [] \<and> CHR '' '' \<notin> set (mt_file m) \<and> newline \<notin> set (mt_file m) \<and>
     utf8_ok (mt_file m) \<and> utf8_ok (mt_text m) \<and> \<not> sublist [CHR 0x5C, CHR ''n''] (mt_text m) \<and>
     (mt_text m \<noteq> [] \<longrightarrow> last (mt_text m) \<noteq> CHR 0x0D) \<and>
     (mt_text m \<noteq> [] \<and> last (mt_text m) = CHR 0x3A \<longrightarrow> CHR '' '' \<in> set (mt_text m))"

definition match_row :: "search_match \<Rightarrow> string" where
  "match_row m = decimal (unat (mt_line m)) @ [CHR 0x09] @ escape_newlines (mt_text m)"

lemma split_once_first: "c \<notin> set a \<Longrightarrow> split_once c (a @ c # b) = Some (a, b)"
  by (simp add: split_once_def takeWhile_append dropWhile_append)

lemma match_row_last:
  "last (match_row m) = (if mt_text m = [] then CHR 0x09
     else if last (mt_text m) = newline then CHR ''n'' else last (mt_text m))"
  by (simp add: match_row_def escape_keeps_last)

lemma match_row_heading:
  assumes "readable_match m"
  shows "group_heading (match_row m) = None"
proof (cases "suffix '':'' (match_row m)")
  case True
  then obtain front where front: "match_row m = front @ '':''" by (auto simp: suffix_def)
  then have "last (match_row m) = CHR 0x3A" by simp
  then have "mt_text m \<noteq> []" "last (mt_text m) = CHR 0x3A"
    by (auto simp: match_row_last split: if_splits)
  with assms have "CHR '' '' \<in> set (mt_text m)" by (simp add: readable_match_def)
  then have "CHR '' '' \<in> set (match_row m)" by (simp add: match_row_def escape_keeps_char)
  then have "CHR '' '' \<in> set front" by (simp add: front)
  then show ?thesis by (simp add: group_heading_def strip_suffix_def front)
qed (simp add: group_heading_def strip_suffix_def)

lemma parse_match_row:
  assumes "readable_match m" and "st_file s = Some (mt_file m)"
  shows "parse_line codec (match_row m) s = Some (s\<lparr>st_matches := st_matches s @ [m]\<rparr>)"
proof -
  have tab: "CHR 0x09 \<notin> set (decimal (unat (mt_line m)))" by (rule digits_avoid) simp
  have "grouped_row (match_row m) s = Some (mt_file m, mt_line m, escape_newlines (mt_text m))"
    using assms(2) split_once_first [OF tab] parse_u64_decimal
    by (simp add: grouped_row_def match_row_def)
  moreover have "match_row m \<noteq> [] \<and> match_row m \<noteq> ''[search results]''"
  proof -
    obtain c rest where "decimal (unat (mt_line m)) = c # rest" and "is_ascii_digit c"
      using decimal_head by blast
    then show ?thesis by (auto simp: match_row_def)
  qed
  moreover have "restore_newlines (escape_newlines (mt_text m)) = mt_text m"
    using assms(1) by (simp add: readable_match_def restore_escaped)
  ultimately show ?thesis
    using match_row_heading [OF assms(1)] by (simp add: parse_line_def add_match_def)
qed

lemma parse_match_rows:
  "list_all readable_match ms \<Longrightarrow> list_all (\<lambda>m. mt_file m = file) ms \<Longrightarrow> st_file s = Some file \<Longrightarrow>
   parse_lines codec (map match_row ms) s = Some (s\<lparr>st_matches := st_matches s @ ms\<rparr>)"
  by (induction ms arbitrary: s) (simp_all add: parse_match_row)

lemma parse_heading:
  assumes "file \<noteq> []" and "CHR '' '' \<notin> set file"
  shows "parse_line codec (file @ '':'') s = Some (s\<lparr>st_file := Some file\<rparr>)"
proof -
  have "file @ '':'' \<noteq> ''[search results]''"
  proof
    assume "file @ '':'' = ''[search results]''"
    then have "last (file @ '':'') = last ''[search results]''" by (rule arg_cong)
    then show False by simp
  qed
  with assms show ?thesis by (simp add: parse_line_def group_heading_def strip_suffix_def)
qed

section \<open>The whole view\<close>

lemma str_lines_line:
  assumes "newline \<notin> set line" and "line = [] \<or> last line \<noteq> CHR 0x0D"
  shows "str_lines (line @ newline # rest) = line # str_lines rest"
proof -
  have "strip_suffix [newline] (line @ [newline]) = Some line" by (rule strip_suffix_append)
  moreover have "\<not> suffix [CHR 0x0D] line" using assms(2) by (auto simp: suffix_def)
  ultimately have "line_content (line @ [newline]) = line"
    by (simp add: line_content_def strip_or_def strip_suffix_def [of "[CHR 0x0D]"])
  then show ?thesis using assms(1) by (simp add: str_lines_def split_inclusive_append)
qed

lemma str_lines_rows:
  "list_all readable_match ms \<Longrightarrow>
   str_lines (concat (map render_match ms) @ rest) = map match_row ms @ str_lines rest"
proof (induction ms)
  case (Cons m ms)
  have "newline \<notin> set (match_row m)"
    using digits_avoid [of newline] by (simp add: match_row_def escape_newlines_set)
  moreover have "last (match_row m) \<noteq> CHR 0x0D"
    using Cons.prems by (auto simp: match_row_last readable_match_def)
  moreover have "render_match m @ rest' = match_row m @ newline # rest'" for rest'
    by (simp add: render_match_def match_row_def)
  ultimately show ?case using Cons by (simp add: str_lines_line)
qed simp

lemma parse_lines_append:
  "parse_lines codec (a @ b) s = Option.bind (parse_lines codec a s) (parse_lines codec b)"
  by (induction a arbitrary: s) (auto split: option.split)

lemma parse_groups:
  assumes "list_all readable_match ms"
    and "\<And>path. path \<in> set paths \<Longrightarrow> path \<noteq> [] \<and> CHR '' '' \<notin> set path \<and> newline \<notin> set path"
  shows "\<exists>left. parse_lines codec (str_lines (concat (map (render_group ms) paths))) s =
    Some (s\<lparr>st_file := left,
      st_matches := st_matches s @ concat (map (\<lambda>path. filter (\<lambda>m. mt_file m = path) ms) paths)\<rparr>)"
  using assms(2)
proof (induction paths arbitrary: s)
  case Nil
  show ?case by (rule exI [of _ "st_file s"]) (simp add: str_lines_def)
next
  case (Cons path paths)
  let ?ms = "filter (\<lambda>m. mt_file m = path) ms"
  let ?rest = "concat (map (render_group ms) paths)"
  have plain: "path \<noteq> []" "CHR '' '' \<notin> set path" "newline \<notin> set path" using Cons.prems by simp_all
  have rows: "list_all readable_match ?ms" "list_all (\<lambda>m. mt_file m = path) ?ms"
    using assms(1) by (auto simp: list_all_iff)
  have "concat (map (render_group ms) (path # paths)) =
      (path @ '':'') @ newline # (concat (map render_match ?ms) @ ?rest)"
    by (simp add: render_group_def)
  moreover have "str_lines ((path @ '':'') @ newline # (concat (map render_match ?ms) @ ?rest)) =
      (path @ '':'') # map match_row ?ms @ str_lines ?rest"
    using plain(3) by (subst str_lines_line) (simp_all add: str_lines_rows [OF rows(1)])
  ultimately have lines: "str_lines (concat (map (render_group ms) (path # paths))) =
      (path @ '':'') # map match_row ?ms @ str_lines ?rest" by simp
  let ?s = "s\<lparr>st_file := Some path, st_matches := st_matches s @ ?ms\<rparr>"
  have "parse_lines codec (map match_row ?ms) (s\<lparr>st_file := Some path\<rparr>) = Some ?s"
    using parse_match_rows [OF rows, of "s\<lparr>st_file := Some path\<rparr>" codec] by simp
  moreover obtain left where "parse_lines codec (str_lines ?rest) ?s =
      Some (?s\<lparr>st_file := left, st_matches := st_matches ?s @
        concat (map (\<lambda>path. filter (\<lambda>m. mt_file m = path) ms) paths)\<rparr>)"
    using Cons.IH [of ?s] Cons.prems by auto
  ultimately show ?case
    unfolding lines by (auto simp: parse_heading [OF plain(1,2)] parse_lines_append)
qed

lemma mset_groups:
  "distinct paths \<Longrightarrow>
   mset (concat (map (\<lambda>path. filter (\<lambda>m. f m = path) ms) paths)) = filter_mset (\<lambda>m. f m \<in> set paths) (mset ms)"
proof (induction paths)
  case (Cons path paths)
  have "filter_mset (\<lambda>m. f m = path \<or> f m \<in> set paths) (mset ms) =
      filter_mset (\<lambda>m. f m = path) (mset ms) + filter_mset (\<lambda>m. f m \<in> set paths) (mset ms)"
    using Cons.prems by (intro multiset_eqI) auto
  with Cons show ?case by simp
qed simp

lemma utf8_digits: "list_all is_ascii_digit s \<Longrightarrow> utf8_ok s"
  by (induction s) (auto simp: is_ascii_digit_def byte_def)

lemma utf8_escaped: "utf8_ok t \<Longrightarrow> utf8_ok (escape_newlines t)"
proof (induction t rule: utf8_ok.induct)
  case (2 a bytes)
  then show ?case
    by (auto simp: byte_def continuation_def split: if_splits list.splits)
qed simp

end
