(* ===== verification/Compression_Views.thy ===== *)
theory Compression_Views
  imports Compression_Grouping
begin

text \<open>
  The properties of the lossy reducers: a view is shorter and its original is kept, and what each
  reducer leaves out is exactly accounted for.
\<close>

section \<open>Samples\<close>

text \<open>A codec for which every text is the document.\<close>

definition constant_codec :: "json \<Rightarrow> json_codec" where
  "constant_codec json =
     \<lparr>jc_value = (\<lambda>_. Some json), jc_string = (\<lambda>_. Some ''k''), jc_to_vec = (\<lambda>_. Some ''{}'')\<rparr>"

lemma constant_codec_simps [simp]:
  "jc_value (constant_codec json) bytes = Some json" "jc_to_vec (constant_codec json) shown = Some ''{}''"
  by (simp_all add: constant_codec_def)

lemma constant_codec_validates:
  "validate_json (constant_codec json) ''[ ]'' compression_limits_default = Ok ()"
  by (rule empty_array_validates) simp

section \<open>Every view\<close>

definition tool_result_reducers :: "json_codec \<Rightarrow> tool_result_reducer set" where
  "tool_result_reducers codec =
     {search_result_projection codec, json_empty_noise_fields codec, json_repeated_value_elision codec,
      shell_diagnostic_projection codec}"

lemma reducers_view: "reducer \<in> tool_result_reducers codec \<Longrightarrow> view_reducer reducer"
  using search.view_reducer_axioms empty_noise.view_reducer_axioms repeated_value.view_reducer_axioms
    shell_projection.view_reducer_axioms
  by (auto simp: tool_result_reducers_def)

text \<open>
  C16. Whatever a reducer shows is shorter than the result it stands for and within the output
  bound, and the whole result can be recovered from the same candidate.
\<close>

theorem reduced_views_recover:
  assumes "reducer \<in> tool_result_reducers codec"
    and "rc_visible (rd_reduce reducer sha256 us input limits) = Some visible"
  shows "length visible < length input \<and> bytes_of visible \<le> max_candidate_output_bytes limits \<and>
    rc_recover (rd_reduce reducer sha256 us input limits) = Some input \<and>
    rc_status (rd_reduce reducer sha256 us input limits) = ReductionApplicable"
proof -
  note law = reducers_view [OF assms(1)]
  show ?thesis
    using view_reducer.visible_is_shorter [OF law assms(2)]
      view_reducer.applicable_is_visible [OF law, of sha256 us input limits] assms(2) by simp
qed

theorem reduced_views_recover_witness:
  "rc_recover (rd_reduce (json_empty_noise_fields (constant_codec (Object [(''a'', Null)])))
      (\<lambda>_. Digest32 (replicate 32 0)) (0, 0) ''{ }'' compression_limits_default) = Some ''{ }''"
proof -
  let ?codec = "constant_codec (Object [(''a'', Null)])"
  have "rc_visible (rd_reduce (json_empty_noise_fields ?codec)
      (\<lambda>_. Digest32 (replicate 32 0)) (0, 0) ''{ }'' compression_limits_default) = Some ''{}''"
    by (simp add: json_empty_noise_fields_def reduce_with_def empty_noise_view_def conclude_view_def
        over_view_limits_def accepted_view_def Let_def compression_limits_default_def
        u64_of_len_or_max_def saturating_add_def saturating_mul_def elapsed_reading_def)
  moreover have "json_empty_noise_fields ?codec \<in> tool_result_reducers ?codec"
    by (simp add: tool_result_reducers_def)
  ultimately show ?thesis using reduced_views_recover by blast
qed

section \<open>Search results\<close>

lemma utf8_render_match:
  assumes "readable_match m"
  shows "utf8_ok (render_match m)"
proof -
  have "utf8_ok (escape_newlines (mt_text m))" using assms by (simp add: readable_match_def utf8_escaped)
  moreover have "utf8_ok (decimal (unat (mt_line m)))" by (intro utf8_digits decimal_digits)
  ultimately show ?thesis
    unfolding render_match_def by (intro utf8_ok_append) (simp_all add: byte_def)
qed

lemma utf8_ok_concat: "(\<And>s. s \<in> set parts \<Longrightarrow> utf8_ok s) \<Longrightarrow> utf8_ok (concat parts)"
  by (induction parts) (simp_all add: utf8_ok_append)

lemma utf8_render_group:
  "list_all readable_match ms \<Longrightarrow> utf8_ok path \<Longrightarrow> utf8_ok (render_group ms path)"
  unfolding render_group_def
  by (intro utf8_ok_append utf8_ok_concat) (auto simp: byte_def list_all_iff intro: utf8_render_match)

lemma utf8_render_grouped:
  assumes "list_all readable_match (sr_matches model)"
  shows "utf8_ok (render_grouped model)"
  unfolding render_grouped_def
proof (intro utf8_ok_append utf8_ok_concat)
  fix part
  assume "part \<in> set (map (render_group (sr_matches model)) (matched_files (sr_matches model)))"
  then show "utf8_ok part"
    using assms by (auto simp: matched_files_def list_all_iff readable_match_def intro!: utf8_render_group)
qed (simp_all add: byte_def)

lemma sort_key_mset:
  assumes "mset xs = mset ys" and "inj_on f (set xs)"
  shows "sort_key f xs = sort_key f ys"
proof (rule map_inj_on)
  have "sort (map f xs) = map f (sort_key f xs)" by (rule properties_for_sort) simp_all
  moreover have "sort (map f xs) = map f (sort_key f ys)"
    using assms(1) by (intro properties_for_sort) simp_all
  ultimately show "map f (sort_key f xs) = map f (sort_key f ys)" by simp
  show "inj_on f (set (sort_key f xs) \<union> set (sort_key f ys))"
    using assms mset_eq_setD [OF assms(1)] by simp
qed

text \<open>
  C17. The grouped view keeps the matches: parsed again it gives the same matches, sorted, for
  matches whose file holds no space or newline and whose text cannot be read as a heading, an
  escaped newline or a line ending.
\<close>

theorem grouped_search_parses_back:
  assumes "list_all readable_match (sr_matches model)" and "sr_matches model \<noteq> []"
    and "length (render_grouped model) \<le> unat (max_candidate_input_bytes limits)"
  shows "search_parse codec (render_grouped model) limits =
    Some \<lparr>sr_matches = sort_key match_key (sr_matches model), sr_summary = []\<rparr>"
proof -
  let ?ms = "sr_matches model" and ?paths = "matched_files (sr_matches model)"
  let ?found = "concat (map (\<lambda>path. filter (\<lambda>m. mt_file m = path) ?ms) ?paths)"
  have plain: "path \<noteq> [] \<and> CHR '' '' \<notin> set path \<and> newline \<notin> set path" if "path \<in> set ?paths" for path
    using that assms(1) by (auto simp: matched_files_def list_all_iff readable_match_def)
  have heading: "str_lines (''[search results]'' @ newline # rest) = ''[search results]'' # str_lines rest"
    for rest by (rule str_lines_line) simp_all
  have skip: "parse_line codec ''[search results]'' s = Some s" for s by (simp add: parse_line_def)
  let ?start = "\<lparr>st_file = None, st_matches = [], st_summary = []\<rparr>"
  let ?rest = "concat (map (render_group ?ms) ?paths)"
  obtain left where groups: "parse_lines codec (str_lines ?rest) ?start =
      Some \<lparr>st_file = left, st_matches = ?found, st_summary = []\<rparr>"
    using parse_groups [OF assms(1) plain, of ?paths codec ?start] by auto
  have "render_grouped model = ''[search results]'' @ newline # ?rest"
    by (simp add: render_grouped_def)
  then have "str_lines (render_grouped model) = ''[search results]'' # str_lines ?rest"
    using heading [of ?rest] by simp
  with groups have parsed: "parse_lines codec (str_lines (render_grouped model)) ?start =
      Some \<lparr>st_file = left, st_matches = ?found, st_summary = []\<rparr>"
    by (simp add: skip)
  have "mset ?found = mset ?ms"
    using mset_groups [of ?paths mt_file ?ms] by (simp add: matched_files_def filter_mset_eq_conv)
  moreover have "inj_on match_key (set ?found)"
    by (rule inj_onI, rule search_match.equality) (simp_all add: match_key_def)
  ultimately have "sort_key match_key ?found = sort_key match_key ?ms"
    by (rule sort_key_mset)
  moreover have "?found \<noteq> []" using \<open>mset ?found = mset ?ms\<close> assms(2) by (metis mset_zero_iff)
  moreover have "length (render_grouped model) < 2 ^ 64"
    using assms(3) by (rule le_less_trans) simp
  moreover from this have "unat (word_of_nat (length (render_grouped model)) :: u64) =
      length (render_grouped model)" by (simp add: unsigned_of_nat take_bit_nat_eq_self)
  ultimately show ?thesis
    using parsed assms(3) utf8_render_grouped [OF assms(1)]
    by (simp add: search_parse_def u64_of_len_def word_less_nat_alt not_less)
qed

definition sample_model :: search_result_model where
  "sample_model = \<lparr>sr_matches = [\<lparr>mt_file = ''b'', mt_line = 7, mt_text = ''x''\<rparr>,
     \<lparr>mt_file = ''a'', mt_line = 3, mt_text = ''y''\<rparr>], sr_summary = []\<rparr>"

theorem grouped_search_parses_back_witness:
  "search_parse (constant_codec Null) (render_grouped sample_model) compression_limits_default =
     Some \<lparr>sr_matches = sort_key match_key (sr_matches sample_model), sr_summary = []\<rparr>"
proof -
  have "list_all readable_match (sr_matches sample_model)"
    by (simp add: sample_model_def readable_match_def byte_def sublist_Cons_right)
  moreover have "sr_matches sample_model \<noteq> []" by (simp add: sample_model_def)
  moreover have "length (render_grouped sample_model) \<le> unat (max_candidate_input_bytes compression_limits_default)"
    by (simp add: render_grouped_def sample_model_def matched_files_def render_group_def render_match_def
        compression_limits_default_def decimal.simps [of 3] decimal.simps [of 7])
  ultimately show ?thesis using grouped_search_parses_back by blast
qed

text \<open>
  A match is lost when its line ends in a colon and holds no space: it is taken for the heading of
  a group, also in plain output of \<open>rg\<close>, and no match is recorded.
\<close>

lemma line_ending_in_colon_is_heading:
  assumes "CHR '' '' \<notin> set line" and "line \<noteq> []" and "last line = CHR 0x3A" and "line \<noteq> '':''"
  shows "parse_line codec line s = Some (s\<lparr>st_file := Some (butlast line)\<rparr>)"
proof -
  have line: "line = butlast line @ '':''" using assms(2,3) by (metis append_butlast_last_id)
  have "butlast line \<noteq> []"
  proof
    assume "butlast line = []"
    with line have "line = '':''" by simp
    with assms(4) show False by simp
  qed
  moreover have "CHR '' '' \<notin> set (butlast line)" using assms(1) by (meson in_set_butlastD)
  ultimately show ?thesis using parse_heading [of "butlast line" codec s] line by metis
qed

section \<open>Empty fields\<close>

text \<open>
  C24. The fields the stripper reports as omitted are exactly the fields that are gone, at every
  depth, and no field of what it shows is null, an empty string or an empty array.
\<close>

theorem omitted_fields_are_exact:
  assumes "strip_empty_fields max_work json (work, 0) = Ok (stripped, work', omitted)"
    and "field_count json < 2 ^ 64"
  shows "field_count stripped + unat omitted = field_count json \<and> noise_free stripped"
  using strip_counts(1) [OF assms(1)] assms(2) by (simp add: add.commute)

theorem omitted_fields_are_exact_witness:
  "field_count (Object [(''b'', Text ''x'')]) + 1 = field_count (Object [(''a'', Null), (''b'', Text ''x'')])"
proof -
  have "strip_empty_fields 10 (Object [(''a'', Null), (''b'', Text ''x'')]) (0, 0) =
      Ok (Object [(''b'', Text ''x'')], 2, 1)"
    by (simp add: saturating_add_def)
  from omitted_fields_are_exact [OF this] show ?thesis by simp
qed

section \<open>Repeated values\<close>

lemma common_members_shared:
  "common_members max_work rows first keys work = Ok (common, work') \<Longrightarrow>
   \<forall>(key, json)\<in>set common. map_of first key = Some json \<and> shared_by_rows (fst ` set first) key json rows"
proof (induction keys arbitrary: work common)
  case (Cons key keys)
  then show ?case by (auto simp: Let_def and_then_eq_Ok split: if_splits option.splits) blast+
qed simp

lemma remove_members_map:
  "remove_members keys (members, omitted) = (left, omitted') \<Longrightarrow>
   map_of left = map_of members |` (- set keys)"
proof (induction keys arbitrary: members omitted)
  case (Cons key keys)
  have drop: "map_of (filter (\<lambda>member. fst member \<noteq> key) ms) = (map_of ms)(key := None)"
    for ms :: json_map by (induction ms) auto
  show ?case
  proof (cases "map_of members key = None")
    case True
    with Cons.prems have "remove_members keys (members, omitted) = (left, omitted')" by simp
    from Cons.IH [OF this] True show ?thesis by (auto simp: restrict_map_def fun_eq_iff)
  next
    case False
    with Cons.prems have "remove_members keys
        (filter (\<lambda>member. fst member \<noteq> key) members, saturating_add omitted 1) = (left, omitted')" by simp
    from Cons.IH [OF this] show ?thesis by (auto simp: drop restrict_map_def fun_eq_iff)
  qed
qed (simp add: restrict_map_def)

lemma elide_rows_maps:
  "elide_rows max_work keys rows (work, omitted) = Ok (reduced, omitted') \<Longrightarrow>
   list_all2 (\<lambda>row short. \<exists>members left. row = Object members \<and> short = Object left \<and>
     map_of left = map_of members |` (- set keys)) rows reduced"
proof (induction rows arbitrary: work omitted reduced)
  case (Cons row rows)
  obtain members where row: "row = Object members" using Cons.prems
    by (cases row) (auto simp: ok_or_def split: option.splits)
  obtain left omitted1 where removed: "remove_members keys (members, omitted) = (left, omitted1)" by fastforce
  with Cons.prems row obtain short where
    "elide_rows max_work keys rows (saturating_add work 1, omitted1) = Ok (short, omitted')"
    and "reduced = Object left # short"
    by (auto simp: Let_def and_then_eq_Ok split: if_splits)
  with Cons.IH row remove_members_map [OF removed] show ?case by auto
qed simp

text \<open>
  C18. Moving repeated values out of rows loses nothing: every row of the result is the shown row
  with the common members put back.
\<close>

theorem elided_rows_rebuild:
  assumes "elided_value codec input limits = Ok (shown, omitted)"
  shows "\<exists>rows common reduced. jc_value codec input = Some (Array rows) \<and>
    shown = Object [(''common'', Object common), (''rows'', Array reduced)] \<and> common \<noteq> [] \<and>
    list_all2 (\<lambda>row short. \<exists>members left. row = Object members \<and> short = Object left \<and>
      map_of members = map_of left ++ map_of common \<and> dom (map_of left) \<inter> dom (map_of common) = {})
      rows reduced"
proof -
  from assms obtain rows first common work reduced where
    rows: "jc_value codec input = Some (Array rows)"
    and common: "common_members (max_shadow_work_units limits) rows first
      (sorted_list_of_set (fst ` set first)) 0 = Ok (common, work)"
    and some: "common \<noteq> []"
    and elided: "elide_rows (max_shadow_work_units limits) (map fst common) rows (work, 0) = Ok (reduced, omitted)"
    and shown: "shown = Object [(''common'', Object common), (''rows'', Array reduced)]"
    by (auto simp: elided_value_def and_then_eq_Ok split: option.splits json.splits if_splits)
  have held: "map_of members key = Some json"
    if "Object members \<in> set rows" and "map_of common key = Some json" for members key json
    using common_members_shared [OF common] map_of_SomeD [OF that(2)] that(1)
    by (force simp: shared_by_rows_def list_ex_iff)
  have "list_all2 (\<lambda>row short. row \<in> set rows \<and> (\<exists>members left. row = Object members \<and> short = Object left \<and>
      map_of left = map_of members |` (- set (map fst common)))) rows reduced"
    using elide_rows_maps [OF elided] by (simp add: list_all2_conv_all_nth)
  then have "list_all2 (\<lambda>row short. \<exists>members left. row = Object members \<and> short = Object left \<and>
      map_of members = map_of left ++ map_of common \<and> dom (map_of left) \<inter> dom (map_of common) = {})
      rows reduced"
  proof (rule list_all2_mono)
    fix row short
    assume "row \<in> set rows \<and> (\<exists>members left. row = Object members \<and> short = Object left \<and>
      map_of left = map_of members |` (- set (map fst common)))"
    then obtain members left where row: "row = Object members" "short = Object left" "Object members \<in> set rows"
      and left: "map_of left = map_of members |` (- set (map fst common))" by blast
    have "map_of members key = (map_of left ++ map_of common) key" for key
    proof (cases "map_of common key")
      case None
      then have "key \<notin> set (map fst common)" by (simp add: map_of_eq_None_iff)
      with None show ?thesis by (simp add: left map_add_def restrict_map_def)
    next
      case (Some json)
      with held [OF row(3) Some] show ?thesis by (simp add: map_add_def)
    qed
    moreover have "dom (map_of left) \<inter> dom (map_of common) = {}"
      by (auto simp: left dom_map_of_conv_image_fst)
    ultimately show "\<exists>members left. row = Object members \<and> short = Object left \<and>
      map_of members = map_of left ++ map_of common \<and> dom (map_of left) \<inter> dom (map_of common) = {}"
      using row by blast
  qed
  with rows shown some show ?thesis by blast
qed

theorem elided_rows_rebuild_witness:
  "\<exists>shown omitted common. elided_value
      (constant_codec (Array [Object [(''k'', Null)], Object [(''k'', Null)]])) ''[ ]'' compression_limits_default =
      Ok (shown, omitted) \<and>
    (\<exists>reduced. shown = Object [(''common'', Object common), (''rows'', Array reduced)] \<and> length reduced = 2)"
proof -
  let ?codec = "constant_codec (Array [Object [(''k'', Null)], Object [(''k'', Null)]])"
  obtain shown omitted where made: "elided_value ?codec ''[ ]'' compression_limits_default = Ok (shown, omitted)"
    by (simp add: elided_value_def constant_codec_validates)
      (simp add: compression_limits_default_def saturating_add_def shared_by_rows_def)
  from elided_rows_rebuild [OF made] made show ?thesis
    by (auto dest!: list_all2_lengthD)
qed

section \<open>Shell output\<close>

lemma split_on_not_Nil [simp]: "split_on sep s \<noteq> []"
  by (cases s) (auto split: list.split)

lemma join_split: "join_with [sep] (split_on sep s) = s"
proof (induction s)
  case (Cons c rest)
  obtain part parts where "split_on sep rest = part # parts" by (cases "split_on sep rest") auto
  with Cons show ?case by (cases parts) auto
qed simp

lemma map_of_replace_member:
  "map_of (replace_member key json members) =
     (if key \<in> fst ` set members then (map_of members)(key \<mapsto> json) else map_of members)"
  unfolding replace_member_def by (induction members) (auto simp: fun_eq_iff)


lemma split_separators: "split_on sep (replicate n sep) = replicate (Suc n) []"
  by (induction n) simp_all


end
