(* ===== verification/Compression_Active.thy ===== *)
theory Compression_Active
  imports Compression_Views
begin

text \<open>
  The rewriting of requests in \<open>active.rs\<close>: spans of the body are decoded, transformed, checked and
  spliced back, by the minifier or by the projection of search results. What happens to one span
  and how an attempt ends are functions of their own, composed by the loop over the sorted spans.
\<close>

section \<open>Spans and attempts\<close>

record active_json_span =
  as_start :: u64
  as_end :: u64
  as_encoded :: bool

type_synonym active_text_span = active_json_span

definition active_json_span_new :: "u64 \<Rightarrow> u64 \<Rightarrow> bool \<Rightarrow> active_json_span option" where
  "active_json_span_new first until encoded =
     (if first < until then Some \<lparr>as_start = first, as_end = until, as_encoded = encoded\<rparr> else None)"

definition active_text_span_new :: "u64 \<Rightarrow> u64 \<Rightarrow> bool \<Rightarrow> active_text_span option" where
  "active_text_span_new first until encoded =
     (if first < until then Some \<lparr>as_start = first, as_end = until, as_encoded = encoded\<rparr> else None)"

datatype active_rewrite_status =
  ActiveRewritten | ActiveNoImprovement | ActiveNotApplicable | ActiveResourceLimit
| ActiveInvalidInput | ActiveRecoveryFailed | ActiveInternalError

record active_rewrite_metrics =
  aw_compressor_id :: string
  aw_compressor_version :: u32
  aw_status :: active_rewrite_status
  aw_input_bytes :: u64
  aw_output_bytes :: "u64 option"
  aw_bytes_delta :: "int option"
  aw_rewrites :: u32
  aw_evaluated_spans :: u32
  aw_evaluated_input_bytes :: u64
  aw_evaluated_candidate_bytes :: u64
  aw_recovery_verified :: bool
  aw_deterministic :: bool
  aw_original_fingerprint :: digest32
  aw_rewritten_fingerprint :: "digest32 option"
  aw_first_modified_offset :: "u64 option"
  aw_preserved_prefix_bytes :: "u64 option"
  aw_wire_input_bytes :: "u64 option"
  aw_wire_output_bytes :: "u64 option"
  aw_wire_bytes_delta :: "int option"

record active_rewrite =
  rw_metrics :: active_rewrite_metrics
  rw_body :: "string option"

text \<open>The difference as an \<open>i64\<close>, by its absolute value.\<close>

definition active_signed_delta :: "u64 \<Rightarrow> u64 \<Rightarrow> int option" where
  "active_signed_delta input output =
     (if output \<ge> input
      then if unat (saturating_sub output input) < 2 ^ 63
           then Some (- int (unat (saturating_sub output input))) else None
      else if unat (saturating_sub input output) < 2 ^ 63
           then Some (int (unat (saturating_sub input output))) else None)"

definition reframe :: "string \<Rightarrow> string \<Rightarrow> active_rewrite \<Rightarrow> active_rewrite" where
  "reframe original_wire rewritten_wire rewrite =
     (if aw_status (rw_metrics rewrite) \<noteq> ActiveRewritten then rewrite\<lparr>rw_body := None\<rparr>
      else \<lparr>rw_metrics = (rw_metrics rewrite)
              \<lparr>aw_wire_input_bytes := Some (bytes_of original_wire),
               aw_wire_output_bytes := Some (bytes_of rewritten_wire),
               aw_wire_bytes_delta :=
                 active_signed_delta (bytes_of original_wire) (bytes_of rewritten_wire)\<rparr>,
            rw_body = Some rewritten_wire\<rparr>)"

definition refused_rewrite ::
  "string \<Rightarrow> (string \<Rightarrow> digest32) \<Rightarrow> string \<Rightarrow> active_rewrite_status \<Rightarrow> active_rewrite" where
  "refused_rewrite compressor sha256 input status =
     \<lparr>rw_metrics =
        \<lparr>aw_compressor_id = compressor, aw_compressor_version = 1, aw_status = status,
         aw_input_bytes = bytes_of input, aw_output_bytes = None, aw_bytes_delta = None,
         aw_rewrites = 0, aw_evaluated_spans = 0, aw_evaluated_input_bytes = 0,
         aw_evaluated_candidate_bytes = 0, aw_recovery_verified = False, aw_deterministic = False,
         aw_original_fingerprint = sha256 input, aw_rewritten_fingerprint = None,
         aw_first_modified_offset = None, aw_preserved_prefix_bytes = None,
         aw_wire_input_bytes = None, aw_wire_output_bytes = None, aw_wire_bytes_delta = None\<rparr>,
      rw_body = None\<rparr>"

text \<open>What the loop over the spans keeps; \<open>at_calls\<close> counts the evaluations, for the clock.\<close>

type_synonym replacement = "nat \<times> nat \<times> string"

record attempt =
  at_replacements :: "replacement list"
  at_previous_end :: u64
  at_work :: u64
  at_terminal :: "active_rewrite_status option"
  at_evaluated_spans :: u32
  at_applicable_spans :: u32
  at_deterministic :: bool
  at_recovery_verified :: bool
  at_input_bytes :: u64
  at_candidate_bytes :: u64
  at_calls :: nat

definition new_attempt :: attempt where
  "new_attempt =
     \<lparr>at_replacements = [], at_previous_end = 0, at_work = 0, at_terminal = None,
      at_evaluated_spans = 0, at_applicable_spans = 0, at_deterministic = True,
      at_recovery_verified = True, at_input_bytes = 0, at_candidate_bytes = 0, at_calls = 0\<rparr>"

definition ends_with :: "active_rewrite_status \<Rightarrow> attempt \<Rightarrow> attempt" where
  "ends_with status s = s\<lparr>at_terminal := Some status\<rparr>"

definition recovery_fails :: "attempt \<Rightarrow> attempt" where
  "recovery_fails s = s\<lparr>at_recovery_verified := False, at_terminal := Some ActiveRecoveryFailed\<rparr>"

definition not_deterministic :: "attempt \<Rightarrow> attempt" where
  "not_deterministic s = s\<lparr>at_deterministic := False, at_terminal := Some ActiveInternalError\<rparr>"

definition get_slice :: "string \<Rightarrow> u64 \<Rightarrow> u64 \<Rightarrow> string option" where
  "get_slice input first until =
     (if unat first \<le> unat until \<and> unat until \<le> length input
      then Some (take (unat until - unat first) (drop (unat first) input)) else None)"

definition span_bytes :: "string \<Rightarrow> active_json_span \<Rightarrow> attempt \<Rightarrow> (string, active_rewrite_status) result" where
  "span_bytes input spot s =
     (if as_start spot < at_previous_end s then Err ActiveInvalidInput
      else ok_or (get_slice input (as_start spot) (as_end spot)) ActiveInvalidInput)"

definition span_content :: "json_codec \<Rightarrow> active_json_span \<Rightarrow> string \<Rightarrow> string option" where
  "span_content codec spot raw = (if as_encoded spot then jc_string codec raw else Some raw)"

definition encode_replacement ::
  "json_codec \<Rightarrow> active_json_span \<Rightarrow> string \<Rightarrow> (string, active_rewrite_status) result" where
  "encode_replacement codec spot candidate =
     (if as_encoded spot
      then if \<not> utf8_ok candidate then Err ActiveInvalidInput
           else ok_or (jc_to_vec codec (Text candidate)) ActiveInternalError
      else Ok candidate)"

fun status_for_transform :: "transform_error \<Rightarrow> active_rewrite_status" where
  "status_for_transform TransformNotApplicable = ActiveNotApplicable"
| "status_for_transform TransformResourceLimit = ActiveResourceLimit"
| "status_for_transform TransformInvalidInput = ActiveInvalidInput"
| "status_for_transform TransformInternal = ActiveInternalError"

definition add_replacement :: "active_json_span \<Rightarrow> string \<Rightarrow> attempt \<Rightarrow> attempt" where
  "add_replacement spot replacement s =
     s\<lparr>at_replacements := at_replacements s @ [(unat (as_start spot), unat (as_end spot), replacement)]\<rparr>"

section \<open>How an attempt ends\<close>

fun splice :: "string \<Rightarrow> nat \<Rightarrow> replacement list \<Rightarrow> string option" where
  "splice input cursor [] = (if cursor \<le> length input then Some (drop cursor input) else None)"
| "splice input cursor ((first, until, replacement) # rest) =
     (if cursor \<le> first \<and> first \<le> length input
      then map_option (\<lambda>tail. take (first - cursor) (drop cursor input) @ replacement @ tail)
             (splice input until rest)
      else None)"

definition stops_rewrite :: "active_rewrite_status \<Rightarrow> bool" where
  "stops_rewrite status \<longleftrightarrow>
     status \<in> {ActiveResourceLimit, ActiveInvalidInput, ActiveRecoveryFailed, ActiveInternalError}"

definition nothing_replaced ::
  "string \<Rightarrow> (string \<Rightarrow> digest32) \<Rightarrow> string \<Rightarrow> bool \<Rightarrow> attempt \<Rightarrow> active_rewrite" where
  "nothing_replaced compressor sha256 input verified s =
     (let result = refused_rewrite compressor sha256 input
            (case at_terminal s of Some status \<Rightarrow> status | None \<Rightarrow> ActiveNoImprovement)
      in result\<lparr>rw_metrics := (rw_metrics result)
           \<lparr>aw_deterministic := at_evaluated_spans s > 0 \<and> at_deterministic s,
            aw_recovery_verified := verified \<and> at_recovery_verified s,
            aw_evaluated_spans := at_evaluated_spans s,
            aw_evaluated_input_bytes := at_input_bytes s,
            aw_evaluated_candidate_bytes := at_candidate_bytes s\<rparr>\<rparr>)"

definition u32_of_len_or_max :: "nat \<Rightarrow> u32" where
  "u32_of_len_or_max n = (if n < 2 ^ 32 then word_of_nat n else - 1)"

definition accepted_rewrite ::
  "string \<Rightarrow> (string \<Rightarrow> digest32) \<Rightarrow> string \<Rightarrow> string \<Rightarrow> bool \<Rightarrow> bool \<Rightarrow> attempt \<Rightarrow> active_rewrite" where
  "accepted_rewrite compressor sha256 input body verified deterministic s =
     (let shared = common_prefix_length input body
      in \<lparr>rw_metrics =
            \<lparr>aw_compressor_id = compressor, aw_compressor_version = 1, aw_status = ActiveRewritten,
             aw_input_bytes = bytes_of input, aw_output_bytes = Some (bytes_of body),
             aw_bytes_delta = active_signed_delta (bytes_of input) (bytes_of body),
             aw_rewrites = u32_of_len_or_max (length (at_replacements s)),
             aw_evaluated_spans = at_evaluated_spans s,
             aw_evaluated_input_bytes = at_input_bytes s,
             aw_evaluated_candidate_bytes = at_candidate_bytes s,
             aw_recovery_verified = verified, aw_deterministic = deterministic,
             aw_original_fingerprint = sha256 input, aw_rewritten_fingerprint = Some (sha256 body),
             aw_first_modified_offset =
               (if shared < length input then Some (u64_of_len_or_max shared) else None),
             aw_preserved_prefix_bytes = Some (u64_of_len_or_max shared),
             aw_wire_input_bytes = None, aw_wire_output_bytes = None, aw_wire_bytes_delta = None\<rparr>,
          rw_body = Some body\<rparr>)"

text \<open>Only the last status an attempt noted can stop it.\<close>

definition blocking_status :: "attempt \<Rightarrow> active_rewrite_status option" where
  "blocking_status s =
     (case at_terminal s of
        Some status \<Rightarrow> if stops_rewrite status then Some status else None
      | None \<Rightarrow> None)"

definition conclude_attempt ::
  "string \<Rightarrow> (string \<Rightarrow> digest32) \<Rightarrow> string \<Rightarrow> compression_limits \<Rightarrow> bool \<Rightarrow> bool \<Rightarrow> bool \<Rightarrow> attempt
     \<Rightarrow> active_rewrite" where
  "conclude_attempt compressor sha256 input limits evaluated verified deterministic s =
     (let refused = refused_rewrite compressor sha256 input
      in if at_replacements s = [] then nothing_replaced compressor sha256 input evaluated s
         else case blocking_status s of
             Some status \<Rightarrow> refused status
           | None \<Rightarrow>
               (case splice input 0 (at_replacements s) of
                  None \<Rightarrow> refused ActiveInternalError
                | Some body \<Rightarrow>
                    if bytes_of body > max_shadow_memory_bytes limits then refused ActiveResourceLimit
                    else accepted_rewrite compressor sha256 input body verified deterministic s))"

fun rewrite_spans ::
  "(active_json_span \<Rightarrow> attempt \<Rightarrow> (attempt, active_rewrite_status) result) \<Rightarrow> active_json_span list
     \<Rightarrow> attempt \<Rightarrow> (attempt, active_rewrite_status) result" where
  "rewrite_spans step [] s = Ok s"
| "rewrite_spans step (spot # spots) s = and_then (step spot s) (rewrite_spans step spots)"

definition sort_spans :: "active_json_span list \<Rightarrow> active_json_span list" where
  "sort_spans spots = sort_key (\<lambda>spot. (as_start spot, as_end spot)) spots"

section \<open>Minified documents\<close>

text \<open>The checks on a candidate and its replacement, once the span is evaluated.\<close>

definition minified_span ::
  "json_codec \<Rightarrow> (string \<Rightarrow> digest32) \<Rightarrow> compression_limits \<Rightarrow> active_json_span \<Rightarrow> string \<Rightarrow> string
     \<Rightarrow> transformation \<Rightarrow> attempt \<Rightarrow> attempt" where
  "minified_span codec sha256 limits spot raw content made s =
     (let s = s\<lparr>at_evaluated_spans := saturating_add (at_evaluated_spans s) 1\<rparr>
      in case minify_recover (tr_candidate made) (tr_recovery made) limits of
           Err _ \<Rightarrow> recovery_fails s
         | Ok recovered \<Rightarrow>
             if sha256 recovered \<noteq> sha256 content then recovery_fails s
             else case encode_replacement codec spot (tr_candidate made) of
                 Err status \<Rightarrow> ends_with status s
               | Ok replacement \<Rightarrow>
                   let s = s\<lparr>at_input_bytes := saturating_add (at_input_bytes s) (bytes_of raw),
                       at_candidate_bytes := saturating_add (at_candidate_bytes s) (bytes_of replacement)\<rparr>
                   in if bytes_of replacement > max_candidate_output_bytes limits
                      then ends_with ActiveResourceLimit s
                      else if length replacement < length raw then add_replacement spot replacement s
                      else if at_terminal s = None then ends_with ActiveNoImprovement s
                      else s)"

definition minify_span ::
  "json_codec \<Rightarrow> (string \<Rightarrow> digest32) \<Rightarrow> string \<Rightarrow> compression_limits \<Rightarrow> active_json_span \<Rightarrow> attempt
     \<Rightarrow> (attempt, active_rewrite_status) result" where
  "minify_span codec sha256 input limits spot s =
     and_then (span_bytes input spot s) (\<lambda>raw.
       let s = s\<lparr>at_previous_end := as_end spot\<rparr>
       in Ok (case span_content codec spot raw of
            None \<Rightarrow> ends_with ActiveInvalidInput s
          | Some content \<Rightarrow>
              let s = s\<lparr>at_work := saturating_add (at_work s) (bytes_of content)\<rparr>
              in if at_work s > max_shadow_work_units limits \<or>
                    bytes_of content > max_candidate_input_bytes limits
                 then ends_with ActiveResourceLimit s
                 else case minify_transform codec content limits of
                     Err error \<Rightarrow> ends_with (status_for_transform error) s
                   | Ok made \<Rightarrow>
                       (case minify_transform codec content limits of
                          Err error \<Rightarrow> ends_with (status_for_transform error) s
                        | Ok again \<Rightarrow>
                            if tr_candidate made \<noteq> tr_candidate again \<or>
                               tr_recovery made \<noteq> tr_recovery again
                            then not_deterministic s
                            else minified_span codec sha256 limits spot raw content made s)))"

definition rewrite_json_minify ::
  "json_codec \<Rightarrow> (string \<Rightarrow> digest32) \<Rightarrow> string \<Rightarrow> active_json_span list \<Rightarrow> compression_limits
     \<Rightarrow> active_rewrite" where
  "rewrite_json_minify codec sha256 input spots limits =
     (let refused = refused_rewrite ''json.minify'' sha256 input
      in if spots = [] then refused ActiveNotApplicable
         else if bytes_of input > max_shadow_memory_bytes limits then refused ActiveResourceLimit
         else case rewrite_spans (minify_span codec sha256 input limits) (sort_spans spots) new_attempt of
             Err status \<Rightarrow> refused status
           | Ok s \<Rightarrow> conclude_attempt ''json.minify'' sha256 input limits
               (at_evaluated_spans s > 0) True True s)"

section \<open>Search results\<close>

record search_content_projection =
  sp_status :: reduction_status
  sp_visible :: "string option"
  sp_recovered :: "string option"
  sp_recovery_verified :: bool

definition no_projection :: "reduction_status \<Rightarrow> search_content_projection" where
  "no_projection status =
     \<lparr>sp_status = status, sp_visible = None, sp_recovered = None, sp_recovery_verified = False\<rparr>"

text \<open>
  The string tokens of an envelope, reduced one by one; the loop may end with an answer of its own,
  or with none. The \<open>n\<close>-th reduction reads the clock \<open>clock n\<close>.
\<close>

fun reduce_tokens ::
  "json_codec \<Rightarrow> (string \<Rightarrow> digest32) \<Rightarrow> (nat \<Rightarrow> readings) \<Rightarrow> string \<Rightarrow> compression_limits \<Rightarrow> (nat \<times> nat) list
     \<Rightarrow> nat \<Rightarrow> ((nat \<times> nat) \<times> string) option
     \<Rightarrow> (((nat \<times> nat) \<times> string) option, search_content_projection option) result" where
  "reduce_tokens codec sha256 clock input limits [] n applicable = Ok applicable"
| "reduce_tokens codec sha256 clock input limits (r # ranges) n applicable =
     and_then (ok_or (jc_string codec (range_bytes input r)) None) (\<lambda>decoded.
       let candidate = search_reduce codec sha256 (clock n) decoded limits
       in if rc_status candidate \<noteq> ReductionApplicable
          then reduce_tokens codec sha256 clock input limits ranges (Suc n) applicable
          else if applicable \<noteq> None then Err (Some (no_projection ReductionNotApplicable))
          else and_then (ok_or (rc_visible candidate) None) (\<lambda>visible.
               and_then (ok_or (rc_recover candidate) None) (\<lambda>recovered.
                 if sha256 recovered \<noteq> sha256 decoded \<or>
                    \<not> rm_recovery_verified (rc_metrics candidate)
                 then Err (Some (no_projection ReductionInternalError))
                 else if \<not> utf8_ok visible then Err None
                 else and_then (ok_or (jc_to_vec codec (Text visible)) None) (\<lambda>encoded.
                        reduce_tokens codec sha256 clock input limits ranges (Suc n)
                          (Some (r, encoded))))))"

definition projected_envelope ::
  "string \<Rightarrow> compression_limits \<Rightarrow> ((nat \<times> nat) \<times> string) option \<Rightarrow> search_content_projection option" where
  "projected_envelope input limits applicable =
     (case applicable of
        None \<Rightarrow> Some (no_projection ReductionNotApplicable)
      | Some (r, encoded) \<Rightarrow>
          if length encoded \<ge> snd r - fst r then Some (no_projection ReductionNoImprovement)
          else let visible = replace_range input r encoded
               in Option.bind (u64_of_len (length visible)) (\<lambda>visible_bytes.
                    if visible_bytes > max_candidate_output_bytes limits
                    then Some (no_projection ReductionResourceLimit)
                    else Option.bind (u64_of_len (length input)) (\<lambda>input_bytes.
                      if saturating_add visible_bytes input_bytes > max_shadow_memory_bytes limits
                      then Some (no_projection ReductionResourceLimit)
                      else Some \<lparr>sp_status = ReductionApplicable, sp_visible = Some visible,
                                 sp_recovered = Some input, sp_recovery_verified = True\<rparr>)))"

definition reduce_search_json_envelope ::
  "json_codec \<Rightarrow> (string \<Rightarrow> digest32) \<Rightarrow> (nat \<Rightarrow> readings) \<Rightarrow> string \<Rightarrow> compression_limits
     \<Rightarrow> search_content_projection option" where
  "reduce_search_json_envelope codec sha256 clock input limits =
     Option.bind (u64_of_len (length input)) (\<lambda>n.
       if n > max_candidate_input_bytes limits \<or> n > max_shadow_memory_bytes limits
       then Some (no_projection ReductionResourceLimit)
       else case json_string_token_ranges codec input (max_candidates_per_block limits) of
           Err status \<Rightarrow> Some (no_projection status)
         | Ok ranges \<Rightarrow>
             (case reduce_tokens codec sha256 clock input limits ranges 1 None of
                Err answer \<Rightarrow> answer
              | Ok applicable \<Rightarrow> projected_envelope input limits applicable))"

definition reduce_search_content ::
  "json_codec \<Rightarrow> (string \<Rightarrow> digest32) \<Rightarrow> (nat \<Rightarrow> readings) \<Rightarrow> string \<Rightarrow> compression_limits
     \<Rightarrow> search_content_projection" where
  "reduce_search_content codec sha256 clock input limits =
     (let direct = search_reduce codec sha256 (clock 0) input limits;
          direct_result =
            \<lparr>sp_status = rc_status direct, sp_visible = rc_visible direct,
             sp_recovered = rc_recover direct,
             sp_recovery_verified = rm_recovery_verified (rc_metrics direct)\<rparr>
      in if rc_status direct \<noteq> ReductionNotApplicable then direct_result
         else case reduce_search_json_envelope codec sha256 clock input limits of
             Some result \<Rightarrow> result
           | None \<Rightarrow> direct_result)"

fun status_for_reduction :: "reduction_status \<Rightarrow> active_rewrite_status" where
  "status_for_reduction ReductionNotApplicable = ActiveNotApplicable"
| "status_for_reduction ReductionNoImprovement = ActiveNoImprovement"
| "status_for_reduction ReductionResourceLimit = ActiveResourceLimit"
| "status_for_reduction ReductionInvalidInput = ActiveInvalidInput"
| "status_for_reduction ReductionInternalError = ActiveInternalError"
| "status_for_reduction ReductionApplicable = ActiveInternalError"

definition projected_span ::
  "json_codec \<Rightarrow> (string \<Rightarrow> digest32) \<Rightarrow> compression_limits \<Rightarrow> active_text_span \<Rightarrow> string \<Rightarrow> string
     \<Rightarrow> search_content_projection \<Rightarrow> attempt \<Rightarrow> attempt" where
  "projected_span codec sha256 limits spot raw content made s =
     (let s = s\<lparr>at_evaluated_spans := saturating_add (at_evaluated_spans s) 1,
                at_input_bytes := saturating_add (at_input_bytes s) (bytes_of raw)\<rparr>
      in if sp_status made \<noteq> ReductionApplicable
         then ends_with (status_for_reduction (sp_status made)) s
         else let s = s\<lparr>at_applicable_spans := saturating_add (at_applicable_spans s) 1\<rparr>
              in case sp_visible made of
                   None \<Rightarrow> ends_with ActiveInternalError s
                 | Some candidate \<Rightarrow>
                     (case sp_recovered made of
                        None \<Rightarrow> recovery_fails s
                      | Some recovered \<Rightarrow>
                          if sha256 recovered \<noteq> sha256 content \<or> \<not> sp_recovery_verified made
                          then recovery_fails s
                          else case encode_replacement codec spot candidate of
                              Err status \<Rightarrow> ends_with status s
                            | Ok replacement \<Rightarrow>
                                let s = s\<lparr>at_candidate_bytes :=
                                  saturating_add (at_candidate_bytes s) (bytes_of replacement)\<rparr>
                                in if bytes_of replacement > max_candidate_output_bytes limits
                                   then ends_with ActiveResourceLimit s
                                   else if length replacement < length raw
                                   then add_replacement spot replacement s
                                   else ends_with ActiveNoImprovement s))"

definition project_span ::
  "json_codec \<Rightarrow> (string \<Rightarrow> digest32) \<Rightarrow> (nat \<Rightarrow> nat \<Rightarrow> readings) \<Rightarrow> string \<Rightarrow> compression_limits
     \<Rightarrow> active_text_span \<Rightarrow> attempt \<Rightarrow> (attempt, active_rewrite_status) result" where
  "project_span codec sha256 clock input limits spot s =
     and_then (span_bytes input spot s) (\<lambda>raw.
       let s = s\<lparr>at_previous_end := as_end spot\<rparr>
       in Ok (case span_content codec spot raw of
            None \<Rightarrow> ends_with ActiveInvalidInput s
          | Some content \<Rightarrow>
              let s = s\<lparr>at_work := saturating_add (at_work s) (saturating_mul (bytes_of content) 2)\<rparr>
              in if at_work s > max_shadow_work_units limits \<or>
                    bytes_of content > max_candidate_input_bytes limits
                 then ends_with ActiveResourceLimit s
                 else let made = reduce_search_content codec sha256 (clock (at_calls s)) content limits;
                          again = reduce_search_content codec sha256 (clock (Suc (at_calls s))) content limits;
                          s = s\<lparr>at_calls := at_calls s + 2\<rparr>
                      in if sp_visible made \<noteq> sp_visible again \<or> sp_recovered made \<noteq> sp_recovered again
                         then not_deterministic s
                         else projected_span codec sha256 limits spot raw content made s))"

definition rewrite_search_projection ::
  "json_codec \<Rightarrow> (string \<Rightarrow> digest32) \<Rightarrow> (nat \<Rightarrow> nat \<Rightarrow> readings) \<Rightarrow> string \<Rightarrow> active_text_span list
     \<Rightarrow> compression_limits \<Rightarrow> active_rewrite" where
  "rewrite_search_projection codec sha256 clock input spots limits =
     (let refused = refused_rewrite ''search.result_projection'' sha256 input
      in if spots = [] then refused ActiveNotApplicable
         else if bytes_of input > max_shadow_memory_bytes limits then refused ActiveResourceLimit
         else case rewrite_spans (project_span codec sha256 clock input limits) (sort_spans spots)
                     new_attempt of
             Err status \<Rightarrow> refused status
           | Ok s \<Rightarrow> conclude_attempt ''search.result_projection'' sha256 input limits
               (at_applicable_spans s > 0) (at_applicable_spans s > 0 \<and> at_recovery_verified s)
               (at_evaluated_spans s > 0 \<and> at_deterministic s) s)"

end
