(* ===== verification/Compression_Rewrites.thy ===== *)
theory Compression_Rewrites
  imports Compression_Active Compression_Evaluation
begin

text \<open>
  What a rewritten request is: the original with disjoint spans replaced by shorter texts, each
  justified by a checked candidate, and nothing else changed. The two rewriters share one contract
  for the step on a span.
\<close>

section \<open>Replacements in order\<close>

fun in_order :: "string \<Rightarrow> nat \<Rightarrow> replacement list \<Rightarrow> bool" where
  "in_order input cursor [] \<longleftrightarrow> cursor \<le> length input"
| "in_order input cursor ((first, until, replacement) # rest) \<longleftrightarrow>
     cursor \<le> first \<and> until \<le> length input \<and> length replacement < until - first \<and>
     in_order input until rest"

definition end_of :: "nat \<Rightarrow> replacement list \<Rightarrow> nat" where
  "end_of cursor replacements = (if replacements = [] then cursor else fst (snd (last replacements)))"

lemma in_order_append:
  "in_order input cursor (replacements @ [(first, until, replacement)]) \<longleftrightarrow>
     in_order input cursor replacements \<and> end_of cursor replacements \<le> first \<and> until \<le> length input \<and>
     length replacement < until - first"
  by (induction input cursor replacements rule: in_order.induct) (auto simp: end_of_def)

lemma splice_shrinks:
  "in_order input cursor replacements \<Longrightarrow>
     \<exists>body. splice input cursor replacements = Some body \<and>
       length body + cursor + length replacements \<le> length input"
proof (induction input cursor replacements rule: in_order.induct)
  case (2 input cursor first until replacement rest)
  then obtain body where "splice input until rest = Some body"
    and "length body + until + length rest \<le> length input" by auto
  with 2 show ?case by (auto simp: min_def)
qed auto

text \<open>What lies outside the replaced spans is kept: the original is the same splice undone.\<close>

fun kept_parts :: "string \<Rightarrow> nat \<Rightarrow> replacement list \<Rightarrow> string list" where
  "kept_parts input cursor [] = [drop cursor input]"
| "kept_parts input cursor ((first, until, replacement) # rest) =
     take (first - cursor) (drop cursor input) # kept_parts input until rest"

fun interleave :: "string list \<Rightarrow> string list \<Rightarrow> string" where
  "interleave (kept # parts) (replaced # others) = kept @ replaced @ interleave parts others"
| "interleave parts others = concat parts"

definition replaced_bytes :: "string \<Rightarrow> replacement \<Rightarrow> string" where
  "replaced_bytes input r = (case r of (first, until, _) \<Rightarrow> take (until - first) (drop first input))"

lemma splice_interleaves:
  "splice input cursor replacements = Some body \<Longrightarrow>
   body = interleave (kept_parts input cursor replacements) (map (snd \<circ> snd) replacements)"
  by (induction input cursor replacements arbitrary: body rule: splice.induct)
    (auto split: if_splits)

lemma original_interleaves:
  "in_order input cursor replacements \<Longrightarrow>
   drop cursor input = interleave (kept_parts input cursor replacements)
     (map (replaced_bytes input) replacements)"
proof (induction input cursor replacements rule: in_order.induct)
  case (2 input cursor first until replacement rest)
  then have order: "cursor \<le> first" "first \<le> until" by auto
  have "drop cursor input = take (first - cursor) (drop cursor input) @ drop first input"
    using order(1) by (metis append_take_drop_id drop_drop le_add_diff_inverse2)
  moreover have "drop first input = take (until - first) (drop first input) @ drop until input"
    using order(2) by (metis append_take_drop_id drop_drop le_add_diff_inverse2)
  ultimately show ?case using 2 by (simp add: replaced_bytes_def)
qed simp

section \<open>The contract of a step\<close>

locale span_rewriter =
  fixes input :: string
    and step :: "active_json_span \<Rightarrow> attempt \<Rightarrow> (attempt, active_rewrite_status) result"
    and justified :: "active_json_span \<Rightarrow> string \<Rightarrow> bool"
  assumes step: "step spot s = Ok s' \<Longrightarrow>
     at_previous_end s \<le> as_start spot \<and> at_previous_end s' = as_end spot \<and>
     unat (as_start spot) \<le> unat (as_end spot) \<and> unat (as_end spot) \<le> length input \<and>
     (at_replacements s' = at_replacements s \<or>
      (\<exists>replacement. at_replacements s' =
         at_replacements s @ [(unat (as_start spot), unat (as_end spot), replacement)] \<and>
         length replacement < unat (as_end spot) - unat (as_start spot) \<and> justified spot replacement))"
begin

definition from_spans :: "active_json_span set \<Rightarrow> replacement list \<Rightarrow> bool" where
  "from_spans spots replacements \<longleftrightarrow> (\<forall>(first, until, replacement)\<in>set replacements.
     \<exists>spot\<in>spots. first = unat (as_start spot) \<and> until = unat (as_end spot) \<and> justified spot replacement)"

definition placed :: "active_json_span set \<Rightarrow> attempt \<Rightarrow> bool" where
  "placed spots s \<longleftrightarrow> in_order input 0 (at_replacements s) \<and>
     end_of 0 (at_replacements s) \<le> unat (at_previous_end s) \<and> from_spans spots (at_replacements s)"

lemma step_placed:
  assumes "step spot s = Ok s'" and "spot \<in> spots" and "placed spots s"
  shows "placed spots s'"
proof -
  note facts = step [OF assms(1)]
  have start: "end_of 0 (at_replacements s) \<le> unat (as_start spot)"
    using facts assms(3) by (auto simp: placed_def word_le_nat_alt)
  from facts consider "at_replacements s' = at_replacements s"
    | replacement where "at_replacements s' =
        at_replacements s @ [(unat (as_start spot), unat (as_end spot), replacement)]"
      "length replacement < unat (as_end spot) - unat (as_start spot)" "justified spot replacement"
    by blast
  then show ?thesis
  proof cases
    case 1
    then show ?thesis using facts start assms(3) by (simp add: placed_def)
  next
    case 2
    then show ?thesis using facts start assms(2,3)
      by (auto simp: placed_def in_order_append end_of_def from_spans_def)
  qed
qed

lemma spans_placed:
  "rewrite_spans step list s = Ok s' \<Longrightarrow> set list \<subseteq> spots \<Longrightarrow> placed spots s \<Longrightarrow> placed spots s'"
  by (induction list arbitrary: s) (auto simp: and_then_eq_Ok dest: step_placed)

lemma new_placed: "placed spots new_attempt"
  by (simp add: placed_def new_attempt_def end_of_def from_spans_def)

text \<open>An attempt over all spans either leaves the request alone or splices it.\<close>

lemma concluded:
  assumes "rewrite_spans step (sort_spans list) new_attempt = Ok s"
    and "rw_body (conclude_attempt compressor sha256 input limits evaluated verified deterministic s) = Some body"
  shows "aw_status (rw_metrics (conclude_attempt compressor sha256 input limits evaluated verified
        deterministic s)) = ActiveRewritten \<and> at_replacements s \<noteq> [] \<and>
    in_order input 0 (at_replacements s) \<and> from_spans (set list) (at_replacements s) \<and>
    splice input 0 (at_replacements s) = Some body \<and> length body < length input"
proof -
  have "placed (set list) s"
    using spans_placed [OF assms(1) _ new_placed] by (simp add: sort_spans_def)
  then have order: "in_order input 0 (at_replacements s)" "from_spans (set list) (at_replacements s)"
    by (simp_all add: placed_def)
  from assms(2) have some: "at_replacements s \<noteq> []"
    and result: "conclude_attempt compressor sha256 input limits evaluated verified deterministic s =
      accepted_rewrite compressor sha256 input body verified deterministic s"
    and spliced: "splice input 0 (at_replacements s) = Some body"
    by (auto simp: conclude_attempt_def Let_def nothing_replaced_def refused_rewrite_def
        accepted_rewrite_def split: if_splits option.splits)
  from splice_shrinks [OF order(1)] spliced some have "length body < length input"
    by (cases "at_replacements s") auto
  with some order spliced show ?thesis unfolding result by (simp add: accepted_rewrite_def Let_def)
qed

text \<open>The splice itself never fails.\<close>

lemma splices:
  assumes "rewrite_spans step (sort_spans list) new_attempt = Ok s"
  shows "splice input 0 (at_replacements s) \<noteq> None"
proof -
  have "placed (set list) s"
    using spans_placed [OF assms(1) _ new_placed] by (simp add: sort_spans_def)
  then show ?thesis using splice_shrinks by (fastforce simp: placed_def)
qed

end

section \<open>The two rewriters\<close>

lemma get_slice_bounds:
  "get_slice input first until = Some raw \<Longrightarrow>
   unat first \<le> unat until \<and> unat until \<le> length input \<and> length raw = unat until - unat first"
  by (auto simp: get_slice_def split: if_splits)

lemma span_bytes_bounds:
  "span_bytes input spot s = Ok raw \<Longrightarrow>
   at_previous_end s \<le> as_start spot \<and> get_slice input (as_start spot) (as_end spot) = Some raw \<and>
   unat (as_start spot) \<le> unat (as_end spot) \<and> unat (as_end spot) \<le> length input \<and>
   length raw = unat (as_end spot) - unat (as_start spot)"
  by (auto simp: span_bytes_def not_less dest: get_slice_bounds split: if_splits)

lemma attempt_marks [simp]:
  "at_replacements (ends_with status s) = at_replacements s"
  "at_replacements (recovery_fails s) = at_replacements s"
  "at_replacements (not_deterministic s) = at_replacements s"
  "at_previous_end (ends_with status s) = at_previous_end s"
  "at_previous_end (recovery_fails s) = at_previous_end s"
  "at_previous_end (not_deterministic s) = at_previous_end s"
  "at_previous_end (add_replacement spot replacement s) = at_previous_end s"
  "at_replacements (add_replacement spot replacement s) =
     at_replacements s @ [(unat (as_start spot), unat (as_end spot), replacement)]"
  by (simp_all add: ends_with_def recovery_fails_def not_deterministic_def add_replacement_def)

text \<open>
  What stands behind a replacement: the content of the span was transformed, the candidate
  recovered bytes with the digest of the content, and the replacement is the candidate, encoded as
  the span was.
\<close>

definition minified_from ::
  "json_codec \<Rightarrow> (string \<Rightarrow> digest32) \<Rightarrow> string \<Rightarrow> compression_limits \<Rightarrow> active_json_span \<Rightarrow> string \<Rightarrow> bool" where
  "minified_from codec sha256 input limits spot replacement \<longleftrightarrow>
     (\<exists>raw content made recovered. get_slice input (as_start spot) (as_end spot) = Some raw \<and>
        span_content codec spot raw = Some content \<and>
        minify_transform codec content limits = Ok made \<and>
        minify_recover (tr_candidate made) (tr_recovery made) limits = Ok recovered \<and>
        sha256 recovered = sha256 content \<and>
        encode_replacement codec spot (tr_candidate made) = Ok replacement)"

definition projected_from ::
  "json_codec \<Rightarrow> (string \<Rightarrow> digest32) \<Rightarrow> (nat \<Rightarrow> nat \<Rightarrow> readings) \<Rightarrow> string \<Rightarrow> compression_limits
     \<Rightarrow> active_text_span \<Rightarrow> string \<Rightarrow> bool" where
  "projected_from codec sha256 clock input limits spot replacement \<longleftrightarrow>
     (\<exists>raw content n candidate recovered. get_slice input (as_start spot) (as_end spot) = Some raw \<and>
        span_content codec spot raw = Some content \<and>
        sp_status (reduce_search_content codec sha256 (clock n) content limits) = ReductionApplicable \<and>
        sp_visible (reduce_search_content codec sha256 (clock n) content limits) = Some candidate \<and>
        sp_recovered (reduce_search_content codec sha256 (clock n) content limits) = Some recovered \<and>
        sha256 recovered = sha256 content \<and>
        encode_replacement codec spot candidate = Ok replacement)"

lemma minified_span_step:
  assumes "length raw = unat (as_end spot) - unat (as_start spot)"
  shows "at_previous_end (minified_span codec sha256 limits spot raw content made s) = at_previous_end s \<and>
    (at_replacements (minified_span codec sha256 limits spot raw content made s) = at_replacements s \<or>
     (\<exists>replacement recovered. at_replacements (minified_span codec sha256 limits spot raw content made s) =
        at_replacements s @ [(unat (as_start spot), unat (as_end spot), replacement)] \<and>
        length replacement < unat (as_end spot) - unat (as_start spot) \<and>
        minify_recover (tr_candidate made) (tr_recovery made) limits = Ok recovered \<and>
        sha256 recovered = sha256 content \<and>
        encode_replacement codec spot (tr_candidate made) = Ok replacement))"
  using assms by (auto simp: minified_span_def Let_def split: result.split)

lemma projected_span_step:
  assumes "length raw = unat (as_end spot) - unat (as_start spot)"
  shows "at_previous_end (projected_span codec sha256 limits spot raw content made s) = at_previous_end s \<and>
    (at_replacements (projected_span codec sha256 limits spot raw content made s) = at_replacements s \<or>
     (\<exists>replacement candidate recovered.
        at_replacements (projected_span codec sha256 limits spot raw content made s) =
          at_replacements s @ [(unat (as_start spot), unat (as_end spot), replacement)] \<and>
        length replacement < unat (as_end spot) - unat (as_start spot) \<and>
        sp_status made = ReductionApplicable \<and> sp_visible made = Some candidate \<and>
        sp_recovered made = Some recovered \<and> sha256 recovered = sha256 content \<and>
        encode_replacement codec spot candidate = Ok replacement))"
  using assms by (auto simp: projected_span_def Let_def split: result.split option.split)

interpretation minify_rewriter: span_rewriter input "minify_span codec sha256 input limits"
    "minified_from codec sha256 input limits" for codec sha256 input limits
proof
  fix spot s s'
  assume run: "minify_span codec sha256 input limits spot s = Ok s'"
  then obtain raw where raw: "span_bytes input spot s = Ok raw"
    by (auto simp: minify_span_def and_then_eq_Ok)
  note bounds = span_bytes_bounds [OF raw]
  let ?s = "s\<lparr>at_previous_end := as_end spot\<rparr>"
  have "at_previous_end s' = as_end spot \<and> (at_replacements s' = at_replacements s \<or>
      (\<exists>replacement. at_replacements s' =
         at_replacements s @ [(unat (as_start spot), unat (as_end spot), replacement)] \<and>
         length replacement < unat (as_end spot) - unat (as_start spot) \<and>
         minified_from codec sha256 input limits spot replacement))"
  proof (cases "span_content codec spot raw")
    case None
    with run raw show ?thesis by (auto simp: minify_span_def)
  next
    case (Some content)
    let ?s = "s\<lparr>at_previous_end := as_end spot, at_work := saturating_add (at_work s) (bytes_of content)\<rparr>"
    show ?thesis
    proof (cases "at_work ?s > max_shadow_work_units limits \<or>
        bytes_of content > max_candidate_input_bytes limits \<or>
        \<not> is_ok (minify_transform codec content limits)")
      case True
      with run raw Some show ?thesis
        by (cases "minify_transform codec content limits") (auto simp: minify_span_def Let_def)
    next
      case False
      then obtain made where made: "minify_transform codec content limits = Ok made"
        by (cases "minify_transform codec content limits") auto
      with run raw Some False have s': "s' = minified_span codec sha256 limits spot raw content made ?s"
        by (auto simp: minify_span_def Let_def)
      from minified_span_step [of raw spot codec sha256 limits content made ?s] bounds made Some
      show ?thesis unfolding s' minified_from_def by auto
    qed
  qed
  with bounds show "at_previous_end s \<le> as_start spot \<and> at_previous_end s' = as_end spot \<and>
     unat (as_start spot) \<le> unat (as_end spot) \<and> unat (as_end spot) \<le> length input \<and>
     (at_replacements s' = at_replacements s \<or>
      (\<exists>replacement. at_replacements s' =
         at_replacements s @ [(unat (as_start spot), unat (as_end spot), replacement)] \<and>
         length replacement < unat (as_end spot) - unat (as_start spot) \<and>
         minified_from codec sha256 input limits spot replacement))" by blast
qed

interpretation project_rewriter: span_rewriter input "project_span codec sha256 clock input limits"
    "projected_from codec sha256 clock input limits" for codec sha256 clock input limits
proof
  fix spot s s'
  assume run: "project_span codec sha256 clock input limits spot s = Ok s'"
  then obtain raw where raw: "span_bytes input spot s = Ok raw"
    by (auto simp: project_span_def and_then_eq_Ok)
  note bounds = span_bytes_bounds [OF raw]
  have "at_previous_end s' = as_end spot \<and> (at_replacements s' = at_replacements s \<or>
      (\<exists>replacement. at_replacements s' =
         at_replacements s @ [(unat (as_start spot), unat (as_end spot), replacement)] \<and>
         length replacement < unat (as_end spot) - unat (as_start spot) \<and>
         projected_from codec sha256 clock input limits spot replacement))"
  proof (cases "span_content codec spot raw")
    case None
    with run raw show ?thesis by (auto simp: project_span_def)
  next
    case (Some content)
    let ?work = "saturating_add (at_work s) (saturating_mul (bytes_of content) 2)"
    let ?made = "reduce_search_content codec sha256 (clock (at_calls s)) content limits"
    let ?again = "reduce_search_content codec sha256 (clock (Suc (at_calls s))) content limits"
    let ?s = "s\<lparr>at_previous_end := as_end spot, at_work := ?work, at_calls := at_calls s + 2\<rparr>"
    show ?thesis
    proof (cases "?work > max_shadow_work_units limits \<or>
        bytes_of content > max_candidate_input_bytes limits \<or>
        sp_visible ?made \<noteq> sp_visible ?again \<or> sp_recovered ?made \<noteq> sp_recovered ?again")
      case True
      with run raw Some show ?thesis
        by (auto simp: project_span_def Let_def split: if_splits)
    next
      case False
      with run raw Some have s': "s' = projected_span codec sha256 limits spot raw content ?made ?s"
        by (auto simp: project_span_def Let_def)
      from projected_span_step [of raw spot codec sha256 limits content ?made ?s] bounds Some
      show ?thesis unfolding s' projected_from_def by auto
    qed
  qed
  with bounds show "at_previous_end s \<le> as_start spot \<and> at_previous_end s' = as_end spot \<and>
     unat (as_start spot) \<le> unat (as_end spot) \<and> unat (as_end spot) \<le> length input \<and>
     (at_replacements s' = at_replacements s \<or>
      (\<exists>replacement. at_replacements s' =
         at_replacements s @ [(unat (as_start spot), unat (as_end spot), replacement)] \<and>
         length replacement < unat (as_end spot) - unat (as_start spot) \<and>
         projected_from codec sha256 clock input limits spot replacement))" by blast
qed

section \<open>Plain output of a search\<close>

text \<open>A line of \<open>rg\<close> that reads as what it is.\<close>

definition rg_row :: "search_match \<Rightarrow> string" where
  "rg_row m = mt_file m @ CHR 0x3A # decimal (unat (mt_line m)) @ CHR 0x3A # mt_text m"

definition plain_match :: "json_codec \<Rightarrow> search_match \<Rightarrow> bool" where
  "plain_match codec m \<longleftrightarrow>
     mt_file m \<noteq> [] \<and> CHR 0x3A \<notin> set (mt_file m) \<and> newline \<notin> set (mt_file m) \<and>
     newline \<notin> set (mt_text m) \<and> mt_text m \<noteq> [] \<and> last (mt_text m) \<notin> {CHR 0x3A, CHR 0x0D, CHR '']''} \<and>
     jc_value codec (rg_row m) = None"

lemma rg_row_last: "mt_text m \<noteq> [] \<Longrightarrow> last (rg_row m) = last (mt_text m)"
  by (simp add: rg_row_def)

lemma parse_rg_row:
  assumes "plain_match codec m" and "st_file s = None"
  shows "parse_line codec (rg_row m) s = Some (s\<lparr>st_matches := st_matches s @ [m]\<rparr>)"
proof -
  have plain: "mt_text m \<noteq> []" "last (mt_text m) \<notin> {CHR 0x3A, CHR 0x0D, CHR '']''}"
    "CHR 0x3A \<notin> set (mt_file m)" "jc_value codec (rg_row m) = None"
    using assms(1) by (simp_all add: plain_match_def)
  have last: "last (rg_row m) = last (mt_text m)" using plain(1) by (rule rg_row_last)
  have row: "rg_row m \<noteq> []" by (simp add: rg_row_def)
  have "rg_row m \<noteq> ''[search results]''"
  proof
    assume "rg_row m = ''[search results]''"
    then have "last (rg_row m) = CHR '']''" by simp
    with last plain(2) show False by simp
  qed
  moreover have "\<not> suffix '':'' (rg_row m)" using last plain(2) by (auto simp: suffix_def)
  then have "group_heading (rg_row m) = None" by (simp add: group_heading_def strip_suffix_def)
  moreover have "grouped_row (rg_row m) s = None" using assms(2) by (simp add: grouped_row_def)
  moreover have "CHR 0x3A \<notin> set (decimal (unat (mt_line m)))"
    by (rule digits_avoid) (simp add: is_ascii_digit_def byte_def)
  then have "parse_plain (rg_row m) s = s\<lparr>st_matches := st_matches s @ [m]\<rparr>"
    using split_once_first [OF plain(3)] split_once_first parse_u64_decimal
    by (simp add: parse_plain_def rg_row_def add_match_def)
  ultimately show ?thesis using row plain(4) by (simp add: parse_line_def)
qed

lemma parse_rg_rows:
  "list_all (plain_match codec) ms \<Longrightarrow> st_file s = None \<Longrightarrow>
   parse_lines codec (map rg_row ms) s = Some (s\<lparr>st_matches := st_matches s @ ms\<rparr>)"
  by (induction ms arbitrary: s) (simp_all add: parse_rg_row)

lemma str_lines_rg:
  "list_all (plain_match codec) ms \<Longrightarrow> str_lines (concat (map (\<lambda>m. rg_row m @ [newline]) ms)) = map rg_row ms"
proof (induction ms)
  case (Cons m ms)
  have "newline \<notin> set (rg_row m)"
    using Cons.prems digits_avoid [of newline] by (auto simp: rg_row_def plain_match_def)
  moreover have "last (rg_row m) \<noteq> CHR 0x0D" using Cons.prems by (simp add: rg_row_last plain_match_def)
  ultimately show ?case using Cons by (simp add: str_lines_line)
qed (simp add: str_lines_def)

lemma search_parse_rg:
  assumes "list_all (plain_match codec) ms" and "ms \<noteq> []"
    and "utf8_ok (concat (map (\<lambda>m. rg_row m @ [newline]) ms))"
    and "length (concat (map (\<lambda>m. rg_row m @ [newline]) ms)) \<le> unat (max_candidate_input_bytes limits)"
  shows "search_parse codec (concat (map (\<lambda>m. rg_row m @ [newline]) ms)) limits =
    Some \<lparr>sr_matches = sort_key match_key ms, sr_summary = []\<rparr>"
proof -
  let ?input = "concat (map (\<lambda>m. rg_row m @ [newline]) ms)"
  have "length ?input < 2 ^ 64" using assms(4) by (rule le_less_trans) simp
  moreover from this have "unat (word_of_nat (length ?input) :: u64) = length ?input"
    by (simp add: unsigned_of_nat take_bit_nat_eq_self)
  moreover have "parse_lines codec (str_lines ?input) \<lparr>st_file = None, st_matches = [], st_summary = []\<rparr> =
      Some \<lparr>st_file = None, st_matches = ms, st_summary = []\<rparr>"
    unfolding str_lines_rg [OF assms(1)] by (simp add: parse_rg_rows [OF assms(1)])
  ultimately show ?thesis
    using assms(2-4) unfolding search_parse_def u64_of_len_def
    by (simp only: if_True option.case word_less_nat_alt not_less) simp
qed

section \<open>Samples of requests\<close>

definition silent_codec :: json_codec where
  "silent_codec = \<lparr>jc_value = (\<lambda>_. None), jc_string = (\<lambda>_. None), jc_to_vec = (\<lambda>_. None)\<rparr>"

definition sample_file :: string where
  "sample_file = ''src/long/name/of/file.rs''"

definition sample_matches :: "search_match list" where
  "sample_matches = [\<lparr>mt_file = sample_file, mt_line = 1, mt_text = ''x''\<rparr>,
     \<lparr>mt_file = sample_file, mt_line = 2, mt_text = ''y''\<rparr>]"

definition sample_output :: string where
  "sample_output = concat (map (\<lambda>m. rg_row m @ [newline]) sample_matches)"

lemma sample_decimals: "decimal (Suc 0) = ''1''" "decimal 2 = ''2''"
  by (subst decimal.simps, simp add: char_of_def bit_Suc bit_0)+

lemma sample_output_eval: "sample_output =
  sample_file @ '':1:x'' @ [newline] @ sample_file @ '':2:y'' @ [newline]"
  by (simp add: sample_output_def sample_matches_def rg_row_def sample_decimals)

lemma sample_plain: "list_all (plain_match silent_codec) sample_matches"
  by (simp add: sample_matches_def plain_match_def sample_file_def silent_codec_def)

lemma sample_parsed: "search_parse silent_codec sample_output compression_limits_default =
    Some \<lparr>sr_matches = sample_matches, sr_summary = []\<rparr>"
proof -
  have "utf8_ok sample_output" by (simp add: sample_output_eval sample_file_def byte_def)
  moreover have "length sample_output \<le> unat (max_candidate_input_bytes compression_limits_default)"
    by (simp add: sample_output_eval sample_file_def compression_limits_default_def)
  moreover have "sort_key match_key sample_matches = sample_matches"
    by (simp add: sample_matches_def match_key_def)
  ultimately show ?thesis
    using search_parse_rg [OF sample_plain, of compression_limits_default]
    by (simp add: sample_output_def) (simp add: sample_matches_def)
qed

definition sample_view :: string where
  "sample_view = ''[search results]'' @ [newline] @ sample_file @ '':'' @ [newline]
     @ ''1'' @ [CHR 0x09] @ ''x'' @ [newline] @ ''2'' @ [CHR 0x09] @ ''y'' @ [newline]"

lemma sample_rendered: "render_grouped \<lparr>sr_matches = sample_matches, sr_summary = []\<rparr> = sample_view"
  by (simp add: render_grouped_def matched_files_def sample_matches_def render_group_def
      render_match_def sample_view_def sample_decimals)

lemma sample_lengths: "length sample_output = 58" "length sample_view = 51" "length sample_matches = 2"
  by (simp_all add: sample_output_eval sample_view_def sample_file_def sample_matches_def)

lemma sample_reduced:
  "search_reduce silent_codec sha256 (0, 0) sample_output compression_limits_default =
     accepted_view ''search.result_projection'' sha256 0 sample_output sample_view 0 0"
proof -
  have "search_view silent_codec sample_output compression_limits_default =
      Some (\<lparr>sr_matches = sample_matches, sr_summary = []\<rparr>, sample_view)"
    by (simp add: search_view_def sample_parsed sample_rendered)
  moreover have "\<not> over_view_limits (0, 0) sample_output compression_limits_default sample_view"
    by (simp add: over_view_limits_def compression_limits_default_def u64_of_len_or_max_def
        saturating_add_def saturating_mul_def elapsed_reading_def sample_lengths)
  moreover have "\<not> bytes_of sample_output > max_candidate_input_bytes compression_limits_default"
    "\<not> bytes_of sample_output > max_shadow_memory_bytes compression_limits_default"
    "\<not> bytes_of sample_view \<ge> bytes_of sample_output"
    by (simp_all add: compression_limits_default_def u64_of_len_or_max_def sample_lengths)
  ultimately show ?thesis by (simp add: search_reduce_def Let_def sample_lengths)
qed

definition first_bytes :: "u64 \<Rightarrow> active_json_span" where
  "first_bytes n = \<lparr>as_start = 0, as_end = n, as_encoded = False\<rparr>"

lemma sample_projected:
  "rw_body (rewrite_search_projection silent_codec sha256 (\<lambda>_ _. (0, 0)) sample_output
     [first_bytes 58] compression_limits_default) = Some sample_view"
proof -
  note lengths = sample_lengths
  have made: "reduce_search_content silent_codec sha256 (\<lambda>_. (0, 0)) sample_output compression_limits_default =
      \<lparr>sp_status = ReductionApplicable, sp_visible = Some sample_view, sp_recovered = Some sample_output,
       sp_recovery_verified = True\<rparr>"
    by (simp add: reduce_search_content_def sample_reduced)
      (simp add: accepted_view_def rc_status_def rc_recover_def Let_def)
  have slice: "get_slice sample_output 0 58 = Some sample_output"
    by (simp add: get_slice_def u64_of_len_or_max_def lengths)
  show ?thesis
    by (simp add: rewrite_search_projection_def sort_spans_def project_span_def span_bytes_def first_bytes_def
        slice span_content_def made new_attempt_def Let_def projected_span_def encode_replacement_def lengths
        conclude_attempt_def add_replacement_def blocking_status_def)
      (simp add: compression_limits_default_def u64_of_len_or_max_def saturating_add_def saturating_mul_def
        accepted_rewrite_def Let_def lengths)
qed

lemma sample_rewritten:
  "rw_body (rewrite_json_minify permissive_codec sha256 ''[ ]'' [first_bytes 3]
     compression_limits_default) = Some ''[]''"
proof -
  have slice: "get_slice ''[ ]'' 0 3 = Some ''[ ]''"
    by (simp add: get_slice_def u64_of_len_or_max_def)
  have recovered: "minify_recover ''[]'' (tr_recovery sample_minified) compression_limits_default = Ok ''[ ]''"
    using sample_recovers by (simp add: json_minify_def sample_minified_def)
  have candidate: "tr_candidate sample_minified = ''[]''" by (simp add: sample_minified_def)
  show ?thesis
    by (simp add: rewrite_json_minify_def sort_spans_def minify_span_def span_bytes_def first_bytes_def
        slice span_content_def sample_minifies new_attempt_def Let_def minified_span_def encode_replacement_def
        recovered candidate conclude_attempt_def add_replacement_def blocking_status_def)
      (simp add: compression_limits_default_def u64_of_len_or_max_def saturating_add_def saturating_mul_def
        accepted_rewrite_def Let_def)
qed

section \<open>Parsed output\<close>

text \<open>
  Plain output of a search is read as its matches: every line that names a file, a line number
  and a text, and cannot be taken for a heading or for JSON, is one match, and the model holds
  them sorted.
\<close>

theorem search_output_is_parsed:
  assumes "list_all (plain_match codec) ms" and "ms \<noteq> []"
    and "utf8_ok (concat (map (\<lambda>m. rg_row m @ [newline]) ms))"
    and "length (concat (map (\<lambda>m. rg_row m @ [newline]) ms)) \<le> unat (max_candidate_input_bytes limits)"
  shows "search_parse codec (concat (map (\<lambda>m. rg_row m @ [newline]) ms)) limits =
    Some \<lparr>sr_matches = sort_key match_key ms, sr_summary = []\<rparr>"
  using assms by (rule search_parse_rg)

theorem search_output_is_parsed_witness:
  "search_parse silent_codec sample_output compression_limits_default =
    Some \<lparr>sr_matches = sort_key match_key sample_matches, sr_summary = []\<rparr>"
proof -
  have "utf8_ok sample_output" by (simp add: sample_output_eval sample_file_def byte_def)
  moreover have "length sample_output \<le> unat (max_candidate_input_bytes compression_limits_default)"
    by (simp add: sample_output_eval sample_file_def compression_limits_default_def)
  moreover have "sample_matches \<noteq> []" by (simp add: sample_matches_def)
  ultimately show ?thesis
    using search_output_is_parsed [OF sample_plain, of compression_limits_default]
    by (simp add: sample_output_def)
qed

section \<open>Rewritten requests\<close>

lemma refused_rewrite_body [simp]: "rw_body (refused_rewrite compressor sha256 input status) = None"
  by (simp add: refused_rewrite_def)

text \<open>
  C13. A request rewritten by the minifier is the original with disjoint given spans replaced by
  shorter texts and every other byte kept; each replacement is the minified content of its span,
  whose recovery has the digest of that content.
\<close>

theorem minified_request_is_spliced:
  assumes "rw_body (rewrite_json_minify codec sha256 input spots limits) = Some body"
  shows "\<exists>replacements. replacements \<noteq> [] \<and> in_order input 0 replacements \<and>
    body = interleave (kept_parts input 0 replacements) (map (snd \<circ> snd) replacements) \<and>
    input = interleave (kept_parts input 0 replacements) (map (replaced_bytes input) replacements) \<and>
    length body < length input \<and>
    aw_status (rw_metrics (rewrite_json_minify codec sha256 input spots limits)) = ActiveRewritten \<and>
    (\<forall>(first, until, replacement)\<in>set replacements. \<exists>spot\<in>set spots.
       first = unat (as_start spot) \<and> until = unat (as_end spot) \<and>
       minified_from codec sha256 input limits spot replacement)"
proof -
  obtain s where ran: "rewrite_spans (minify_span codec sha256 input limits) (sort_spans spots) new_attempt = Ok s"
    and result: "rewrite_json_minify codec sha256 input spots limits =
      conclude_attempt ''json.minify'' sha256 input limits (at_evaluated_spans s > 0) True True s"
    using assms by (auto simp: rewrite_json_minify_def Let_def split: if_splits result.splits)
  note facts = minify_rewriter.concluded [OF ran assms [unfolded result]]
  have "input = interleave (kept_parts input 0 (at_replacements s))
      (map (replaced_bytes input) (at_replacements s))"
    using original_interleaves [of input 0 "at_replacements s"] facts by simp
  with facts splice_interleaves [of input 0 "at_replacements s" body] show ?thesis
    unfolding result by (intro exI [of _ "at_replacements s"]) (simp add: minify_rewriter.from_spans_def)
qed

theorem minified_request_is_spliced_witness:
  "aw_status (rw_metrics (rewrite_json_minify permissive_codec (\<lambda>_. Digest32 (replicate 32 0)) ''[ ]''
     [first_bytes 3] compression_limits_default)) = ActiveRewritten"
  using minified_request_is_spliced [OF sample_rewritten [of "\<lambda>_. Digest32 (replicate 32 0)"]] by blast

text \<open>
  C14. The same holds for a request rewritten by the projection of search results: every
  replacement is the applicable view of the content of its span, which keeps bytes with the digest
  of that content for recovery.
\<close>

theorem projected_request_is_spliced:
  assumes "rw_body (rewrite_search_projection codec sha256 clock input spots limits) = Some body"
  shows "\<exists>replacements. replacements \<noteq> [] \<and> in_order input 0 replacements \<and>
    body = interleave (kept_parts input 0 replacements) (map (snd \<circ> snd) replacements) \<and>
    input = interleave (kept_parts input 0 replacements) (map (replaced_bytes input) replacements) \<and>
    length body < length input \<and>
    aw_status (rw_metrics (rewrite_search_projection codec sha256 clock input spots limits)) = ActiveRewritten \<and>
    (\<forall>(first, until, replacement)\<in>set replacements. \<exists>spot\<in>set spots.
       first = unat (as_start spot) \<and> until = unat (as_end spot) \<and>
       projected_from codec sha256 clock input limits spot replacement)"
proof -
  obtain s where ran: "rewrite_spans (project_span codec sha256 clock input limits) (sort_spans spots) new_attempt = Ok s"
    and result: "rewrite_search_projection codec sha256 clock input spots limits =
      conclude_attempt ''search.result_projection'' sha256 input limits (at_applicable_spans s > 0)
        (at_applicable_spans s > 0 \<and> at_recovery_verified s) (at_evaluated_spans s > 0 \<and> at_deterministic s) s"
    using assms by (auto simp: rewrite_search_projection_def Let_def split: if_splits result.splits)
  note facts = project_rewriter.concluded [OF ran assms [unfolded result]]
  have "input = interleave (kept_parts input 0 (at_replacements s))
      (map (replaced_bytes input) (at_replacements s))"
    using original_interleaves [of input 0 "at_replacements s"] facts by simp
  with facts splice_interleaves [of input 0 "at_replacements s" body] show ?thesis
    unfolding result by (intro exI [of _ "at_replacements s"]) (simp add: project_rewriter.from_spans_def)
qed

theorem projected_request_is_spliced_witness:
  "length sample_view < length sample_output \<and>
   aw_status (rw_metrics (rewrite_search_projection silent_codec (\<lambda>_. Digest32 (replicate 32 0))
     (\<lambda>_ _. (0, 0)) sample_output [first_bytes 58] compression_limits_default)) = ActiveRewritten"
  using projected_request_is_spliced [OF sample_projected [of "\<lambda>_. Digest32 (replicate 32 0)"]] by blast

section \<open>Failures that are forgotten\<close>

text \<open>
  The status of an attempt is overwritten by every span that ends with one, so a span outside the
  contract hides the failure of an earlier one: the attempt is no longer blocked, and what other
  spans replaced is released as deterministic and verified.
\<close>

lemma later_span_hides_failure:
  assumes "span_bytes input spot s = Ok raw" and "span_content codec spot raw = Some content"
    and "saturating_add (at_work s) (bytes_of content) \<le> max_shadow_work_units limits"
    and "bytes_of content \<le> max_candidate_input_bytes limits"
    and "minify_transform codec content limits = Err TransformNotApplicable"
  shows "\<exists>s'. minify_span codec sha256 input limits spot s = Ok s' \<and> blocking_status s' = None \<and>
    at_replacements s' = at_replacements s"
  using assms
  by (auto simp: minify_span_def Let_def not_less blocking_status_def ends_with_def stops_rewrite_def)

end
