(* ===== verification/Compression_Quality.thy ===== *)
theory Compression_Quality
  imports Utf8 Prelude
begin

text \<open>
  \<open>quality.rs\<close>: the families of tools and shell commands, assigned from bounded text, and the data
  of the quality contracts.
\<close>

section \<open>Text\<close>

fun str_contains :: "string \<Rightarrow> string \<Rightarrow> bool" where
  "str_contains needle [] \<longleftrightarrow> needle = []"
| "str_contains needle (c # rest) \<longleftrightarrow> prefix needle (c # rest) \<or> str_contains needle rest"

definition contains_any :: "string \<Rightarrow> string list \<Rightarrow> bool" where
  "contains_any signal markers \<longleftrightarrow> list_ex (\<lambda>marker. str_contains marker signal) markers"

definition to_ascii_lower :: "char \<Rightarrow> char" where
  "to_ascii_lower c =
     (if byte CHR ''A'' \<le> byte c \<and> byte c \<le> byte CHR ''Z'' then char_of (byte c + 32) else c)"

text \<open>\<open>String::from_utf8_lossy\<close>: every maximal broken sequence becomes one replacement character.\<close>

definition replacement_character :: string where
  "replacement_character = [CHR 0xEF, CHR 0xBF, CHR 0xBD]"

definition broken_width :: "string \<Rightarrow> nat" where
  "broken_width s =
     (case s of
        a # b # c # _ \<Rightarrow>
          if utf8_width a = 0 \<or> \<not> second_byte_ok a b then 1
          else if \<not> continuation c then 2 else 3
      | a # b # [] \<Rightarrow> if utf8_width a = 0 \<or> \<not> second_byte_ok a b then 1 else 2
      | _ \<Rightarrow> 1)"

function from_utf8_lossy :: "string \<Rightarrow> string" where
  "from_utf8_lossy s =
     (if s = [] then []
      else case utf8_next s of
          Whole c \<Rightarrow> c @ from_utf8_lossy (drop (length c) s)
        | CutShort \<Rightarrow> replacement_character
        | Broken \<Rightarrow> replacement_character @ from_utf8_lossy (drop (broken_width s) s))"
  by pat_completeness auto
termination
  by (relation "measure length")
    (auto simp: broken_width_def length_greater_0_conv dest: utf8_next_shrinks split: list.split)

declare from_utf8_lossy.simps [simp del]

definition max_signal_bytes :: nat where "max_signal_bytes = 4096"

definition bounded_signal :: "string \<Rightarrow> string" where
  "bounded_signal bytes = map to_ascii_lower (from_utf8_lossy (take max_signal_bytes bytes))"

section \<open>Shell commands\<close>

datatype shell_semantic_family =
  ShellSearch | ShellTests | ShellBuild | ShellLint | ShellDependency | ShellVersionControl
| ShellGenericFamily | ShellUnknown

fun shell_family_as_str :: "shell_semantic_family \<Rightarrow> string" where
  "shell_family_as_str ShellSearch = ''search''"
| "shell_family_as_str ShellTests = ''tests''"
| "shell_family_as_str ShellBuild = ''build''"
| "shell_family_as_str ShellLint = ''lint''"
| "shell_family_as_str ShellDependency = ''dependency''"
| "shell_family_as_str ShellVersionControl = ''version_control''"
| "shell_family_as_str ShellGenericFamily = ''generic''"
| "shell_family_as_str ShellUnknown = ''unknown''"

definition classify_signal :: "string \<Rightarrow> shell_semantic_family option" where
  "classify_signal signal =
     (if contains_any signal [''rg '', ''rg'' @ [CHR 0x22], ''grep'', ''ripgrep'', ''search''] \<or>
         str_contains ''match'' signal \<and> str_contains ''line_number'' signal
      then Some ShellSearch
      else if contains_any signal
                [''cargo test'', ''pytest'', ''tox'', ''npm test'', ''vitest'', ''jest''] \<or>
              contains_any signal [''passed'', ''failed'', ''skipped'', ''test session''] \<and>
                (str_contains ''test'' signal \<or> str_contains ''pytest'' signal \<or>
                 str_contains ''passed'' signal \<and> str_contains ''failed'' signal)
      then Some ShellTests
      else if contains_any signal [''cargo build'', ''cargo check'', ''make'', ''compile''] \<or>
              contains_any signal [''compiling'', ''built'', ''build finished'']
      then Some ShellBuild
      else if contains_any signal [''clippy'', ''ruff'', ''eslint'', ''mypy'', ''lint''] \<or>
              contains_any signal [''warning:'', ''error:''] \<and> str_contains ''diagnostic'' signal
      then Some ShellLint
      else if contains_any signal
                [''cargo tree'', ''npm install'', ''npm ls'', ''pnpm'', ''dependency'', ''resolver'']
      then Some ShellDependency
      else if contains_any signal
                [''git '', ''git'' @ [CHR 0x22], ''git status'', ''git diff'', ''git log'']
      then Some ShellVersionControl
      else None)"

definition from_transient_signals :: "string option \<Rightarrow> string option \<Rightarrow> shell_semantic_family" where
  "from_transient_signals command output =
     (let command = (case command of None \<Rightarrow> [] | Some bytes \<Rightarrow> bounded_signal bytes);
          output = (case output of None \<Rightarrow> [] | Some bytes \<Rightarrow> bounded_signal bytes)
      in case (classify_signal command, classify_signal output) of
           (Some a, Some b) \<Rightarrow> if a \<noteq> b then ShellUnknown else a
         | (Some a, None) \<Rightarrow> a
         | (None, Some b) \<Rightarrow> b
         | (None, None) \<Rightarrow> if command \<noteq> [] \<or> output \<noteq> [] then ShellGenericFamily else ShellUnknown)"

section \<open>Tools\<close>

datatype tool_family =
  FamilySearch | FamilyTests | FamilyBuild | FamilyLint | FamilyDependency | FamilyVersionControl
| FamilyFilesystem | FamilyShellGeneric | FamilyStructuredData | FamilyUnknown

fun tool_family_as_str :: "tool_family \<Rightarrow> string" where
  "tool_family_as_str FamilySearch = ''search''"
| "tool_family_as_str FamilyTests = ''tests''"
| "tool_family_as_str FamilyBuild = ''build''"
| "tool_family_as_str FamilyLint = ''lint''"
| "tool_family_as_str FamilyDependency = ''dependency''"
| "tool_family_as_str FamilyVersionControl = ''version_control''"
| "tool_family_as_str FamilyFilesystem = ''filesystem''"
| "tool_family_as_str FamilyShellGeneric = ''shell_generic''"
| "tool_family_as_str FamilyStructuredData = ''structured_data''"
| "tool_family_as_str FamilyUnknown = ''unknown''"

definition normalized_tool_name :: "string \<Rightarrow> string" where
  "normalized_tool_name name =
     map (\<lambda>c. if c = CHR ''-'' then CHR ''_'' else c) (map to_ascii_lower name)"

definition from_tool_name :: "string option \<Rightarrow> tool_family" where
  "from_tool_name name =
     (case name of
        None \<Rightarrow> FamilyUnknown
      | Some name \<Rightarrow>
          let normalized = normalized_tool_name name
          in if contains_any normalized [''git'', ''hg'', ''svn'', ''version_control'', ''diff'']
             then FamilyVersionControl
             else if contains_any normalized [''search'', ''grep'', ''rg'', ''ripgrep'', ''find'']
             then FamilySearch
             else if contains_any normalized
                       [''test'', ''pytest'', ''vitest'', ''jest'', ''cargo_nextest'']
             then FamilyTests
             else if contains_any normalized [''lint'', ''clippy'', ''eslint'', ''ruff'', ''mypy'']
             then FamilyLint
             else if contains_any normalized [''build'', ''compile'', ''cargo_check'', ''make'']
             then FamilyBuild
             else if contains_any normalized
                       [''dependenc'', ''package'', ''npm'', ''pnpm'', ''cargo_tree'', ''resolver'']
             then FamilyDependency
             else if contains_any normalized
                       [''file'', ''filesystem'', ''directory'', ''ls'', ''tree'', ''glob'']
             then FamilyFilesystem
             else if contains_any normalized [''json'', ''structured'', ''csv'', ''jq'']
             then FamilyStructuredData
             else if contains_any normalized [''shell'', ''exec'', ''command'', ''run'']
             then FamilyShellGeneric
             else FamilyUnknown)"

section \<open>Quality contracts\<close>

datatype quality_evaluator_kind = EvaluateExitCode | EvaluateTestSuite | EvaluateFileChange
  | EvaluateKnownAnswer | EvaluateBuild

datatype expected_artifact_kind = NoArtifact | TestReport | BuildResult | QueryResult

record quality_task =
  qt_task_id :: string
  qt_workload_class :: string
  qt_evaluator :: quality_evaluator_kind
  qt_timeout_ms :: u64
  qt_expected_artifact :: expected_artifact_kind

datatype quality_outcome_status = OutcomeSuccess | OutcomeFailure | OutcomeUnavailable

record quality_outcome =
  qo_task_id :: string
  qo_status :: quality_outcome_status
  qo_exit_code :: "32 word option"
  qo_tests_passed :: "u64 option"
  qo_tests_failed :: "u64 option"
  qo_artifact_match :: "bool option"
  qo_duration_us :: "u64 option"

datatype quality_experiment_arm = ControlArm | TreatmentArm

record quality_assignment =
  qa_experiment_id :: string
  qa_task_id :: string
  qa_session_id :: string
  qa_arm :: quality_experiment_arm
  qa_reducer_id :: "string option"
  qa_reducer_version :: "u32 option"
  qa_policy_version :: string
  qa_seed :: u64
  qa_assignment_probability_basis_points :: u16

record quality_session_metrics =
  qs_task_success :: "bool option"
  qs_input_total :: "u64 option"
  qs_cached_input :: "u64 option"
  qs_uncached_input :: "u64 option"
  qs_output :: "u64 option"
  qs_reasoning :: "u64 option"
  qs_turns :: "u64 option"
  qs_tool_calls :: "u64 option"
  qs_repeated_tool_calls :: "u64 option"
  qs_retries :: "u64 option"
  qs_duration_us :: "u64 option"
  qs_compactions :: "u64 option"
  qs_recovery_requests :: "u64 option"
  qs_recovered_tokens :: "u64 option"
  qs_recovery_latency_us :: "u64 option"
  qs_gross_omitted_tokens :: "u64 option"
  qs_net_observed_context_reduction :: "u64 option"

section \<open>What the families depend on\<close>

lemma family_labels_distinct: "inj tool_family_as_str" "inj shell_family_as_str"
proof -
  show "inj tool_family_as_str"
    by (rule injI) (case_tac x; case_tac y; simp)
  show "inj shell_family_as_str"
    by (rule injI) (case_tac x; case_tac y; simp)
qed

lemma to_ascii_lower_twice: "to_ascii_lower (to_ascii_lower c) = to_ascii_lower c"
proof -
  have "to_ascii_lower (to_ascii_lower c) = to_ascii_lower c"
    if "byte CHR ''A'' \<le> byte c" "byte c \<le> byte CHR ''Z''"
  proof -
    have "of_char (char_of (byte c + 32) :: char) = byte c + 32"
      using that by (simp add: byte_def)
    with that show ?thesis by (simp add: to_ascii_lower_def byte_def)
  qed
  then show ?thesis by (auto simp: to_ascii_lower_def)
qed

text \<open>Names that differ in case or in dashes belong to the same family.\<close>

lemma family_of_normalized_name:
  "from_tool_name (Some (normalized_tool_name name)) = from_tool_name (Some name)"
proof -
  have underscore: "to_ascii_lower CHR ''_'' = CHR ''_''" by (simp add: to_ascii_lower_def byte_def)
  have "normalized_tool_name (normalized_tool_name name) = normalized_tool_name name"
    by (simp add: normalized_tool_name_def to_ascii_lower_twice underscore)
  then show ?thesis by (simp add: from_tool_name_def)
qed

text \<open>Only the first bytes of a command and of its output are ever looked at.\<close>

lemma signals_are_bounded:
  "from_transient_signals (map_option (take max_signal_bytes) command)
     (map_option (take max_signal_bytes) output) = from_transient_signals command output"
  by (cases command; cases "output") (simp_all add: from_transient_signals_def bounded_signal_def)

text \<open>Contradicting signals are never resolved in favour of one of them.\<close>

lemma contradicting_signals:
  "classify_signal (bounded_signal a) = Some x \<Longrightarrow> classify_signal (bounded_signal b) = Some y \<Longrightarrow>
   x \<noteq> y \<Longrightarrow> from_transient_signals (Some a) (Some b) = ShellUnknown"
  by (simp add: from_transient_signals_def)

end
