(* ===== verification/Provider_Settlement.thy ===== *)
theory Provider_Settlement
  imports Provider_Lifecycle
begin

text \<open>
  Every observation comes to an end: in whatever state the calls of the owner left a stream, one
  closing call settles it, in a state that is no longer open, for good.
\<close>

section \<open>What a settled observation says\<close>

definition closed_states :: "provider_response_state set" where
  "closed_states = {Completed, StateIncomplete, Failed, StateCancelled, Disconnected}"

definition ended :: "streaming_observer \<Rightarrow> bool" where
  "ended obs \<longleftrightarrow> (so_settled obs \<longrightarrow> so_evidence obs \<noteq> None \<or>
     ro_response_state (so_response obs) \<in> {StateIncomplete, StateCancelled, Disconnected})"

lemma degrade_fields:
  "so_evidence (degrade status obs) = so_evidence obs"
  "ro_response_state (so_response (degrade status obs)) = ro_response_state (so_response obs)"
  by (simp_all add: degrade_def)

lemma concluded_ended:
  "ended (settle clock (degrade status (update_response (\<lambda>r. r\<lparr>ro_response_state := StateIncomplete,
     ro_usage_status := u\<rparr>) obs)))"
  "state \<in> {StateCancelled, Disconnected} \<Longrightarrow>
   ended (settle clock (degrade status (update_response (\<lambda>r. r\<lparr>ro_response_state := state,
     ro_usage_status := u\<rparr>) obs)))"
  "so_evidence obs \<noteq> None \<Longrightarrow> ended (settle clock obs)"
  by (auto simp: ended_def degrade_fields)

lemma without_completion_ended:
  "ended obs \<Longrightarrow> state \<in> {StateCancelled, Disconnected} \<Longrightarrow>
   ended (fst (settle_without_completion clock state status obs))"
  by (auto simp: settle_without_completion_def Let_def intro: concluded_ended)

lemma finish_ended: "ended obs \<Longrightarrow> so_terminal obs \<and> \<not> so_settled obs \<longrightarrow> so_evidence obs \<noteq> None \<Longrightarrow>
    ended (fst (observer_finish clock deserializer from_slice obs))"
  by (auto simp: observer_finish_def Let_def intro: concluded_ended)

lemma push_settled:
  "so_settled (fst (observer_push clock deserializer from_slice obs bytes)) \<longleftrightarrow> so_settled obs"
proof (cases "so_settled obs")
  case False
  have count: "so_settled (count_fragment bytes obs) = so_settled obs"
    by (simp add: count_fragment_def Let_def split: prod.splits)
  have settled: "so_settled x = so_settled y" if "transport x = transport y" for x y
    using that by (simp add: transport_def)
  have "so_settled (note_first_byte clock bytes x) = so_settled x" for x
    by (rule settled) (simp add: first_byte_simps)
  moreover have "so_settled (observe_events clock deserializer from_slice (x\<lparr>so_framer := fr\<rparr>) events) =
      so_settled x" for x fr events
    using settled [OF transport_events, of clock deserializer from_slice "x\<lparr>so_framer := fr\<rparr>" events] by simp
  moreover have "so_settled (degrade status (x\<lparr>so_framer := fr\<rparr>)) = so_settled x" for status x fr
    by (simp add: degrade_def)
  ultimately show ?thesis
    using False count
    by (auto simp: observer_push_def Let_def split: prod.splits result.splits)
qed (simp add: observer_push_def)

lemma owner_step_ended:
  assumes "owner_step clock deserializer from_slice s t"
    and "claims_ok deserializer from_slice limits (fst s) (snd s)" and "ended (fst s)"
  shows "ended (fst t)"
  using assms
proof cases
  case (push obs es bytes)
  show ?thesis
  proof (cases "so_settled obs")
    case True
    with push assms(3) show ?thesis by (simp add: observer_push_def)
  next
    case False
    with push push_settled show ?thesis by (simp add: ended_def)
  qed
next
  case (finish obs es)
  with assms(2,3) show ?thesis by (auto simp: claims_ok_def intro!: finish_ended)
qed (use assms(3) in \<open>auto simp: observer_cancel_def observer_disconnect_def intro!: without_completion_ended\<close>)

lemma observed_ended:
  assumes "observed_from clock deserializer from_slice limits s"
  shows "ended (fst s)"
  using assms unfolding observed_from_def
proof (induction rule: rtranclp_induct)
  case base
  then show ?case by (simp add: ended_def streaming_observer_new_def)
next
  case (step s t)
  have "claims_ok deserializer from_slice limits (fst s) (snd s)"
    using step(1) by (intro observed_claims [of clock]) (simp add: observed_from_def)
  with step show ?case using owner_step_ended by blast
qed

section \<open>Closing\<close>

text \<open>
  C3. However a stream was fed, finishing, cancelling or disconnecting it settles the observation
  in a closed state, and no later call of the owner opens it again.
\<close>

theorem closing_settles_every_run:
  assumes "observed_from clock deserializer from_slice limits (obs, es)"
    and "owner_step clock deserializer from_slice (obs, es) (closing, es')"
    and "closing \<in> {fst (observer_finish clock deserializer from_slice obs),
      fst (observer_cancel clock obs), fst (observer_disconnect clock obs)}"
  shows "so_settled closing \<and> ro_response_state (so_response closing) \<in> closed_states \<and>
    (\<forall>t. owner_steps clock deserializer from_slice (closing, es') t \<longrightarrow> fst t = closing)"
proof -
  have settled: "so_settled closing" using assms(3) settles by auto
  have "observed_from clock deserializer from_slice limits (closing, es')"
    using assms(1,2) by (simp add: observed_from_def)
  note facts = observed_claims [OF this] observed_ended [OF this]
  have "ro_response_state (so_response closing) \<in> closed_states"
  proof (cases "so_evidence closing")
    case None
    with facts(2) settled show ?thesis by (auto simp: ended_def closed_states_def)
  next
    case (Some state)
    with facts(1) have "is_terminal_state state" "ro_response_state (so_response closing) = state"
      by (simp_all add: claims_ok_def)
    then show ?thesis by (cases state) (simp_all add: is_terminal_state_def closed_states_def)
  qed
  with settled settled_steps [of clock deserializer from_slice "(closing, es')"] show ?thesis by auto
qed

theorem closing_settles_every_run_witness:
  "so_settled (fst (observer_cancel no_clock (streaming_observer_new default_observation_limits)))"
proof -
  let ?d = "\<lambda>_ :: string. (JUnit, True)" and ?f = "\<lambda>_ :: string. None :: json option"
  let ?obs = "streaming_observer_new default_observation_limits"
  have "observed_from no_clock ?d ?f default_observation_limits (?obs, [])"
    by (simp add: observed_from_def)
  moreover have "owner_step no_clock ?d ?f (?obs, []) (fst (observer_cancel no_clock ?obs), [])"
    by (rule owner_step.cancel)
  ultimately show ?thesis
    using closing_settles_every_run [of no_clock ?d ?f default_observation_limits ?obs "[]"
        "fst (observer_cancel no_clock ?obs)" "[]"] by simp
qed

end
