(* ===== verification/Spec2Isabelle.thy ===== *)
theory Spec2Isabelle
  imports
    Core_Limits Core_Bytes Core_Budgets Core_Content Core_Identity Core_Lifecycle
    Ipc_Frame Ipc_Protocol
    Provider_Domain Provider_Json Provider_Usage Provider_Request
    Provider_Sse Provider_Stream Provider_Fragments Provider_Lifecycle
    Tool_Admission Tool_Reducers Tool_Reductions Tool_Recovery Tool_Pipeline
    Context_Limits Context_Delta Context_Comparison Utf8 Context_Estimator
    Json_Units Json_Decoding Stateful Span_Scanner Span_Paths Span_Scan Json_Grammar Span_Lexing
    Span_Calm Span_Tree Span_Walk Span_Steps Span_Text Span_Index
    Compression_Core Compression_Varint Compression_Records Compression_Text Compression_Folds
    Compression_Validator Compression_Strict Compression_Json Compression_Tables
    Compression_Evaluation Compression_Reduction Compression_Search Compression_Grouping
    Compression_Views Compression_Active Compression_Rewrites Compression_Quality
    Provider_Settlement
begin

text \<open>
  Tracepress observes the traffic between coding agents and model providers. Its Rust crates are
  layered: \<open>tracepress-core\<close> holds the data and the bounds every other crate relies on,
  \<open>tracepress-ipc\<close> the authenticated local protocol between the daemon and its clients,
  \<open>tracepress-provider\<close> the bounded, fail-open interpretation of provider requests, responses
  and event streams, and \<open>tracepress-tool-proxy\<close> the admission of commands and the reduction of
  their output, which the \<open>tool\<close> and \<open>recall\<close> commands of \<open>tracepress-cli\<close> put to work,
  \<open>tracepress-context\<close> the analysis of what a request holds, and \<open>tracepress-compression\<close> the
  compressors that are evaluated on its blocks. This development models these parts and proves what
  they promise.

  \<^bold>\<open>Theories and sources.\<close> Under \<open>src/crates/tracepress-core/src\<close>: \<open>Core_Limits\<close> (limits.rs:
  limit newtypes and startup validation), \<open>Core_Bytes\<close> (byte_boundary.rs: classification of bytes
  against limits), \<open>Core_Budgets\<close> (structural_budget.rs, response_stream.rs: counters that stop),
  \<open>Core_Content\<close> (content_id.rs, content.rs, occurrence.rs), \<open>Core_Identity\<close> (ids.rs, causal.rs,
  binding.rs), \<open>Core_Lifecycle\<close> (lifecycle.rs, finalization.rs, request.rs). Under
  \<open>src/crates/tracepress-ipc/src\<close>: \<open>Ipc_Frame\<close> (error.rs, frame.rs, frame/serialize.rs) and
  \<open>Ipc_Protocol\<close> (protocol.rs, limits.rs, auth.rs, endpoint.rs, client.rs, transport.rs,
  queue.rs). Under \<open>src/crates/tracepress-provider/src\<close>: \<open>Provider_Domain\<close> (domain.rs and the
  endpoint profiles of lib.rs), \<open>Provider_Json\<close> (json.rs), \<open>Provider_Usage\<close> (response.rs),
  \<open>Provider_Request\<close> (request.rs), \<open>Provider_Sse\<close> (the framer of sse.rs) and
  \<open>Provider_Stream\<close> (the observer of sse.rs, and observer.rs). Under
  \<open>src/crates/tracepress-tool-proxy/src\<close>: \<open>Tool_Admission\<close> (model.rs, admission.rs, policy.rs,
  codex_hook.rs, execution.rs) and \<open>Tool_Reducers\<close> (reducers/). Of
  \<open>src/crates/tracepress-cli/src/main.rs\<close>: \<open>Tool_Recovery\<close> (the source recovery store and its
  recall) and \<open>Tool_Pipeline\<close> (the \<open>tool\<close> command). Under \<open>src/crates/tracepress-context/src\<close>:
  \<open>Context_Limits\<close> (limits.rs, digest.rs, visibility.rs, reconciliation.rs), \<open>Context_Delta\<close>
  (delta.rs), \<open>Context_Estimator\<close> (metadata.rs, estimator.rs) and, for span.rs, \<open>Json_Units\<close> (raw
  spans and the units of a JSON string), \<open>Span_Scanner\<close> (the data of the scanner, its work budget
  and cursor), \<open>Span_Scan\<close> (the scan, loop by loop) and \<open>Span_Index\<close> (the index and its
  accessors). Under \<open>src/crates/tracepress-compression/src\<close>: \<open>Compression_Core\<close> (lib.rs: metadata,
  limits and the evaluation of a candidate); for text.rs, \<open>Compression_Varint\<close> and
  \<open>Compression_Records\<close> (the binary records and their integers), \<open>Compression_Text\<close> (lines, runs
  and repeated blocks) and \<open>Compression_Folds\<close> (the readable folds and log prefixes); for json.rs,
  \<open>Compression_Validator\<close> and \<open>Compression_Strict\<close> (the parser that refuses duplicate names),
  \<open>Compression_Json\<close> (the minifier) and \<open>Compression_Tables\<close> (tables and repeated subtrees).
  \<open>Compression_Evaluation\<close> proves what an evaluation promises. For reduction.rs,
  \<open>Compression_Reduction\<close> (the reducers of JSON) and \<open>Compression_Search\<close> (search results and their
  view), for active.rs, \<open>Compression_Active\<close>, and for quality.rs, \<open>Compression_Quality\<close>;
  \<open>Compression_Grouping\<close>, \<open>Compression_Views\<close> and \<open>Compression_Rewrites\<close> prove what views keep and
  what a rewritten request is. \<open>Prelude\<close>, \<open>Text\<close>, \<open>Utf8\<close>, \<open>Metering\<close>, \<open>Fragmentation\<close> and \<open>Stateful\<close> hold no code:
  results and words, the standard library's operations on text and characters, metered counters,
  incremental consumers, and computations that change a state and may stop, with the rule of what
  holds when they return or stop. \<open>Tool_Reductions\<close> proves what the reducers keep,
  \<open>Context_Comparison\<close> what a delta means, \<open>Json_Decoding\<close> and \<open>Span_Paths\<close> what decoding and paths
  are. The proof about the scanner is split by what it needs to know: \<open>Json_Grammar\<close> (the language,
  from left to right), \<open>Span_Lexing\<close> (what the loops over bytes read), \<open>Span_Calm\<close> (the bookkeeping
  that leaves the tree alone), \<open>Span_Tree\<close> (the invariants of a tree of spans, without words),
  \<open>Span_Walk\<close> (the invariant of the scanner, and values), \<open>Span_Steps\<close> (steps and whole scans) and
  \<open>Span_Text\<close> (incremental UTF-8).

  \<^bold>\<open>Interfaces.\<close> \<open>Metering\<close> states the contract of a bounded counter as locales: a meter accepts a
  charge exactly when it fits and never passes its cap, and a latching meter stops for good at the
  first charge that does not. The processing budget, its work axis, the streamed response budget
  and the output of the bounded serialiser are interpretations. \<open>Fragmentation\<close> states the contract
  of an incremental framer: framing a concatenation is framing its parts in turn. The SSE framer is
  an interpretation, and the fragmentation invariance of the stream observer rests on it.
  \<open>Tool_Reductions\<close> states what the emission of a candidate relies on as the locale
  \<open>never_worse_reducer\<close>, interpreted on the four families of reducers; that the tool command never
  prints more than the command it ran rests on it. \<open>Compression_Core\<close> states the law behind the
  recovery gate as the locale \<open>lossless_compressor\<close>: what a compressor makes within the bounds, it
  recovers. It is interpreted on the text compressors, the minifier and the readable tables; that
  no evaluation of theirs fails recovery rests on it. \<open>Compression_Reduction\<close> states the contract of
  a view as the locale \<open>view_reducer\<close>, interpreted on the four reducers, and \<open>Compression_Rewrites\<close>
  that of a step on a span as \<open>span_rewriter\<close>, interpreted on the two rewriters.

  \<^bold>\<open>Correspondence.\<close> A struct is a record, an enum a datatype with the constructors of the source
  (renamed where they clash), an operation on \<open>&mut self\<close> a function that returns the updated
  record, a fallible one a function into \<open>result\<close>, whose errors are the error enum of the source.
  \<open>u64\<close>, \<open>u32\<close>, \<open>u16\<close> and \<open>u8\<close> are words; \<open>usize\<close> is a natural number, with the checked and
  saturating operations bounded by \<open>usize_limit\<close>, which is \<open>2 ^ 64\<close>. Byte slices are lists of words
  in the IPC theories and strings (lists of characters) in the provider theories, where the code
  compares them with literals. A \<open>serde_json\<close> map is an association list without duplicate keys.

  \<^bold>\<open>Environments.\<close> Code outside the repository is a parameter. A reader is the list of events that
  successive rounds of \<open>select!\<close> meet (bytes in fragments of any size, end of stream, failure,
  cancellation), a writer one outcome with the prefix that reached the peer. The JSON tokenizer is a
  function from bytes to the tree of visitor calls it makes and the verdict on what follows the
  document. Memory reservation is a predicate, SHA-256 and URI parsing are functions, and the clock
  of the stream observer is the sequence of its readings. The file system and the terminal of the
  tool command are records of outcomes, one per operation, with what a failed write or removal
  leaves behind; the process that is run is a function of its words. Properties quantify over these parameters;
  where the behaviour of one is needed it is a hypothesis of the property.

  \<^bold>\<open>What is shown.\<close> For the limits, exact validation. For the boundaries and budgets, that
  admission is the mathematical comparison in spite of word arithmetic, that the counters are the
  exact sums of what was accepted, and that the processing budget refines one over natural numbers.
  For content, that identities round-trip and objects carry the digest of their bytes. For frames,
  that reading is a function of the delivered bytes only and inverts writing; for the protocol, that
  nothing is decoded before authentication and that a request arrives as it was sent. For JSON, that
  materialisation accepts exactly the well-formed documents within the bounds. For usage, that
  normalised figures are consistent and final usage is evidenced. For streams, that the framer is
  bounded, that the observation does not depend on fragmentation, and, over a step relation of the
  owner's calls, that completion is claimed only on evidence, that evidence is final, that outcomes
  only degrade, that the first settlement stands and that one closing call always settles. For the tool command, that only authorised
  reducers change what an agent sees, that they never make it longer, that what they drop is
  exactly counted and, for the grouping of ripgrep, reversible, and that reduced output can always
  be recalled; for the recovery store, that live entries survive and nothing unchecked is printed.
  For context analysis, that derived limits are always well formed, that a delta partitions both
  snapshots and finds their longest common prefix, that estimates are monotone and totals exact,
  that a residual is the exact difference and that bounded text is the longest whole-character
  prefix. For the span index, that building it always returns, that every complete span is exactly
  one JSON value of its kind, that the spans form a tree in document order, that the limits hold,
  that a request it does not reject or cut is UTF-8 and one JSON document, and that a string span
  decodes exactly or is refused. For compression, that an applicable candidate is shorter and
  recovers, that every text compressor, the minifier and the readable tables are lossless, that the
  folding of lines is exact and its decoding bounded, that the validator accepts one document
  without duplicate names, and that a minified document has nothing left to drop. For reduction,
  that a view is shorter and its original kept, that what each reducer leaves out is accounted for,
  and that a rewritten request is the original with disjoint spans replaced by shorter, checked
  texts.

  \<^bold>\<open>Termination.\<close> No fuel is used: recursion is structural, or, for the exact read, the member
  scan, the trimming of white space, the decoding of characters, the loops of the span scanner, the
  validator and the minifier and the runs of lines, by a measure on what is still missing or left. The main loop of the span scanner, over the stack
  of open containers, is a partial function; that it returns, because every step moves the cursor,
  is a property.

  \<^bold>\<open>Not modelled.\<close> Socket binding and the ownership of socket files, Debug output, serde derives,
  the extraction of context blocks over the span index (features, fingerprints, detection), the
  model of test results in reduction.rs, which nothing uses, and the other crates: storage, the proxy, the daemon, the rest of the command line and the dashboard.
\<close>

end
